(* ===== verification/Smoothfs_Prelude.thy ===== *)
theory Smoothfs_Prelude
  imports Main "HOL-Library.Word"
begin

unbundle bit_operations_syntax

text \<open>
  Shared vocabulary of the development: the machine integers and byte strings of the kernel
  module, its error codes, the little-endian stores and loads (\<open>cpu_to_le64\<close> and friends),
  \<open>memcpy\<close> into and out of fixed buffers, \<open>BIT(n)\<close>, C strings and the two
  interfaces that several components implement: a fixed-width record codec and a keyed table.
\<close>

named_theorems op_defs \<open>definitions of the operations that a proof unfolds together\<close>

section \<open>Machine integers, bytes and errors\<close>

type_synonym u8 = "8 word"
type_synonym u16 = "16 word"
type_synonym u32 = "32 word"
type_synonym u64 = "64 word"
type_synonym bytes = "u8 list"

text \<open>
  The error codes the module returns or tests. \<open>EOTHER\<close> stands for every further code an
  operation of the lower filesystem may return.
\<close>

datatype errno =
    EPERM | ENOENT | EIO | E2BIG | EBADF | EAGAIN | ENOMEM | EACCES | EFAULT | EBUSY | EEXIST | EXDEV
  | ENODEV | ENOTDIR | EISDIR | EINVAL | ENOTTY | ENOSPC | ERANGE | ENOSYS | ENODATA | ENAMETOOLONG
  | EOPNOTSUPP | EALREADY | ESTALE | ECANCELED | ECHILD | EMSGSIZE | EINTR | EOTHER nat

text \<open>
  A C function that returns a negative error code or a value has a sum as its result. A
  function that returns \<open>0\<close> or a negative error code has \<open>unit res\<close>.
\<close>

type_synonym 'a res = "errno + 'a"

abbreviation Err :: "errno \<Rightarrow> 'a res" where
  "Err \<equiv> Inl"

abbreviation Ok :: "'a \<Rightarrow> 'a res" where
  "Ok \<equiv> Inr"

abbreviation Done :: "unit res" where
  "Done \<equiv> Inr ()"

section \<open>Buffers\<close>

text \<open>\<open>memcpy(&buf[off], bs, sizeof(bs))\<close> and reading \<open>n\<close> bytes at \<open>&buf[off]\<close>.\<close>

definition buf_put :: "nat \<Rightarrow> bytes \<Rightarrow> bytes \<Rightarrow> bytes" where
  "buf_put off bs buf = take off buf @ bs @ drop (off + length bs) buf"

definition buf_get :: "nat \<Rightarrow> nat \<Rightarrow> bytes \<Rightarrow> bytes" where
  "buf_get off n buf = take n (drop off buf)"

lemma length_buf_put [simp]:
  "off + length bs \<le> length buf \<Longrightarrow> length (buf_put off bs buf) = length buf"
  by (simp add: buf_put_def)

lemma length_buf_get [simp]: "off + n \<le> length buf \<Longrightarrow> length (buf_get off n buf) = n"
  by (simp add: buf_get_def)

lemma buf_get_put_same:
  "off + length bs \<le> length buf \<Longrightarrow> n = length bs \<Longrightarrow> buf_get off n (buf_put off bs buf) = bs"
  by (simp add: buf_get_def buf_put_def)

lemma nth_buf_put:
  assumes "off + length bs \<le> length buf" "i < length buf"
  shows "buf_put off bs buf ! i
    = (if i < off then buf ! i else if i < off + length bs then bs ! (i - off) else buf ! i)"
  using assms by (auto simp: buf_put_def nth_append min_def)

lemma nth_buf_get: "off + n \<le> length buf \<Longrightarrow> i < n \<Longrightarrow> buf_get off n buf ! i = buf ! (off + i)"
  by (simp add: buf_get_def)

lemma buf_get_put_other:
  assumes "off + length bs \<le> length buf" "off' + n \<le> length buf"
    and "off' + n \<le> off \<or> off + length bs \<le> off'"
  shows "buf_get off' n (buf_put off bs buf) = buf_get off' n buf"
proof (rule nth_equalityI)
  show "length (buf_get off' n (buf_put off bs buf)) = length (buf_get off' n buf)"
    using assms by simp
next
  fix i assume "i < length (buf_get off' n (buf_put off bs buf))"
  then have "i < n" using assms by simp
  then show "buf_get off' n (buf_put off bs buf) ! i = buf_get off' n buf ! i"
    using assms by (auto simp: nth_buf_get nth_buf_put)
qed

section \<open>Little-endian stores and loads\<close>

fun le_bytes :: "nat \<Rightarrow> 'a::len word \<Rightarrow> bytes" where
  "le_bytes 0 w = []"
| "le_bytes (Suc n) w = ucast w # le_bytes n (drop_bit 8 w)"

fun le_word :: "bytes \<Rightarrow> 'a::len word" where
  "le_word [] = 0"
| "le_word (b # bs) = ucast b OR push_bit 8 (le_word bs)"

abbreviation cpu_to_le64 :: "u64 \<Rightarrow> bytes" where
  "cpu_to_le64 \<equiv> le_bytes 8"

abbreviation cpu_to_le32 :: "u32 \<Rightarrow> bytes" where
  "cpu_to_le32 \<equiv> le_bytes 4"

abbreviation cpu_to_le16 :: "u16 \<Rightarrow> bytes" where
  "cpu_to_le16 \<equiv> le_bytes 2"

abbreviation le64_to_cpu :: "bytes \<Rightarrow> u64" where
  "le64_to_cpu \<equiv> le_word"

abbreviation le32_to_cpu :: "bytes \<Rightarrow> u32" where
  "le32_to_cpu \<equiv> le_word"

abbreviation le16_to_cpu :: "bytes \<Rightarrow> u16" where
  "le16_to_cpu \<equiv> le_word"

lemma length_le_bytes [simp]: "length (le_bytes n w) = n"
  by (induction n arbitrary: w) auto

lemma le_word_le_bytes_mask:
  fixes w :: "'a::len word"
  shows "le_word (le_bytes n w) = take_bit (8 * n) w"
proof (induction n arbitrary: w)
  case 0
  then show ?case by simp
next
  case (Suc n)
  show ?case
  proof (rule bit_word_eqI)
    fix i assume i: "i < LENGTH('a)"
    show "bit (le_word (le_bytes (Suc n) w) :: 'a word) i = bit (take_bit (8 * Suc n) w) i"
      using i by (cases "i < 8")
        (auto simp: Suc bit_or_iff bit_push_bit_iff bit_take_bit_iff bit_drop_bit_eq bit_ucast_iff
          dest: bit_imp_le_length)
  qed
qed

lemma le_word_le_bytes:
  fixes w :: "'a::len word"
  shows "LENGTH('a) \<le> 8 * n \<Longrightarrow> le_word (le_bytes n w) = w"
  by (simp add: le_word_le_bytes_mask take_bit_word_eq_self)

lemma le64_roundtrip [simp]: "le64_to_cpu (cpu_to_le64 w) = w"
  by (rule le_word_le_bytes) simp

lemma le32_roundtrip [simp]: "le32_to_cpu (cpu_to_le32 w) = w"
  by (simp add: le_word_le_bytes)

lemma le16_roundtrip [simp]: "le16_to_cpu (cpu_to_le16 w) = w"
  by (simp add: le_word_le_bytes)

section \<open>Bit masks\<close>

definition BIT :: "nat \<Rightarrow> u32" where
  "BIT n = push_bit n 1"

lemma bit_BIT [simp]: "bit (BIT n) i \<longleftrightarrow> i = n \<and> n < 32"
  by (auto simp: BIT_def bit_exp_iff)

lemma BIT_and_eq_0: "m AND BIT n = 0 \<longleftrightarrow> \<not> (n < 32 \<and> bit m n)"
proof
  assume "m AND BIT n = 0"
  then have "\<not> bit (m AND BIT n) n" by simp
  then show "\<not> (n < 32 \<and> bit m n)" by (auto simp: bit_and_iff)
next
  assume "\<not> (n < 32 \<and> bit m n)"
  then show "m AND BIT n = 0" by (auto intro!: bit_word_eqI simp: bit_and_iff)
qed

section \<open>Fixed-size records\<close>

text \<open>
  The interface of the on-disk records: each value has one encoding of a fixed size. A file
  that is a concatenation of such records decodes record by record at multiples of the size.
\<close>

locale fixed_codec =
  fixes enc :: "'a \<Rightarrow> bytes"
    and dec :: "bytes \<Rightarrow> 'a option"
    and size :: nat
    and valid :: "'a \<Rightarrow> bool"
  assumes enc_length: "valid x \<Longrightarrow> length (enc x) = size"
    and dec_enc: "valid x \<Longrightarrow> dec (enc x) = Some x"
begin

lemma enc_inj: "valid x \<Longrightarrow> valid y \<Longrightarrow> enc x = enc y \<Longrightarrow> x = y"
  by (metis dec_enc option.inject)

lemma length_concat_enc: "\<forall>x \<in> set xs. valid x \<Longrightarrow> length (concat (map enc xs)) = size * length xs"
  by (induction xs) (auto simp: enc_length)

lemma record_at:
  "\<forall>x \<in> set xs. valid x \<Longrightarrow> i < length xs \<Longrightarrow> take size (drop (size * i) (concat (map enc xs))) = enc (xs ! i)"
proof (induction xs arbitrary: i)
  case Nil
  then show ?case by simp
next
  case (Cons x xs)
  then show ?case by (cases i) (auto simp: enc_length)
qed

lemma decode_at:
  "\<forall>x \<in> set xs. valid x \<Longrightarrow> i < length xs \<Longrightarrow> dec (take size (drop (size * i) (concat (map enc xs)))) = Some (xs ! i)"
  using record_at dec_enc by simp

end

section \<open>Keyed tables and writeback queues\<close>

text \<open>
  A table searched by key in which an entry is created on first use and updated in place. Any
  sequence of updates acts on each key as if the other keys were not there.
\<close>

locale keyed_table =
  fixes get :: "'k \<Rightarrow> 't \<Rightarrow> 'v option"
    and upsert :: "'k \<Rightarrow> ('v \<Rightarrow> 'v) \<Rightarrow> 't \<Rightarrow> 't"
    and fresh :: "'k \<Rightarrow> 'v"
    and ok :: "('v \<Rightarrow> 'v) \<Rightarrow> bool"
  assumes get_upsert: "ok f \<Longrightarrow> get k (upsert k' f t) =
    (if k = k' then Some (f (case get k t of None \<Rightarrow> fresh k | Some v \<Rightarrow> v)) else get k t)"
begin

definition upsert_all :: "('k \<times> ('v \<Rightarrow> 'v)) list \<Rightarrow> 't \<Rightarrow> 't" where
  "upsert_all ops t = fold (\<lambda>(k, f). upsert k f) ops t"

lemma get_upsert_all:
  "\<forall>(k', f) \<in> set ops. ok f \<Longrightarrow> get k (upsert_all ops t) =
    fold (\<lambda>(k', f) v. if k = k' then Some (f (case v of None \<Rightarrow> fresh k | Some x \<Rightarrow> x)) else v) ops (get k t)"
  unfolding upsert_all_def
  by (induction ops arbitrary: t) (auto simp: get_upsert)

end

text \<open>
  A writeback queue: producers append, and the worker takes the whole queue at once. Over any
  interleaving of the two, the batches handed to the worker followed by what is still queued
  are exactly the entries appended, in order.
\<close>

datatype 'e wb_event = Enqueue 'e | Flush

locale writeback_queue =
  fixes pending :: "'s \<Rightarrow> 'e list"
    and count :: "'s \<Rightarrow> nat"
    and enqueue :: "'e \<Rightarrow> 's \<Rightarrow> 's"
    and flush :: "'s \<Rightarrow> 's"
  assumes pending_enqueue: "pending (enqueue e s) = pending s @ [e]"
    and count_enqueue: "count (enqueue e s) = count s + 1"
    and pending_flush: "pending (flush s) = []"
    and count_flush: "count (flush s) = 0"
begin

fun wb_run :: "'e wb_event list \<Rightarrow> 's \<Rightarrow> 'e list \<times> 's" where
  "wb_run [] s = ([], s)"
| "wb_run (Enqueue e # evs) s = wb_run evs (enqueue e s)"
| "wb_run (Flush # evs) s = (case wb_run evs (flush s) of (out, s') \<Rightarrow> (pending s @ out, s'))"

fun wb_entries :: "'e wb_event list \<Rightarrow> 'e list" where
  "wb_entries [] = []"
| "wb_entries (Enqueue e # evs) = e # wb_entries evs"
| "wb_entries (Flush # evs) = wb_entries evs"

lemma wb_run_fifo: "wb_run evs s = (out, s') \<Longrightarrow> out @ pending s' = pending s @ wb_entries evs"
  by (induction evs s arbitrary: out rule: wb_run.induct)
    (auto simp: pending_enqueue pending_flush split: prod.splits)

lemma wb_run_count: "count s = length (pending s) \<Longrightarrow> wb_run evs s = (out, s') \<Longrightarrow> count s' = length (pending s')"
  by (induction evs s arbitrary: out rule: wb_run.induct)
    (auto simp: pending_enqueue pending_flush count_enqueue count_flush split: prod.splits)

end

end
