(* ===== verification/Smoothfs_Types.thy ===== *)
theory Smoothfs_Types
  imports Smoothfs_Prelude
begin

text \<open>
  The data model of \<open>src/src/smoothfs/smoothfs.h\<close>: tiers, movement and pin states, the
  per-inode record \<open>smoothfs_inode_info\<close>, the per-pool record \<open>smoothfs_sb_info\<close>, and the
  small inline helpers of the header. Field names carry the prefix the code uses for its
  pointers (\<open>si->oid\<close> is \<open>si_oid\<close>, \<open>sbi->ntiers\<close> is \<open>sbi_ntiers\<close>). Kernel lists are
  HOL lists, rhashtables are maps, and the inode cache is a map from inode references.
\<close>

section \<open>Constants\<close>

definition MAX_TIERS :: nat where
  "MAX_TIERS = 8"

definition OID_LEN :: nat where
  "OID_LEN = 16"

definition CREATE_POLICY_FASTEST :: u8 where
  "CREATE_POLICY_FASTEST = 0"

definition CREATE_POLICY_HIGH_WATER :: u8 where
  "CREATE_POLICY_HIGH_WATER = 1"

section \<open>Movement and pin states\<close>

text \<open>
  Both states are a \<open>u8\<close> in the inode and in the placement log. The last constructor holds
  a byte that is none of the enumerators: the log reader accepts it as it is.
\<close>

datatype movement_state =
    MS_PLACED | MS_PLAN_ACCEPTED | MS_DESTINATION_RESERVED | MS_COPY_IN_PROGRESS
  | MS_COPY_COMPLETE | MS_COPY_VERIFIED | MS_CUTOVER_IN_PROGRESS | MS_SWITCHED
  | MS_CLEANUP_IN_PROGRESS | MS_CLEANUP_COMPLETE | MS_FAILED | MS_STALE | MS_RAW u8

fun ms_byte :: "movement_state \<Rightarrow> u8" where
  "ms_byte MS_PLACED = 0"
| "ms_byte MS_PLAN_ACCEPTED = 1"
| "ms_byte MS_DESTINATION_RESERVED = 2"
| "ms_byte MS_COPY_IN_PROGRESS = 3"
| "ms_byte MS_COPY_COMPLETE = 4"
| "ms_byte MS_COPY_VERIFIED = 5"
| "ms_byte MS_CUTOVER_IN_PROGRESS = 6"
| "ms_byte MS_SWITCHED = 7"
| "ms_byte MS_CLEANUP_IN_PROGRESS = 8"
| "ms_byte MS_CLEANUP_COMPLETE = 9"
| "ms_byte MS_FAILED = 10"
| "ms_byte MS_STALE = 11"
| "ms_byte (MS_RAW b) = b"

definition ms_of_byte :: "u8 \<Rightarrow> movement_state" where
  "ms_of_byte b =
    (if b = 0 then MS_PLACED else if b = 1 then MS_PLAN_ACCEPTED
     else if b = 2 then MS_DESTINATION_RESERVED else if b = 3 then MS_COPY_IN_PROGRESS
     else if b = 4 then MS_COPY_COMPLETE else if b = 5 then MS_COPY_VERIFIED
     else if b = 6 then MS_CUTOVER_IN_PROGRESS else if b = 7 then MS_SWITCHED
     else if b = 8 then MS_CLEANUP_IN_PROGRESS else if b = 9 then MS_CLEANUP_COMPLETE
     else if b = 10 then MS_FAILED else if b = 11 then MS_STALE else MS_RAW b)"

datatype pin_state =
    PIN_NONE | PIN_HOT | PIN_COLD | PIN_HARDLINK | PIN_LEASE | PIN_LUN | PIN_RAW u8

fun pin_byte :: "pin_state \<Rightarrow> u8" where
  "pin_byte PIN_NONE = 0"
| "pin_byte PIN_HOT = 1"
| "pin_byte PIN_COLD = 2"
| "pin_byte PIN_HARDLINK = 3"
| "pin_byte PIN_LEASE = 4"
| "pin_byte PIN_LUN = 5"
| "pin_byte (PIN_RAW b) = b"

definition pin_of_byte :: "u8 \<Rightarrow> pin_state" where
  "pin_of_byte b =
    (if b = 0 then PIN_NONE else if b = 1 then PIN_HOT else if b = 2 then PIN_COLD
     else if b = 3 then PIN_HARDLINK else if b = 4 then PIN_LEASE else if b = 5 then PIN_LUN
     else PIN_RAW b)"

text \<open>
  The state sets of the \<open>switch\<close> statements in \<open>movement.c\<close> and \<open>placement.c\<close>: a plan is
  accepted and the source still authoritative, and the destination authoritative with the
  cleanup outstanding.
\<close>

definition ms_precutover :: "movement_state \<Rightarrow> bool" where
  "ms_precutover m \<longleftrightarrow> m \<in> {MS_PLAN_ACCEPTED, MS_DESTINATION_RESERVED, MS_COPY_IN_PROGRESS,
     MS_COPY_COMPLETE, MS_COPY_VERIFIED}"

definition ms_roll_forward :: "movement_state \<Rightarrow> bool" where
  "ms_roll_forward m \<longleftrightarrow> m \<in> {MS_CUTOVER_IN_PROGRESS, MS_SWITCHED, MS_CLEANUP_IN_PROGRESS}"

text \<open>A raw state is well-formed when its byte is not an enumerator's.\<close>

definition ms_wf :: "movement_state \<Rightarrow> bool" where
  "ms_wf m \<longleftrightarrow> (case m of MS_RAW b \<Rightarrow> 11 < b | _ \<Rightarrow> True)"

definition pin_wf :: "pin_state \<Rightarrow> bool" where
  "pin_wf p \<longleftrightarrow> (case p of PIN_RAW b \<Rightarrow> 5 < b | _ \<Rightarrow> True)"

lemma ms_byte_of_byte [simp]: "ms_byte (ms_of_byte b) = b"
  by (simp add: ms_of_byte_def)

lemma pin_byte_of_byte [simp]: "pin_byte (pin_of_byte b) = b"
  by (simp add: pin_of_byte_def)

lemma ms_of_byte_byte: "ms_wf m \<Longrightarrow> ms_of_byte (ms_byte m) = m"
  by (cases m) (auto simp: ms_of_byte_def ms_wf_def)

lemma pin_of_byte_byte: "pin_wf p \<Longrightarrow> pin_of_byte (pin_byte p) = p"
  by (cases p) (auto simp: pin_of_byte_def pin_wf_def)

section \<open>Paths, tiers and inodes\<close>

type_synonym vfsmount = nat
type_synonym dentry = nat

text \<open>The inode cache is keyed by inode number (\<open>ilookup\<close>, \<open>iget_locked\<close>), so that is a reference.\<close>

type_synonym iref = u64

record path =
  p_mnt :: vfsmount
  p_dentry :: dentry

record tier =
  t_rank :: u8
  t_caps :: u32
  t_lower_path :: path
  t_active_writes :: int
  t_pending_writes :: int

datatype ikind = IK_REG | IK_DIR | IK_LNK | IK_SPECIAL

text \<open>The heat counters of an inode and the snapshot of the last drain.\<close>

record heat_counters =
  h_open_count :: u32
  h_read_bytes :: u64
  h_write_bytes :: u64
  h_last_access_ns :: u64
  h_last_drained_open_count :: u32
  h_last_drained_read_bytes :: u64
  h_last_drained_write_bytes :: u64
  h_last_drain_ns :: u64

text \<open>
  The aliases of an inode are its dentries, each with the lower dentry in its \<open>d_fsdata\<close>.
\<close>

text \<open>The range-staging fields of an inode; a range is \<open>start\<close> and exclusive \<open>end\<close>.\<close>

type_synonym staged_range = "int \<times> int"

record range_state =
  rs_range_staged :: bool
  rs_pinned :: bool
  rs_recovered :: bool
  rs_source_tier :: u8
  rs_path :: "path option"
  rs_ranges :: "staged_range list"

record inode_info =
  si_ino :: u64
  si_kind :: ikind
  si_size :: int
  si_nlink :: nat
  si_oid :: bytes
  si_gen :: u32
  si_current_tier :: u8
  si_intended_tier :: u8
  si_movement_state :: movement_state
  si_pin_state :: pin_state
  si_nlink_observed :: int
  si_transaction_seq :: u64
  si_cutover_gen :: u32
  si_lower_path :: "path option"
  si_write_seq :: u64
  si_write_reservation :: bool
  si_mappings_quiesced :: bool
  si_write_staged :: bool
  si_write_staged_drain_tier :: u8
  si_unmount_pins :: int
  si_replay_pinned :: bool
  si_rel_path :: "string option"
  si_path_hashed :: bool
  si_aliases :: "(dentry \<times> dentry option) list"
  si_heat :: heat_counters
  si_rs :: range_state

section \<open>The pool\<close>

record replay_record =
  rr_oid :: bytes
  rr_movement_state :: u8
  rr_current_tier :: u8
  rr_intended_tier :: u8
  rr_pin_state :: u8
  rr_gen :: u32
  rr_seq :: u64
  rr_authoritative_tier :: u8
  rr_normalized_state :: u8
  rr_normalized :: bool
  rr_fallback_tier :: u8
  rr_fallback_rel_path :: "string option"
  rr_fallback_gen :: u32
  rr_chosen_tier :: u8
  rr_chosen_rel_path :: "string option"
  rr_chosen_gen :: u32

text \<open>\<open>last_recovery_reason\<close>: the text the mount-time replay publishes, with its number.\<close>

datatype recovery_reason =
    RR_NONE | RR_EMPTY | RR_REPLAY | RR_ERROR errno | RR_UNRESOLVED nat | RR_PARTIAL nat

text \<open>Write-staging control and counters, recovery counters included.\<close>

record staging_state =
  st_enabled :: bool
  st_full_pct :: u8
  st_staged_bytes :: int
  st_staged_rehome_bytes :: int
  st_staged_rehomes_total :: int
  st_range_staged_bytes :: int
  st_range_staged_writes :: int
  st_oldest_staged_write_ns :: int
  st_last_drain_ns :: int
  st_recovered_bytes :: int
  st_recovered_writes :: int
  st_recovery_pending :: int
  st_oldest_recovered_write_ns :: int
  st_last_recovery_ns :: int
  st_recovered_tier_mask :: u32
  st_last_recovery_reason :: recovery_reason
  st_metadata_active_mask :: u32
  st_drain_active_mask :: u32
  st_last_drain_reason :: string

record spill_state =
  sp_creates_total :: int
  sp_failed_all_tiers :: int
  sp_any_since_mount :: bool
  sp_metadata_tier_skips :: int
  sp_parent_tier_recoveries :: int

record sb_info =
  sbi_pool_uuid :: bytes
  sbi_pool_name :: string
  sbi_fsid :: u32
  sbi_ntiers :: u8
  sbi_cache_mode :: bool
  sbi_fastest_tier :: u8
  sbi_create_policy :: u8
  sbi_tiers :: "tier list"
  sbi_placement_log :: "bytes option"
  sbi_placement_seq :: u64
  sbi_placement_wb_pending :: "bytes list"
  sbi_placement_wb_count :: nat
  sbi_placement_wb_ready :: bool
  sbi_oid_map :: "bytes \<rightharpoonup> iref"
  sbi_path_map :: "string \<rightharpoonup> iref"
  sbi_lower_ino_map :: "u64 \<rightharpoonup> u64"
  sbi_oid_map_ready :: bool
  sbi_path_map_ready :: bool
  sbi_lower_ino_map_ready :: bool
  sbi_inode_list :: "iref list"
  sbi_inodes :: "iref \<rightharpoonup> inode_info"
  sbi_recovery_records :: "replay_record list"
  sbi_recovery_ready :: bool
  sbi_oid_monotonic :: u64
  sbi_quiesced :: bool
  sbi_oid_wb_pending :: "(path \<times> bytes) list"
  sbi_oid_wb_count :: nat
  sbi_oid_wb_ready :: bool
  sbi_spill :: spill_state
  sbi_staging :: staging_state
  sbi_any_lower_revalidates :: bool

text \<open>Number of tiers as an index bound, and the tier descriptor at an index.\<close>

abbreviation ntiers :: "sb_info \<Rightarrow> nat" where
  "ntiers sbi \<equiv> unat (sbi_ntiers sbi)"

abbreviation tier_ids :: "sb_info \<Rightarrow> u8 list" where
  "tier_ids sbi \<equiv> map word_of_nat [0..<ntiers sbi]"

abbreviation tier_at :: "sb_info \<Rightarrow> u8 \<Rightarrow> tier" where
  "tier_at sbi t \<equiv> sbi_tiers sbi ! unat t"

definition upd_tier :: "u8 \<Rightarrow> (tier \<Rightarrow> tier) \<Rightarrow> sb_info \<Rightarrow> sb_info" where
  "upd_tier t f sbi = sbi\<lparr>sbi_tiers := (sbi_tiers sbi)[unat t := f (tier_at sbi t)]\<rparr>"

definition upd_inode :: "iref \<Rightarrow> (inode_info \<Rightarrow> inode_info) \<Rightarrow> sb_info \<Rightarrow> sb_info" where
  "upd_inode r f sbi = sbi\<lparr>sbi_inodes := (sbi_inodes sbi)(r := map_option f (sbi_inodes sbi r))\<rparr>"

definition upd_staging :: "(staging_state \<Rightarrow> staging_state) \<Rightarrow> sb_info \<Rightarrow> sb_info" where
  "upd_staging f sbi = sbi\<lparr>sbi_staging := f (sbi_staging sbi)\<rparr>"

definition upd_rs :: "(range_state \<Rightarrow> range_state) \<Rightarrow> inode_info \<Rightarrow> inode_info" where
  "upd_rs f si = si\<lparr>si_rs := f (si_rs si)\<rparr>"

text \<open>
  The pool's shape after a successful mount: at least one tier, at most eight, one descriptor
  per tier, and the fastest tier is one of them.
\<close>

definition pool_wf :: "sb_info \<Rightarrow> bool" where
  "pool_wf sbi \<longleftrightarrow> 0 < ntiers sbi \<and> ntiers sbi \<le> MAX_TIERS
     \<and> length (sbi_tiers sbi) = ntiers sbi \<and> sbi_fastest_tier sbi < sbi_ntiers sbi"

section \<open>Inline helpers of the header\<close>

definition resolve_rel_path_on_tier ::
  "(path \<Rightarrow> string \<Rightarrow> path res) \<Rightarrow> sb_info \<Rightarrow> u8 \<Rightarrow> string option \<Rightarrow> path res" where
  "resolve_rel_path_on_tier vfs_path_lookup sbi t rel =
    (if sbi_ntiers sbi \<le> t then Err EINVAL
     else case rel of
         None \<Rightarrow> Ok (t_lower_path (tier_at sbi t))
       | Some s \<Rightarrow> (if s = [] then Ok (t_lower_path (tier_at sbi t))
                   else vfs_path_lookup (t_lower_path (tier_at sbi t)) s))"

definition tier_of :: "sb_info \<Rightarrow> vfsmount \<Rightarrow> nat" where
  "tier_of sbi m =
    (case find (\<lambda>i. p_mnt (t_lower_path (sbi_tiers sbi ! i)) = m) [0..<ntiers sbi] of
       Some i \<Rightarrow> i | None \<Rightarrow> MAX_TIERS)"

definition metadata_tier_active :: "sb_info \<Rightarrow> u8 \<Rightarrow> bool" where
  "metadata_tier_active sbi t =
    (if sbi_ntiers sbi \<le> t then False
     else if t = sbi_fastest_tier sbi then True
     else st_metadata_active_mask (sbi_staging sbi) AND BIT (unat t) \<noteq> 0)"

definition drain_tier_active :: "sb_info \<Rightarrow> u8 \<Rightarrow> bool" where
  "drain_tier_active sbi t =
    (if sbi_ntiers sbi \<le> t then False
     else if t = sbi_fastest_tier sbi then True
     else st_drain_active_mask (sbi_staging sbi) AND BIT (unat t) \<noteq> 0)"

definition note_metadata_tier_skip :: "sb_info \<Rightarrow> sb_info" where
  "note_metadata_tier_skip sbi = sbi\<lparr>sbi_spill :=
     (sbi_spill sbi)\<lparr>sp_metadata_tier_skips := sp_metadata_tier_skips (sbi_spill sbi) + 1\<rparr>\<rparr>"

definition swap_lower_path :: "path \<Rightarrow> inode_info \<Rightarrow> path option \<times> inode_info" where
  "swap_lower_path p si = (si_lower_path si, si\<lparr>si_lower_path := Some p\<rparr>)"

definition note_data_change :: "inode_info \<Rightarrow> inode_info" where
  "note_data_change si = si\<lparr>si_write_seq := si_write_seq si + 1\<rparr>"

definition clear_write_reservation :: "iref \<Rightarrow> sb_info \<Rightarrow> sb_info" where
  "clear_write_reservation r sbi =
    (case sbi_inodes sbi r of
       None \<Rightarrow> sbi
     | Some si \<Rightarrow>
        (if \<not> si_write_reservation si then sbi
         else let s1 = upd_inode r (\<lambda>i. i\<lparr>si_write_reservation := False\<rparr>) sbi
           in if si_current_tier si < sbi_ntiers sbi
              then upd_tier (si_current_tier si)
                     (\<lambda>t. t\<lparr>t_pending_writes := t_pending_writes t - 1\<rparr>) s1
              else s1))"

lemma set_tier_ids: "set (tier_ids sbi) = {t. t < sbi_ntiers sbi}"
proof (intro set_eqI iffI)
  fix t assume "t \<in> set (tier_ids sbi)"
  then obtain n where n: "t = word_of_nat n" "n < ntiers sbi" by auto
  have "ntiers sbi < 2 ^ LENGTH(8)" by (rule unsigned_less)
  then have "unat t = n" using n by (simp add: unat_of_nat take_bit_nat_eq_self)
  then show "t \<in> {t. t < sbi_ntiers sbi}" using n by (simp add: word_less_nat_alt)
next
  fix t assume "t \<in> {t. t < sbi_ntiers sbi}"
  then show "t \<in> set (tier_ids sbi)" by (auto simp: word_less_nat_alt intro!: image_eqI [of _ _ "unat t"])
qed

lemma tier_of_le: "ntiers sbi \<le> MAX_TIERS \<Longrightarrow> tier_of sbi m \<le> MAX_TIERS"
  by (auto simp: tier_of_def find_Some_iff split: option.split)

lemma tier_of_found:
  assumes "tier_of sbi m < ntiers sbi" "ntiers sbi \<le> MAX_TIERS"
  shows "p_mnt (t_lower_path (sbi_tiers sbi ! tier_of sbi m)) = m"
proof (cases "find (\<lambda>i. p_mnt (t_lower_path (sbi_tiers sbi ! i)) = m) [0..<ntiers sbi]")
  case None
  then show ?thesis using assms by (simp add: tier_of_def)
next
  case (Some i)
  then have "tier_of sbi m = i" by (simp add: tier_of_def)
  with Some show ?thesis by (auto simp: find_Some_iff)
qed

lemma upd_inode_lookup [simp]:
  "sbi_inodes (upd_inode r f sbi) q = (if q = r then map_option f (sbi_inodes sbi r) else sbi_inodes sbi q)"
  by (simp add: upd_inode_def)

lemma upd_inode_other_fields [simp]:
  "sbi_tiers (upd_inode r f sbi) = sbi_tiers sbi"
  "sbi_ntiers (upd_inode r f sbi) = sbi_ntiers sbi"
  "sbi_fastest_tier (upd_inode r f sbi) = sbi_fastest_tier sbi"
  "sbi_staging (upd_inode r f sbi) = sbi_staging sbi"
  "sbi_inode_list (upd_inode r f sbi) = sbi_inode_list sbi"
  "sbi_lower_ino_map (upd_inode r f sbi) = sbi_lower_ino_map sbi"
  "sbi_oid_map (upd_inode r f sbi) = sbi_oid_map sbi"
  "sbi_path_map (upd_inode r f sbi) = sbi_path_map sbi"
  "sbi_quiesced (upd_inode r f sbi) = sbi_quiesced sbi"
  "sbi_cache_mode (upd_inode r f sbi) = sbi_cache_mode sbi"
  "sbi_placement_seq (upd_inode r f sbi) = sbi_placement_seq sbi"
  "sbi_placement_wb_pending (upd_inode r f sbi) = sbi_placement_wb_pending sbi"
  by (simp_all add: upd_inode_def)

section \<open>A small pool for concrete instances\<close>

definition ex_tier :: "nat \<Rightarrow> tier" where
  "ex_tier n = \<lparr>t_rank = word_of_nat n, t_caps = 0, t_lower_path = \<lparr>p_mnt = n, p_dentry = 100 * n\<rparr>,
     t_active_writes = 0, t_pending_writes = 0\<rparr>"

definition ex_heat :: heat_counters where
  "ex_heat = \<lparr>h_open_count = 0, h_read_bytes = 0, h_write_bytes = 0, h_last_access_ns = 0,
     h_last_drained_open_count = 0, h_last_drained_read_bytes = 0, h_last_drained_write_bytes = 0,
     h_last_drain_ns = 0\<rparr>"

definition ex_rs :: range_state where
  "ex_rs = \<lparr>rs_range_staged = False, rs_pinned = False, rs_recovered = False, rs_source_tier = 8,
     rs_path = None, rs_ranges = []\<rparr>"

definition ex_oid :: bytes where
  "ex_oid = replicate 16 171"

definition ex_inode :: inode_info where
  "ex_inode = \<lparr>si_ino = 77, si_kind = IK_REG, si_size = 4, si_nlink = 1, si_oid = ex_oid, si_gen = 0,
     si_current_tier = 1, si_intended_tier = 1, si_movement_state = MS_PLACED, si_pin_state = PIN_NONE,
     si_nlink_observed = 1, si_transaction_seq = 0, si_cutover_gen = 0,
     si_lower_path = Some \<lparr>p_mnt = 1, p_dentry = 105\<rparr>, si_write_seq = 0, si_write_reservation = False,
     si_mappings_quiesced = False, si_write_staged = False, si_write_staged_drain_tier = 8,
     si_unmount_pins = 0, si_replay_pinned = False, si_rel_path = Some ''f'', si_path_hashed = False,
     si_aliases = [(5, Some 105)], si_heat = ex_heat, si_rs = ex_rs\<rparr>"

definition ex_staging :: staging_state where
  "ex_staging = \<lparr>st_enabled = True, st_full_pct = 98, st_staged_bytes = 0, st_staged_rehome_bytes = 0,
     st_staged_rehomes_total = 0, st_range_staged_bytes = 0, st_range_staged_writes = 0,
     st_oldest_staged_write_ns = 0, st_last_drain_ns = 0, st_recovered_bytes = 0, st_recovered_writes = 0,
     st_recovery_pending = 0, st_oldest_recovered_write_ns = 0, st_last_recovery_ns = 0,
     st_recovered_tier_mask = 0, st_last_recovery_reason = RR_NONE, st_metadata_active_mask = 3,
     st_drain_active_mask = 3, st_last_drain_reason = []\<rparr>"

definition ex_spill :: spill_state where
  "ex_spill = \<lparr>sp_creates_total = 0, sp_failed_all_tiers = 0, sp_any_since_mount = False,
     sp_metadata_tier_skips = 0, sp_parent_tier_recoveries = 0\<rparr>"

definition ex_pool :: sb_info where
  "ex_pool = \<lparr>sbi_pool_uuid = replicate 16 1, sbi_pool_name = ''p'', sbi_fsid = 5, sbi_ntiers = 2,
     sbi_cache_mode = False, sbi_fastest_tier = 0, sbi_create_policy = 0, sbi_tiers = [ex_tier 0, ex_tier 1],
     sbi_placement_log = Some [], sbi_placement_seq = 0, sbi_placement_wb_pending = [],
     sbi_placement_wb_count = 0, sbi_placement_wb_ready = True, sbi_oid_map = [ex_oid \<mapsto> 77],
     sbi_path_map = Map.empty, sbi_lower_ino_map = Map.empty, sbi_oid_map_ready = True,
     sbi_path_map_ready = True, sbi_lower_ino_map_ready = True, sbi_inode_list = [77],
     sbi_inodes = [77 \<mapsto> ex_inode], sbi_recovery_records = [], sbi_recovery_ready = False,
     sbi_oid_monotonic = 0, sbi_quiesced = False, sbi_oid_wb_pending = [], sbi_oid_wb_count = 0,
     sbi_oid_wb_ready = True, sbi_spill = ex_spill, sbi_staging = ex_staging,
     sbi_any_lower_revalidates = False\<rparr>"

lemmas ex_defs = ex_pool_def ex_spill_def ex_staging_def ex_inode_def ex_rs_def ex_heat_def ex_tier_def

lemma ex_pool_wf: "pool_wf ex_pool"
  by (simp add: pool_wf_def ex_pool_def MAX_TIERS_def)

lemma ex_tier_of: "tier_of ex_pool 0 = 0" "tier_of ex_pool 1 = 1"
proof -
  have "[0..<2] = [0, 1::nat]" by (simp add: upt_rec)
  then show "tier_of ex_pool 0 = 0" "tier_of ex_pool 1 = 1"
    by (simp_all add: tier_of_def ex_pool_def ex_tier_def)
qed

end
