(* ===== verification/Kernel_Io.thy ===== *)
theory Kernel_Io
  imports Smoothfs_Types
begin

text \<open>
  What the module relies on from the files of the lower filesystems. The kernel's
  \<open>kernel_read\<close> and \<open>kernel_write\<close> are arguments of every definition that calls them; the
  predicates \<open>kread_full\<close>, \<open>kread_ok\<close> and \<open>kwrite_ok\<close> name the documented behaviour of a
  regular file that a theorem may assume. The two loops the module puts around them
  (\<open>smoothfs_range_write_full\<close> and \<open>smoothfs_range_read_full\<close>, and the copy of the former in
  \<open>super.c\<close>) are modelled here, with their correctness for every pattern of short transfers.
\<close>

section \<open>File contents\<close>

text \<open>Bytes \<open>pos\<close> to \<open>pos + n\<close> of a file, as far as it has them.\<close>

definition file_get :: "bytes \<Rightarrow> int \<Rightarrow> nat \<Rightarrow> bytes" where
  "file_get f pos n = take n (drop (nat pos) f)"

text \<open>A write at \<open>pos\<close>: a gap before \<open>pos\<close> reads as zero.\<close>

definition file_put :: "bytes \<Rightarrow> int \<Rightarrow> bytes \<Rightarrow> bytes" where
  "file_put f pos bs =
     (if bs = [] then f
      else take (nat pos) f @ replicate (nat pos - length f) 0 @ bs @ drop (nat pos + length bs) f)"

text \<open>The byte at an offset, zero outside of the file.\<close>

definition file_byte :: "bytes \<Rightarrow> int \<Rightarrow> u8" where
  "file_byte f i = (if 0 \<le> i \<and> nat i < length f then f ! nat i else 0)"

lemma length_file_put:
  "0 \<le> pos \<Longrightarrow> length (file_put f pos bs) = (if bs = [] then length f else max (length f) (nat pos + length bs))"
  by (auto simp: file_put_def)

lemma nth_file_put_nat:
  assumes "bs \<noteq> []" "i < max (length f) (p + length bs)"
  shows "(take p f @ replicate (p - length f) 0 @ bs @ drop (p + length bs) f) ! i =
    (if p \<le> i \<and> i < p + length bs then bs ! (i - p) else if i < length f then f ! i else 0)"
proof -
  have len: "length (take p f @ replicate (p - length f) 0) = p" by simp
  show ?thesis
  proof (cases "i < p")
    case True
    then have "(take p f @ replicate (p - length f) 0) ! i = (if i < length f then f ! i else 0)"
      by (simp add: nth_append)
    with True len show ?thesis
      using nth_append [of "take p f @ replicate (p - length f) 0" "bs @ drop (p + length bs) f" i] by simp
  next
    case False
    with len have "(take p f @ replicate (p - length f) 0 @ bs @ drop (p + length bs) f) ! i
        = (bs @ drop (p + length bs) f) ! (i - p)"
      using nth_append [of "take p f @ replicate (p - length f) 0" "bs @ drop (p + length bs) f" i] by simp
    with False assms show ?thesis by (auto simp: nth_append)
  qed
qed

lemma nth_file_put:
  assumes "0 \<le> pos" "i < length (file_put f pos bs)"
  shows "file_put f pos bs ! i =
    (if pos \<le> int i \<and> int i < pos + int (length bs) then bs ! nat (int i - pos) else file_byte f (int i))"
proof (cases "bs = []")
  case True
  then show ?thesis using assms by (auto simp: file_put_def file_byte_def)
next
  case False
  obtain p where p: "pos = int p" using assms(1) zero_le_imp_eq_int by blast
  have "i < max (length f) (p + length bs)"
    using assms False by (simp add: length_file_put p)
  from nth_file_put_nat [OF False this] False show ?thesis
    by (simp add: p file_put_def file_byte_def nat_diff_distrib)
qed

lemma file_byte_put:
  assumes "0 \<le> pos"
  shows "file_byte (file_put f pos bs) i =
    (if pos \<le> i \<and> i < pos + int (length bs) then bs ! nat (i - pos) else file_byte f i)"
proof (cases "0 \<le> i \<and> nat i < length (file_put f pos bs)")
  case True
  then have "file_byte (file_put f pos bs) i = file_put f pos bs ! nat i"
    by (simp add: file_byte_def)
  also have "\<dots> = (if pos \<le> i \<and> i < pos + int (length bs) then bs ! nat (i - pos) else file_byte f i)"
    using nth_file_put [OF assms, of "nat i" f bs] True by simp
  finally show ?thesis .
next
  case False
  then show ?thesis
    using assms by (auto simp: file_byte_def length_file_put split: if_splits)
qed

lemma file_put_Nil [simp]: "file_put f pos [] = f"
  by (simp add: file_put_def)

lemma file_put_at_end: "file_put f (int (length f)) bs = f @ bs"
  by (simp add: file_put_def)

lemma file_put_append:
  assumes "0 \<le> pos"
  shows "file_put (file_put f pos as) (pos + int (length as)) bs = file_put f pos (as @ bs)"
proof (rule nth_equalityI)
  show "length (file_put (file_put f pos as) (pos + int (length as)) bs) = length (file_put f pos (as @ bs))"
    using assms by (auto simp: length_file_put nat_add_distrib)
next
  fix i assume i: "i < length (file_put (file_put f pos as) (pos + int (length as)) bs)"
  have "length (file_put (file_put f pos as) (pos + int (length as)) bs) = length (file_put f pos (as @ bs))"
    using assms by (auto simp: length_file_put nat_add_distrib)
  with i have i2: "i < length (file_put f pos (as @ bs))" by simp
  show "file_put (file_put f pos as) (pos + int (length as)) bs ! i = file_put f pos (as @ bs) ! i"
    using assms i i2
    by (auto simp: nth_file_put file_byte_put nth_append nat_diff_distrib nat_less_iff nat_add_distrib)
qed

lemma file_get_nth: "i < length (file_get f pos n) \<Longrightarrow> 0 \<le> pos \<Longrightarrow> file_get f pos n ! i = file_byte f (pos + int i)"
  by (auto simp: file_get_def file_byte_def nat_add_distrib)

section \<open>Documented behaviour of the lower files\<close>

type_synonym kread = "bytes \<Rightarrow> int \<Rightarrow> nat \<Rightarrow> bytes res"
type_synonym kwrite = "bytes \<Rightarrow> int \<Rightarrow> bytes \<Rightarrow> nat res \<times> bytes"

text \<open>Reads of a healthy regular file: everything up to the end of the file, no error.\<close>

definition kread_full :: "kread \<Rightarrow> bool" where
  "kread_full kr \<longleftrightarrow> (\<forall>f pos n. 0 \<le> pos \<longrightarrow> kr f pos n = Ok (file_get f pos n))"

text \<open>
  Reads that may be short or fail: what is returned is a prefix of what was asked for, and
  nothing is returned only at or after the end of the file.
\<close>

definition kread_ok :: "kread \<Rightarrow> bool" where
  "kread_ok kr \<longleftrightarrow> (\<forall>f pos n bs. 0 \<le> pos \<longrightarrow> kr f pos n = Ok bs \<longrightarrow>
     bs = file_get f pos (length bs) \<and> length bs \<le> n
     \<and> (bs = [] \<longrightarrow> n = 0 \<or> length f \<le> nat pos))"

text \<open>Writes that may be short or fail: a successful write stored a prefix of the data.\<close>

definition kwrite_ok :: "kwrite \<Rightarrow> bool" where
  "kwrite_ok kw \<longleftrightarrow> (\<forall>f pos bs n f'. 0 \<le> pos \<longrightarrow> kw f pos bs = (Ok n, f') \<longrightarrow>
     n \<le> length bs \<and> f' = file_put f pos (take n bs))"

lemma kread_full_ok: "kread_full kr \<Longrightarrow> kread_ok kr"
  by (auto simp: kread_full_def kread_ok_def file_get_def min_def)

text \<open>A file that never fails and never transfers short, and one that moves a byte at a time.\<close>

definition disk_read :: kread where
  "disk_read f pos n = Ok (file_get f pos n)"

definition disk_write :: kwrite where
  "disk_write f pos bs = (Ok (length bs), file_put f pos bs)"

definition slow_write :: kwrite where
  "slow_write f pos bs = (Ok (min 1 (length bs)), file_put f pos (take 1 bs))"

lemma disk_read_full: "kread_full disk_read"
  by (simp add: kread_full_def disk_read_def)

lemma disk_write_ok: "kwrite_ok disk_write"
  by (auto simp: kwrite_ok_def disk_write_def)

lemma slow_write_ok: "kwrite_ok slow_write"
  by (auto simp: kwrite_ok_def slow_write_def min_def)

section \<open>The write and read loops\<close>

text \<open>
  \<open>smoothfs_range_write_full\<close> and \<open>smoothfs_write_full\<close>: write until everything is stored; a
  write of nothing is \<open>-EIO\<close>. The result carries the position after the last transfer.
\<close>

function write_full :: "kwrite \<Rightarrow> bytes \<Rightarrow> int \<Rightarrow> bytes \<Rightarrow> unit res \<times> bytes \<times> int" where
  "write_full kw f pos data =
    (if data = [] then (Done, f, pos)
     else case kw f pos data of
         (Err e, f') \<Rightarrow> (Err e, f', pos)
       | (Ok n, f') \<Rightarrow> (if n = 0 then (Err EIO, f', pos)
                       else write_full kw f' (pos + int n) (drop n data)))"
  by pat_completeness auto

termination
  by (relation "measure (\<lambda>(kw, f, pos, data). length data)") auto

declare write_full.simps [simp del]

text \<open>\<open>smoothfs_range_read_full\<close>: read until the buffer is full; the end of the file is \<open>-EIO\<close>.\<close>

function read_full :: "kread \<Rightarrow> bytes \<Rightarrow> int \<Rightarrow> nat \<Rightarrow> (bytes \<times> int) res" where
  "read_full kr f pos n =
    (if n = 0 then Ok ([], pos)
     else case kr f pos n of
         Err e \<Rightarrow> Err e
       | Ok bs \<Rightarrow> (if bs = [] then Err EIO
                  else case read_full kr f (pos + int (length bs)) (n - length bs) of
                      Err e \<Rightarrow> Err e
                    | Ok (rest, pos') \<Rightarrow> Ok (bs @ rest, pos')))"
  by pat_completeness auto

termination
  by (relation "measure (\<lambda>(kr, f, pos, n). n)") auto

declare read_full.simps [simp del]

lemma write_full_stores:
  "kwrite_ok kw \<Longrightarrow> 0 \<le> pos \<Longrightarrow> write_full kw f pos data = (Done, f', pos')
    \<Longrightarrow> f' = file_put f pos data \<and> pos' = pos + int (length data)"
proof (induction kw f pos data arbitrary: f' pos' rule: write_full.induct)
  case (1 kw f pos data)
  show ?case
  proof (cases "data = []")
    case True
    with 1 show ?thesis by (simp add: write_full.simps)
  next
    case False
    with 1(4) obtain n g where n: "kw f pos data = (Ok n, g)" "n \<noteq> 0"
      and rec: "write_full kw g (pos + int n) (drop n data) = (Done, f', pos')"
      by (subst (asm) write_full.simps) (auto split: prod.splits sum.splits if_splits)
    from n 1(2,3) have g: "n \<le> length data" "g = file_put f pos (take n data)"
      by (auto simp: kwrite_ok_def)
    have "f' = file_put g (pos + int n) (drop n data) \<and> pos' = pos + int n + int (length (drop n data))"
      using 1(1) [OF False n(1) [symmetric] refl n(2) 1(2) _ rec] 1(3) by simp
    moreover have "length (take n data) = n" using g by simp
    ultimately show ?thesis
      using g file_put_append [OF 1(3), of f "take n data" "drop n data"] by auto
  qed
qed

lemma write_full_disk: "0 \<le> pos \<Longrightarrow> write_full disk_write f pos data = (Done, file_put f pos data, pos + int (length data))"
  by (subst write_full.simps) (auto simp: disk_write_def write_full.simps)

lemma read_full_exact:
  assumes "kread_full kr" "0 \<le> pos"
  shows "read_full kr f pos n =
    (if n = 0 \<or> nat pos + n \<le> length f then Ok (file_get f pos n, pos + int n) else Err EIO)"
proof -
  have kr: "kr f q m = Ok (file_get f q m)" if "0 \<le> q" for q m
    using assms(1) that by (simp add: kread_full_def)
  show ?thesis
  proof (cases "n = 0 \<or> nat pos + n \<le> length f")
    case True
    then have "length (file_get f pos n) = n" "n \<noteq> 0 \<Longrightarrow> file_get f pos n \<noteq> []"
      by (auto simp: file_get_def)
    with True assms(2) show ?thesis
      by (subst read_full.simps) (auto simp: kr read_full.simps [of kr f _ 0] file_get_def)
  next
    case False
    define bs where "bs = file_get f pos n"
    have len: "length bs < n" "length f \<le> nat (pos + int (length bs))"
      using False assms(2) by (auto simp: bs_def file_get_def nat_add_distrib)
    have "read_full kr f (pos + int (length bs)) (n - length bs) = Err EIO"
      using len assms(2) by (subst read_full.simps) (simp add: kr file_get_def)
    with False assms(2) show ?thesis
      by (subst read_full.simps) (auto simp: kr bs_def [symmetric])
  qed
qed

lemma read_full_sound:
  "kread_ok kr \<Longrightarrow> 0 \<le> pos \<Longrightarrow> read_full kr f pos n = Ok (bs, pos')
    \<Longrightarrow> bs = file_get f pos n \<and> length bs = n \<and> pos' = pos + int n"
proof (induction kr f pos n arbitrary: bs pos' rule: read_full.induct)
  case (1 kr f pos n)
  show ?case
  proof (cases "n = 0")
    case True
    with 1(4) show ?thesis by (simp add: read_full.simps file_get_def)
  next
    case False
    with 1(4) obtain as rest where as: "kr f pos n = Ok as" "as \<noteq> []" "bs = as @ rest"
      and rec: "read_full kr f (pos + int (length as)) (n - length as) = Ok (rest, pos')"
      by (subst (asm) read_full.simps) (auto split: sum.splits if_splits)
    from as 1(2,3) have a: "as = file_get f pos (length as)" "length as \<le> n"
      unfolding kread_ok_def by blast+
    have "rest = file_get f (pos + int (length as)) (n - length as) \<and> length rest = n - length as
        \<and> pos' = pos + int (length as) + int (n - length as)"
      using 1(1) [OF False as(1) as(2) 1(2) _ rec] 1(3) by linarith
    then have r: "rest = file_get f (pos + int (length as)) (n - length as)" "length rest = n - length as"
        "pos' = pos + int (length as) + int (n - length as)" by blast+
    have "file_get f pos n = file_get f pos (length as) @ file_get f (pos + int (length as)) (n - length as)"
      using a(2) 1(3) take_add [of "length as" "n - length as" "drop (nat pos) f"]
      by (simp add: file_get_def nat_add_distrib add.commute)
    then have "bs = file_get f pos n" using a(1) as(3) r(1) by metis
    moreover have "length bs = n" using as(3) r(2) a(2) by simp
    moreover have "pos' = pos + int n" using r(3) a(2) by simp
    ultimately show ?thesis by blast
  qed
qed

end
