(* ===== verification/Range_List.thy ===== *)
theory Range_List
  imports Kernel_Io
begin

text \<open>
  The list of staged byte ranges of an inode (\<open>src/src/smoothfs/file.c\<close>): recording a write,
  the overlap test, and the overlay of staged bytes onto a buffer read from the lower file.
  The interface \<open>interval_store\<close> is what the write, read and drain paths rely on.
\<close>

section \<open>Operations\<close>

text \<open>
  The loop of \<open>smoothfs_range_stage_record_locked\<close>. A range that touches or overlaps the new
  one is removed and absorbed, a range that ends before it stays where it is, and the new
  range goes in front of the first range that starts after it.
\<close>

fun range_record_loop :: "int \<Rightarrow> int \<Rightarrow> staged_range list \<Rightarrow> staged_range list" where
  "range_record_loop s e [] = [(s, e)]"
| "range_record_loop s e ((a, b) # rs) =
    (if e < a then (s, e) # (a, b) # rs
     else if b < s then (a, b) # range_record_loop s e rs
     else range_record_loop (if a < s then a else s) (if e < b then b else e) rs)"

definition range_stage_record :: "int \<Rightarrow> int \<Rightarrow> staged_range list \<Rightarrow> staged_range list" where
  "range_stage_record s e rs = (if e \<le> s then rs else range_record_loop s e rs)"

text \<open>The sum of the range lengths, \<open>before\<close> and \<open>after\<close> in \<open>smoothfs_range_stage_write\<close>.\<close>

definition ranges_total :: "staged_range list \<Rightarrow> int" where
  "ranges_total rs = (\<Sum>(a, b)\<leftarrow>rs. b - a)"

definition range_overlaps :: "staged_range list \<Rightarrow> int \<Rightarrow> int \<Rightarrow> bool" where
  "range_overlaps rs s e \<longleftrightarrow> (\<exists>(a, b) \<in> set rs. a < e \<and> s < b)"

text \<open>
  The loop of \<open>smoothfs_range_stage_overlay_locked\<close> over a buffer of \<open>len\<close> bytes that holds
  file offset \<open>pos\<close>: it stops at the first range past the buffer.
\<close>

fun overlay_loop ::
  "kread \<Rightarrow> bytes \<Rightarrow> int \<Rightarrow> int \<Rightarrow> staged_range list \<Rightarrow> bytes \<Rightarrow> unit res \<times> bytes" where
  "overlay_loop kr stage pos len [] buf = (Done, buf)"
| "overlay_loop kr stage pos len ((a, b) # rs) buf =
    (if pos + len \<le> a then (Done, buf)
     else if b \<le> pos then overlay_loop kr stage pos len rs buf
     else let st = max a pos; en = min b (pos + len)
       in case kr stage st (nat (en - st)) of
            Err e \<Rightarrow> (Err e, buf)
          | Ok bs \<Rightarrow> overlay_loop kr stage pos len rs (buf_put (nat (st - pos)) bs buf))"

definition range_stage_overlay ::
  "kread \<Rightarrow> bytes res \<Rightarrow> int \<Rightarrow> staged_range list \<Rightarrow> bytes \<Rightarrow> unit res \<times> bytes" where
  "range_stage_overlay kr stage pos rs buf =
    (if \<not> range_overlaps rs pos (pos + int (length buf)) then (Done, buf)
     else case stage of
         Err e \<Rightarrow> (Err e, buf)
       | Ok st \<Rightarrow> overlay_loop kr st pos (int (length buf)) rs buf)"

section \<open>Invariant and abstraction\<close>

text \<open>Ranges are non-empty, ascending, and neither overlap nor touch.\<close>

fun ranges_above :: "int \<Rightarrow> staged_range list \<Rightarrow> bool" where
  "ranges_above lo [] \<longleftrightarrow> True"
| "ranges_above lo ((a, b) # rs) \<longleftrightarrow> lo < a \<and> a < b \<and> ranges_above b rs"

definition ranges_wf :: "staged_range list \<Rightarrow> bool" where
  "ranges_wf rs \<longleftrightarrow> ranges_above (-1) rs"

definition range_covers :: "staged_range list \<Rightarrow> int \<Rightarrow> bool" where
  "range_covers rs i \<longleftrightarrow> (\<exists>(a, b) \<in> set rs. a \<le> i \<and> i < b)"

lemma range_covers_simps [simp]:
  "range_covers [] i \<longleftrightarrow> False"
  "range_covers ((a, b) # rs) i \<longleftrightarrow> (a \<le> i \<and> i < b) \<or> range_covers rs i"
  by (auto simp: range_covers_def)

lemma ranges_above_mono: "ranges_above lo rs \<Longrightarrow> lo' \<le> lo \<Longrightarrow> ranges_above lo' rs"
  by (cases rs) auto

lemma ranges_above_covers: "ranges_above lo rs \<Longrightarrow> range_covers rs i \<Longrightarrow> lo < i"
  by (induction lo rs rule: ranges_above.induct) fastforce+

lemma ranges_above_member: "ranges_above lo rs \<Longrightarrow> (a, b) \<in> set rs \<Longrightarrow> lo < a \<and> a < b"
  by (induction lo rs rule: ranges_above.induct) fastforce+

lemma record_loop_above:
  "ranges_above lo rs \<Longrightarrow> lo < s \<Longrightarrow> s < e \<Longrightarrow> ranges_above lo (range_record_loop s e rs)"
proof (induction s e rs arbitrary: lo rule: range_record_loop.induct)
  case (1 s e)
  then show ?case by simp
next
  case (2 s e a b rs)
  then have "ranges_above lo rs" using ranges_above_mono [of b rs lo] by simp
  with 2 show ?case by simp
qed

lemma record_loop_covers:
  "ranges_above lo rs \<Longrightarrow> s < e \<Longrightarrow>
    range_covers (range_record_loop s e rs) i \<longleftrightarrow> (s \<le> i \<and> i < e) \<or> range_covers rs i"
proof (induction s e rs arbitrary: lo rule: range_record_loop.induct)
  case (1 s e)
  then show ?case by simp
next
  case (2 s e a b rs)
  then have "ranges_above b rs" "a < b" by simp_all
  with 2 show ?case by auto
qed

lemma ranges_total_simps [simp]:
  "ranges_total [] = 0" "ranges_total ((a, b) # rs) = b - a + ranges_total rs"
  by (simp_all add: ranges_total_def)

lemma ranges_total_nonneg: "ranges_above lo rs \<Longrightarrow> 0 \<le> ranges_total rs"
  by (induction lo rs rule: ranges_above.induct) auto

lemma ranges_total_card:
  "ranges_above lo rs \<Longrightarrow> finite {i. range_covers rs i} \<and> ranges_total rs = int (card {i. range_covers rs i})"
proof (induction lo rs rule: ranges_above.induct)
  case (1 lo)
  then show ?case by simp
next
  case (2 lo a b rs)
  then have IH: "finite {i. range_covers rs i}" "ranges_total rs = int (card {i. range_covers rs i})"
    and ab: "a < b" "ranges_above b rs" by simp_all
  have un: "{i. range_covers ((a, b) # rs) i} = {a..<b} \<union> {i. range_covers rs i}" by auto
  have "{a..<b} \<inter> {i. range_covers rs i} = {}"
    using ranges_above_covers [OF ab(2)] by fastforce
  then have "card ({a..<b} \<union> {i. range_covers rs i}) = card {a..<b} + card {i. range_covers rs i}"
    using IH(1) by (intro card_Un_disjoint) auto
  then show ?case using IH ab(1) by (simp only: un) simp
qed

section \<open>The interface of the range list\<close>

text \<open>
  What the write, read and drain paths rely on: recording a range keeps the invariant and adds
  exactly its offsets, and the total is the number of offsets covered.
\<close>

locale interval_store =
  fixes wf :: "'r \<Rightarrow> bool"
    and covers :: "'r \<Rightarrow> int \<Rightarrow> bool"
    and total :: "'r \<Rightarrow> int"
    and add :: "int \<Rightarrow> int \<Rightarrow> 'r \<Rightarrow> 'r"
  assumes wf_add: "wf r \<Longrightarrow> 0 \<le> s \<Longrightarrow> wf (add s e r)"
    and covers_add: "wf r \<Longrightarrow> 0 \<le> s \<Longrightarrow> covers (add s e r) i \<longleftrightarrow> (s \<le> i \<and> i < e) \<or> covers r i"
    and total_card: "wf r \<Longrightarrow> finite {i. covers r i} \<and> total r = int (card {i. covers r i})"
begin

definition add_all :: "(int \<times> int) list \<Rightarrow> 'r \<Rightarrow> 'r" where
  "add_all ws r = fold (\<lambda>(s, e). add s e) ws r"

lemma add_all_wf: "wf r \<Longrightarrow> \<forall>(s, e) \<in> set ws. 0 \<le> s \<Longrightarrow> wf (add_all ws r)"
  by (induction ws arbitrary: r) (auto simp: add_all_def wf_add)

lemma add_all_covers:
  "wf r \<Longrightarrow> \<forall>(s, e) \<in> set ws. 0 \<le> s \<Longrightarrow>
    covers (add_all ws r) i \<longleftrightarrow> (\<exists>(s, e) \<in> set ws. s \<le> i \<and> i < e) \<or> covers r i"
proof (induction ws arbitrary: r)
  case Nil
  then show ?case by (simp add: add_all_def)
next
  case (Cons w ws)
  obtain s e where w: "w = (s, e)" by fastforce
  have "covers (add_all ws (add s e r)) i \<longleftrightarrow> (\<exists>(s, e) \<in> set ws. s \<le> i \<and> i < e) \<or> covers (add s e r) i"
    using Cons.prems w wf_add by (intro Cons.IH) auto
  then show ?case using Cons.prems w covers_add by (simp add: add_all_def) blast
qed

lemma total_add_bounds:
  assumes "wf r" "0 \<le> s"
  shows "total r \<le> total (add s e r)" and "total (add s e r) \<le> total r + max 0 (e - s)"
proof -
  let ?C = "{i. covers r i}"
  have un: "{i. covers (add s e r) i} = {s..<e} \<union> ?C" using covers_add [OF assms] by auto
  have fin: "finite ?C" and t: "total r = int (card ?C)" using total_card [OF assms(1)] by simp_all
  have t': "total (add s e r) = int (card ({s..<e} \<union> ?C))"
    using total_card [OF wf_add [OF assms]] un by simp
  show "total r \<le> total (add s e r)" using fin by (simp add: t t' card_mono)
  have "card ({s..<e} \<union> ?C) \<le> card {s..<e} + card ?C" by (rule card_Un_le)
  then show "total (add s e r) \<le> total r + max 0 (e - s)" by (simp add: t t')
qed

end

interpretation rl: interval_store ranges_wf range_covers ranges_total range_stage_record
proof unfold_locales
  fix r :: "staged_range list" and s e i :: int
  assume wf: "ranges_wf r"
  show "finite {i. range_covers r i} \<and> ranges_total r = int (card {i. range_covers r i})"
    using wf ranges_total_card by (simp add: ranges_wf_def)
  assume s: "0 \<le> s"
  show "ranges_wf (range_stage_record s e r)"
    using wf s record_loop_above by (simp add: ranges_wf_def range_stage_record_def)
  show "range_covers (range_stage_record s e r) i \<longleftrightarrow> (s \<le> i \<and> i < e) \<or> range_covers r i"
    using wf record_loop_covers by (auto simp: ranges_wf_def range_stage_record_def)
qed

section \<open>The overlay\<close>

lemma range_overlaps_covers:
  "ranges_wf rs \<Longrightarrow> \<not> range_overlaps rs s e \<Longrightarrow> s \<le> i \<Longrightarrow> i < e \<Longrightarrow> \<not> range_covers rs i"
  by (fastforce simp: range_overlaps_def range_covers_def)

text \<open>The stage file holds every staged byte: it is at least as long as the last range.\<close>

definition stage_holds :: "bytes \<Rightarrow> staged_range list \<Rightarrow> bool" where
  "stage_holds stage rs \<longleftrightarrow> (\<forall>(a, b) \<in> set rs. b \<le> int (length stage))"

lemma overlay_loop_bytes:
  assumes "kread_full kr" "0 \<le> pos" "len = int (length buf)"
    and "ranges_above lo rs" "0 \<le> lo + 1" "stage_holds stage rs"
  shows "\<exists>out. overlay_loop kr stage pos len rs buf = (Done, out) \<and> length out = length buf
    \<and> (\<forall>i < length buf. out ! i = (if range_covers rs (pos + int i) then file_byte stage (pos + int i) else buf ! i))"
  using assms(3-6)
proof (induction lo rs arbitrary: buf rule: ranges_above.induct)
  case (1 lo)
  then show ?case by simp
next
  case (2 lo a b rs)
  have above: "lo < a" "a < b" "ranges_above b rs" and holds: "stage_holds stage rs" "b \<le> int (length stage)"
    using 2 by (auto simp: stage_holds_def)
  have later: "b < i" if "range_covers rs i" for i using ranges_above_covers [OF above(3) that] .
  consider "pos + len \<le> a" | "b \<le> pos" "a < pos + len" | "pos < b" "a < pos + len" by linarith
  then show ?case
  proof cases
    case 1
    have "\<forall>i < length buf. \<not> range_covers ((a, b) # rs) (pos + int i)"
      using 1 2(2) above(2) later by fastforce
    then show ?thesis using 1 by (auto simp del: range_covers_simps)
  next
    case 2
    have "\<exists>out. overlay_loop kr stage pos len rs buf = (Done, out) \<and> length out = length buf
      \<and> (\<forall>i < length buf. out ! i = (if range_covers rs (pos + int i) then file_byte stage (pos + int i) else buf ! i))"
      using "2.IH" [OF "2.prems"(1) above(3) _ holds(1)] "2.prems"(3) above by simp
    then show ?thesis using 2 by auto
  next
    case 3
    define st where "st = max a pos"
    define en where "en = min b (pos + len)"
    define bs where "bs = file_get stage st (nat (en - st))"
    define buf' where "buf' = buf_put (nat (st - pos)) bs buf"
    have se: "pos \<le> st" "st \<le> en" "en \<le> pos + len" "0 \<le> st"
      using 3 above "2.prems" assms(2) by (auto simp: st_def en_def)
    have len: "length bs = nat (en - st)"
      using se holds(2) by (auto simp: bs_def file_get_def en_def)
    have fits: "nat (st - pos) + length bs \<le> length buf" using se len "2.prems"(1) by simp
    have step: "overlay_loop kr stage pos len ((a, b) # rs) buf = overlay_loop kr stage pos len rs buf'"
      using 3 assms(1) se(4) by (simp add: kread_full_def Let_def st_def en_def bs_def buf'_def)
    have buf': "buf' ! i = (if a \<le> pos + int i \<and> pos + int i < b then file_byte stage (pos + int i) else buf ! i)"
      if "i < length buf" for i
    proof (cases "nat (st - pos) \<le> i \<and> i < nat (st - pos) + length bs")
      case True
      then have "buf' ! i = file_byte stage (st + int (i - nat (st - pos)))"
        using that fits se(1,4) by (auto simp: buf'_def nth_buf_put) (simp add: bs_def file_get_nth len)
      with True show ?thesis using se len by (auto simp: st_def en_def add.commute)
    next
      case False
      then have "buf' ! i = buf ! i" using that fits by (auto simp: buf'_def nth_buf_put)
      with False that show ?thesis using se len "2.prems"(1) by (auto simp: st_def en_def)
    qed
    have "length buf' = length buf" using fits by (simp add: buf'_def)
    then have "\<exists>out. overlay_loop kr stage pos len rs buf' = (Done, out) \<and> length out = length buf
      \<and> (\<forall>i < length buf. out ! i = (if range_covers rs (pos + int i) then file_byte stage (pos + int i) else buf' ! i))"
      using "2.IH" [of buf'] "2.prems" above holds(1) by simp
    then show ?thesis using step buf' by auto
  qed
qed

text \<open>
  C7. Recording a staged write \<open>[s, e)\<close> keeps the range list ascending, non-empty and free of
  overlapping or touching ranges; the list then covers exactly the old offsets and the written
  ones, and its total length, which the staged-byte counters are charged with, is the number
  of distinct staged offsets, so it grows by at most the bytes written and never shrinks.
\<close>

theorem range_stage_record_correct:
  assumes "ranges_wf rs" "0 \<le> s"
  shows "ranges_wf (range_stage_record s e rs)
    \<and> (\<forall>i. range_covers (range_stage_record s e rs) i \<longleftrightarrow> (s \<le> i \<and> i < e) \<or> range_covers rs i)
    \<and> ranges_total (range_stage_record s e rs) = int (card ({s..<e} \<union> {i. range_covers rs i}))
    \<and> ranges_total rs \<le> ranges_total (range_stage_record s e rs)
    \<and> ranges_total (range_stage_record s e rs) \<le> ranges_total rs + max 0 (e - s)"
proof -
  have "{i. range_covers (range_stage_record s e rs) i} = {s..<e} \<union> {i. range_covers rs i}"
    using rl.covers_add [OF assms] by auto
  then have "ranges_total (range_stage_record s e rs) = int (card ({s..<e} \<union> {i. range_covers rs i}))"
    using rl.total_card [OF rl.wf_add [OF assms]] by simp
  then show ?thesis
    using rl.wf_add [OF assms] rl.covers_add [OF assms] rl.total_add_bounds [OF assms] by blast
qed

theorem range_stage_record_correct_witness:
  "ranges_wf (range_stage_record 4 12 [(0, 4), (8, 10), (20, 24)])
    \<and> range_stage_record 4 12 [(0, 4), (8, 10), (20, 24)] = [(0, 12), (20, 24)]"
  using range_stage_record_correct [of "[(0, 4), (8, 10), (20, 24)]" 4 12]
  by (simp add: ranges_wf_def range_stage_record_def)

lemma range_stage_overlay_bytes:
  assumes "kread_full kr" "0 \<le> pos" "ranges_wf rs" "stage_holds stage rs"
  shows "\<exists>out. range_stage_overlay kr (Ok stage) pos rs buf = (Done, out) \<and> length out = length buf
    \<and> (\<forall>i < length buf. out ! i =
         (if range_covers rs (pos + int i) then file_byte stage (pos + int i) else buf ! i))"
proof (cases "range_overlaps rs pos (pos + int (length buf))")
  case True
  then show ?thesis
    using overlay_loop_bytes [OF assms(1,2) refl, of "-1" rs stage buf] assms(3,4)
    by (simp add: range_stage_overlay_def ranges_wf_def)
next
  case False
  then have "\<forall>i < length buf. \<not> range_covers rs (pos + int i)"
    using range_overlaps_covers [OF assms(3) False] by simp
  then show ?thesis using False by (simp add: range_stage_overlay_def)
qed

text \<open>
  C8. The overlay gives a reader the staged byte at every offset a staged range covers and
  leaves the lower file's byte everywhere else, for every buffer position and length, without
  changing the buffer's size.
\<close>

theorem range_stage_overlay_correct:
  assumes "kread_full kr" "0 \<le> pos" "ranges_wf rs" "stage_holds stage rs"
  shows "\<exists>out. range_stage_overlay kr (Ok stage) pos rs buf = (Done, out) \<and> length out = length buf
    \<and> (\<forall>i < length buf. out ! i =
         (if range_covers rs (pos + int i) then file_byte stage (pos + int i) else buf ! i))"
  using assms by (rule range_stage_overlay_bytes)

theorem range_stage_overlay_correct_witness:
  "\<exists>out. range_stage_overlay disk_read (Ok [1, 2, 3, 4, 5]) 1 [(0, 2), (3, 5)] [9, 9, 9] = (Done, out)
    \<and> length out = 3 \<and> out ! 0 = 2 \<and> out ! 1 = 9 \<and> out ! 2 = 4"
proof -
  have "ranges_wf [(0, 2), (3, 5)]" "stage_holds [1, 2, 3, 4, 5] [(0, 2), (3, 5)]"
    by (simp_all add: ranges_wf_def stage_holds_def)
  then obtain out where out: "range_stage_overlay disk_read (Ok [1, 2, 3, 4, 5]) 1 [(0, 2), (3, 5)] [9, 9, 9] = (Done, out)"
    "length out = 3" and nth: "\<forall>i < 3. out ! i = (if range_covers [(0, 2), (3, 5)] (1 + int i)
       then file_byte [1, 2, 3, 4, 5] (1 + int i) else [9, 9, 9] ! i)"
    using range_stage_overlay_correct [OF disk_read_full, of 1 "[(0, 2), (3, 5)]" "[1, 2, 3, 4, 5]" "[9, 9, 9]"]
    by auto
  have "out ! 0 = 2" using nth [rule_format, of 0] by (simp add: file_byte_def)
  moreover have "out ! 1 = 9" using nth [rule_format, of 1] by (simp add: file_byte_def)
  moreover have "out ! 2 = 4" using nth [rule_format, of 2] by (simp add: file_byte_def)
  ultimately show ?thesis using out by blast
qed

end
