(* ===== verification/Range_Sidecar.thy ===== *)
theory Range_Sidecar
  imports Range_List
begin

text \<open>
  The sidecar file of a range-staged inode (\<open>src/src/smoothfs/range_staging.c\<close>): its name,
  its bytes, and the write-temporary, fsync, rename sequence that replaces it. The directory
  \<open>.smoothfs\<close> of the fastest tier is a map from names to contents; the flag beside the
  contents says whether they have been synced.
\<close>

section \<open>Names\<close>

definition hex_digit :: "nat \<Rightarrow> char" where
  "hex_digit n = ''0123456789abcdef'' ! n"

text \<open>\<open>%*phN\<close>: two lower-case hex digits per byte, no separators.\<close>

definition phN :: "bytes \<Rightarrow> string" where
  "phN oid = concat (map (\<lambda>b. [hex_digit (unat b div 16), hex_digit (unat b mod 16)]) oid)"

definition REC_PREFIX :: string where
  "REC_PREFIX = ''range-''"

definition REC_SUFFIX :: string where
  "REC_SUFFIX = ''.meta''"

definition REC_TMP_SUFFIX :: string where
  "REC_TMP_SUFFIX = ''.meta.tmp''"

definition REC_STAGE_SUFFIX :: string where
  "REC_STAGE_SUFFIX = ''.stage''"

text \<open>The name inside \<open>.smoothfs\<close>; the code also builds it with the directory in front.\<close>

definition range_meta_name :: "bytes \<Rightarrow> string \<Rightarrow> string" where
  "range_meta_name oid suffix = REC_PREFIX @ phN oid @ suffix"

text \<open>The kernel's \<open>hex_to_bin\<close>, \<open>None\<close> for its negative result.\<close>

definition hex_to_bin :: "char \<Rightarrow> nat option" where
  "hex_to_bin c =
    (let n = of_char c :: nat
     in if 48 \<le> n \<and> n \<le> 57 then Some (n - 48)
        else if 97 \<le> n \<and> n \<le> 102 then Some (n - 87)
        else if 65 \<le> n \<and> n \<le> 70 then Some (n - 55) else None)"

fun parse_hex :: "string \<Rightarrow> bytes res" where
  "parse_hex (h # l # cs) =
    (case (hex_to_bin h, hex_to_bin l) of
       (Some hi, Some lo) \<Rightarrow>
         (case parse_hex cs of Err e \<Rightarrow> Err e | Ok bs \<Rightarrow> Ok (word_of_nat (16 * hi + lo) # bs))
     | _ \<Rightarrow> Err EINVAL)"
| "parse_hex _ = Ok []"

definition range_parse_oid :: "string \<Rightarrow> bytes res" where
  "range_parse_oid name =
    (if length name \<noteq> length REC_PREFIX + OID_LEN * 2 + length REC_SUFFIX then Err EINVAL
     else parse_hex (take (OID_LEN * 2) (drop (length REC_PREFIX) name)))"

text \<open>The directory actor keeps a name exactly when this holds (\<open>NAME_MAX\<close> is 255).\<close>

definition range_actor_accepts :: "string \<Rightarrow> bool" where
  "range_actor_accepts name \<longleftrightarrow>
     \<not> (name = ''.'' \<or> name = ''..'') \<and> length name \<le> 255
     \<and> length REC_PREFIX + length REC_SUFFIX \<le> length name
     \<and> take (length REC_PREFIX) name = REC_PREFIX
     \<and> drop (length name - length REC_SUFFIX) name = REC_SUFFIX"

section \<open>The bytes of the sidecar\<close>

definition RANGE_REC_MAGIC :: u64 where
  "RANGE_REC_MAGIC = 0x534D46525352454C"

definition RANGE_REC_VERSION :: u32 where
  "RANGE_REC_VERSION = 1"

definition RANGE_REC_HEADER :: nat where
  "RANGE_REC_HEADER = 32"

definition RANGE_REC_MAX_RANGES :: nat where
  "RANGE_REC_MAX_RANGES = 65536"

fun range_count_ranges :: "nat \<Rightarrow> staged_range list \<Rightarrow> nat res" where
  "range_count_ranges c [] = Ok c"
| "range_count_ranges c (r # rs) =
    (if RANGE_REC_MAX_RANGES \<le> c then Err E2BIG else range_count_ranges (Suc c) rs)"

definition range_header :: "u8 \<Rightarrow> u64 \<Rightarrow> u32 \<Rightarrow> bytes" where
  "range_header source_tier ns count =
     buf_put 24 (cpu_to_le32 count) (buf_put 16 (cpu_to_le64 ns) (buf_put 12 [source_tier]
       (buf_put 8 (cpu_to_le32 RANGE_REC_VERSION) (buf_put 0 (cpu_to_le64 RANGE_REC_MAGIC)
         (replicate RANGE_REC_HEADER 0)))))"

definition range_entry :: "staged_range \<Rightarrow> bytes" where
  "range_entry r = cpu_to_le64 (word_of_int (fst r)) @ cpu_to_le64 (word_of_int (snd r))"

text \<open>The complete sidecar of a list of ranges.\<close>

definition range_meta_bytes :: "u8 \<Rightarrow> u64 \<Rightarrow> staged_range list \<Rightarrow> bytes" where
  "range_meta_bytes source_tier ns rs =
     range_header source_tier ns (word_of_nat (length rs)) @ concat (map range_entry rs)"

section \<open>Persisting the sidecar\<close>

lemma unit_res_cases: "\<not> isl x \<and> x = Done \<or> isl x \<and> (\<exists>e. x = Err e)" for x :: "unit res"
  by (cases x) auto

lemma unit_res_Done: "\<not> isl x \<Longrightarrow> x = Done" for x :: "unit res"
  by (cases x) auto

type_synonym sdir = "string \<rightharpoonup> bytes \<times> bool"

text \<open>Results of the kernel calls \<open>smoothfs_range_staging_persist\<close> makes, in their order.\<close>

record persist_env =
  pe_alloc_tmp :: bool
  pe_alloc_final :: bool
  pe_open :: "unit res"
  pe_write :: kwrite
  pe_fsync :: "unit res"
  pe_dir_lookup :: "unit res"
  pe_lookup_old :: "unit res"
  pe_lookup_new :: "unit res"
  pe_rename :: "unit res"
  pe_cleanup_lookup :: "unit res"
  pe_unlink_lookup :: "unit res"
  pe_unlink :: "unit res"

fun persist_entries :: "kwrite \<Rightarrow> bytes \<Rightarrow> int \<Rightarrow> staged_range list \<Rightarrow> unit res \<times> bytes \<times> int" where
  "persist_entries kw f pos [] = (Done, f, pos)"
| "persist_entries kw f pos (r # rs) =
    (case write_full kw f pos (range_entry r) of
       (Err e, f', pos') \<Rightarrow> (Err e, f', pos')
     | (Ok _, f', pos') \<Rightarrow> persist_entries kw f' pos' rs)"

definition range_unlink_path :: "persist_env \<Rightarrow> string \<Rightarrow> sdir \<Rightarrow> unit res \<times> sdir" where
  "range_unlink_path env name d =
    (case pe_unlink_lookup env of
       Err e \<Rightarrow> (if e = ENOENT then Done else Err e, d)
     | Ok _ \<Rightarrow>
        (if d name = None then (Done, d)
         else case pe_unlink env of
             Err e \<Rightarrow> (if e = ENOENT then Done else Err e, d)
           | Ok _ \<Rightarrow> (Done, d(name := None))))"

definition range_rename_meta :: "persist_env \<Rightarrow> string \<Rightarrow> string \<Rightarrow> sdir \<Rightarrow> unit res \<times> sdir" where
  "range_rename_meta env tmp final d =
    (case pe_dir_lookup env of
       Err e \<Rightarrow> (Err e, d)
     | Ok _ \<Rightarrow> (case pe_lookup_old env of
         Err e \<Rightarrow> (Err e, d)
       | Ok _ \<Rightarrow> (if d tmp = None then (Err ENOENT, d)
           else case pe_lookup_new env of
               Err e \<Rightarrow> (Err e, d)
             | Ok _ \<Rightarrow> (case pe_rename env of
                 Err e \<Rightarrow> (Err e, d)
               | Ok _ \<Rightarrow> (Done, (d(final := d tmp))(tmp := None))))))"

text \<open>The \<open>out\<close> label: on an error the temporary is unlinked if its directory resolves.\<close>

definition persist_out :: "persist_env \<Rightarrow> string \<Rightarrow> errno \<Rightarrow> sdir list \<Rightarrow> unit res \<times> sdir list" where
  "persist_out env tmp e ds =
    (case pe_cleanup_lookup env of
       Err _ \<Rightarrow> (Err e, ds)
     | Ok _ \<Rightarrow> (Err e, ds @ [snd (range_unlink_path env tmp (last ds))]))"

text \<open>
  \<open>smoothfs_range_staging_persist\<close>. The second component is the sequence of states the
  directory goes through, the first one being the state at the call.
\<close>

definition range_staging_persist ::
  "persist_env \<Rightarrow> bytes \<Rightarrow> u8 \<Rightarrow> staged_range list \<Rightarrow> u64 \<Rightarrow> sdir \<Rightarrow> unit res \<times> sdir list" where
  "range_staging_persist env oid source_tier rs ns d =
    (case range_count_ranges 0 rs of
       Err e \<Rightarrow> (Err e, [d])
     | Ok count \<Rightarrow>
        (if \<not> pe_alloc_tmp env then (Err ENOMEM, [d])
         else let tmp = range_meta_name oid REC_TMP_SUFFIX; final = range_meta_name oid REC_SUFFIX
         in if \<not> pe_alloc_final env then persist_out env tmp ENOMEM [d]
         else case pe_open env of
             Err e \<Rightarrow> persist_out env tmp e [d]
           | Ok _ \<Rightarrow>
              (let d1 = d(tmp \<mapsto> ([], False))
               in case write_full (pe_write env) [] 0 (range_header source_tier ns (word_of_nat count)) of
                   (Err e, f, _) \<Rightarrow> persist_out env tmp e [d, d1, d(tmp \<mapsto> (f, False))]
                 | (Ok _, f, pos) \<Rightarrow>
                    (case persist_entries (pe_write env) f pos rs of
                       (Err e, f', _) \<Rightarrow> persist_out env tmp e [d, d1, d(tmp \<mapsto> (f, False)), d(tmp \<mapsto> (f', False))]
                     | (Ok _, f', _) \<Rightarrow>
                        (let ds = [d, d1, d(tmp \<mapsto> (f, False)), d(tmp \<mapsto> (f', False))]
                         in case pe_fsync env of
                             Err e \<Rightarrow> persist_out env tmp e ds
                           | Ok _ \<Rightarrow>
                              (case range_rename_meta env tmp final (d(tmp \<mapsto> (f', True))) of
                                 (Err e, d') \<Rightarrow> persist_out env tmp e (ds @ [d(tmp \<mapsto> (f', True)), d'])
                               | (Ok _, d') \<Rightarrow> (Done, ds @ [d(tmp \<mapsto> (f', True)), d'])))))))"

text \<open>\<open>smoothfs_range_staging_clear\<close> drops both names.\<close>

definition range_staging_clear :: "persist_env \<Rightarrow> bytes \<Rightarrow> sdir \<Rightarrow> sdir" where
  "range_staging_clear env oid d =
    (case pe_dir_lookup env of
       Err _ \<Rightarrow> d
     | Ok _ \<Rightarrow>
        (let d1 = (if pe_alloc_final env then snd (range_unlink_path env (range_meta_name oid REC_SUFFIX) d) else d)
         in if pe_alloc_tmp env then snd (range_unlink_path env (range_meta_name oid REC_TMP_SUFFIX) d1) else d1))"

section \<open>Reading the sidecar\<close>

text \<open>The header checks of \<open>smoothfs_range_replay_one\<close>, before the inode is looked up.\<close>

definition range_read_header :: "kread \<Rightarrow> u8 \<Rightarrow> bytes \<Rightarrow> (u8 \<times> u64 \<times> nat \<times> int) res" where
  "range_read_header kr nt f =
    (case read_full kr f 0 RANGE_REC_HEADER of
       Err e \<Rightarrow> Err e
     | Ok (header, pos) \<Rightarrow>
        (if le64_to_cpu (buf_get 0 8 header) \<noteq> RANGE_REC_MAGIC then Err EINVAL
         else if le32_to_cpu (buf_get 8 4 header) \<noteq> RANGE_REC_VERSION then Err EINVAL
         else let source_tier = header ! 12; ns = le64_to_cpu (buf_get 16 8 header);
                  count = unat (le32_to_cpu (buf_get 24 4 header))
           in if RANGE_REC_MAX_RANGES < count then Err EINVAL
              else if nt \<le> source_tier then Err EINVAL
              else Ok (source_tier, ns, count, pos)))"

text \<open>One entry: two signed 64-bit offsets, refused unless the range is non-empty.\<close>

definition range_entry_decode :: "bytes \<Rightarrow> staged_range option" where
  "range_entry_decode entry =
    (let st = sint (le64_to_cpu (buf_get 0 8 entry)); en = sint (le64_to_cpu (buf_get 8 8 entry))
     in if en \<le> st then None else Some (st, en))"

text \<open>
  The entry loop: the ranges read so far stay in the list when an entry is bad. \<open>alloc i\<close>
  says whether the allocation of the \<open>i\<close>-th range succeeds.
\<close>

fun range_read_entries ::
  "kread \<Rightarrow> (nat \<Rightarrow> bool) \<Rightarrow> bytes \<Rightarrow> int \<Rightarrow> nat \<Rightarrow> staged_range list \<Rightarrow> unit res \<times> staged_range list" where
  "range_read_entries kr alloc f pos 0 acc = (Done, acc)"
| "range_read_entries kr alloc f pos (Suc n) acc =
    (case read_full kr f pos 16 of
       Err e \<Rightarrow> (Err e, acc)
     | Ok (entry, pos') \<Rightarrow>
        (case range_entry_decode entry of
           None \<Rightarrow> (Err EINVAL, acc)
         | Some r \<Rightarrow>
            (if \<not> alloc (length acc) then (Err ENOMEM, acc)
             else range_read_entries kr alloc f pos' n (acc @ [r]))))"

section \<open>Round trips of the names\<close>

lemma hex_to_bin_digit: "n < 16 \<Longrightarrow> hex_to_bin (hex_digit n) = Some n"
proof -
  have "\<forall>n \<in> set [0..<16]. hex_to_bin (hex_digit n) = Some n"
    by (simp add: upt_rec hex_digit_def hex_to_bin_def Let_def)
  then show "n < 16 \<Longrightarrow> hex_to_bin (hex_digit n) = Some n" by simp
qed

lemma length_phN [simp]: "length (phN oid) = 2 * length oid"
  by (induction oid) (auto simp: phN_def)

lemma parse_hex_phN: "parse_hex (phN oid) = Ok oid"
proof (induction oid)
  case Nil
  then show ?case by (simp add: phN_def)
next
  case (Cons b oid)
  have b: "unat b < 256" using unsigned_less [of b] by simp
  have "16 * (unat b div 16) + unat b mod 16 = unat b" by simp
  then have "(word_of_nat (16 * (unat b div 16) + unat b mod 16) :: u8) = b"
    by (simp only:) simp
  moreover have "parse_hex (phN oid) = Ok oid" by (rule Cons)
  ultimately show ?case using b by (simp add: phN_def hex_to_bin_digit)
qed

section \<open>Round trip of the bytes\<close>

definition range_rep :: "staged_range \<Rightarrow> bool" where
  "range_rep r \<longleftrightarrow> - (2 ^ 63) \<le> fst r \<and> fst r < snd r \<and> snd r < 2 ^ 63"

lemma sint_word_of_int64: "- (2 ^ 63) \<le> a \<Longrightarrow> a < 2 ^ 63 \<Longrightarrow> sint (word_of_int a :: u64) = a"
  by (simp add: sint_sbintrunc' signed_take_bit_int_eq_self)

lemma length_range_entry [simp]: "length (range_entry r) = 16"
  by (simp add: range_entry_def)

lemma range_entry_decode_entry: "range_rep r \<Longrightarrow> range_entry_decode (range_entry r) = Some r"
  by (cases r) (simp add: range_entry_decode_def range_entry_def range_rep_def buf_get_def
      sint_word_of_int64 del: le_bytes.simps)

interpretation range_codec: fixed_codec range_entry range_entry_decode 16 range_rep
  by unfold_locales (simp_all add: range_entry_decode_entry)

lemma length_range_header [simp]: "length (range_header t ns c) = 32"
  by (simp add: range_header_def RANGE_REC_HEADER_def)

lemma range_header_fields:
  "buf_get 0 8 (range_header t ns c) = cpu_to_le64 RANGE_REC_MAGIC"
  "buf_get 8 4 (range_header t ns c) = cpu_to_le32 RANGE_REC_VERSION"
  "range_header t ns c ! 12 = t"
  "buf_get 16 8 (range_header t ns c) = cpu_to_le64 ns"
  "buf_get 24 4 (range_header t ns c) = cpu_to_le32 c"
  by (simp_all add: range_header_def RANGE_REC_HEADER_def buf_get_put_same buf_get_put_other
      nth_buf_put del: le_bytes.simps)

lemma range_read_header_roundtrip:
  assumes "kread_full kr" "n \<le> RANGE_REC_MAX_RANGES" "t < nt"
  shows "range_read_header kr nt (range_header t ns (word_of_nat n) @ rest) = Ok (t, ns, n, 32)"
proof -
  have "unat (word_of_nat n :: u32) = n"
    using assms(2) by (simp add: unat_of_nat RANGE_REC_MAX_RANGES_def)
  moreover have "file_get (range_header t ns (word_of_nat n) @ rest) 0 32 = range_header t ns (word_of_nat n)"
    by (simp add: file_get_def)
  ultimately show ?thesis
    using assms by (simp add: range_read_header_def read_full_exact RANGE_REC_HEADER_def
        range_header_fields not_le del: le_bytes.simps)
qed

lemma range_read_entries_roundtrip:
  assumes "kread_full kr" "\<And>i. alloc i"
  shows "\<forall>r \<in> set rs. range_rep r \<Longrightarrow>
    range_read_entries kr alloc (pre @ concat (map range_entry rs)) (int (length pre)) (length rs) acc
      = (Done, acc @ rs)"
proof (induction rs arbitrary: pre acc)
  case Nil
  then show ?case by simp
next
  case (Cons r rs)
  let ?f = "pre @ concat (map range_entry (r # rs))"
  have "read_full kr ?f (int (length pre)) 16 = Ok (range_entry r, int (length pre) + 16)"
    by (simp add: read_full_exact [OF assms(1)] file_get_def)
  moreover have "range_read_entries kr alloc ((pre @ range_entry r) @ concat (map range_entry rs))
      (int (length (pre @ range_entry r))) (length rs) (acc @ [r]) = (Done, (acc @ [r]) @ rs)"
    using Cons.prems by (intro Cons.IH) simp
  ultimately show ?case using Cons.prems assms(2) [of "length acc"] by (simp add: range_entry_decode_entry)
qed

section \<open>Crash safety of the update\<close>

lemma persist_entries_append:
  assumes "kwrite_ok kw"
  shows "persist_entries kw f (int (length f)) rs = (Done, f', pos')
    \<Longrightarrow> f' = f @ concat (map range_entry rs)"
proof (induction rs arbitrary: f)
  case Nil
  then show ?case by simp
next
  case (Cons r rs)
  then obtain g q where g: "write_full kw f (int (length f)) (range_entry r) = (Done, g, q)"
    and rec: "persist_entries kw g q rs = (Done, f', pos')"
    by (auto split: prod.splits sum.splits)
  from write_full_stores [OF assms _ g] have g': "g = f @ range_entry r" "q = int (length g)"
    by (auto simp: file_put_at_end)
  then have "persist_entries kw g (int (length g)) rs = (Done, f', pos')" using rec by simp
  from Cons.IH [OF this] g' show ?case by simp
qed

lemma range_count_ranges_length: "range_count_ranges c rs = Ok n \<Longrightarrow> n = c + length rs"
  by (induction c rs rule: range_count_ranges.induct) (auto split: if_splits)

lemma tmp_name_differs: "range_meta_name oid REC_TMP_SUFFIX \<noteq> range_meta_name oid REC_SUFFIX"
  by (simp add: range_meta_name_def REC_TMP_SUFFIX_def REC_SUFFIX_def)

lemma range_unlink_path_other: "n \<noteq> name \<Longrightarrow> snd (range_unlink_path env name d) n = d n"
  by (auto simp: range_unlink_path_def split: sum.splits)

text \<open>A directory state the recovery accepts: the old sidecar, or the new one, complete and synced.\<close>

definition old_or_new :: "sdir \<Rightarrow> string \<Rightarrow> bytes \<Rightarrow> sdir \<Rightarrow> bool" where
  "old_or_new d final new d' \<longleftrightarrow> d' final = d final \<or> d' final = Some (new, True)"

lemma persist_out_safe:
  assumes "ds \<noteq> []" "\<forall>d' \<in> set ds. d' final = d final" "tmp \<noteq> final"
  shows "\<exists>e' ds'. persist_out env tmp e ds = (Err e', ds') \<and> ds' \<noteq> [] \<and> (\<forall>d' \<in> set ds'. d' final = d final)"
  using assms by (auto simp: persist_out_def range_unlink_path_other split: sum.split)

lemma range_rename_meta_cases:
  assumes "range_rename_meta env tmp final d = (r, d')" "tmp \<noteq> final"
  shows "(case r of Err _ \<Rightarrow> d' = d | Ok _ \<Rightarrow> d' final = d tmp \<and> d' tmp = None)"
  using assms by (auto simp: range_rename_meta_def split: sum.splits if_splits)

lemma range_staging_persist_cases:
  fixes oid :: bytes and t :: u8 and ns :: u64 and rs :: "staged_range list"
  assumes "kwrite_ok (pe_write env)"
  defines "final \<equiv> range_meta_name oid REC_SUFFIX" and "new \<equiv> range_meta_bytes t ns rs"
  shows "(\<exists>e ds. range_staging_persist env oid t rs ns d = (Err e, ds) \<and> ds \<noteq> [] \<and> (\<forall>d' \<in> set ds. d' final = d final))
    \<or> (\<exists>ds d'. range_staging_persist env oid t rs ns d = (Done, ds @ [d']) \<and> (\<forall>d' \<in> set ds. d' final = d final)
          \<and> d' final = Some (new, True) \<and> d' (range_meta_name oid REC_TMP_SUFFIX) = None)"
proof -
  define tmp where "tmp = range_meta_name oid REC_TMP_SUFFIX"
  note D = range_staging_persist_def tmp_def [symmetric] final_def [symmetric] Let_def
  have ne: "tmp \<noteq> final" using tmp_name_differs by (simp add: tmp_def final_def)
  note out = persist_out_safe [where d = d and final = final, OF _ _ ne]
  show ?thesis
  proof (cases "range_count_ranges 0 rs")
    case (Inl e)
    then show ?thesis by (simp add: D)
  next
    case count: (Inr c)
    then have c: "c = length rs" using range_count_ranges_length by fastforce
    obtain r1 f pos where w1: "write_full (pe_write env) [] 0 (range_header t ns (word_of_nat c)) = (r1, f, pos)"
      by (metis prod_cases3)
    obtain r2 f' pos' where w2: "persist_entries (pe_write env) f pos rs = (r2, f', pos')"
      by (metis prod_cases3)
    obtain r3 d' where w3: "range_rename_meta env tmp final (d(tmp \<mapsto> (f', True))) = (r3, d')"
      by fastforce
    show ?thesis
    proof (cases "pe_alloc_tmp env \<and> pe_alloc_final env \<and> \<not> isl (pe_open env) \<and> \<not> isl r1 \<and> \<not> isl r2 \<and> \<not> isl (pe_fsync env) \<and> \<not> isl r3")
      case True
      then have ok: "pe_open env = Done" "r1 = Done" "r2 = Done" "pe_fsync env = Done" "r3 = Done"
        by (simp_all add: unit_res_Done)
      have f: "f = range_header t ns (word_of_nat c)" "pos = int (length f)"
        using write_full_stores [OF assms(1) _ w1 [unfolded ok]] file_put_at_end [of "[]"] by auto
      have f': "f' = new"
        using persist_entries_append [OF assms(1), of f rs f' pos'] w2 ok f c
        by (simp add: new_def range_meta_bytes_def)
      have "d' final = Some (new, True)" "d' tmp = None"
        using range_rename_meta_cases [OF w3 ne] ok f' by auto
      then show ?thesis using True ok count w1 w2 w3 ne by (simp add: D)
    next
      case False
      then consider "\<not> pe_alloc_tmp env"
        | "pe_alloc_tmp env" "\<not> pe_alloc_final env"
        | e where "pe_alloc_tmp env" "pe_alloc_final env" "pe_open env = Err e"
        | e where "pe_alloc_tmp env" "pe_alloc_final env" "pe_open env = Done" "r1 = Err e"
        | e where "pe_alloc_tmp env" "pe_alloc_final env" "pe_open env = Done" "r1 = Done" "r2 = Err e"
        | e where "pe_alloc_tmp env" "pe_alloc_final env" "pe_open env = Done" "r1 = Done" "r2 = Done" "pe_fsync env = Err e"
        | e where "pe_alloc_tmp env" "pe_alloc_final env" "pe_open env = Done" "r1 = Done" "r2 = Done" "pe_fsync env = Done" "r3 = Err e"
        using unit_res_cases [of "pe_open env"] unit_res_cases [of r1] unit_res_cases [of r2]
          unit_res_cases [of "pe_fsync env"] unit_res_cases [of r3] by blast
      then show ?thesis
      proof cases
        case 7
        then have "d' = d(tmp \<mapsto> (f', True))" using range_rename_meta_cases [OF w3 ne] by simp
        with 7 show ?thesis using count w1 w2 w3 ne out by (simp add: D)
      qed (use count w1 w2 ne out in \<open>simp_all add: D\<close>)
    qed
  qed
qed

text \<open>
  C9. Replacing the sidecar is crash safe. In every directory state the update goes through,
  whatever fails and however short the writes are, the sidecar's name holds either what it
  held before or the complete new bytes, already synced. The update returns success exactly
  when the new bytes are in place, and then its temporary is gone.
\<close>

theorem range_staging_persist_crash_safe:
  assumes "kwrite_ok (pe_write env)" "range_staging_persist env oid t rs ns d = (r, ds)"
  shows "(\<forall>d' \<in> set ds. old_or_new d (range_meta_name oid REC_SUFFIX) (range_meta_bytes t ns rs) d')
    \<and> (case r of
         Err _ \<Rightarrow> last ds (range_meta_name oid REC_SUFFIX) = d (range_meta_name oid REC_SUFFIX)
       | Ok _ \<Rightarrow> last ds (range_meta_name oid REC_SUFFIX) = Some (range_meta_bytes t ns rs, True)
                \<and> last ds (range_meta_name oid REC_TMP_SUFFIX) = None)"
  using range_staging_persist_cases [OF assms(1), of oid t rs ns d] assms(2)
  by (auto simp: old_or_new_def)

definition env_ok :: persist_env where
  "env_ok = \<lparr>pe_alloc_tmp = True, pe_alloc_final = True, pe_open = Done, pe_write = slow_write,
     pe_fsync = Done, pe_dir_lookup = Done, pe_lookup_old = Done, pe_lookup_new = Done, pe_rename = Done,
     pe_cleanup_lookup = Done, pe_unlink_lookup = Done, pe_unlink = Done\<rparr>"

theorem range_staging_persist_crash_safe_witness:
  "\<exists>r ds. range_staging_persist (env_ok\<lparr>pe_fsync := Err EIO\<rparr>) (replicate 16 7) 1 [(0, 4)] 9 Map.empty = (r, ds)
    \<and> (\<forall>d' \<in> set ds. old_or_new Map.empty (range_meta_name (replicate 16 7) REC_SUFFIX) (range_meta_bytes 1 9 [(0, 4)]) d')"
proof -
  have "kwrite_ok (pe_write (env_ok\<lparr>pe_fsync := Err EIO\<rparr>))" by (simp add: env_ok_def slow_write_ok)
  moreover obtain r ds where
    "range_staging_persist (env_ok\<lparr>pe_fsync := Err EIO\<rparr>) (replicate 16 7) 1 [(0, 4)] 9 Map.empty = (r, ds)"
    by fastforce
  ultimately show ?thesis using range_staging_persist_crash_safe by blast
qed

lemma drop_suffix: "length s = n \<Longrightarrow> drop (length (x @ s) - n) (x @ s) = s"
  by simp

text \<open>
  Sidecar names round trip: the name built for an object id parses back to that id and is
  picked up by the mount-time scan, and the scan picks up neither the temporary nor the stage
  file of any object, so an interrupted update is never replayed.
\<close>

theorem range_names_roundtrip:
  assumes "length oid = OID_LEN"
  shows "range_parse_oid (range_meta_name oid REC_SUFFIX) = Ok oid
    \<and> range_actor_accepts (range_meta_name oid REC_SUFFIX)
    \<and> \<not> range_actor_accepts (range_meta_name oid REC_TMP_SUFFIX)
    \<and> \<not> range_actor_accepts (range_meta_name oid REC_STAGE_SUFFIX)"
proof -
  have len: "length (phN oid) = 32" using assms by (simp add: OID_LEN_def)
  have "range_parse_oid (range_meta_name oid REC_SUFFIX) = Ok oid"
    using len by (simp add: range_parse_oid_def range_meta_name_def REC_PREFIX_def REC_SUFFIX_def
        OID_LEN_def parse_hex_phN)
  moreover have "range_actor_accepts (range_meta_name oid REC_SUFFIX)"
    using len by (simp add: range_actor_accepts_def range_meta_name_def REC_PREFIX_def REC_SUFFIX_def)
  moreover have "\<not> range_actor_accepts (range_meta_name oid REC_TMP_SUFFIX)"
    using len by (simp add: range_actor_accepts_def range_meta_name_def REC_PREFIX_def REC_SUFFIX_def
        REC_TMP_SUFFIX_def)
  moreover have "\<not> range_actor_accepts (range_meta_name oid REC_STAGE_SUFFIX)"
    using len by (simp add: range_actor_accepts_def range_meta_name_def REC_PREFIX_def REC_SUFFIX_def
        REC_STAGE_SUFFIX_def)
  ultimately show ?thesis by blast
qed

theorem range_names_roundtrip_witness:
  "range_parse_oid (range_meta_name (replicate 16 171) REC_SUFFIX) = Ok (replicate 16 171)"
  using range_names_roundtrip [of "replicate 16 171"] by (simp add: OID_LEN_def)

end
