(* ===== verification/Range_Replay.thy ===== *)
theory Range_Replay
  imports Range_Sidecar
begin

text \<open>
  The mount-time replay of the sidecars (\<open>smoothfs_range_replay_one\<close> and
  \<open>smoothfs_range_staging_replay\<close> in \<open>src/src/smoothfs/range_staging.c\<close>). The directory
  listing, the opened files, the allocations and the resolution of an object id to a cached
  inode are arguments.
\<close>

section \<open>Replaying one record\<close>

record replay_acc =
  ra_bytes :: u64
  ra_oldest_ns :: u64
  ra_tier_mask :: u32
  ra_paths_rebuilt :: bool

record replay_env =
  re_read :: kread
  re_alloc :: "nat \<Rightarrow> bool"
  re_resolve :: "bytes \<Rightarrow> sb_info \<Rightarrow> iref option \<times> sb_info"
  re_rebuild :: "sb_info \<Rightarrow> unit res \<times> sb_info"
  re_open_stage :: "bytes \<Rightarrow> path res"
  re_now :: int
  re_dir :: "unit res"
  re_listing :: "string list res"
  re_actor_oom :: bool
  re_open_meta :: "string \<Rightarrow> bytes res"

text \<open>The non-negative results: \<open>0\<close> and \<open>SMOOTHFS_RANGE_REPLAY_SKIPPED\<close>.\<close>

datatype verdict = RECOVERED | SKIPPED

text \<open>The lookup, with the one rebuild of the recovery index when it misses.\<close>

definition replay_find ::
  "replay_env \<Rightarrow> bytes \<Rightarrow> sb_info \<Rightarrow> replay_acc \<Rightarrow> iref option res \<times> sb_info \<times> replay_acc" where
  "replay_find env oid sbi acc =
    (case re_resolve env oid sbi of
       (Some r, s1) \<Rightarrow> (Ok (Some r), s1, acc)
     | (None, s1) \<Rightarrow>
        (if ra_paths_rebuilt acc then (Ok None, s1, acc)
         else let acc' = acc\<lparr>ra_paths_rebuilt := True\<rparr>
           in case re_rebuild env s1 of
                (Err e, s2) \<Rightarrow> (Err e, s2, acc')
              | (Ok _, s2) \<Rightarrow> (case re_resolve env oid s2 of (r, s3) \<Rightarrow> (Ok r, s3, acc'))))"

definition replay_note :: "u8 \<Rightarrow> u64 \<Rightarrow> u64 \<Rightarrow> replay_acc \<Rightarrow> replay_acc" where
  "replay_note source_tier ns recovered acc =
     acc\<lparr>ra_bytes := ra_bytes acc + recovered,
         ra_oldest_ns := (if ra_oldest_ns acc = 0 \<or> (ns \<noteq> 0 \<and> ns < ra_oldest_ns acc) then ns
                          else ra_oldest_ns acc),
         ra_tier_mask := ra_tier_mask acc OR BIT (unat source_tier)\<rparr>"

text \<open>The inode after a record was read: adopted, or emptied after an error in an entry.\<close>

definition replay_adopt :: "bool \<Rightarrow> u8 \<Rightarrow> path \<Rightarrow> staged_range list \<Rightarrow> range_state \<Rightarrow> range_state" where
  "replay_adopt cache_mode source_tier p rs s =
     s\<lparr>rs_path := Some p, rs_ranges := rs, rs_pinned := rs_pinned s \<or> cache_mode,
       rs_range_staged := True, rs_recovered := True, rs_source_tier := source_tier\<rparr>"

definition replay_drop :: "range_state \<Rightarrow> range_state" where
  "replay_drop s = s\<lparr>rs_path := None, rs_ranges := []\<rparr>"

definition range_replay_one ::
  "replay_env \<Rightarrow> string \<Rightarrow> bytes \<Rightarrow> sb_info \<Rightarrow> replay_acc \<Rightarrow> verdict res \<times> sb_info \<times> replay_acc" where
  "range_replay_one env name f sbi acc =
    (case range_parse_oid name of
       Err e \<Rightarrow> (Err e, sbi, acc)
     | Ok oid \<Rightarrow>
       (case range_read_header (re_read env) (sbi_ntiers sbi) f of
          Err e \<Rightarrow> (Err e, sbi, acc)
        | Ok (source_tier, ns, count, pos) \<Rightarrow>
          (case replay_find env oid sbi acc of
             (Err e, s1, acc1) \<Rightarrow> (Err e, s1, acc1)
           | (Ok None, s1, acc1) \<Rightarrow> (Ok SKIPPED, s1, acc1)
           | (Ok (Some r), s1, acc1) \<Rightarrow>
             (case re_open_stage env oid of
                Err e \<Rightarrow> (Ok SKIPPED, s1, acc1)
              | Ok p \<Rightarrow>
                (case range_read_entries (re_read env) (re_alloc env) f pos count [] of
                   (Err e, _) \<Rightarrow> (Ok RECOVERED, upd_inode r (upd_rs replay_drop) s1, acc1)
                 | (Ok _, rs) \<Rightarrow>
                   (Ok RECOVERED,
                    upd_inode r (upd_rs (replay_adopt (sbi_cache_mode sbi) source_tier p rs)) s1,
                    replay_note source_tier ns (word_of_int (ranges_total rs)) acc1))))))"

section \<open>Replaying the directory\<close>

text \<open>The loop over the collected names, with the counts of recovered and skipped records.\<close>

fun replay_names ::
  "replay_env \<Rightarrow> string list \<Rightarrow> sb_info \<Rightarrow> replay_acc \<Rightarrow> nat \<Rightarrow> nat
    \<Rightarrow> unit res \<times> sb_info \<times> replay_acc \<times> nat \<times> nat" where
  "replay_names env [] sbi acc rec skip = (Done, sbi, acc, rec, skip)"
| "replay_names env (n # ns) sbi acc rec skip =
    (case re_open_meta env n of
       Err e \<Rightarrow> replay_names env ns sbi acc rec skip
     | Ok f \<Rightarrow>
       (case range_replay_one env n f sbi acc of
          (Err e, s1, acc1) \<Rightarrow> (Err e, s1, acc1, rec, skip)
        | (Ok SKIPPED, s1, acc1) \<Rightarrow> replay_names env ns s1 acc1 rec (Suc skip)
        | (Ok RECOVERED, s1, acc1) \<Rightarrow> replay_names env ns s1 acc1 (Suc rec) skip))"

definition replay_reason :: "unit res \<Rightarrow> nat \<Rightarrow> nat \<Rightarrow> recovery_reason" where
  "replay_reason err rec skip =
    (case err of
       Err e \<Rightarrow> RR_ERROR e
     | Ok _ \<Rightarrow> (if skip \<noteq> 0 \<and> rec = 0 then RR_UNRESOLVED skip
               else if skip \<noteq> 0 then RR_PARTIAL skip
               else if rec = 0 then RR_EMPTY else RR_REPLAY))"

definition replay_publish :: "int \<Rightarrow> unit res \<Rightarrow> replay_acc \<Rightarrow> nat \<Rightarrow> nat \<Rightarrow> staging_state \<Rightarrow> staging_state" where
  "replay_publish now err acc rec skip s =
    (let b = sint (ra_bytes acc); o_ns = sint (ra_oldest_ns acc);
         s1 = s\<lparr>st_recovered_bytes := st_recovered_bytes s + b,
                st_recovered_writes := st_recovered_writes s + int rec,
                st_recovery_pending := st_recovery_pending s + b,
                st_staged_bytes := st_staged_bytes s + b,
                st_range_staged_bytes := st_range_staged_bytes s + b\<rparr>;
         s2 = (if ra_oldest_ns acc = 0 then s1
               else s1\<lparr>st_oldest_recovered_write_ns := o_ns,
                       st_oldest_staged_write_ns :=
                         (if st_oldest_staged_write_ns s = 0 \<or> o_ns < st_oldest_staged_write_ns s
                          then o_ns else st_oldest_staged_write_ns s)\<rparr>)
     in s2\<lparr>st_recovered_tier_mask := st_recovered_tier_mask s OR ra_tier_mask acc,
           st_last_recovery_ns := now, st_last_recovery_reason := replay_reason err rec skip\<rparr>)"

definition range_staging_replay :: "replay_env \<Rightarrow> sb_info \<Rightarrow> unit res \<times> sb_info" where
  "range_staging_replay env sbi =
    (case re_dir env of
       Err e \<Rightarrow>
        (if e = ENOENT
         then (Done, upd_staging (\<lambda>s. s\<lparr>st_last_recovery_reason := RR_EMPTY, st_last_recovery_ns := re_now env\<rparr>) sbi)
         else (Err e, sbi))
     | Ok _ \<Rightarrow>
        (case re_listing env of
           Err e \<Rightarrow> (Err e, sbi)
         | Ok listing \<Rightarrow>
            (if re_actor_oom env then (Err ENOMEM, sbi)
             else case replay_names env (filter range_actor_accepts listing) sbi
                    \<lparr>ra_bytes = 0, ra_oldest_ns = 0, ra_tier_mask = 0, ra_paths_rebuilt = False\<rparr> 0 0 of
               (err, s1, acc, rec, skip) \<Rightarrow>
                 (err, upd_staging (replay_publish (re_now env) err acc rec skip) s1))))"

section \<open>What a replay recovers\<close>

lemma replay_find_hit: "re_resolve env oid sbi = (Some r, s1) \<Longrightarrow> replay_find env oid sbi acc = (Ok (Some r), s1, acc)"
  by (simp add: replay_find_def)

lemma range_read_entries_truncated:
  assumes "kread_full kr" "\<And>i. alloc i"
  shows "\<forall>r \<in> set rs. range_rep r \<Longrightarrow> m < 16 * length rs \<Longrightarrow>
    \<exists>acc'. range_read_entries kr alloc (pre @ take m (concat (map range_entry rs))) (int (length pre)) (length rs) acc
      = (Err EIO, acc')"
proof (induction rs arbitrary: pre acc m)
  case Nil
  then show ?case by simp
next
  case (Cons r rs)
  let ?f = "pre @ take m (concat (map range_entry (r # rs)))"
  show ?case
  proof (cases "m < 16")
    case True
    then have "read_full kr ?f (int (length pre)) 16 = Err EIO"
      by (simp add: read_full_exact [OF assms(1)])
    then show ?thesis by simp
  next
    case False
    then have f: "?f = (pre @ range_entry r) @ take (m - 16) (concat (map range_entry rs))" by simp
    have "read_full kr ?f (int (length pre)) 16 = Ok (range_entry r, int (length pre) + 16)"
      using False by (simp add: read_full_exact [OF assms(1)] file_get_def)
    moreover have "\<exists>acc'. range_read_entries kr alloc ((pre @ range_entry r) @ take (m - 16) (concat (map range_entry rs)))
        (int (length (pre @ range_entry r))) (length rs) (acc @ [r]) = (Err EIO, acc')"
      using Cons.prems False by (intro Cons.IH) auto
    ultimately show ?thesis
      using Cons.prems assms(2) [of "length acc"] False by (simp add: range_entry_decode_entry)
  qed
qed

text \<open>The sidecar of a valid range list, on a mounted pool, with its inode and stage present.\<close>

definition replay_ready ::
  "replay_env \<Rightarrow> sb_info \<Rightarrow> bytes \<Rightarrow> u8 \<Rightarrow> staged_range list \<Rightarrow> iref \<Rightarrow> path \<Rightarrow> bool" where
  "replay_ready env sbi oid t rs r p \<longleftrightarrow>
     kread_full (re_read env) \<and> length oid = OID_LEN \<and> length rs \<le> RANGE_REC_MAX_RANGES
     \<and> (\<forall>x \<in> set rs. range_rep x) \<and> t < sbi_ntiers sbi
     \<and> re_resolve env oid sbi = (Some r, sbi) \<and> sbi_inodes sbi r \<noteq> None \<and> re_open_stage env oid = Ok p
     \<and> (\<forall>i. re_alloc env i)"

lemma replay_ready_header:
  assumes "replay_ready env sbi oid t rs r p"
  shows "range_parse_oid (range_meta_name oid REC_SUFFIX) = Ok oid"
    and "range_read_header (re_read env) (sbi_ntiers sbi)
           (range_header t ns (word_of_nat (length rs)) @ rest) = Ok (t, ns, length rs, 32)"
    and "replay_find env oid sbi acc = (Ok (Some r), sbi, acc)"
proof -
  have len: "length (phN oid) = 32" using assms by (simp add: OID_LEN_def replay_ready_def)
  then show "range_parse_oid (range_meta_name oid REC_SUFFIX) = Ok oid"
    by (simp add: range_parse_oid_def range_meta_name_def REC_PREFIX_def REC_SUFFIX_def
        OID_LEN_def parse_hex_phN)
  show "range_read_header (re_read env) (sbi_ntiers sbi)
           (range_header t ns (word_of_nat (length rs)) @ rest) = Ok (t, ns, length rs, 32)"
    using assms by (intro range_read_header_roundtrip) (auto simp: replay_ready_def)
  show "replay_find env oid sbi acc = (Ok (Some r), sbi, acc)"
    using assms by (intro replay_find_hit) (simp add: replay_ready_def)
qed

definition ex_replay_env :: replay_env where
  "ex_replay_env = \<lparr>re_read = disk_read, re_alloc = \<lambda>_. True, re_resolve = \<lambda>oid s. (sbi_oid_map s oid, s),
     re_rebuild = \<lambda>s. (Done, s), re_open_stage = \<lambda>_. Ok \<lparr>p_mnt = 0, p_dentry = 9\<rparr>, re_now = 50,
     re_dir = Done, re_listing = Ok [], re_actor_oom = False, re_open_meta = \<lambda>_. Err ENOENT\<rparr>"

lemma ex_replay_ready: "replay_ready ex_replay_env ex_pool ex_oid 1 [(0, 4), (8, 12)] 77 \<lparr>p_mnt = 0, p_dentry = 9\<rparr>"
  by (simp add: replay_ready_def ex_replay_env_def ex_pool_def ex_oid_def disk_read_full OID_LEN_def
      RANGE_REC_MAX_RANGES_def range_rep_def)

text \<open>
  C10. A remount recovers what was persisted: replaying the sidecar bytes written for a range
  list gives the inode back exactly those ranges, their source tier and the stage file, marks
  it staged and recovered, and charges the recovery with the number of bytes in the ranges.
\<close>

theorem range_replay_roundtrip:
  assumes "replay_ready env sbi oid t rs r p"
  shows "\<exists>sbi' si'. range_replay_one env (range_meta_name oid REC_SUFFIX) (range_meta_bytes t ns rs) sbi acc
      = (Ok RECOVERED, sbi', replay_note t ns (word_of_int (ranges_total rs)) acc)
    \<and> sbi_inodes sbi' r = Some si' \<and> rs_ranges (si_rs si') = rs \<and> rs_source_tier (si_rs si') = t
    \<and> rs_path (si_rs si') = Some p \<and> rs_range_staged (si_rs si') \<and> rs_recovered (si_rs si')
    \<and> (\<forall>q. q \<noteq> r \<longrightarrow> sbi_inodes sbi' q = sbi_inodes sbi q)"
proof -
  have "range_read_entries (re_read env) (re_alloc env)
      (range_header t ns (word_of_nat (length rs)) @ concat (map range_entry rs)) 32 (length rs) [] = (Done, [] @ rs)"
    using range_read_entries_roundtrip [of "re_read env" "re_alloc env" rs "range_header t ns (word_of_nat (length rs))" "[]"]
      assms by (simp add: replay_ready_def)
  then show ?thesis
    using assms replay_ready_header [OF assms]
    by (auto simp: range_replay_one_def range_meta_bytes_def replay_ready_def replay_adopt_def upd_rs_def)
qed

theorem range_replay_roundtrip_witness:
  "\<exists>sbi' si' acc'. range_replay_one ex_replay_env (range_meta_name ex_oid REC_SUFFIX)
      (range_meta_bytes 1 9 [(0, 4), (8, 12)]) ex_pool
      \<lparr>ra_bytes = 0, ra_oldest_ns = 0, ra_tier_mask = 0, ra_paths_rebuilt = False\<rparr> = (Ok RECOVERED, sbi', acc')
    \<and> sbi_inodes sbi' 77 = Some si' \<and> rs_ranges (si_rs si') = [(0, 4), (8, 12)] \<and> ra_bytes acc' = 8"
  using range_replay_roundtrip [OF ex_replay_ready, of 9
      "\<lparr>ra_bytes = 0, ra_oldest_ns = 0, ra_tier_mask = 0, ra_paths_rebuilt = False\<rparr>"]
  by (auto simp: replay_note_def)

text \<open>
  A sidecar whose entries are cut short is given up: the inode keeps no ranges and no stage
  path and no bytes are charged. The result is nevertheless the one for a recovered record,
  so the caller counts the lost record among the recovered writes.
\<close>

theorem range_replay_truncated_counts_as_recovered:
  assumes "replay_ready env sbi oid t rs r p" "32 \<le> k" "k < 32 + 16 * length rs"
  shows "\<exists>sbi' si'. range_replay_one env (range_meta_name oid REC_SUFFIX) (take k (range_meta_bytes t ns rs)) sbi acc
      = (Ok RECOVERED, sbi', acc)
    \<and> sbi_inodes sbi' r = Some si' \<and> rs_ranges (si_rs si') = [] \<and> rs_path (si_rs si') = None"
proof -
  have f: "take k (range_meta_bytes t ns rs)
      = range_header t ns (word_of_nat (length rs)) @ take (k - 32) (concat (map range_entry rs))"
    using assms(2) by (simp add: range_meta_bytes_def)
  have "\<exists>acc'. range_read_entries (re_read env) (re_alloc env)
      (range_header t ns (word_of_nat (length rs)) @ take (k - 32) (concat (map range_entry rs))) 32 (length rs) []
      = (Err EIO, acc')"
    using range_read_entries_truncated [of "re_read env" "re_alloc env" rs "k - 32"
        "range_header t ns (word_of_nat (length rs))" "[]"] assms
    by (auto simp: replay_ready_def)
  then show ?thesis
    using assms(1) replay_ready_header [OF assms(1)]
    by (auto simp: f range_replay_one_def replay_ready_def replay_drop_def upd_rs_def)
qed

theorem range_replay_truncated_counts_as_recovered_witness:
  "\<exists>sbi' si'. range_replay_one ex_replay_env (range_meta_name ex_oid REC_SUFFIX)
      (take 40 (range_meta_bytes 1 9 [(0, 4), (8, 12)])) ex_pool
      \<lparr>ra_bytes = 0, ra_oldest_ns = 0, ra_tier_mask = 0, ra_paths_rebuilt = False\<rparr>
      = (Ok RECOVERED, sbi', \<lparr>ra_bytes = 0, ra_oldest_ns = 0, ra_tier_mask = 0, ra_paths_rebuilt = False\<rparr>)
    \<and> sbi_inodes sbi' 77 = Some si' \<and> rs_ranges (si_rs si') = []"
  using range_replay_truncated_counts_as_recovered [OF ex_replay_ready, of 40 9
      "\<lparr>ra_bytes = 0, ra_oldest_ns = 0, ra_tier_mask = 0, ra_paths_rebuilt = False\<rparr>"]
  by auto

end
