(* ===== verification/Lower_Maps.thy ===== *)
theory Lower_Maps
  imports Kernel_Io
begin

text \<open>
  The pool's hash tables and the OID writeback queue (\<open>src/src/smoothfs/super.c\<close>): object id
  to inode, relative path to inode, and (tier, lower inode number) to inode number; and the
  life of an inode record from allocation to eviction. An rhashtable is a map; inserting a
  key that is present fails with \<open>EEXIST\<close> and keeps the old entry.
\<close>

section \<open>The interface of the tables\<close>

definition rht_insert :: "'k \<Rightarrow> 'v \<Rightarrow> ('k \<rightharpoonup> 'v) \<Rightarrow> unit res \<times> ('k \<rightharpoonup> 'v)" where
  "rht_insert k v m = (case m k of None \<Rightarrow> (Done, m(k \<mapsto> v)) | Some _ \<Rightarrow> (Err EEXIST, m))"

text \<open>
  What the callers rely on: an inserted key is found unless it was taken, a removed key is
  gone, and no operation touches another valid key. Moving an entry from one key to another
  is the pattern of the cutover, the truncate rehome and the relower.
\<close>

locale lookup_table =
  fixes look :: "'k \<Rightarrow> 's \<Rightarrow> 'v option"
    and ins :: "'k \<Rightarrow> 'v \<Rightarrow> 's \<Rightarrow> 's"
    and rem :: "'k \<Rightarrow> 's \<Rightarrow> 's"
    and ready :: "'s \<Rightarrow> bool"
    and valid :: "'k \<Rightarrow> bool"
  assumes look_ins: "ready s \<Longrightarrow> valid k \<Longrightarrow> valid k' \<Longrightarrow>
      look k (ins k' v s) = (if k = k' \<and> look k s = None then Some v else look k s)"
    and look_rem: "ready s \<Longrightarrow> valid k \<Longrightarrow> valid k' \<Longrightarrow> look k (rem k' s) = (if k = k' then None else look k s)"
    and ready_ins: "ready s \<Longrightarrow> ready (ins k v s)"
    and ready_rem: "ready s \<Longrightarrow> ready (rem k s)"
begin

definition move_key :: "'k \<Rightarrow> 'k \<Rightarrow> 'v \<Rightarrow> 's \<Rightarrow> 's" where
  "move_key old new v s = ins new v (rem old s)"

lemma look_move_key:
  assumes "ready s" "valid old" "valid new" "valid k"
  shows "look k (move_key old new v s) =
    (if k = new \<and> (new = old \<or> look new s = None) then Some v
     else if k = old then None else look k s)"
  using assms by (auto simp: move_key_def look_ins look_rem ready_rem)

end

section \<open>Object ids\<close>

definition zero_oid :: bytes where
  "zero_oid = replicate OID_LEN 0"

text \<open>The root's all-zero id stays out of the table.\<close>

definition oid_map_insert :: "bytes \<Rightarrow> iref \<Rightarrow> sb_info \<Rightarrow> unit res \<times> sb_info" where
  "oid_map_insert oid r sbi =
    (if oid = zero_oid then (Done, sbi)
     else case rht_insert oid r (sbi_oid_map sbi) of (e, m) \<Rightarrow> (e, sbi\<lparr>sbi_oid_map := m\<rparr>))"

definition oid_map_remove :: "bytes \<Rightarrow> sb_info \<Rightarrow> sb_info" where
  "oid_map_remove oid sbi =
    (if \<not> sbi_oid_map_ready sbi \<or> oid = zero_oid then sbi
     else sbi\<lparr>sbi_oid_map := (sbi_oid_map sbi)(oid := None)\<rparr>)"

definition lookup_oid :: "bytes \<Rightarrow> sb_info \<Rightarrow> iref option" where
  "lookup_oid oid sbi = (if \<not> sbi_oid_map_ready sbi then None else sbi_oid_map sbi oid)"

interpretation oid_tab: lookup_table lookup_oid "\<lambda>k v s. snd (oid_map_insert k v s)" oid_map_remove
  sbi_oid_map_ready "\<lambda>k. k \<noteq> zero_oid"
  by unfold_locales
    (auto simp: lookup_oid_def oid_map_insert_def oid_map_remove_def rht_insert_def split: option.split)

section \<open>Relative paths\<close>

definition path_map_add :: "iref \<Rightarrow> sb_info \<Rightarrow> sb_info" where
  "path_map_add r sbi =
    (case sbi_inodes sbi r of
       None \<Rightarrow> sbi
     | Some si \<Rightarrow>
        (case si_rel_path si of
           None \<Rightarrow> sbi
         | Some p \<Rightarrow>
            (if \<not> sbi_path_map_ready sbi \<or> si_path_hashed si then sbi
             else case rht_insert p r (sbi_path_map sbi) of
                 (Err e, m) \<Rightarrow> sbi
               | (Ok _, m) \<Rightarrow> upd_inode r (\<lambda>i. i\<lparr>si_path_hashed := True\<rparr>) (sbi\<lparr>sbi_path_map := m\<rparr>))))"

definition path_map_del :: "iref \<Rightarrow> sb_info \<Rightarrow> sb_info" where
  "path_map_del r sbi =
    (case sbi_inodes sbi r of
       None \<Rightarrow> sbi
     | Some si \<Rightarrow>
        (if \<not> si_path_hashed si then sbi
         else let s1 = (case si_rel_path si of
                   None \<Rightarrow> sbi
                 | Some p \<Rightarrow> (if sbi_path_map_ready sbi then sbi\<lparr>sbi_path_map := (sbi_path_map sbi)(p := None)\<rparr> else sbi))
           in upd_inode r (\<lambda>i. i\<lparr>si_path_hashed := False\<rparr>) s1))"

definition lookup_rel_path :: "string option \<Rightarrow> sb_info \<Rightarrow> iref option" where
  "lookup_rel_path rel sbi =
    (case rel of None \<Rightarrow> None | Some p \<Rightarrow> if \<not> sbi_path_map_ready sbi then None else sbi_path_map sbi p)"

text \<open>
  The sequence every rewrite of a relative path uses: unhash, replace the string, hash again.
\<close>

definition set_rel_path :: "iref \<Rightarrow> string option \<Rightarrow> sb_info \<Rightarrow> sb_info" where
  "set_rel_path r rel sbi =
     path_map_add r (upd_inode r (\<lambda>i. i\<lparr>si_rel_path := rel\<rparr>) (path_map_del r sbi))"

section \<open>Lower inode numbers\<close>

text \<open>The key packs the tier into the top byte over the low 56 bits of the lower inode number.\<close>

definition lower_key :: "u8 \<Rightarrow> u64 \<Rightarrow> u64" where
  "lower_key tier_idx lower_ino = push_bit 56 (ucast tier_idx) OR (lower_ino AND (push_bit 56 1 - 1))"

definition lower_ino_map_get :: "u8 \<Rightarrow> u64 \<Rightarrow> sb_info \<Rightarrow> u64" where
  "lower_ino_map_get t i sbi =
    (if \<not> sbi_lower_ino_map_ready sbi then 0
     else case sbi_lower_ino_map sbi (lower_key t i) of None \<Rightarrow> 0 | Some n \<Rightarrow> n)"

definition lower_ino_map_insert :: "bool \<Rightarrow> u8 \<Rightarrow> u64 \<Rightarrow> u64 \<Rightarrow> sb_info \<Rightarrow> unit res \<times> sb_info" where
  "lower_ino_map_insert alloc t i n sbi =
    (if \<not> sbi_lower_ino_map_ready sbi then (Done, sbi)
     else if \<not> alloc then (Err ENOMEM, sbi)
     else case rht_insert (lower_key t i) n (sbi_lower_ino_map sbi) of
         (Err e, m) \<Rightarrow> (if e = EEXIST then Done else Err e, sbi)
       | (Ok _, m) \<Rightarrow> (Done, sbi\<lparr>sbi_lower_ino_map := m\<rparr>))"

definition lower_ino_map_remove :: "u8 \<Rightarrow> u64 \<Rightarrow> sb_info \<Rightarrow> sb_info" where
  "lower_ino_map_remove t i sbi =
    (if \<not> sbi_lower_ino_map_ready sbi then sbi
     else sbi\<lparr>sbi_lower_ino_map := (sbi_lower_ino_map sbi)(lower_key t i := None)\<rparr>)"

lemma lower_key_alt: "lower_key t i = push_bit 56 (ucast t) OR take_bit 56 i"
proof -
  have mask: "push_bit 56 1 - 1 = (mask 56 :: u64)" by (simp add: mask_eq_exp_minus_1)
  show ?thesis by (simp only: lower_key_def mask take_bit_eq_mask)
qed

lemma bit_lower_key:
  "n < 64 \<Longrightarrow> bit (lower_key t i) n \<longleftrightarrow> (if n < 56 then bit i n else bit t (n - 56))"
  by (auto simp: lower_key_alt bit_or_iff bit_push_bit_iff bit_take_bit_iff bit_ucast_iff
      dest: bit_imp_le_length)

lemma lower_key_inj:
  assumes "lower_key t i = lower_key t' i'" "i < 2 ^ 56" "i' < 2 ^ 56"
  shows "t = t' \<and> i = i'"
proof
  show "t = t'"
  proof (rule bit_word_eqI)
    fix n :: nat assume "n < LENGTH(8)"
    then show "bit t n = bit t' n"
      using assms(1) bit_lower_key [of "n + 56" t i] bit_lower_key [of "n + 56" t' i'] by simp
  qed
  have high: "\<not> bit j n" if "j < 2 ^ 56" "56 \<le> n" for j :: u64 and n
    using that by (metis bit_take_bit_iff less_mask_eq not_less take_bit_eq_mask)
  show "i = i'"
  proof (rule bit_word_eqI)
    fix n :: nat assume n: "n < LENGTH(64)"
    show "bit i n = bit i' n"
    proof (cases "n < 56")
      case True
      then show ?thesis using n assms(1) bit_lower_key [of n t i] bit_lower_key [of n t' i'] by simp
    next
      case False
      then show ?thesis using high [OF assms(2)] high [OF assms(3)] by simp
    qed
  qed
qed

text \<open>The table seen through its key: a tier and a lower inode number below \<open>2^56\<close>.\<close>

definition lower_ino_look :: "u8 \<times> u64 \<Rightarrow> sb_info \<Rightarrow> u64 option" where
  "lower_ino_look k sbi =
    (if \<not> sbi_lower_ino_map_ready sbi then None else sbi_lower_ino_map sbi (lower_key (fst k) (snd k)))"

definition lower_ino_valid :: "u8 \<times> u64 \<Rightarrow> bool" where
  "lower_ino_valid k \<longleftrightarrow> snd k < 2 ^ 56"

interpretation lower_tab: lookup_table lower_ino_look
  "\<lambda>k n s. snd (lower_ino_map_insert True (fst k) (snd k) n s)" "\<lambda>k. lower_ino_map_remove (fst k) (snd k)"
  sbi_lower_ino_map_ready lower_ino_valid
proof unfold_locales
  fix s :: sb_info and k k' :: "u8 \<times> u64" and v :: u64
  assume r: "sbi_lower_ino_map_ready s"
  show "sbi_lower_ino_map_ready (snd (lower_ino_map_insert True (fst k) (snd k) v s))"
    using r by (auto simp: lower_ino_map_insert_def rht_insert_def split: option.split)
  show "sbi_lower_ino_map_ready (lower_ino_map_remove (fst k) (snd k) s)"
    using r by (simp add: lower_ino_map_remove_def)
  assume "lower_ino_valid k" "lower_ino_valid k'"
  then have eq: "lower_key (fst k) (snd k) = lower_key (fst k') (snd k') \<longleftrightarrow> k = k'"
    using lower_key_inj [of "fst k" "snd k" "fst k'" "snd k'"] by (auto simp: lower_ino_valid_def prod_eq_iff)
  show "lower_ino_look k (snd (lower_ino_map_insert True (fst k') (snd k') v s)) =
    (if k = k' \<and> lower_ino_look k s = None then Some v else lower_ino_look k s)"
    using r eq by (auto simp: lower_ino_look_def lower_ino_map_insert_def rht_insert_def split: option.split)
  show "lower_ino_look k (lower_ino_map_remove (fst k') (snd k') s) = (if k = k' then None else lower_ino_look k s)"
    using r eq by (auto simp: lower_ino_look_def lower_ino_map_remove_def)
qed

section \<open>The OID writeback queue\<close>

text \<open>
  The xattr \<open>trusted.smoothfs.oid\<close> of the lower inodes is a map; \<open>dino\<close> is the lower inode a
  dentry refers to (none if negative) and \<open>xerr\<close> an error of the lower filesystem. Writing
  with \<open>XATTR_CREATE\<close> fails on an inode that has the xattr.
\<close>

type_synonym xattrs = "nat \<rightharpoonup> bytes"

definition setxattr_create :: "(nat \<Rightarrow> errno option) \<Rightarrow> nat \<Rightarrow> bytes \<Rightarrow> xattrs \<Rightarrow> unit res \<times> xattrs" where
  "setxattr_create xerr n oid xs =
    (case xerr n of
       Some e \<Rightarrow> (Err e, xs)
     | None \<Rightarrow> (if xs n = None then (Done, xs(n \<mapsto> oid)) else (Err EEXIST, xs)))"

definition oid_wb_flush_entry ::
  "(dentry \<Rightarrow> nat option) \<Rightarrow> (nat \<Rightarrow> errno option) \<Rightarrow> path \<times> bytes \<Rightarrow> xattrs \<Rightarrow> xattrs" where
  "oid_wb_flush_entry dino xerr e xs =
    (case dino (p_dentry (fst e)) of None \<Rightarrow> xs | Some n \<Rightarrow> snd (setxattr_create xerr n (snd e) xs))"

definition oid_wb_take :: "sb_info \<Rightarrow> sb_info" where
  "oid_wb_take sbi = sbi\<lparr>sbi_oid_wb_pending := [], sbi_oid_wb_count := 0\<rparr>"

definition oid_wb_worker ::
  "(dentry \<Rightarrow> nat option) \<Rightarrow> (nat \<Rightarrow> errno option) \<Rightarrow> sb_info \<Rightarrow> xattrs \<Rightarrow> sb_info \<times> xattrs" where
  "oid_wb_worker dino xerr sbi xs =
     (oid_wb_take sbi, fold (oid_wb_flush_entry dino xerr) (sbi_oid_wb_pending sbi) xs)"

definition oid_wb_drain ::
  "(dentry \<Rightarrow> nat option) \<Rightarrow> (nat \<Rightarrow> errno option) \<Rightarrow> sb_info \<Rightarrow> xattrs \<Rightarrow> sb_info \<times> xattrs" where
  "oid_wb_drain dino xerr sbi xs =
    (if \<not> sbi_oid_wb_ready sbi then (sbi, xs) else oid_wb_worker dino xerr sbi xs)"

definition oid_wb_destroy ::
  "(dentry \<Rightarrow> nat option) \<Rightarrow> (nat \<Rightarrow> errno option) \<Rightarrow> sb_info \<Rightarrow> xattrs \<Rightarrow> sb_info \<times> xattrs" where
  "oid_wb_destroy dino xerr sbi xs =
    (if \<not> sbi_oid_wb_ready sbi then (sbi, xs)
     else oid_wb_worker dino xerr (sbi\<lparr>sbi_oid_wb_ready := False\<rparr>) xs)"

definition oid_wb_forget :: "(dentry \<Rightarrow> nat option) \<Rightarrow> nat option \<Rightarrow> nat \<Rightarrow> sb_info \<Rightarrow> sb_info" where
  "oid_wb_forget dino lower nlink sbi =
    (case lower of
       None \<Rightarrow> sbi
     | Some n \<Rightarrow>
        (if nlink \<noteq> 0 \<or> \<not> sbi_oid_wb_ready sbi then sbi
         else let hit = (\<lambda>e. dino (p_dentry (fst e)) = Some n); q = sbi_oid_wb_pending sbi
           in sbi\<lparr>sbi_oid_wb_pending := filter (\<lambda>e. \<not> hit e) q,
                  sbi_oid_wb_count := sbi_oid_wb_count sbi - length (filter hit q)\<rparr>))"

definition oid_wb_peek :: "(dentry \<Rightarrow> nat option) \<Rightarrow> dentry \<Rightarrow> sb_info \<Rightarrow> bytes option" where
  "oid_wb_peek dino lower sbi =
    (if \<not> sbi_oid_wb_ready sbi \<or> dino lower = None then None
     else map_option snd (find (\<lambda>e. dino (p_dentry (fst e)) = dino lower) (sbi_oid_wb_pending sbi)))"

definition OID_WB_HIGH_WATER :: nat where
  "OID_WB_HIGH_WATER = 65536"

definition oid_wb_add :: "path \<times> bytes \<Rightarrow> sb_info \<Rightarrow> sb_info" where
  "oid_wb_add e sbi =
     sbi\<lparr>sbi_oid_wb_pending := sbi_oid_wb_pending sbi @ [e], sbi_oid_wb_count := sbi_oid_wb_count sbi + 1\<rparr>"

text \<open>The third component says whether the worker is run now.\<close>

definition oid_wb_queue ::
  "bool \<Rightarrow> (dentry \<Rightarrow> nat option) \<Rightarrow> (nat \<Rightarrow> errno option) \<Rightarrow> path \<Rightarrow> bytes \<Rightarrow> sb_info \<Rightarrow> xattrs
    \<Rightarrow> unit res \<times> bool \<times> sb_info \<times> xattrs" where
  "oid_wb_queue alloc dino xerr p oid sbi xs =
    (if \<not> sbi_oid_wb_ready sbi
     then case dino (p_dentry p) of
         None \<Rightarrow> (Err ENOENT, False, sbi, xs)
       | Some n \<Rightarrow> (case setxattr_create xerr n oid xs of (r, xs') \<Rightarrow> (r, False, sbi, xs'))
     else if \<not> alloc then (Err ENOMEM, False, sbi, xs)
     else let s = oid_wb_add (p, oid) sbi in (Done, OID_WB_HIGH_WATER \<le> sbi_oid_wb_count s, s, xs))"

interpretation oid_wb: writeback_queue sbi_oid_wb_pending sbi_oid_wb_count oid_wb_add oid_wb_take
  by unfold_locales (simp_all add: oid_wb_add_def oid_wb_take_def)

text \<open>The id a lower inode has or will have once the queue is flushed.\<close>

definition settled_oid :: "(dentry \<Rightarrow> nat option) \<Rightarrow> nat \<Rightarrow> sb_info \<Rightarrow> xattrs \<Rightarrow> bytes option" where
  "settled_oid dino n sbi xs =
    (case xs n of
       Some oid \<Rightarrow> Some oid
     | None \<Rightarrow> map_option snd (find (\<lambda>e. dino (p_dentry (fst e)) = Some n) (sbi_oid_wb_pending sbi)))"

lemma flush_entries_settle:
  assumes "\<And>n. xerr n = None"
  shows "fold (oid_wb_flush_entry dino xerr) q xs n =
    (case xs n of Some oid \<Rightarrow> Some oid
      | None \<Rightarrow> map_option snd (find (\<lambda>e. dino (p_dentry (fst e)) = Some n) q))"
proof (induction q arbitrary: xs)
  case Nil
  then show ?case by (simp split: option.split)
next
  case (Cons e q)
  then show ?case
    by (auto simp: oid_wb_flush_entry_def setxattr_create_def assms split: option.split)
qed

section \<open>Inode allocation and eviction\<close>

text \<open>
  \<open>smoothfs_alloc_inode\<close> initialises a slab object that may have been another inode before.
  The snapshot of the last heat drain is not among the fields it sets: \<open>stale\<close> is what the
  object held.
\<close>

definition alloc_inode :: "heat_counters \<Rightarrow> u64 \<Rightarrow> inode_info" where
  "alloc_inode stale ino = \<lparr>si_ino = ino, si_kind = IK_REG, si_size = 0, si_nlink = 1, si_oid = zero_oid, si_gen = 0,
     si_current_tier = 0, si_intended_tier = 0, si_movement_state = MS_PLACED, si_pin_state = PIN_NONE,
     si_nlink_observed = 1, si_transaction_seq = 0, si_cutover_gen = 0, si_lower_path = None,
     si_write_seq = 0, si_write_reservation = False, si_mappings_quiesced = False, si_write_staged = False,
     si_write_staged_drain_tier = word_of_nat MAX_TIERS, si_unmount_pins = 0, si_replay_pinned = False,
     si_rel_path = None, si_path_hashed = False, si_aliases = [],
     si_heat = stale\<lparr>h_open_count := 0, h_read_bytes := 0, h_write_bytes := 0, h_last_access_ns := 0\<rparr>,
     si_rs = \<lparr>rs_range_staged = False, rs_pinned = False, rs_recovered = False,
       rs_source_tier = word_of_nat MAX_TIERS, rs_path = None, rs_ranges = []\<rparr>\<rparr>"

text \<open>
  \<open>smoothfs_evict_inode\<close>: the inode leaves every table and the inode list, and its record,
  the staged ranges included, is freed. \<open>lino\<close> is the lower inode number of a dentry.
\<close>

definition evict_inode :: "(dentry \<Rightarrow> u64) \<Rightarrow> iref \<Rightarrow> sb_info \<Rightarrow> sb_info" where
  "evict_inode lino r sbi =
    (case sbi_inodes sbi r of
       None \<Rightarrow> sbi
     | Some si \<Rightarrow>
        (let s1 = clear_write_reservation r sbi;
             s2 = oid_map_remove (si_oid si) s1;
             s3 = path_map_del r s2;
             s4 = (case si_lower_path si of
                     None \<Rightarrow> s3
                   | Some p \<Rightarrow>
                      (let t = tier_of s3 (p_mnt p)
                       in if t < MAX_TIERS then lower_ino_map_remove (word_of_nat t) (lino (p_dentry p)) s3 else s3))
         in s4\<lparr>sbi_inode_list := removeAll r (sbi_inode_list s4), sbi_inodes := (sbi_inodes s4)(r := None)\<rparr>))"

end
