(* ===== verification/Inode_Identity.thy ===== *)
theory Inode_Identity
  imports Lower_Maps
begin

text \<open>
  Object ids and inode numbers: the id allocator and the xattr accessors of
  \<open>src/src/smoothfs/oid.c\<close>, and \<open>smoothfs_iget\<close> of \<open>super.c\<close>, which turns a lower path
  into the one cached inode of its object. The clock, the random source and \<open>xxh64\<close> are
  arguments.
\<close>

section \<open>Object ids\<close>

text \<open>
  \<open>be\<close> is the byte order of the machine: \<open>memcpy\<close> copies the random word as it is stored.
\<close>

definition alloc_oid :: "bool \<Rightarrow> u64 \<Rightarrow> u64 \<Rightarrow> sb_info \<Rightarrow> bytes \<times> sb_info" where
  "alloc_oid be now_ns rnd sbi =
    (let mono = sbi_oid_monotonic sbi + 1;
         ms = now_ns div 1000000;
         ctr = ucast (mono AND 0x0FFF) :: u16;
         r = (rnd AND NOT (push_bit 56 0xC0)) OR push_bit 56 0x80;
         tail = (if be then rev (le_bytes 8 r) else le_bytes 8 r)
     in ([ucast (drop_bit 40 ms), ucast (drop_bit 32 ms), ucast (drop_bit 24 ms), ucast (drop_bit 16 ms),
          ucast (drop_bit 8 ms), ucast ms,
          0x70 OR (ucast (drop_bit 8 ctr) AND 0x0f), ucast ctr] @ tail,
         sbi\<lparr>sbi_oid_monotonic := mono\<rparr>))"

text \<open>Reading an id xattr into a 16-byte buffer.\<close>

definition read_oid_xattr :: "(nat \<Rightarrow> errno option) \<Rightarrow> nat \<Rightarrow> xattrs \<Rightarrow> bytes res" where
  "read_oid_xattr rerr n xs =
    (case rerr n of
       Some e \<Rightarrow> Err e
     | None \<Rightarrow>
       (case xs n of
          None \<Rightarrow> Err ENODATA
        | Some b \<Rightarrow> (if OID_LEN < length b then Err ERANGE else if length b \<noteq> OID_LEN then Err EIO else Ok b)))"

definition write_oid_xattr :: "(nat \<Rightarrow> errno option) \<Rightarrow> nat \<Rightarrow> bytes \<Rightarrow> xattrs \<Rightarrow> unit res \<times> xattrs" where
  "write_oid_xattr xerr n oid xs = setxattr_create xerr n oid xs"

text \<open>The generation xattr: absent means zero; the value is four little-endian bytes.\<close>

definition read_gen_xattr :: "bytes res \<Rightarrow> u32 res" where
  "read_gen_xattr v =
    (case v of
       Err e \<Rightarrow> (if e = ENODATA then Ok 0 else Err e)
     | Ok b \<Rightarrow> (if length b \<noteq> 4 then Err EIO else Ok (le32_to_cpu b)))"

definition write_gen_xattr :: "u32 \<Rightarrow> bytes" where
  "write_gen_xattr gen = cpu_to_le32 gen"

definition inode_no_from_oid :: "(bytes \<Rightarrow> u64) \<Rightarrow> bytes \<Rightarrow> u64" where
  "inode_no_from_oid xxh64 oid = xxh64 oid OR push_bit 63 1"

section \<open>Finding the inode of a lower path\<close>

record iget_env =
  ig_be :: bool
  ig_now :: u64
  ig_rand :: u64
  ig_xxh64 :: "bytes \<Rightarrow> u64"
  ig_dino :: "dentry \<Rightarrow> nat option"
  ig_lino :: "dentry \<Rightarrow> u64"
  ig_xerr :: "nat \<Rightarrow> errno option"
  ig_rerr :: "nat \<Rightarrow> errno option"
  ig_gen :: "dentry \<Rightarrow> bytes res"
  ig_kind :: "dentry \<Rightarrow> ikind"
  ig_size :: "dentry \<Rightarrow> int"
  ig_nlink :: "dentry \<Rightarrow> nat"
  ig_stale :: heat_counters
  ig_alloc :: bool
  ig_alloc_wb :: bool
  ig_alloc_map :: bool

definition copy_attrs :: "iget_env \<Rightarrow> dentry \<Rightarrow> inode_info \<Rightarrow> inode_info" where
  "copy_attrs env d si = si\<lparr>si_kind := ig_kind env d, si_size := ig_size env d, si_nlink := ig_nlink env d\<rparr>"

text \<open>
  The cached inode of a lower path, if the table knows the lower inode number and the inode's
  actual backing is this lower inode; a stale entry is removed.
\<close>

definition iget_cached :: "iget_env \<Rightarrow> path \<Rightarrow> sb_info \<Rightarrow> iref option \<times> sb_info" where
  "iget_cached env lower sbi =
    (let t = word_of_nat (tier_of sbi (p_mnt lower)); n = lower_ino_map_get t (ig_lino env (p_dentry lower)) sbi
     in if n = 0 then (None, sbi)
        else case sbi_inodes sbi n of
            None \<Rightarrow> (None, sbi)
          | Some si \<Rightarrow>
             (if (case si_lower_path si of None \<Rightarrow> False
                  | Some c \<Rightarrow> p_mnt c = p_mnt lower \<and> ig_dino env (p_dentry c) = ig_dino env (p_dentry lower))
              then (Some n, sbi)
              else (None, lower_ino_map_remove t (ig_lino env (p_dentry lower)) sbi)))"

text \<open>The id of the lower inode: stored, pending in the writeback queue, or missing.\<close>

definition iget_known_oid :: "iget_env \<Rightarrow> path \<Rightarrow> nat \<Rightarrow> sb_info \<Rightarrow> xattrs \<Rightarrow> bytes res \<times> sb_info \<times> xattrs" where
  "iget_known_oid env lower n sbi xs =
    (case read_oid_xattr (ig_rerr env) n xs of
       Ok oid \<Rightarrow> (Ok oid, sbi, xs)
     | Err e \<Rightarrow>
       (if e \<noteq> ENODATA then (Err e, sbi, xs)
        else case oid_wb_peek (ig_dino env) (p_dentry lower) sbi of
            Some oid \<Rightarrow> (Ok oid, sbi, xs)
          | None \<Rightarrow>
             (case oid_wb_drain (ig_dino env) (ig_xerr env) sbi xs of
                (sbi', xs') \<Rightarrow> (read_oid_xattr (ig_rerr env) n xs', sbi', xs'))))"

text \<open>Minting an id for a lower inode that has none.\<close>

definition iget_mint :: "iget_env \<Rightarrow> path \<Rightarrow> sb_info \<Rightarrow> xattrs \<Rightarrow> bytes res \<times> sb_info \<times> xattrs" where
  "iget_mint env lower sbi xs =
    (case alloc_oid (ig_be env) (ig_now env) (ig_rand env) sbi of
       (oid, s1) \<Rightarrow>
         (case oid_wb_queue (ig_alloc_wb env) (ig_dino env) (ig_xerr env) lower oid s1 xs of
            (Err e, _, s2, xs') \<Rightarrow> (Err e, s2, xs')
          | (Ok _, _, s2, xs') \<Rightarrow> (Ok oid, s2, xs')))"

text \<open>Entering a new inode into the list, the id table and the lower-number table.\<close>

definition iget_new ::
  "iget_env \<Rightarrow> path \<Rightarrow> bool \<Rightarrow> nat \<Rightarrow> u64 \<Rightarrow> bytes \<Rightarrow> u32 \<Rightarrow> sb_info \<Rightarrow> iref res \<times> sb_info" where
  "iget_new env lower root tier_idx ino oid gen sbi =
    (if \<not> ig_alloc env then (Err ENOMEM, sbi)
     else let tier = (if root then 0 else word_of_nat tier_idx);
              si = copy_attrs env (p_dentry lower)
                     ((alloc_inode (ig_stale env) ino)\<lparr>si_oid := oid, si_gen := gen, si_lower_path := Some lower,
                        si_current_tier := tier, si_intended_tier := tier\<rparr>);
              s1 = sbi\<lparr>sbi_inodes := (sbi_inodes sbi)(ino \<mapsto> si), sbi_inode_list := ino # sbi_inode_list sbi\<rparr>;
              s2 = snd (oid_map_insert oid ino s1);
              s3 = (if \<not> root \<and> tier_idx < MAX_TIERS
                    then snd (lower_ino_map_insert (ig_alloc_map env) (word_of_nat tier_idx) (ig_lino env (p_dentry lower)) ino s2)
                    else s2)
       in (Ok ino, s3))"

definition iget_finish ::
  "iget_env \<Rightarrow> path \<Rightarrow> bool \<Rightarrow> nat \<Rightarrow> u64 \<Rightarrow> bytes \<Rightarrow> u32 \<Rightarrow> sb_info \<Rightarrow> iref res \<times> sb_info" where
  "iget_finish env lower root tier_idx ino oid gen sbi =
    (case sbi_inodes sbi ino of
       Some _ \<Rightarrow> (Ok ino, sbi)
     | None \<Rightarrow> iget_new env lower root tier_idx ino oid gen sbi)"

definition iget :: "iget_env \<Rightarrow> path \<Rightarrow> bool \<Rightarrow> bool \<Rightarrow> sb_info \<Rightarrow> xattrs \<Rightarrow> iref res \<times> sb_info \<times> xattrs" where
  "iget env lower root fresh sbi xs =
    (if root
     then case iget_finish env lower True MAX_TIERS 1 zero_oid 0 sbi of (r, s) \<Rightarrow> (r, s, xs)
     else case iget_cached env lower sbi of
         (Some r, s1) \<Rightarrow> (Ok r, s1, xs)
       | (None, s1) \<Rightarrow>
          (case ig_dino env (p_dentry lower) of
             None \<Rightarrow> (Err ENOENT, s1, xs)
           | Some n \<Rightarrow>
              (let tier_idx = tier_of sbi (p_mnt lower)
               in case (if fresh then (Err ENODATA, s1, xs) else iget_known_oid env lower n s1 xs) of
                   (Ok oid, s2, xs2) \<Rightarrow>
                     (let gen = (case read_gen_xattr (ig_gen env (p_dentry lower)) of Ok g \<Rightarrow> g | Err _ \<Rightarrow> 0)
                      in case iget_finish env lower False tier_idx (inode_no_from_oid (ig_xxh64 env) oid) oid gen s2 of
                           (r, s) \<Rightarrow> (r, s, xs2))
                 | (Err e, s2, xs2) \<Rightarrow>
                     (if e \<noteq> ENODATA then (Err e, s2, xs2)
                      else case iget_mint env lower s2 xs2 of
                          (Err e, s3, xs3) \<Rightarrow> (Err e, s3, xs3)
                        | (Ok oid, s3, xs3) \<Rightarrow>
                            (case iget_finish env lower False tier_idx (inode_no_from_oid (ig_xxh64 env) oid) oid 0 s3 of
                               (r, s) \<Rightarrow> (r, s, xs3))))))"

section \<open>The allocator\<close>

lemma nth_le_bytes: "i < n \<Longrightarrow> le_bytes n w ! i = ucast (drop_bit (8 * i) w)"
proof (induction n arbitrary: w i)
  case 0
  then show ?case by simp
next
  case (Suc n)
  then show ?case by (cases i) (auto simp: drop_bit_drop_bit ac_simps)
qed

lemma length_alloc_oid: "length (fst (alloc_oid be now rnd sbi)) = OID_LEN"
  by (simp add: alloc_oid_def Let_def OID_LEN_def)

lemma alloc_oid_counter_bytes:
  "fst (alloc_oid be now rnd sbi) ! 6 = 0x70 OR (ucast (drop_bit 8 (ucast ((sbi_oid_monotonic sbi + 1) AND 0x0FFF) :: u16)) AND 0x0f)"
  "fst (alloc_oid be now rnd sbi) ! 7 = ucast (ucast ((sbi_oid_monotonic sbi + 1) AND 0x0FFF) :: u16)"
  by (simp_all add: alloc_oid_def Let_def)

lemma and_0xFFF: "x AND 0x0FFF = take_bit 12 (x :: u64)"
proof -
  have "(0x0FFF :: u64) = mask 12" by (simp add: mask_eq_exp_minus_1)
  then show ?thesis by (simp only: take_bit_eq_mask)
qed

lemma and_0x0f: "x AND 0x0f = take_bit 4 (x :: u8)"
proof -
  have "(0x0f :: u8) = mask 4" by (simp add: mask_eq_exp_minus_1)
  then show ?thesis by (simp only: take_bit_eq_mask)
qed

lemma bit_0x70_low: "n < 4 \<Longrightarrow> \<not> bit (0x70 :: u8) n"
proof -
  assume "n < 4"
  then have "n = 0 \<or> n = 1 \<or> n = 2 \<or> n = 3" by arith
  then show ?thesis by (elim disjE) simp_all
qed

lemma bit_0x70_high: "4 \<le> n \<Longrightarrow> n < 8 \<Longrightarrow> bit (0x70 :: u8) n \<longleftrightarrow> n \<noteq> 7"
proof -
  assume "4 \<le> n" "n < 8"
  then have "n = 4 \<or> n = 5 \<or> n = 6 \<or> n = 7" by arith
  then show ?thesis by (elim disjE) simp_all
qed

lemma alloc_oid_bits:
  "n < 8 \<Longrightarrow> bit (fst (alloc_oid be now rnd sbi) ! 7) n \<longleftrightarrow> bit (sbi_oid_monotonic sbi + 1) n"
  "n < 4 \<Longrightarrow> bit (fst (alloc_oid be now rnd sbi) ! 6) n \<longleftrightarrow> bit (sbi_oid_monotonic sbi + 1) (n + 8)"
  "4 \<le> n \<Longrightarrow> n < 8 \<Longrightarrow> bit (fst (alloc_oid be now rnd sbi) ! 6) n \<longleftrightarrow> n \<noteq> 7"
  using bit_0x70_low [of n] bit_0x70_high [of n]
  by (auto simp: alloc_oid_counter_bytes and_0xFFF and_0x0f bit_or_iff bit_ucast_iff bit_take_bit_iff
      bit_drop_bit_eq add.commute)

lemma take_bit_12_counter:
  assumes "fst (alloc_oid be now rnd sbi) = fst (alloc_oid be now' rnd' sbi')"
  shows "take_bit 12 (sbi_oid_monotonic sbi + 1) = take_bit 12 (sbi_oid_monotonic sbi' + 1)"
proof (rule bit_word_eqI)
  fix n :: nat assume "n < LENGTH(64)"
  show "bit (take_bit 12 (sbi_oid_monotonic sbi + 1)) n = bit (take_bit 12 (sbi_oid_monotonic sbi' + 1)) n"
  proof (cases "n < 8")
    case True
    then show ?thesis
      using alloc_oid_bits(1) [of n be now rnd sbi] alloc_oid_bits(1) [of n be now' rnd' sbi'] assms
      by (simp add: bit_take_bit_iff)
  next
    case False
    then show ?thesis
      using alloc_oid_bits(2) [of "n - 8" be now rnd sbi] alloc_oid_bits(2) [of "n - 8" be now' rnd' sbi'] assms
      by (auto simp: bit_take_bit_iff)
  qed
qed

lemma uint_take_12_add: "uint (take_bit 12 (x + y :: u64)) = (uint x + uint y) mod 4096"
proof -
  have "uint (take_bit 12 (x + y)) = uint (x + y) mod 2 ^ 12"
    by (simp only: unsigned_take_bit_eq) (simp only: take_bit_eq_mod)
  also have "uint (x + y) = (uint x + uint y) mod 2 ^ 64"
    by (simp add: uint_word_ariths(1))
  also have "\<dots> mod 2 ^ 12 = (uint x + uint y) mod 2 ^ 12"
    by (rule mod_mod_cancel) simp
  finally show ?thesis by simp
qed

text \<open>
  Object ids carry the UUID version 7 in the upper half of their seventh byte, and among
  any 4096 consecutive allocations of a pool all ids are distinct, whatever the clock and the
  random source return.
\<close>

theorem alloc_oid_distinct:
  assumes "sbi_oid_monotonic sbi' = sbi_oid_monotonic sbi + word_of_nat k" "0 < k" "k < 4096"
  shows "fst (alloc_oid be now rnd sbi) \<noteq> fst (alloc_oid be now' rnd' sbi')
    \<and> drop_bit 4 (fst (alloc_oid be now rnd sbi) ! 6) = 7"
proof
  have k1: "uint (word_of_nat k + 1 :: u64) = int k + 1"
  proof -
    have "word_of_nat k + 1 = (word_of_nat (Suc k) :: u64)" by simp
    moreover have "take_bit 64 (Suc k) = Suc k" using assms(3) by (intro take_bit_nat_eq_self) simp
    ultimately show ?thesis by (simp only: unsigned_of_nat len_num1 len_bit0 len_num0) simp
  qed
  show "fst (alloc_oid be now rnd sbi) \<noteq> fst (alloc_oid be now' rnd' sbi')"
  proof
    assume "fst (alloc_oid be now rnd sbi) = fst (alloc_oid be now' rnd' sbi')"
    then have "take_bit 12 (sbi_oid_monotonic sbi + 1) = take_bit 12 (sbi_oid_monotonic sbi + word_of_nat k + 1)"
      using take_bit_12_counter assms(1) by metis
    then have "uint (take_bit 12 (sbi_oid_monotonic sbi + 1)) = uint (take_bit 12 (sbi_oid_monotonic sbi + (word_of_nat k + 1)))"
      by (simp only: add.assoc)
    then have "(uint (sbi_oid_monotonic sbi) + 1) mod 4096 = (uint (sbi_oid_monotonic sbi) + int k + 1) mod 4096"
      using k1 by (simp only: uint_take_12_add uint_1 add.assoc)
    then have "4096 dvd (uint (sbi_oid_monotonic sbi) + int k + 1) - (uint (sbi_oid_monotonic sbi) + 1)"
      by (metis mod_eq_dvd_iff)
    then have "4096 dvd int k" by simp
    then show False using assms(2,3) zdvd_imp_le [of 4096 "int k"] by simp
  qed
  show "drop_bit 4 (fst (alloc_oid be now rnd sbi) ! 6) = 7"
  proof (rule bit_word_eqI)
    fix n :: nat assume n: "n < LENGTH(8)"
    have "(7 :: u8) = mask 3" by (simp add: mask_eq_exp_minus_1)
    then have "bit (7 :: u8) n \<longleftrightarrow> bit (mask 3 :: u8) n" by (simp only:)
    then have "bit (7 :: u8) n \<longleftrightarrow> n < 3" using n by (simp only: bit_mask_iff) simp
    moreover have "bit (drop_bit 4 (fst (alloc_oid be now rnd sbi) ! 6)) n \<longleftrightarrow> n < 3"
      using alloc_oid_bits(3) [of "n + 4" be now rnd sbi] n bit_imp_le_length [of "fst (alloc_oid be now rnd sbi) ! 6" "n + 4"]
      by (auto simp: bit_drop_bit_eq ac_simps)
    ultimately show "bit (drop_bit 4 (fst (alloc_oid be now rnd sbi) ! 6)) n = bit (7 :: u8) n" by (simp only:)
  qed
qed

theorem alloc_oid_distinct_witness:
  "fst (alloc_oid False 5 9 ex_pool) \<noteq> fst (alloc_oid False 5 9 (ex_pool\<lparr>sbi_oid_monotonic := 1\<rparr>))"
  using alloc_oid_distinct [of "ex_pool\<lparr>sbi_oid_monotonic := 1\<rparr>" ex_pool 1 False 5 9 5 9]
  by (simp add: ex_pool_def)

text \<open>
  On a little-endian machine the variant bits the allocator forces into its random word
  land in the last byte of the id: the ninth byte, where the UUID layout has the variant, is
  the low byte of the random word, unconstrained.
\<close>

theorem alloc_oid_variant_misplaced:
  "fst (alloc_oid False now rnd sbi) ! 8 = ucast rnd
    \<and> bit (fst (alloc_oid False now rnd sbi) ! 15) 7 \<and> \<not> bit (fst (alloc_oid False now rnd sbi) ! 15) 6"
proof -
  define c d :: u64 where "c = push_bit 56 0xC0" and "d = push_bit 56 0x80"
  define r where "r = (rnd AND NOT c) OR d"
  have c: "bit c n \<longleftrightarrow> 56 \<le> n \<and> n < 64 \<and> bit (0xC0 :: u64) (n - 56)" for n
    unfolding c_def bit_push_bit_iff by auto
  have d: "bit d n \<longleftrightarrow> 56 \<le> n \<and> n < 64 \<and> bit (0x80 :: u64) (n - 56)" for n
    unfolding d_def bit_push_bit_iff by auto
  obtain hd8 where hd8: "fst (alloc_oid False now rnd sbi) = hd8 @ le_bytes 8 r" "length hd8 = 8"
    unfolding alloc_oid_def Let_def r_def c_def d_def by (simp only: if_False fst_conv) simp
  have "fst (alloc_oid False now rnd sbi) ! 8 = ucast r"
    using hd8 by (simp add: nth_append nth_le_bytes)
  moreover have "ucast r = (ucast rnd :: u8)"
    by (rule bit_word_eqI) (auto simp: r_def bit_ucast_iff bit_or_iff bit_and_iff bit_not_iff c d)
  moreover have "fst (alloc_oid False now rnd sbi) ! 15 = ucast (drop_bit 56 r)"
    using hd8 by (simp add: nth_append nth_le_bytes)
  moreover have "bit r 63" "\<not> bit r 62"
    by (auto simp: r_def bit_or_iff bit_and_iff bit_not_iff c d)
  ultimately show ?thesis by (simp add: bit_ucast_iff bit_drop_bit_eq)
qed

section \<open>Stable identity\<close>

text \<open>No lower filesystem errors and enough memory.\<close>

definition iget_healthy :: "iget_env \<Rightarrow> bool" where
  "iget_healthy env \<longleftrightarrow> (\<forall>n. ig_xerr env n = None) \<and> (\<forall>n. ig_rerr env n = None)
     \<and> ig_alloc env \<and> ig_alloc_wb env \<and> ig_alloc_map env"

lemma iget_cached_none:
  assumes "lower_ino_map_get (word_of_nat (tier_of sbi (p_mnt p))) (ig_lino env (p_dentry p)) sbi = 0"
  shows "iget_cached env p sbi = (None, sbi)"
  using assms by (simp add: iget_cached_def)

text \<open>A new file: no inode, table entry, xattr or queued id for it yet.\<close>

definition iget_fresh_lower :: "iget_env \<Rightarrow> path \<Rightarrow> nat \<Rightarrow> sb_info \<Rightarrow> xattrs \<Rightarrow> bool" where
  "iget_fresh_lower env p n sbi xs \<longleftrightarrow>
     ig_dino env (p_dentry p) = Some n \<and> tier_of sbi (p_mnt p) < MAX_TIERS \<and> sbi_oid_wb_ready sbi
     \<and> sbi_lower_ino_map_ready sbi
     \<and> sbi_lower_ino_map sbi (lower_key (word_of_nat (tier_of sbi (p_mnt p))) (ig_lino env (p_dentry p))) = None
     \<and> xs n = None \<and> (\<forall>e \<in> set (sbi_oid_wb_pending sbi). ig_dino env (p_dentry (fst e)) \<noteq> Some n)"

definition minted :: "iget_env \<Rightarrow> sb_info \<Rightarrow> bytes" where
  "minted env sbi = fst (alloc_oid (ig_be env) (ig_now env) (ig_rand env) sbi)"

lemma alloc_oid_not_zero: "fst (alloc_oid be now rnd sbi) \<noteq> zero_oid"
proof
  assume z: "fst (alloc_oid be now rnd sbi) = zero_oid"
  have "bit (fst (alloc_oid be now rnd sbi) ! 6) 4" using alloc_oid_bits(3) [of 4 be now rnd sbi] by simp
  then show False by (simp add: z zero_oid_def OID_LEN_def)
qed

lemma iget_new_fields:
  assumes "ig_alloc env" "iget_new env p False t ino oid gen sbi = (r, s)" "t < MAX_TIERS" "ig_alloc_map env"
    and "sbi_lower_ino_map_ready sbi"
  shows "r = Ok ino"
    and "\<exists>si. sbi_inodes s ino = Some si \<and> si_oid si = oid \<and> si_lower_path si = Some p
          \<and> \<not> si_write_reservation si \<and> \<not> si_path_hashed si"
    and "sbi_oid_wb_pending s = sbi_oid_wb_pending sbi" "sbi_oid_wb_ready s = sbi_oid_wb_ready sbi"
    and "sbi_tiers s = sbi_tiers sbi" "sbi_ntiers s = sbi_ntiers sbi"
    and "sbi_lower_ino_map_ready s"
    and "sbi_lower_ino_map sbi (lower_key (word_of_nat t) (ig_lino env (p_dentry p))) = None \<Longrightarrow>
      sbi_lower_ino_map s (lower_key (word_of_nat t) (ig_lino env (p_dentry p))) = Some ino"
  using assms
  by (auto simp: iget_new_def Let_def oid_map_insert_def rht_insert_def lower_ino_map_insert_def
      copy_attrs_def alloc_inode_def split: option.splits if_splits)

lemma iget_fresh_result:
  assumes "iget_healthy env" "iget_fresh_lower env p n sbi xs"
    and "sbi_inodes sbi (inode_no_from_oid (ig_xxh64 env) (minted env sbi)) = None"
  obtains s1 si where "iget env p False True sbi xs = (Ok (inode_no_from_oid (ig_xxh64 env) (minted env sbi)), s1, xs)"
    and "sbi_inodes s1 (inode_no_from_oid (ig_xxh64 env) (minted env sbi)) = Some si" "si_oid si = minted env sbi"
    and "si_lower_path si = Some p" "\<not> si_write_reservation si" "\<not> si_path_hashed si"
    and "sbi_oid_wb_pending s1 = sbi_oid_wb_pending sbi @ [(p, minted env sbi)]" "sbi_oid_wb_ready s1"
    and "sbi_tiers s1 = sbi_tiers sbi" "sbi_ntiers s1 = sbi_ntiers sbi" "sbi_lower_ino_map_ready s1"
proof -
  let ?oid = "minted env sbi"
  let ?ino = "inode_no_from_oid (ig_xxh64 env) ?oid"
  let ?t = "tier_of sbi (p_mnt p)"
  define s0 where "s0 = oid_wb_add (p, ?oid) (snd (alloc_oid (ig_be env) (ig_now env) (ig_rand env) sbi))"
  obtain r s1 where new: "iget_new env p False ?t ?ino ?oid 0 s0 = (r, s1)" by fastforce
  have f: "ig_dino env (p_dentry p) = Some n" "?t < MAX_TIERS" "sbi_oid_wb_ready sbi" "sbi_lower_ino_map_ready sbi"
    and key: "sbi_lower_ino_map sbi (lower_key (word_of_nat ?t) (ig_lino env (p_dentry p))) = None"
    using assms(2) by (simp_all add: iget_fresh_lower_def)
  have s0: "sbi_inodes s0 = sbi_inodes sbi" "sbi_oid_wb_pending s0 = sbi_oid_wb_pending sbi @ [(p, ?oid)]"
      "sbi_oid_wb_ready s0" "sbi_tiers s0 = sbi_tiers sbi" "sbi_ntiers s0 = sbi_ntiers sbi" "sbi_lower_ino_map_ready s0"
    using f by (simp_all add: s0_def oid_wb_add_def alloc_oid_def Let_def)
  have cached: "iget_cached env p sbi = (None, sbi)"
    using key by (intro iget_cached_none) (simp add: lower_ino_map_get_def)
  have mint: "iget_mint env p sbi xs = (Ok ?oid, s0, xs)"
    using assms(1) f by (simp add: iget_mint_def oid_wb_queue_def minted_def s0_def iget_healthy_def
        alloc_oid_def Let_def)
  have "iget env p False True sbi xs = (r, s1, xs)"
    using cached mint f new assms(3) s0(1) by (simp add: iget_def iget_finish_def Let_def)
  moreover note iget_new_fields [OF _ new f(2)]
  ultimately show thesis
    using that assms(1) s0 unfolding iget_healthy_def by (metis (no_types, lifting))
qed

text \<open>Eviction of such an inode: it leaves the cache and the lower-number table.\<close>

lemma evict_inode_fields:
  assumes "sbi_inodes s ino = Some si" "si_lower_path si = Some p" "\<not> si_write_reservation si" "\<not> si_path_hashed si"
    and "tier_of s (p_mnt p) < MAX_TIERS" "sbi_lower_ino_map_ready s"
  shows "sbi_inodes (evict_inode lino ino s) ino = None"
    and "sbi_lower_ino_map (evict_inode lino ino s) (lower_key (word_of_nat (tier_of s (p_mnt p))) (lino (p_dentry p))) = None"
    and "sbi_oid_wb_pending (evict_inode lino ino s) = sbi_oid_wb_pending s"
    and "sbi_oid_wb_ready (evict_inode lino ino s) = sbi_oid_wb_ready s"
    and "sbi_tiers (evict_inode lino ino s) = sbi_tiers s" "sbi_ntiers (evict_inode lino ino s) = sbi_ntiers s"
    and "sbi_lower_ino_map_ready (evict_inode lino ino s)"
proof -
  define s2 where "s2 = oid_map_remove (si_oid si) s"
  have s2: "sbi_inodes s2 = sbi_inodes s" "sbi_tiers s2 = sbi_tiers s" "sbi_ntiers s2 = sbi_ntiers s"
      "sbi_lower_ino_map_ready s2" "sbi_oid_wb_pending s2 = sbi_oid_wb_pending s" "sbi_oid_wb_ready s2 = sbi_oid_wb_ready s"
    using assms(6) by (simp_all add: s2_def oid_map_remove_def)
  have res: "clear_write_reservation ino s = s" using assms(1,3) by (simp add: clear_write_reservation_def)
  have del: "path_map_del ino s2 = s2" using assms(1,4) s2(1) by (simp add: path_map_del_def)
  have t: "tier_of s2 (p_mnt p) = tier_of s (p_mnt p)" using s2(2,3) by (simp add: tier_of_def)
  define s4 where "s4 = lower_ino_map_remove (word_of_nat (tier_of s (p_mnt p))) (lino (p_dentry p)) s2"
  have ev: "evict_inode lino ino s
      = s4\<lparr>sbi_inode_list := removeAll ino (sbi_inode_list s4), sbi_inodes := (sbi_inodes s4)(ino := None)\<rparr>"
    using assms(1,2,5) res del t by (simp add: evict_inode_def Let_def s2_def [symmetric] s4_def)
  show "sbi_inodes (evict_inode lino ino s) ino = None"
    "sbi_lower_ino_map (evict_inode lino ino s) (lower_key (word_of_nat (tier_of s (p_mnt p))) (lino (p_dentry p))) = None"
    "sbi_oid_wb_pending (evict_inode lino ino s) = sbi_oid_wb_pending s"
    "sbi_oid_wb_ready (evict_inode lino ino s) = sbi_oid_wb_ready s"
    "sbi_tiers (evict_inode lino ino s) = sbi_tiers s" "sbi_ntiers (evict_inode lino ino s) = sbi_ntiers s"
    "sbi_lower_ino_map_ready (evict_inode lino ino s)"
    unfolding ev using s2 by (simp_all add: s4_def lower_ino_map_remove_def)
qed

lemma iget_settled_result:
  assumes "iget_healthy env" "ig_dino env (p_dentry p) = Some n" "tier_of s (p_mnt p) < MAX_TIERS"
    and "sbi_oid_wb_ready s" "sbi_lower_ino_map_ready s"
    and "sbi_lower_ino_map s (lower_key (word_of_nat (tier_of s (p_mnt p))) (ig_lino env (p_dentry p))) = None"
    and "settled_oid (ig_dino env) n s xs = Some oid" "length oid = OID_LEN"
    and "sbi_inodes s (inode_no_from_oid (ig_xxh64 env) oid) = None"
  shows "\<exists>s' si. iget env p False False s xs = (Ok (inode_no_from_oid (ig_xxh64 env) oid), s', xs)
    \<and> sbi_inodes s' (inode_no_from_oid (ig_xxh64 env) oid) = Some si \<and> si_oid si = oid"
proof -
  have cached: "iget_cached env p s = (None, s)"
    using assms(5,6) by (intro iget_cached_none) (simp add: lower_ino_map_get_def)
  have known: "iget_known_oid env p n s xs = (Ok oid, s, xs)"
    using assms(1,2,4,7,8)
    by (cases "xs n") (auto simp: iget_known_oid_def read_oid_xattr_def iget_healthy_def settled_oid_def oid_wb_peek_def)
  obtain r s' where new: "iget_new env p False (tier_of s (p_mnt p)) (inode_no_from_oid (ig_xxh64 env) oid) oid
      (case read_gen_xattr (ig_gen env (p_dentry p)) of Ok g \<Rightarrow> g | Err _ \<Rightarrow> 0) s = (r, s')" by fastforce
  have "iget env p False False s xs = (r, s', xs)"
    using cached known assms(2,9) new by (simp add: iget_def iget_finish_def Let_def)
  then show ?thesis
    using iget_new_fields [OF _ new assms(3)] assms(1,5) unfolding iget_healthy_def by auto
qed

text \<open>
  C22. A file keeps its identity from its creation on: a freshly created file is given an
  inode number, and when its inode is evicted, before or after the queued id reaches the
  lower filesystem, the next lookup returns the same inode number and object id, although
  its clock and random source have moved on.
\<close>

theorem iget_identity_stable:
  assumes "iget_healthy env" "iget_fresh_lower env p n sbi xs"
    and "sbi_inodes sbi (inode_no_from_oid (ig_xxh64 env) (minted env sbi)) = None"
  shows "\<exists>ino s1. iget env p False True sbi xs = (Ok ino, s1, xs)
    \<and> (let s2 = evict_inode (ig_lino env) ino s1;
           (s3, xs3) = (if flushed then oid_wb_worker (ig_dino env) (ig_xerr env) s2 xs else (s2, xs))
       in \<exists>s4 si. iget (env\<lparr>ig_now := now, ig_rand := rnd\<rparr>) p False False s3 xs3 = (Ok ino, s4, xs3)
            \<and> sbi_inodes s4 ino = Some si \<and> si_oid si = minted env sbi)"
proof -
  let ?oid = "minted env sbi"
  let ?ino = "inode_no_from_oid (ig_xxh64 env) ?oid"
  let ?env = "env\<lparr>ig_now := now, ig_rand := rnd\<rparr>"
  obtain s1 si where i: "iget env p False True sbi xs = (Ok ?ino, s1, xs)"
    and si: "sbi_inodes s1 ?ino = Some si" "si_lower_path si = Some p" "\<not> si_write_reservation si" "\<not> si_path_hashed si"
    and s1: "sbi_oid_wb_pending s1 = sbi_oid_wb_pending sbi @ [(p, ?oid)]" "sbi_oid_wb_ready s1"
      "sbi_tiers s1 = sbi_tiers sbi" "sbi_ntiers s1 = sbi_ntiers sbi" "sbi_lower_ino_map_ready s1"
    by (rule iget_fresh_result [OF assms]) blast
  have f: "ig_dino env (p_dentry p) = Some n" "tier_of sbi (p_mnt p) < MAX_TIERS" "xs n = None"
      "\<forall>e \<in> set (sbi_oid_wb_pending sbi). ig_dino env (p_dentry (fst e)) \<noteq> Some n"
    using assms(2) by (simp_all add: iget_fresh_lower_def)
  have t1: "tier_of s1 m = tier_of sbi m" for m using s1(3,4) by (simp add: tier_of_def)
  define s2 where "s2 = evict_inode (ig_lino env) ?ino s1"
  note ev = evict_inode_fields [OF si, of "ig_lino env", folded s2_def]
  have s2: "sbi_inodes s2 ?ino = None" "sbi_oid_wb_pending s2 = sbi_oid_wb_pending sbi @ [(p, ?oid)]"
      "sbi_oid_wb_ready s2" "sbi_lower_ino_map_ready s2" "tier_of s2 m = tier_of sbi m"
      "sbi_lower_ino_map s2 (lower_key (word_of_nat (tier_of sbi (p_mnt p))) (ig_lino env (p_dentry p))) = None" for m
    using ev t1 f(2) s1 by (simp_all add: tier_of_def)
  define s3 xs3 where "s3 = (if flushed then oid_wb_take s2 else s2)"
    and "xs3 = (if flushed then fold (oid_wb_flush_entry (ig_dino env) (ig_xerr env)) (sbi_oid_wb_pending s2) xs else xs)"
  have s3: "(if flushed then oid_wb_worker (ig_dino env) (ig_xerr env) s2 xs else (s2, xs)) = (s3, xs3)"
    by (simp add: s3_def xs3_def oid_wb_worker_def)
  have found: "map_option snd (find (\<lambda>e. ig_dino env (p_dentry (fst e)) = Some n) (sbi_oid_wb_pending s2)) = Some ?oid"
  proof -
    have "find (\<lambda>e. ig_dino env (p_dentry (fst e)) = Some n) (q @ [(p, ?oid)]) = Some (p, ?oid)"
      if "\<forall>e \<in> set q. ig_dino env (p_dentry (fst e)) \<noteq> Some n" for q
      using that f(1) by (induction q) auto
    then show ?thesis using f(4) s2(2) by simp
  qed
  have settled: "settled_oid (ig_dino env) n s3 xs3 = Some ?oid"
    using found f(3) assms(1) flush_entries_settle [of "ig_xerr env" "ig_dino env" "sbi_oid_wb_pending s2" xs n]
    by (auto simp: settled_oid_def s3_def xs3_def iget_healthy_def split: option.split)
  have "\<exists>s' si. iget ?env p False False s3 xs3 = (Ok ?ino, s', xs3) \<and> sbi_inodes s' ?ino = Some si \<and> si_oid si = ?oid"
    using iget_settled_result [of ?env p n s3 xs3 ?oid] assms(1) f settled s2 length_alloc_oid
    by (simp add: iget_healthy_def s3_def oid_wb_take_def minted_def tier_of_def split: if_splits)
  then show ?thesis
    using i s3 by (auto simp: s2_def [symmetric])
qed

definition ex_iget_env :: iget_env where
  "ex_iget_env = \<lparr>ig_be = False, ig_now = 1000000, ig_rand = 3, ig_xxh64 = \<lambda>_. 5, ig_dino = Some,
     ig_lino = word_of_nat, ig_xerr = \<lambda>_. None, ig_rerr = \<lambda>_. None, ig_gen = \<lambda>_. Err ENODATA,
     ig_kind = \<lambda>_. IK_REG, ig_size = \<lambda>_. 0, ig_nlink = \<lambda>_. 1, ig_stale = ex_heat, ig_alloc = True,
     ig_alloc_wb = True, ig_alloc_map = True\<rparr>"

theorem iget_identity_stable_witness:
  "\<exists>ino s1. iget ex_iget_env \<lparr>p_mnt = 1, p_dentry = 200\<rparr> False True ex_pool Map.empty = (Ok ino, s1, Map.empty)
    \<and> (let s2 = evict_inode (ig_lino ex_iget_env) ino s1;
           (s3, xs3) = (if True then oid_wb_worker (ig_dino ex_iget_env) (ig_xerr ex_iget_env) s2 Map.empty else (s2, Map.empty))
       in \<exists>s4 si. iget (ex_iget_env\<lparr>ig_now := 9, ig_rand := 8\<rparr>) \<lparr>p_mnt = 1, p_dentry = 200\<rparr> False False s3 xs3 = (Ok ino, s4, xs3)
            \<and> sbi_inodes s4 ino = Some si \<and> si_oid si = minted ex_iget_env ex_pool)"
proof (rule iget_identity_stable [where n = 200])
  show "iget_healthy ex_iget_env" by (simp add: iget_healthy_def ex_iget_env_def)
  show "iget_fresh_lower ex_iget_env \<lparr>p_mnt = 1, p_dentry = 200\<rparr> 200 ex_pool Map.empty"
    using ex_tier_of by (simp add: iget_fresh_lower_def ex_iget_env_def MAX_TIERS_def) (simp add: ex_pool_def)
  show "sbi_inodes ex_pool (inode_no_from_oid (ig_xxh64 ex_iget_env) (minted ex_iget_env ex_pool)) = None"
    by (simp add: ex_pool_def inode_no_from_oid_def ex_iget_env_def)
qed

end
