(* ===== verification/Placement_Log.thy ===== *)
theory Placement_Log
  imports Kernel_Io
begin

text \<open>
  The placement log (\<open>src/src/smoothfs/placement.c\<close>): the 64-byte record, the writeback queue
  in front of the log file, the worker that appends to it, the loader that replays it at mount,
  and the normalisation of interrupted movements.
\<close>

section \<open>The record\<close>

record log_rec =
  lr_seq :: u64
  lr_oid :: bytes
  lr_movement_state :: u8
  lr_current_tier :: u8
  lr_intended_tier :: u8
  lr_pin_state :: u8
  lr_gen :: u32
  lr_ts :: u64

definition PLACEMENT_MAGIC :: u64 where
  "PLACEMENT_MAGIC = 0x534D46504C4F470A"

definition PLACEMENT_REC_SIZE :: nat where
  "PLACEMENT_REC_SIZE = 64"

text \<open>The stores of \<open>smoothfs_placement_record\<close> into a zeroed record, in its order.\<close>

definition log_rec_bytes :: "log_rec \<Rightarrow> bytes" where
  "log_rec_bytes r =
    (let b0 = buf_put 0 (cpu_to_le64 PLACEMENT_MAGIC) (replicate PLACEMENT_REC_SIZE 0);
         b1 = buf_put 16 (lr_oid r) b0;
         b2 = buf_put 32 [lr_movement_state r] b1;
         b3 = buf_put 33 [lr_current_tier r] b2;
         b4 = buf_put 34 [lr_intended_tier r] b3;
         b5 = buf_put 35 [lr_pin_state r] b4;
         b6 = buf_put 36 (cpu_to_le32 (lr_gen r)) b5;
         b7 = buf_put 8 (cpu_to_le64 (lr_seq r)) b6
     in buf_put 40 (cpu_to_le64 (lr_ts r)) b7)"

text \<open>The loads of \<open>smoothfs_replay_load_log\<close>; a wrong magic number is refused.\<close>

definition log_rec_decode :: "bytes \<Rightarrow> log_rec option" where
  "log_rec_decode buf =
    (if le64_to_cpu (buf_get 0 8 buf) \<noteq> PLACEMENT_MAGIC then None
     else Some \<lparr>lr_seq = le64_to_cpu (buf_get 8 8 buf), lr_oid = buf_get 16 OID_LEN buf,
                lr_movement_state = buf ! 32, lr_current_tier = buf ! 33, lr_intended_tier = buf ! 34,
                lr_pin_state = buf ! 35, lr_gen = le32_to_cpu (buf_get 36 4 buf),
                lr_ts = le64_to_cpu (buf_get 40 8 buf)\<rparr>)"

definition log_rec_valid :: "log_rec \<Rightarrow> bool" where
  "log_rec_valid r \<longleftrightarrow> length (lr_oid r) = OID_LEN"

lemma length_log_rec_bytes: "log_rec_valid r \<Longrightarrow> length (log_rec_bytes r) = 64"
  by (simp add: log_rec_bytes_def PLACEMENT_REC_SIZE_def log_rec_valid_def OID_LEN_def Let_def)

lemma log_rec_decode_bytes: "log_rec_valid r \<Longrightarrow> log_rec_decode (log_rec_bytes r) = Some r"
  by (simp add: log_rec_decode_def log_rec_bytes_def PLACEMENT_REC_SIZE_def log_rec_valid_def OID_LEN_def
      Let_def buf_get_put_same buf_get_put_other nth_buf_put del: le_bytes.simps)

interpretation log_codec: fixed_codec log_rec_bytes log_rec_decode 64 log_rec_valid
  by unfold_locales (simp_all add: length_log_rec_bytes log_rec_decode_bytes)

section \<open>Writeback\<close>

definition PLACEMENT_WB_HIGH_WATER :: nat where
  "PLACEMENT_WB_HIGH_WATER = 8192"

text \<open>The queueing step of \<open>smoothfs_placement_record\<close>, under the writeback lock.\<close>

definition placement_wb_add :: "bytes \<Rightarrow> sb_info \<Rightarrow> sb_info" where
  "placement_wb_add e sbi =
     sbi\<lparr>sbi_placement_wb_pending := sbi_placement_wb_pending sbi @ [e],
         sbi_placement_wb_count := sbi_placement_wb_count sbi + 1\<rparr>"

text \<open>
  \<open>smoothfs_placement_record\<close>. The result is the error code, whether the worker is kicked
  now, and the pool. A record that cannot be queued is dropped and the call still succeeds.
\<close>

definition placement_record ::
  "bool \<Rightarrow> u64 \<Rightarrow> bytes \<Rightarrow> movement_state \<Rightarrow> u8 \<Rightarrow> u8 \<Rightarrow> bool \<Rightarrow> sb_info \<Rightarrow> unit res \<times> bool \<times> sb_info" where
  "placement_record alloc now oid ms current_tier intended_tier sync sbi =
    (if \<not> sbi_placement_wb_ready sbi then (Done, False, sbi)
     else if \<not> alloc then (Done, False, sbi)
     else let sq = sbi_placement_seq sbi + 1;
              e = log_rec_bytes \<lparr>lr_seq = sq, lr_oid = oid, lr_movement_state = ms_byte ms,
                    lr_current_tier = current_tier, lr_intended_tier = intended_tier,
                    lr_pin_state = pin_byte PIN_NONE, lr_gen = 0, lr_ts = now\<rparr>;
              s = placement_wb_add e (sbi\<lparr>sbi_placement_seq := sq\<rparr>)
       in (Done, sync \<or> PLACEMENT_WB_HIGH_WATER \<le> sbi_placement_wb_count s, s))"

text \<open>
  Appending one record: \<open>aw\<close> is the result of \<open>kernel_write\<close> on the log opened with
  \<open>O_APPEND\<close>; a short write leaves a short record.
\<close>

type_synonym append = "bytes \<Rightarrow> bytes \<Rightarrow> nat res"

definition wb_append :: "append \<Rightarrow> bytes \<Rightarrow> bytes \<Rightarrow> bytes" where
  "wb_append aw e log = (case aw log e of Err _ \<Rightarrow> log | Ok n \<Rightarrow> log @ take n e)"

definition placement_wb_worker :: "append \<Rightarrow> sb_info \<Rightarrow> sb_info" where
  "placement_wb_worker aw sbi =
    sbi\<lparr>sbi_placement_wb_pending := [], sbi_placement_wb_count := 0,
        sbi_placement_log := map_option (fold (wb_append aw) (sbi_placement_wb_pending sbi)) (sbi_placement_log sbi)\<rparr>"

definition placement_wb_init :: "bool \<Rightarrow> sb_info \<Rightarrow> unit res \<times> sb_info" where
  "placement_wb_init alloc_wq sbi =
    (let s = sbi\<lparr>sbi_placement_wb_pending := [], sbi_placement_wb_count := 0\<rparr>
     in if \<not> alloc_wq then (Err ENOMEM, s) else (Done, s\<lparr>sbi_placement_wb_ready := True\<rparr>))"

definition placement_wb_drain :: "append \<Rightarrow> sb_info \<Rightarrow> sb_info" where
  "placement_wb_drain aw sbi = (if \<not> sbi_placement_wb_ready sbi then sbi else placement_wb_worker aw sbi)"

definition placement_wb_destroy :: "append \<Rightarrow> sb_info \<Rightarrow> sb_info" where
  "placement_wb_destroy aw sbi =
    (if \<not> sbi_placement_wb_ready sbi then sbi
     else placement_wb_worker aw (sbi\<lparr>sbi_placement_wb_ready := False\<rparr>))"

text \<open>Closing returns what is on disk; opening restarts the sequence from the file's size.\<close>

definition placement_close :: "append \<Rightarrow> sb_info \<Rightarrow> bytes option \<times> sb_info" where
  "placement_close aw sbi =
    (case sbi_placement_log sbi of
       None \<Rightarrow> (None, sbi)
     | Some _ \<Rightarrow> (let s = placement_wb_drain aw sbi in (sbi_placement_log s, s\<lparr>sbi_placement_log := None\<rparr>)))"

definition placement_open :: "unit res \<Rightarrow> bytes res \<Rightarrow> sb_info \<Rightarrow> unit res \<times> sb_info" where
  "placement_open ensure_dir file sbi =
    (case ensure_dir of
       Err e \<Rightarrow> (Err e, sbi)
     | Ok _ \<Rightarrow> (case file of
         Err e \<Rightarrow> (Err e, sbi)
       | Ok f \<Rightarrow> (Done, sbi\<lparr>sbi_placement_log := Some f,
                          sbi_placement_seq := word_of_nat (length f div PLACEMENT_REC_SIZE)\<rparr>)))"

section \<open>The replay index\<close>

text \<open>
  The record list with its hash index: at most one record per object id, so the bucket search
  by id is a search of the list. A new record is appended; its fields are zero and its tiers
  \<open>U8_MAX\<close>.
\<close>

definition replay_find_oid :: "bytes \<Rightarrow> replay_record list \<Rightarrow> replay_record option" where
  "replay_find_oid oid recs = find (\<lambda>r. rr_oid r = oid) recs"

definition replay_new :: "bytes \<Rightarrow> replay_record" where
  "replay_new oid = \<lparr>rr_oid = oid, rr_movement_state = 0, rr_current_tier = 0, rr_intended_tier = 0,
     rr_pin_state = 0, rr_gen = 0, rr_seq = 0, rr_authoritative_tier = 255, rr_normalized_state = 0,
     rr_normalized = False, rr_fallback_tier = 255, rr_fallback_rel_path = None, rr_fallback_gen = 0,
     rr_chosen_tier = 255, rr_chosen_rel_path = None, rr_chosen_gen = 0\<rparr>"

definition replay_get_or_create :: "bool \<Rightarrow> bytes \<Rightarrow> replay_record list \<Rightarrow> replay_record list option" where
  "replay_get_or_create alloc oid recs =
    (case replay_find_oid oid recs of
       Some _ \<Rightarrow> Some recs
     | None \<Rightarrow> (if alloc then Some (recs @ [replay_new oid]) else None))"

text \<open>Updating the record of an object id in place.\<close>

definition replay_update :: "bytes \<Rightarrow> (replay_record \<Rightarrow> replay_record) \<Rightarrow> replay_record list \<Rightarrow> replay_record list" where
  "replay_update oid f recs = map (\<lambda>r. if rr_oid r = oid then f r else r) recs"

definition replay_normalize :: "replay_record \<Rightarrow> replay_record" where
  "replay_normalize r =
    (let m = ms_of_byte (rr_movement_state r)
     in if ms_precutover m
        then r\<lparr>rr_normalized := True, rr_normalized_state := ms_byte MS_PLACED,
               rr_authoritative_tier := rr_current_tier r\<rparr>
        else if ms_roll_forward m
        then r\<lparr>rr_normalized := True, rr_normalized_state := ms_byte MS_PLACED,
               rr_authoritative_tier := rr_intended_tier r\<rparr>
        else r\<lparr>rr_normalized := False, rr_normalized_state := rr_movement_state r,
               rr_authoritative_tier := rr_current_tier r\<rparr>)"

definition replay_apply :: "log_rec \<Rightarrow> replay_record \<Rightarrow> replay_record" where
  "replay_apply l r =
    (if lr_seq l < rr_seq r then r
     else replay_normalize (r\<lparr>rr_seq := lr_seq l, rr_movement_state := lr_movement_state l,
            rr_current_tier := lr_current_tier l, rr_intended_tier := lr_intended_tier l,
            rr_pin_state := lr_pin_state l, rr_gen := lr_gen l\<rparr>))"

text \<open>
  \<open>smoothfs_replay_load_log\<close>. \<open>io_err\<close> is the error of the read at an offset, \<open>alloc\<close>
  whether a record can be allocated when the list has a given length.
\<close>

function replay_load_log ::
  "(nat \<Rightarrow> errno option) \<Rightarrow> (nat \<Rightarrow> bool) \<Rightarrow> bytes \<Rightarrow> nat \<Rightarrow> replay_record list
    \<Rightarrow> unit res \<times> replay_record list" where
  "replay_load_log io_err alloc log pos recs =
    (case io_err pos of
       Some e \<Rightarrow> (Err e, recs)
     | None \<Rightarrow>
       (let buf = take PLACEMENT_REC_SIZE (drop pos log)
        in if buf = [] then (Done, recs)
           else if length buf \<noteq> PLACEMENT_REC_SIZE then (Err EIO, recs)
           else case log_rec_decode buf of
               None \<Rightarrow> (Err EINVAL, recs)
             | Some l \<Rightarrow>
               (case replay_get_or_create (alloc (length recs)) (lr_oid l) recs of
                  None \<Rightarrow> (Err ENOMEM, recs)
                | Some recs' \<Rightarrow>
                    replay_load_log io_err alloc log (pos + PLACEMENT_REC_SIZE)
                      (replay_update (lr_oid l) (replay_apply l) recs'))))"
  by pat_completeness auto

termination
  by (relation "measure (\<lambda>(io_err, alloc, log, pos, recs). length log - pos)")
    (auto simp: PLACEMENT_REC_SIZE_def)

declare replay_load_log.simps [simp del]

section \<open>The index as a keyed table\<close>

definition replay_upsert :: "bytes \<Rightarrow> (replay_record \<Rightarrow> replay_record) \<Rightarrow> replay_record list \<Rightarrow> replay_record list" where
  "replay_upsert oid f recs = replay_update oid f (the (replay_get_or_create True oid recs))"

text \<open>Updates of the index never change a record's object id.\<close>

definition keeps_oid :: "(replay_record \<Rightarrow> replay_record) \<Rightarrow> bool" where
  "keeps_oid f \<longleftrightarrow> (\<forall>r. rr_oid (f r) = rr_oid r)"

lemma replay_normalize_oid [simp]: "rr_oid (replay_normalize r) = rr_oid r"
  by (simp add: replay_normalize_def Let_def)

lemma replay_apply_oid [simp]: "rr_oid (replay_apply l r) = rr_oid r"
  by (simp add: replay_apply_def)

lemma replay_find_append:
  "replay_find_oid oid (recs @ [r]) =
    (case replay_find_oid oid recs of Some x \<Rightarrow> Some x | None \<Rightarrow> if rr_oid r = oid then Some r else None)"
  by (induction recs) (auto simp: replay_find_oid_def)

lemma replay_find_update:
  "keeps_oid f \<Longrightarrow> replay_find_oid oid (replay_update oid' f recs) =
    (if oid = oid' then map_option f (replay_find_oid oid recs) else replay_find_oid oid recs)"
  by (induction recs) (auto simp: replay_find_oid_def replay_update_def keeps_oid_def)

lemma replay_find_upsert:
  "keeps_oid f \<Longrightarrow> replay_find_oid oid (replay_upsert oid' f recs) =
    (if oid = oid' then Some (f (case replay_find_oid oid recs of None \<Rightarrow> replay_new oid | Some r \<Rightarrow> r))
     else replay_find_oid oid recs)"
  by (auto simp: replay_upsert_def replay_find_update replay_get_or_create_def replay_find_append
      replay_new_def split: option.split)

interpretation replay_index: keyed_table replay_find_oid replay_upsert replay_new keeps_oid
  by unfold_locales (rule replay_find_upsert)

section \<open>What a replayed log means\<close>

text \<open>
  The abstract meaning of a log: for each object the record with the greatest sequence number,
  the later one of two with the same number.
\<close>

definition newer :: "log_rec \<Rightarrow> log_rec option \<Rightarrow> log_rec option" where
  "newer l acc = (case acc of None \<Rightarrow> Some l | Some a \<Rightarrow> if lr_seq l < lr_seq a then Some a else Some l)"

definition latest :: "bytes \<Rightarrow> log_rec list \<Rightarrow> log_rec option" where
  "latest oid ls = fold (\<lambda>l acc. if lr_oid l = oid then newer l acc else acc) ls None"

definition replayed :: "log_rec \<Rightarrow> replay_record" where
  "replayed l = replay_apply l (replay_new (lr_oid l))"

lemma replay_apply_replayed:
  "lr_oid l = lr_oid a \<Longrightarrow> replay_apply l (replayed a) = (if lr_seq l < lr_seq a then replayed a else replayed l)"
  by (simp add: replayed_def replay_apply_def replay_normalize_def replay_new_def Let_def)

lemma keeps_oid_apply: "keeps_oid (replay_apply l)"
  by (simp add: keeps_oid_def)

lemma replay_load_log_step:
  assumes "io_err pos = None" "take PLACEMENT_REC_SIZE (drop pos log) = log_rec_bytes l" "log_rec_valid l"
    and "alloc (length recs)"
  shows "replay_load_log io_err alloc log pos recs
    = replay_load_log io_err alloc log (pos + 64) (replay_upsert (lr_oid l) (replay_apply l) recs)"
proof -
  have len: "length (log_rec_bytes l) = 64" using assms(3) by (rule length_log_rec_bytes)
  then have ne: "log_rec_bytes l \<noteq> []" by auto
  have goc: "replay_get_or_create (alloc (length recs)) (lr_oid l) recs
      = Some (the (replay_get_or_create True (lr_oid l) recs))"
    using assms(4) by (auto simp: replay_get_or_create_def split: option.split)
  show ?thesis
    by (subst replay_load_log.simps)
      (simp only: assms(1) assms(2) [unfolded PLACEMENT_REC_SIZE_def] goc Let_def log_rec_decode_bytes [OF assms(3)] PLACEMENT_REC_SIZE_def
        replay_upsert_def len ne if_False option.case simp_thms)
qed

lemma replay_load_log_fold:
  assumes "\<And>i. io_err i = None" "\<And>i. alloc i"
  shows "\<forall>l \<in> set ls. log_rec_valid l \<Longrightarrow>
    replay_load_log io_err alloc (pre @ concat (map log_rec_bytes ls)) (length pre) recs
      = (Done, replay_index.upsert_all (map (\<lambda>l. (lr_oid l, replay_apply l)) ls) recs)"
proof (induction ls arbitrary: pre recs)
  case Nil
  then show ?case
    by (subst replay_load_log.simps) (simp add: assms(1) replay_index.upsert_all_def)
next
  case (Cons l ls)
  let ?log = "pre @ concat (map log_rec_bytes (l # ls))"
  have len: "length (log_rec_bytes l) = 64" using Cons.prems length_log_rec_bytes by simp
  have "take PLACEMENT_REC_SIZE (drop (length pre) ?log) = log_rec_bytes l"
    using len by (simp add: PLACEMENT_REC_SIZE_def)
  from replay_load_log_step [OF assms(1) this _ assms(2)] Cons.prems
  have "replay_load_log io_err alloc ?log (length pre) recs
      = replay_load_log io_err alloc ((pre @ log_rec_bytes l) @ concat (map log_rec_bytes ls))
          (length (pre @ log_rec_bytes l)) (replay_upsert (lr_oid l) (replay_apply l) recs)"
    using len by simp
  also have "\<dots> = (Done, replay_index.upsert_all (map (\<lambda>l. (lr_oid l, replay_apply l)) ls)
      (replay_upsert (lr_oid l) (replay_apply l) recs))"
    using Cons.prems by (intro Cons.IH) simp
  finally show ?case by (simp add: replay_index.upsert_all_def)
qed

lemma find_upsert_all_latest:
  "replay_find_oid oid (replay_index.upsert_all (map (\<lambda>l. (lr_oid l, replay_apply l)) ls) [])
    = map_option replayed (latest oid ls)"
proof -
  have "fold (\<lambda>(k', f) v. if oid = k' then Some (f (case v of None \<Rightarrow> replay_new oid | Some x \<Rightarrow> x)) else v)
      (map (\<lambda>l. (lr_oid l, replay_apply l)) ls) (map_option replayed acc)
    = map_option replayed (fold (\<lambda>l acc. if lr_oid l = oid then newer l acc else acc) ls acc)"
    if "\<And>b. acc = Some b \<Longrightarrow> lr_oid b = oid" for acc
    using that
  proof (induction ls arbitrary: acc)
    case Nil
    then show ?case by simp
  next
    case (Cons l ls)
    have step: "(if oid = lr_oid l then Some (replay_apply l (case map_option replayed acc of None \<Rightarrow> replay_new oid | Some x \<Rightarrow> x))
        else map_option replayed acc) = map_option replayed (if lr_oid l = oid then newer l acc else acc)"
      using Cons.prems by (auto simp: newer_def replay_apply_replayed replayed_def [of l] split: option.split)
    have keep: "\<And>b. (if lr_oid l = oid then newer l acc else acc) = Some b \<Longrightarrow> lr_oid b = oid"
      using Cons.prems by (auto simp: newer_def split: option.splits if_splits)
    show ?case
      by (simp only: list.map fold_simps(2) prod.case step) (rule Cons.IH, rule keep)
  qed
  from this [of None] show ?thesis
    by (subst replay_index.get_upsert_all)
      (auto simp: keeps_oid_apply replay_find_oid_def latest_def)
qed

interpretation placement_wb: writeback_queue sbi_placement_wb_pending sbi_placement_wb_count
  placement_wb_add "placement_wb_worker aw" for aw
  by unfold_locales (simp_all add: placement_wb_add_def placement_wb_worker_def)

section \<open>From the calls to the replayed index\<close>

text \<open>A sequence of calls of \<open>smoothfs_placement_record\<close>, and the records they queue.\<close>

record log_op =
  op_now :: u64
  op_oid :: bytes
  op_state :: movement_state
  op_current :: u8
  op_intended :: u8
  op_sync :: bool

definition record_op :: "log_op \<Rightarrow> sb_info \<Rightarrow> sb_info" where
  "record_op p sbi = snd (snd (placement_record True (op_now p) (op_oid p) (op_state p) (op_current p)
     (op_intended p) (op_sync p) sbi))"

definition op_rec :: "u64 \<Rightarrow> log_op \<Rightarrow> log_rec" where
  "op_rec sq p = \<lparr>lr_seq = sq, lr_oid = op_oid p, lr_movement_state = ms_byte (op_state p),
     lr_current_tier = op_current p, lr_intended_tier = op_intended p, lr_pin_state = 0, lr_gen = 0,
     lr_ts = op_now p\<rparr>"

fun op_recs :: "u64 \<Rightarrow> log_op list \<Rightarrow> log_rec list" where
  "op_recs sq [] = []"
| "op_recs sq (p # ps) = op_rec (sq + 1) p # op_recs (sq + 1) ps"

definition append_full :: append where
  "append_full log e = Ok (length e)"

lemma record_op_ready:
  "sbi_placement_wb_ready sbi \<Longrightarrow> record_op p sbi =
    placement_wb_add (log_rec_bytes (op_rec (sbi_placement_seq sbi + 1) p)) (sbi\<lparr>sbi_placement_seq := sbi_placement_seq sbi + 1\<rparr>)"
  by (simp add: record_op_def placement_record_def op_rec_def Let_def)

lemma record_ops_pending:
  "sbi_placement_wb_ready sbi \<Longrightarrow>
    sbi_placement_wb_pending (fold record_op ps sbi)
      = sbi_placement_wb_pending sbi @ map log_rec_bytes (op_recs (sbi_placement_seq sbi) ps)
    \<and> sbi_placement_wb_ready (fold record_op ps sbi)
    \<and> sbi_placement_log (fold record_op ps sbi) = sbi_placement_log sbi"
  by (induction ps arbitrary: sbi) (simp_all add: record_op_ready placement_wb_add_def)

lemma wb_append_full: "fold (wb_append append_full) es log = log @ concat es"
  by (induction es arbitrary: log) (simp_all add: wb_append_def append_full_def)

lemma op_recs_valid: "\<forall>p \<in> set ps. length (op_oid p) = OID_LEN \<Longrightarrow> \<forall>l \<in> set (op_recs sq ps). log_rec_valid l"
  by (induction sq ps rule: op_recs.induct) (auto simp: log_rec_valid_def op_rec_def)

lemma length_op_recs [simp]: "length (op_recs sq ps) = length ps"
  by (induction sq ps rule: op_recs.induct) simp_all

text \<open>With sequence numbers that do not wrap, the latest record is the last one.\<close>

lemma latest_op_recs:
  "unat sq + length ps < 2 ^ 64 \<Longrightarrow> (\<And>a. acc = Some a \<Longrightarrow> lr_seq a \<le> sq) \<Longrightarrow>
    fold (\<lambda>l acc. if lr_oid l = oid then newer l acc else acc) (op_recs sq ps) acc
      = fold (\<lambda>l acc. if lr_oid l = oid then Some l else acc) (op_recs sq ps) acc"
proof (induction sq ps arbitrary: acc rule: op_recs.induct)
  case (1 sq)
  then show ?case by simp
next
  case (2 sq p ps)
  have lt: "sq < sq + 1" and un: "unat (sq + 1) = unat sq + 1"
    using 2(2) by (simp_all add: word_less_nat_alt unat_word_ariths(1))
  let ?n = "op_rec (sq + 1) p"
  let ?acc = "if lr_oid ?n = oid then Some ?n else acc"
  have step: "(if lr_oid ?n = oid then newer ?n acc else acc) = ?acc"
    using 2(3) lt by (force simp: newer_def op_rec_def split: option.split)
  have bound: "\<And>a. ?acc = Some a \<Longrightarrow> lr_seq a \<le> sq + 1"
    using 2(3) lt by (fastforce simp: op_rec_def split: if_splits)
  have "unat (sq + 1) + length ps < 2 ^ 64" using 2(2) un by simp
  from 2(1) [OF this bound] show ?case
    by (simp only: op_recs.simps fold_simps(2) step)
qed

definition last_op :: "bytes \<Rightarrow> log_op list \<Rightarrow> log_op option" where
  "last_op oid ps = fold (\<lambda>p acc. if op_oid p = oid then Some p else acc) ps None"

definition state_of_op :: "log_op \<Rightarrow> u8 \<times> u8 \<times> u8" where
  "state_of_op p = (ms_byte (op_state p), op_current p, op_intended p)"

definition state_of_rec :: "replay_record \<Rightarrow> u8 \<times> u8 \<times> u8" where
  "state_of_rec r = (rr_movement_state r, rr_current_tier r, rr_intended_tier r)"

lemma state_of_replayed: "state_of_rec (replayed l) = (lr_movement_state l, lr_current_tier l, lr_intended_tier l)"
  by (simp add: state_of_rec_def replayed_def replay_apply_def replay_normalize_def replay_new_def Let_def)

lemma last_op_recs:
  "map_option (\<lambda>l. (lr_movement_state l, lr_current_tier l, lr_intended_tier l))
     (fold (\<lambda>l acc. if lr_oid l = oid then Some l else acc) (op_recs sq ps) acc)
   = fold (\<lambda>p acc. if op_oid p = oid then Some (state_of_op p) else acc) ps
       (map_option (\<lambda>l. (lr_movement_state l, lr_current_tier l, lr_intended_tier l)) acc)"
  by (induction sq ps arbitrary: acc rule: op_recs.induct) (auto simp: op_rec_def state_of_op_def)

lemma last_op_state:
  "fold (\<lambda>p acc. if op_oid p = oid then Some (state_of_op p) else acc) ps (map_option state_of_op acc)
    = map_option state_of_op (fold (\<lambda>p acc. if op_oid p = oid then Some p else acc) ps acc)"
proof (induction ps arbitrary: acc)
  case Nil
  then show ?case by simp
next
  case (Cons p ps)
  have "(if op_oid p = oid then Some (state_of_op p) else map_option state_of_op acc)
      = map_option state_of_op (if op_oid p = oid then Some p else acc)" by simp
  then show ?case by (simp only: fold_simps(2) Cons.IH)
qed

section \<open>Properties\<close>

text \<open>
  Replaying a log of complete records never fails and leaves, for every object, the
  normalised form of its record with the greatest sequence number (the later one of two equal
  numbers), and nothing for an object that is not in the log.
\<close>

theorem placement_log_replay_latest:
  assumes "\<forall>l \<in> set ls. log_rec_valid l"
  shows "\<exists>recs. replay_load_log (\<lambda>_. None) (\<lambda>_. True) (concat (map log_rec_bytes ls)) 0 [] = (Done, recs)
    \<and> (\<forall>oid. replay_find_oid oid recs = map_option replayed (latest oid ls))"
  using replay_load_log_fold [of "\<lambda>_. None" "\<lambda>_. True" ls "[]" "[]"] assms find_upsert_all_latest by simp

definition ex_log_rec :: log_rec where
  "ex_log_rec = \<lparr>lr_seq = 3, lr_oid = ex_oid, lr_movement_state = 6, lr_current_tier = 0, lr_intended_tier = 1,
     lr_pin_state = 0, lr_gen = 0, lr_ts = 0\<rparr>"

theorem placement_log_replay_latest_witness:
  "\<exists>recs. replay_load_log (\<lambda>_. None) (\<lambda>_. True)
      (concat (map log_rec_bytes [ex_log_rec, ex_log_rec\<lparr>lr_seq := 2, lr_current_tier := 1\<rparr>])) 0 [] = (Done, recs)
    \<and> replay_find_oid ex_oid recs = Some (replayed ex_log_rec)"
proof -
  have "\<forall>l \<in> set [ex_log_rec, ex_log_rec\<lparr>lr_seq := 2, lr_current_tier := 1\<rparr>]. log_rec_valid l"
    by (simp add: log_rec_valid_def ex_log_rec_def ex_oid_def OID_LEN_def)
  from placement_log_replay_latest [OF this] show ?thesis
    by (auto simp: latest_def newer_def ex_log_rec_def)
qed

text \<open>
  C18. What is recorded is what a remount finds: after any sequence of placement records on a
  fresh log, a drain that can write and a reopen, replay gives every object the state and
  tiers of its last record, and the sequence counter continues where it stopped.
\<close>

theorem placement_record_then_replay:
  assumes "sbi_placement_wb_ready sbi" "sbi_placement_log sbi = Some []" "sbi_placement_wb_pending sbi = []"
    and "sbi_placement_seq sbi = 0" "length ps < 2 ^ 64" "\<forall>p \<in> set ps. length (op_oid p) = OID_LEN"
  shows "\<exists>log recs. placement_close append_full (fold record_op ps sbi) = (Some log, (placement_wb_worker append_full (fold record_op ps sbi))\<lparr>sbi_placement_log := None\<rparr>)
    \<and> replay_load_log (\<lambda>_. None) (\<lambda>_. True) log 0 [] = (Done, recs)
    \<and> (\<forall>oid. map_option state_of_rec (replay_find_oid oid recs) = map_option state_of_op (last_op oid ps))
    \<and> sbi_placement_seq (snd (placement_open Done (Ok log) sbi)) = word_of_nat (length ps)"
proof -
  let ?ls = "op_recs 0 ps"
  let ?log = "concat (map log_rec_bytes ?ls)"
  have valid: "\<forall>l \<in> set ?ls. log_rec_valid l" using op_recs_valid [OF assms(6)] .
  have close: "placement_close append_full (fold record_op ps sbi)
      = (Some ?log, (placement_wb_worker append_full (fold record_op ps sbi))\<lparr>sbi_placement_log := None\<rparr>)"
    using record_ops_pending [OF assms(1), of ps] assms(2-4)
    by (simp add: placement_close_def placement_wb_drain_def placement_wb_worker_def wb_append_full)
  obtain recs where recs: "replay_load_log (\<lambda>_. None) (\<lambda>_. True) ?log 0 [] = (Done, recs)"
      "\<And>oid. replay_find_oid oid recs = map_option replayed (latest oid ?ls)"
    using replay_load_log_fold [of "\<lambda>_. None" "\<lambda>_. True" ?ls "[]" "[]"] valid find_upsert_all_latest by simp
  have "map_option state_of_rec (replay_find_oid oid recs) = map_option state_of_op (last_op oid ps)" for oid
    using latest_op_recs [of 0 ps None oid] last_op_recs [of oid 0 ps None] last_op_state [of oid ps None] assms(5)
    by (simp add: recs(2) option.map_comp comp_def state_of_replayed latest_def last_op_def)
  moreover have "length ?log div 64 = length ps" using length_op_recs log_codec.length_concat_enc [OF valid] by simp
  ultimately show ?thesis using close recs(1) by (auto simp: placement_open_def PLACEMENT_REC_SIZE_def)
qed

theorem placement_record_then_replay_witness:
  "\<exists>log recs. fst (placement_close append_full (fold record_op
        [\<lparr>op_now = 1, op_oid = ex_oid, op_state = MS_PLAN_ACCEPTED, op_current = 0, op_intended = 1, op_sync = False\<rparr>,
         \<lparr>op_now = 2, op_oid = ex_oid, op_state = MS_SWITCHED, op_current = 1, op_intended = 1, op_sync = True\<rparr>] ex_pool)) = Some log
    \<and> replay_load_log (\<lambda>_. None) (\<lambda>_. True) log 0 [] = (Done, recs)
    \<and> map_option state_of_rec (replay_find_oid ex_oid recs) = Some (7, 1, 1)"
proof -
  let ?ps = "[\<lparr>op_now = 1, op_oid = ex_oid, op_state = MS_PLAN_ACCEPTED, op_current = 0, op_intended = 1, op_sync = False\<rparr>,
     \<lparr>op_now = 2, op_oid = ex_oid, op_state = MS_SWITCHED, op_current = 1, op_intended = 1, op_sync = True\<rparr>]"
  have "sbi_placement_wb_ready ex_pool" "sbi_placement_log ex_pool = Some []" "sbi_placement_wb_pending ex_pool = []"
    "sbi_placement_seq ex_pool = 0" by (simp_all add: ex_pool_def)
  moreover have "\<forall>p \<in> set ?ps. length (op_oid p) = OID_LEN" by (simp add: ex_oid_def OID_LEN_def)
  ultimately obtain log recs where
    "placement_close append_full (fold record_op ?ps ex_pool) = (Some log, (placement_wb_worker append_full (fold record_op ?ps ex_pool))\<lparr>sbi_placement_log := None\<rparr>)"
    and r: "replay_load_log (\<lambda>_. None) (\<lambda>_. True) log 0 [] = (Done, recs)"
      "map_option state_of_rec (replay_find_oid ex_oid recs) = map_option state_of_op (last_op ex_oid ?ps)"
    using placement_record_then_replay [of ex_pool ?ps] by auto
  then have "fst (placement_close append_full (fold record_op ?ps ex_pool)) = Some log" by (simp del: fold_simps)
  moreover have "map_option state_of_op (last_op ex_oid ?ps) = Some (7, 1, 1)"
    by (simp add: last_op_def state_of_op_def)
  ultimately show ?thesis using r by auto
qed

lemma latest_snoc: "latest oid (ls @ [l]) = (if lr_oid l = oid then newer l (latest oid ls) else latest oid ls)"
  by (simp add: latest_def)

text \<open>
  The sequence counter restarts from the number of records in the file. If earlier
  records were lost before they reached the log, so that an object's newest record has a
  number above that count, the object's next record after a remount gets a smaller number:
  it is written, and the following replay ignores it in favour of the older one.
\<close>

theorem reopened_log_ignores_new_record:
  assumes "\<forall>l \<in> set ls. log_rec_valid l" "latest (op_oid p) ls = Some l"
    and "word_of_nat (length ls) + 1 < lr_seq l" "length (op_oid p) = OID_LEN"
    and "sbi_placement_wb_ready sbi" "sbi_placement_wb_pending sbi = []"
  shows "\<exists>log recs. fst (placement_close append_full
        (record_op p (snd (placement_open Done (Ok (concat (map log_rec_bytes ls))) sbi)))) = Some log
    \<and> replay_load_log (\<lambda>_. None) (\<lambda>_. True) log 0 [] = (Done, recs)
    \<and> replay_find_oid (op_oid p) recs = Some (replayed l)"
proof -
  let ?n = "op_rec (word_of_nat (length ls) + 1) p"
  let ?s = "snd (placement_open Done (Ok (concat (map log_rec_bytes ls))) sbi)"
  have s: "sbi_placement_seq ?s = word_of_nat (length ls)" "sbi_placement_log ?s = Some (concat (map log_rec_bytes ls))"
      "sbi_placement_wb_ready ?s" "sbi_placement_wb_pending ?s = []"
    using assms(5,6) log_codec.length_concat_enc [OF assms(1)]
    by (simp_all add: placement_open_def PLACEMENT_REC_SIZE_def)
  have "fst (placement_close append_full (record_op p ?s)) = Some (concat (map log_rec_bytes (ls @ [?n])))"
    using s by (simp add: record_op_ready placement_close_def placement_wb_drain_def placement_wb_worker_def
        placement_wb_add_def wb_append_def append_full_def)
  moreover have "\<forall>l \<in> set (ls @ [?n]). log_rec_valid l"
    using assms(1,4) by (simp add: log_rec_valid_def op_rec_def)
  moreover have "latest (op_oid p) (ls @ [?n]) = Some l"
    using assms(2,3) by (simp add: latest_snoc newer_def op_rec_def)
  ultimately show ?thesis
    using replay_load_log_fold [of "\<lambda>_. None" "\<lambda>_. True" "ls @ [?n]" "[]" "[]"]
      find_upsert_all_latest [of "op_oid p" "ls @ [?n]"] by simp
qed

theorem reopened_log_ignores_new_record_witness:
  "\<exists>log recs. fst (placement_close append_full
        (record_op \<lparr>op_now = 9, op_oid = ex_oid, op_state = MS_PLACED, op_current = 0, op_intended = 0, op_sync = True\<rparr>
          (snd (placement_open Done (Ok (concat (map log_rec_bytes [ex_log_rec]))) ex_pool)))) = Some log
    \<and> replay_load_log (\<lambda>_. None) (\<lambda>_. True) log 0 [] = (Done, recs)
    \<and> replay_find_oid ex_oid recs = Some (replayed ex_log_rec)"
  using reopened_log_ignores_new_record [of "[ex_log_rec]"
      "\<lparr>op_now = 9, op_oid = ex_oid, op_state = MS_PLACED, op_current = 0, op_intended = 0, op_sync = True\<rparr>"
      ex_log_rec ex_pool]
  by (simp add: log_rec_valid_def ex_log_rec_def ex_oid_def OID_LEN_def latest_def newer_def ex_pool_def)

end
