(* ===== verification/Movement.thy ===== *)
theory Movement
  imports Placement_Log Lower_Maps
begin

text \<open>
  The movement state machine of \<open>src/src/smoothfs/movement.c\<close>: plan, cutover, complete,
  rollback and abort of a move, the relower after an out-of-band move, and the mapping
  revocation. Each command is one definition from the pool to a result, a new pool and the
  list of effects in their order. The cutover drops the inode lock in the middle; what other
  tasks do to the pool meanwhile is an argument.
\<close>

section \<open>Kernel calls and effects\<close>

record move_env =
  mv_resolve :: "bytes \<Rightarrow> sb_info \<Rightarrow> iref option \<times> sb_info"
  mv_mapped :: "dentry \<Rightarrow> bool"
  mv_alloc :: bool
  mv_now :: u64
  mv_drain_alloc :: bool
  mv_drain_done :: bool
  mv_others :: "sb_info \<Rightarrow> sb_info"
  mv_alias_path :: "iref \<Rightarrow> string res option"
  mv_lookup :: "path \<Rightarrow> string \<Rightarrow> path res"
  mv_child :: "path \<Rightarrow> string \<Rightarrow> dentry option res"
  mv_dname :: "dentry \<Rightarrow> string"
  mv_isize :: "dentry \<Rightarrow> int"
  mv_lino :: "dentry \<Rightarrow> u64"
  mv_attrs :: "dentry \<Rightarrow> ikind \<times> int \<times> nat"
  mv_write_oid :: "dentry \<Rightarrow> unit res"
  mv_read_oid :: "dentry \<Rightarrow> bytes res"
  mv_write_gen :: "dentry \<Rightarrow> unit res"
  mv_open :: "path \<Rightarrow> unit res"
  mv_fsync :: "path \<Rightarrow> unit res"
  mv_across :: "u8 \<Rightarrow> string \<Rightarrow> (path \<times> u8) res"

datatype move_fx =
    FX_RECORD movement_state u8 u8
  | FX_EMIT movement_state u64
  | FX_SET_OID dentry bytes
  | FX_SET_GEN dentry u32
  | FX_FSYNC path
  | FX_SWAP path
  | FX_WAKE
  | FX_MODIFY
  | FX_UNMAP dentry

type_synonym move_result = "unit res \<times> sb_info \<times> move_fx list"

definition log_move :: "move_env \<Rightarrow> bytes \<Rightarrow> movement_state \<Rightarrow> u8 \<Rightarrow> u8 \<Rightarrow> bool \<Rightarrow> sb_info \<Rightarrow> unit res \<times> sb_info" where
  "log_move env oid ms cur intd sync sbi =
    (case placement_record (mv_alloc env) (mv_now env) oid ms cur intd sync sbi of (e, _, s) \<Rightarrow> (e, s))"

section \<open>Planning\<close>

definition can_move :: "move_env \<Rightarrow> inode_info \<Rightarrow> bool \<Rightarrow> bool" where
  "can_move env si force =
    (if si_pin_state si \<noteq> PIN_NONE \<and> \<not> (force \<and> si_pin_state si = PIN_LEASE) then False
     else if 1 < si_nlink_observed si then False
     else if (case si_lower_path si of None \<Rightarrow> False | Some p \<Rightarrow> mv_mapped env (p_dentry p)) then False
     else if si_kind si \<noteq> IK_REG then False
     else True)"

definition movement_plan :: "move_env \<Rightarrow> bytes \<Rightarrow> u8 \<Rightarrow> u64 \<Rightarrow> bool \<Rightarrow> sb_info \<Rightarrow> move_result" where
  "movement_plan env oid dest_tier seq force sbi =
    (if sbi_quiesced sbi then (Err EAGAIN, sbi, [])
     else if sbi_ntiers sbi \<le> dest_tier then (Err EINVAL, sbi, [])
     else if sbi_cache_mode sbi \<and> dest_tier \<noteq> sbi_ntiers sbi - 1 then (Err EINVAL, sbi, [])
     else case mv_resolve env oid sbi of
         (None, s) \<Rightarrow> (Err ENOENT, s, [])
       | (Some r, s) \<Rightarrow>
          (case sbi_inodes s r of
             None \<Rightarrow> (Err ENOENT, s, [])
           | Some si \<Rightarrow>
              (if si_movement_state si \<noteq> MS_PLACED then (Err EBUSY, s, [])
               else if dest_tier = si_current_tier si then (Err EALREADY, s, [])
               else if \<not> can_move env si force then (Err EBUSY, s, [])
               else let s1 = upd_inode r (\<lambda>i. i\<lparr>si_mappings_quiesced := False, si_intended_tier := dest_tier,
                                si_movement_state := MS_PLAN_ACCEPTED, si_transaction_seq := seq\<rparr>) s;
                        s2 = snd (log_move env oid MS_PLAN_ACCEPTED (si_current_tier si) dest_tier False s1)
                 in (Done, s2, [FX_RECORD MS_PLAN_ACCEPTED (si_current_tier si) dest_tier, FX_EMIT MS_PLAN_ACCEPTED seq]))))"

section \<open>Cutover\<close>

text \<open>\<open>smoothfs_cutover_drain_writers\<close>: without memory it waits for ever, and so succeeds.\<close>

definition drain_writers :: "move_env \<Rightarrow> unit res" where
  "drain_writers env =
    (if \<not> mv_drain_alloc env then Done else if \<not> mv_drain_done env then Err EBUSY else Done)"

text \<open>\<open>smoothfs_set_lower_dentry_all\<close>: one alias that does not point at \<open>lower\<close> at a time.\<close>

fun relink_first :: "dentry \<Rightarrow> (dentry \<times> dentry option) list \<Rightarrow> (dentry \<times> dentry option) list option" where
  "relink_first lower [] = None"
| "relink_first lower ((d, l) # as) =
    (if l = Some lower then map_option ((#) (d, l)) (relink_first lower as) else Some ((d, Some lower) # as))"

definition stale_aliases :: "dentry \<Rightarrow> (dentry \<times> dentry option) list \<Rightarrow> nat" where
  "stale_aliases lower as = length (filter (\<lambda>a. snd a \<noteq> Some lower) as)"

lemma relink_first_decreases: "relink_first lower as = Some as' \<Longrightarrow> stale_aliases lower as' < stale_aliases lower as"
  by (induction lower as arbitrary: as' rule: relink_first.induct)
    (auto simp: stale_aliases_def split: if_splits)

function set_lower_dentry_all :: "dentry \<Rightarrow> (dentry \<times> dentry option) list \<Rightarrow> (dentry \<times> dentry option) list" where
  "set_lower_dentry_all lower as =
    (case relink_first lower as of None \<Rightarrow> as | Some as' \<Rightarrow> set_lower_dentry_all lower as')"
  by pat_completeness auto

termination
  by (relation "measure (\<lambda>(lower, as). stale_aliases lower as)") (auto dest: relink_first_decreases)

declare set_lower_dentry_all.simps [simp del]

text \<open>The current path: from a dentry alias if there is one, else the cached path.\<close>

definition current_rel_path :: "move_env \<Rightarrow> iref \<Rightarrow> inode_info \<Rightarrow> string option" where
  "current_rel_path env r si =
    (case mv_alias_path env r of
       None \<Rightarrow> si_rel_path si
     | Some (Ok path) \<Rightarrow> Some (if path \<noteq> [] \<and> hd path = CHR ''/'' then tl path else path)
     | Some (Err _) \<Rightarrow> si_rel_path si)"

text \<open>\<open>strrchr(path, '/')\<close>: the part before the last slash and the part after it.\<close>

definition split_last_slash :: "string \<Rightarrow> (string \<times> string) option" where
  "split_last_slash s =
    (if CHR ''/'' \<notin> set s then None
     else let name = rev (takeWhile (\<lambda>c. c \<noteq> CHR ''/'') (rev s))
       in Some (take (length s - length name - 1) s, name))"

definition cutover_parent :: "move_env \<Rightarrow> path \<Rightarrow> dentry \<Rightarrow> string option \<Rightarrow> (path \<times> string) res" where
  "cutover_parent env root src rel =
    (case rel of
       None \<Rightarrow> Ok (root, mv_dname env src)
     | Some s \<Rightarrow>
        (if s = [] then Ok (root, mv_dname env src)
         else case split_last_slash s of
             None \<Rightarrow> Ok (root, s)
           | Some (parent, name) \<Rightarrow>
              (if parent = [] then Ok (root, name)
               else case mv_lookup env root parent of Err e \<Rightarrow> Err e | Ok p \<Rightarrow> Ok (p, name))))"

definition resolve_cutover_dest :: "move_env \<Rightarrow> sb_info \<Rightarrow> u8 \<Rightarrow> dentry \<Rightarrow> string option \<Rightarrow> path res" where
  "resolve_cutover_dest env sbi dest_tier src rel =
    (if sbi_ntiers sbi \<le> dest_tier then Err EINVAL
     else case cutover_parent env (t_lower_path (tier_at sbi dest_tier)) src rel of
         Err e \<Rightarrow> Err e
       | Ok (parent, name) \<Rightarrow>
          (if name = [] then Err EINVAL
           else case mv_child env parent name of
               Err e \<Rightarrow> Err e
             | Ok None \<Rightarrow> Err ENOENT
             | Ok (Some d) \<Rightarrow> Ok \<lparr>p_mnt = p_mnt parent, p_dentry = d\<rparr>))"

text \<open>Writing the identity onto the destination and syncing it, before it is published.\<close>

definition write_identity :: "move_env \<Rightarrow> dentry \<Rightarrow> bytes \<Rightarrow> unit res \<times> move_fx list" where
  "write_identity env d oid =
    (case mv_write_oid env d of
       Ok _ \<Rightarrow> (Done, [FX_SET_OID d oid])
     | Err e \<Rightarrow>
        (if e \<noteq> EEXIST then (Err e, [])
         else case mv_read_oid env d of
             Err e' \<Rightarrow> (Err e', [])
           | Ok existing \<Rightarrow> (if existing \<noteq> oid then Err ESTALE else Done, [])))"

definition persist_identity :: "move_env \<Rightarrow> path \<Rightarrow> bytes \<Rightarrow> u32 \<Rightarrow> unit res \<times> move_fx list" where
  "persist_identity env dest oid gen =
    (case write_identity env (p_dentry dest) oid of
       (Err e, fx) \<Rightarrow> (Err e, fx)
     | (Ok _, fx) \<Rightarrow>
        (case mv_write_gen env (p_dentry dest) of
           Err e \<Rightarrow> (Err e, fx)
         | Ok _ \<Rightarrow>
            (case mv_open env dest of
               Err e \<Rightarrow> (Err e, fx @ [FX_SET_GEN (p_dentry dest) gen])
             | Ok _ \<Rightarrow>
                (case mv_fsync env dest of
                   Err e \<Rightarrow> (Err e, fx @ [FX_SET_GEN (p_dentry dest) gen])
                 | Ok _ \<Rightarrow> (Done, fx @ [FX_SET_GEN (p_dentry dest) gen, FX_FSYNC dest])))))"

text \<open>The first locked section: the checks, and the state that parks new writers.\<close>

definition cutover_begin :: "move_env \<Rightarrow> bytes \<Rightarrow> u64 \<Rightarrow> sb_info \<Rightarrow> iref res \<times> sb_info \<times> move_fx list" where
  "cutover_begin env oid seq sbi =
    (if sbi_quiesced sbi then (Err EAGAIN, sbi, [])
     else case mv_resolve env oid sbi of
         (None, s) \<Rightarrow> (Err ENOENT, s, [])
       | (Some r, s) \<Rightarrow>
          (case sbi_inodes s r of
             None \<Rightarrow> (Err ENOENT, s, [])
           | Some si \<Rightarrow>
              (if sbi_ntiers s \<le> si_intended_tier si then (Err EINVAL, s, [])
               else if \<not> ms_precutover (si_movement_state si) then (Err EBUSY, s, [])
               else if si_transaction_seq si \<noteq> seq then (Err ESTALE, s, [])
               else if (case si_lower_path si of None \<Rightarrow> False | Some p \<Rightarrow> mv_mapped env (p_dentry p))
               then (Err EBUSY, s, [])
               else let s1 = upd_inode r (\<lambda>i. i\<lparr>si_movement_state := MS_CUTOVER_IN_PROGRESS\<rparr>) s;
                        s2 = snd (log_move env oid MS_CUTOVER_IN_PROGRESS (si_current_tier si) (si_intended_tier si) True s1)
                 in (Ok r, s2, [FX_RECORD MS_CUTOVER_IN_PROGRESS (si_current_tier si) (si_intended_tier si)]))))"

text \<open>Back to \<open>COPY_VERIFIED\<close>, with the parked writers woken.\<close>

definition cutover_back_off :: "move_env \<Rightarrow> bytes \<Rightarrow> iref \<Rightarrow> inode_info \<Rightarrow> sb_info \<Rightarrow> sb_info \<times> move_fx list" where
  "cutover_back_off env oid r si s =
    (let s1 = upd_inode r (\<lambda>i. i\<lparr>si_movement_state := MS_COPY_VERIFIED\<rparr>) s
     in (snd (log_move env oid MS_COPY_VERIFIED (si_current_tier si) (si_intended_tier si) False s1),
         [FX_WAKE, FX_RECORD MS_COPY_VERIFIED (si_current_tier si) (si_intended_tier si)]))"

text \<open>The \<open>out_fail\<close> label.\<close>

definition cutover_fail :: "move_env \<Rightarrow> bytes \<Rightarrow> iref \<Rightarrow> inode_info \<Rightarrow> errno \<Rightarrow> sb_info \<Rightarrow> move_fx list \<Rightarrow> move_result" where
  "cutover_fail env oid r si e s fx =
    (let s1 = upd_inode r (\<lambda>i. i\<lparr>si_movement_state := MS_FAILED\<rparr>) s
     in (Err e, snd (log_move env oid MS_FAILED (si_current_tier si) (si_intended_tier si) False s1),
         fx @ [FX_WAKE, FX_RECORD MS_FAILED (si_current_tier si) (si_intended_tier si)]))"

text \<open>The publication of the destination.\<close>

definition cutover_swap ::
  "move_env \<Rightarrow> iref \<Rightarrow> inode_info \<Rightarrow> path \<Rightarrow> path \<Rightarrow> string option \<Rightarrow> sb_info \<Rightarrow> sb_info" where
  "cutover_swap env r si src dest rel s =
    (let s1 = lower_ino_map_remove (si_current_tier si) (mv_lino env (p_dentry src)) s;
         s2 = upd_inode r (\<lambda>i. snd (swap_lower_path dest i)) s1;
         s3 = snd (lower_ino_map_insert (mv_alloc env) (si_intended_tier si) (mv_lino env (p_dentry dest)) r s2);
         s4 = (case rel of None \<Rightarrow> s3 | Some p \<Rightarrow> set_rel_path r (Some p) s3)
     in upd_inode r (\<lambda>i. i\<lparr>si_aliases := set_lower_dentry_all (p_dentry dest) (si_aliases i),
              si_current_tier := si_intended_tier si, si_cutover_gen := si_cutover_gen i + 1,
              si_movement_state := MS_SWITCHED,
              si_pin_state := (if si_pin_state i = PIN_LEASE then PIN_NONE else si_pin_state i),
              si_kind := fst (mv_attrs env (p_dentry dest)), si_size := fst (snd (mv_attrs env (p_dentry dest))),
              si_nlink := snd (snd (mv_attrs env (p_dentry dest)))\<rparr>) s4)"

text \<open>The second locked section.\<close>

definition cutover_finish ::
  "move_env \<Rightarrow> bytes \<Rightarrow> u64 \<Rightarrow> u64 \<Rightarrow> bool \<Rightarrow> iref \<Rightarrow> sb_info \<Rightarrow> move_result" where
  "cutover_finish env oid seq expected check r s =
    (case sbi_inodes s r of
       None \<Rightarrow> (Err ENOENT, s, [])
     | Some si \<Rightarrow>
        (if si_movement_state si \<noteq> MS_CUTOVER_IN_PROGRESS
         then case cutover_back_off env oid r si s of (s1, fx) \<Rightarrow> (Err EBUSY, s1, fx)
         else if check \<and> si_write_seq si \<noteq> expected then cutover_fail env oid r si ESTALE s []
         else case si_lower_path si of
             None \<Rightarrow> cutover_fail env oid r si ENOENT s []
           | Some src \<Rightarrow>
              (let rel = current_rel_path env r si
               in case resolve_cutover_dest env s (si_intended_tier si) (p_dentry src) rel of
                   Err e \<Rightarrow> cutover_fail env oid r si e s []
                 | Ok dest \<Rightarrow>
                    (if mv_isize env (p_dentry dest) < mv_isize env (p_dentry src)
                     then cutover_fail env oid r si EAGAIN s []
                     else case persist_identity env dest (si_oid si) (si_gen si) of
                         (Err e, fx) \<Rightarrow> cutover_fail env oid r si e s fx
                       | (Ok _, fx) \<Rightarrow>
                          (let s1 = cutover_swap env r si src dest rel s;
                               s2 = snd (log_move env oid MS_SWITCHED (si_intended_tier si) (si_intended_tier si) True s1)
                           in (Done, s2, fx @ [FX_SWAP dest, FX_WAKE]
                                 @ (if si_pin_state si = PIN_LEASE then [FX_MODIFY] else [])
                                 @ [FX_RECORD MS_SWITCHED (si_intended_tier si) (si_intended_tier si),
                                    FX_EMIT MS_SWITCHED seq]))))))"

definition movement_cutover ::
  "move_env \<Rightarrow> bytes \<Rightarrow> u64 \<Rightarrow> u64 \<Rightarrow> bool \<Rightarrow> sb_info \<Rightarrow> move_result" where
  "movement_cutover env oid seq expected check sbi =
    (case cutover_begin env oid seq sbi of
       (Err e, s, fx) \<Rightarrow> (Err e, s, fx)
     | (Ok r, s, fx) \<Rightarrow>
        (let s1 = mv_others env s
         in case drain_writers env of
             Err _ \<Rightarrow>
              (case sbi_inodes s1 r of
                 None \<Rightarrow> (Err EBUSY, s1, fx)
               | Some si \<Rightarrow>
                  (if si_movement_state si = MS_CUTOVER_IN_PROGRESS
                   then case cutover_back_off env oid r si s1 of (s2, fx') \<Rightarrow> (Err EBUSY, s2, fx @ fx')
                   else (Err EBUSY, s1, fx)))
           | Ok _ \<Rightarrow>
              (case cutover_finish env oid seq expected check r s1 of (e, s2, fx') \<Rightarrow> (e, s2, fx @ fx'))))"

section \<open>Completion, rollback, abort\<close>

definition movement_complete :: "move_env \<Rightarrow> bytes \<Rightarrow> u64 \<Rightarrow> sb_info \<Rightarrow> move_result" where
  "movement_complete env oid seq sbi =
    (case mv_resolve env oid sbi of
       (None, s) \<Rightarrow> (Err ENOENT, s, [])
     | (Some r, s) \<Rightarrow>
        (case sbi_inodes s r of
           None \<Rightarrow> (Err ENOENT, s, [])
         | Some si \<Rightarrow>
            (if si_transaction_seq si \<noteq> seq then (Err ESTALE, s, [])
             else if si_movement_state si = MS_PLACED then (Done, s, [])
             else if si_movement_state si \<noteq> MS_SWITCHED then (Err EBUSY, s, [])
             else case log_move env oid MS_PLACED (si_current_tier si) (si_current_tier si) True s of
                 (Err e, s1) \<Rightarrow> (Err e, s1, [FX_RECORD MS_PLACED (si_current_tier si) (si_current_tier si)])
               | (Ok _, s1) \<Rightarrow>
                   (Done, upd_inode r (\<lambda>i. i\<lparr>si_movement_state := MS_PLACED, si_intended_tier := si_current_tier i\<rparr>) s1,
                    [FX_RECORD MS_PLACED (si_current_tier si) (si_current_tier si), FX_EMIT MS_PLACED seq]))))"

definition movement_rollback :: "move_env \<Rightarrow> bytes \<Rightarrow> u64 \<Rightarrow> sb_info \<Rightarrow> move_result" where
  "movement_rollback env oid seq sbi =
    (case mv_resolve env oid sbi of
       (None, s) \<Rightarrow> (Err ENOENT, s, [])
     | (Some r, s) \<Rightarrow>
        (case sbi_inodes s r of
           None \<Rightarrow> (Err ENOENT, s, [])
         | Some si \<Rightarrow>
            (if si_transaction_seq si \<noteq> seq then (Err ESTALE, s, [])
             else if si_movement_state si = MS_PLACED then (Done, s, [])
             else if \<not> (ms_precutover (si_movement_state si) \<or> si_movement_state si = MS_FAILED)
             then (Err EBUSY, s, [])
             else case log_move env oid MS_PLACED (si_current_tier si) (si_current_tier si) True s of
                 (Err e, s1) \<Rightarrow> (Err e, s1, [FX_RECORD MS_PLACED (si_current_tier si) (si_current_tier si)])
               | (Ok _, s1) \<Rightarrow>
                   (Done, upd_inode r (\<lambda>i. i\<lparr>si_movement_state := MS_PLACED, si_intended_tier := si_current_tier i\<rparr>) s1,
                    [FX_RECORD MS_PLACED (si_current_tier si) (si_current_tier si), FX_EMIT MS_PLACED seq]))))"

definition movement_abort :: "move_env \<Rightarrow> bytes \<Rightarrow> u64 \<Rightarrow> sb_info \<Rightarrow> move_result" where
  "movement_abort env oid seq sbi =
    (case mv_resolve env oid sbi of
       (None, s) \<Rightarrow> (Err ENOENT, s, [])
     | (Some r, s) \<Rightarrow>
        (case sbi_inodes s r of
           None \<Rightarrow> (Err ENOENT, s, [])
         | Some si \<Rightarrow>
            (if si_transaction_seq si \<noteq> seq then (Err ESTALE, s, [])
             else if \<not> ms_precutover (si_movement_state si) then (Err EBUSY, s, [])
             else let s1 = upd_inode r (\<lambda>i. i\<lparr>si_movement_state := MS_FAILED, si_intended_tier := si_current_tier i,
                              si_transaction_seq := 0\<rparr>) s
               in (Done, snd (log_move env oid MS_FAILED (si_current_tier si) (si_current_tier si) False s1),
                   [FX_RECORD MS_FAILED (si_current_tier si) (si_current_tier si), FX_EMIT MS_FAILED seq]))))"

section \<open>Mappings and out-of-band moves\<close>

definition revoke_mappings :: "move_env \<Rightarrow> bytes \<Rightarrow> sb_info \<Rightarrow> move_result" where
  "revoke_mappings env oid sbi =
    (case mv_resolve env oid sbi of
       (None, s) \<Rightarrow> (Err ENOENT, s, [])
     | (Some r, s) \<Rightarrow>
        (Done, upd_inode r (\<lambda>i. i\<lparr>si_mappings_quiesced := True\<rparr>) s,
         (case sbi_inodes s r of
            None \<Rightarrow> []
          | Some si \<Rightarrow> (case si_lower_path si of None \<Rightarrow> [] | Some p \<Rightarrow> [FX_UNMAP (p_dentry p)]))))"

definition clear_pool_mapping_quiesce :: "sb_info \<Rightarrow> sb_info" where
  "clear_pool_mapping_quiesce sbi =
     fold (\<lambda>r. upd_inode r (\<lambda>i. i\<lparr>si_mappings_quiesced := False\<rparr>)) (sbi_inode_list sbi) sbi"

text \<open>\<open>smoothfs_relower_after_forget\<close>: true if the inode was or had been re-pointed.\<close>

definition relower_after_forget :: "move_env \<Rightarrow> iref \<Rightarrow> u8 \<Rightarrow> u64 \<Rightarrow> sb_info \<Rightarrow> bool \<times> sb_info" where
  "relower_after_forget env r old_tier old_ino sbi =
    (case sbi_inodes sbi r of
       None \<Rightarrow> (False, sbi)
     | Some si \<Rightarrow>
        (case current_rel_path env r si of
           None \<Rightarrow> (False, sbi)
         | Some rel \<Rightarrow>
            (case mv_across env old_tier rel of
               Err _ \<Rightarrow> (False, sbi)
             | Ok (new, found) \<Rightarrow>
                (let s1 = lower_ino_map_remove old_tier old_ino sbi
                 in if (case si_lower_path si of None \<Rightarrow> True
                        | Some p \<Rightarrow> tier_of sbi (p_mnt p) \<noteq> unat old_tier) then (True, s1)
                    else let s2 = upd_inode r (\<lambda>i. snd (swap_lower_path new i)) s1;
                             s3 = snd (lower_ino_map_insert (mv_alloc env) found (mv_lino env (p_dentry new)) r s2)
                      in (True, upd_inode r (\<lambda>i. i\<lparr>si_aliases := set_lower_dentry_all (p_dentry new) (si_aliases i),
                              si_current_tier := found, si_cutover_gen := si_cutover_gen i + 1,
                              si_kind := fst (mv_attrs env (p_dentry new)), si_size := fst (snd (mv_attrs env (p_dentry new))),
                              si_nlink := snd (snd (mv_attrs env (p_dentry new)))\<rparr>) s3)))))"

section \<open>Frames\<close>

lemma log_move_frame [simp]:
  "fst (log_move env oid ms c i sync s) = Done"
  "sbi_inodes (snd (log_move env oid ms c i sync s)) = sbi_inodes s"
  "sbi_lower_ino_map (snd (log_move env oid ms c i sync s)) = sbi_lower_ino_map s"
  "sbi_lower_ino_map_ready (snd (log_move env oid ms c i sync s)) = sbi_lower_ino_map_ready s"
  "sbi_ntiers (snd (log_move env oid ms c i sync s)) = sbi_ntiers s"
  "sbi_tiers (snd (log_move env oid ms c i sync s)) = sbi_tiers s"
  "sbi_oid_map (snd (log_move env oid ms c i sync s)) = sbi_oid_map s"
  "sbi_oid_map_ready (snd (log_move env oid ms c i sync s)) = sbi_oid_map_ready s"
  "sbi_quiesced (snd (log_move env oid ms c i sync s)) = sbi_quiesced s"
  "sbi_cache_mode (snd (log_move env oid ms c i sync s)) = sbi_cache_mode s"
  "sbi_placement_log (snd (log_move env oid ms c i sync s)) = sbi_placement_log s"
  by (simp_all add: log_move_def placement_record_def placement_wb_add_def Let_def)

lemma log_move_done: "log_move env oid ms c i sync s = (e, s') \<Longrightarrow> e = Done \<and> s' = snd (log_move env oid ms c i sync s)"
  using log_move_frame(1) [of env oid ms c i sync s] by (metis fst_conv snd_conv)

lemma set_rel_path_inode:
  assumes "sbi_inodes s r = Some si"
  shows "\<exists>h. sbi_inodes (set_rel_path r rel s) = (sbi_inodes s)(r \<mapsto> si\<lparr>si_rel_path := rel, si_path_hashed := h\<rparr>)"
proof -
  have del: "\<exists>h. sbi_inodes (path_map_del r s) = (sbi_inodes s)(r \<mapsto> si\<lparr>si_path_hashed := h\<rparr>)"
  proof (cases "si_path_hashed si")
    case True
    then show ?thesis using assms
      by (auto simp: path_map_del_def Let_def upd_inode_def split: option.split intro!: exI [of _ False])
  next
    case False
    then show ?thesis using assms
      by (auto simp: path_map_del_def intro!: exI [of _ False])
  qed
  then obtain h where h: "sbi_inodes (path_map_del r s) = (sbi_inodes s)(r \<mapsto> si\<lparr>si_path_hashed := h\<rparr>)" by blast
  define s1 where "s1 = upd_inode r (\<lambda>i. i\<lparr>si_rel_path := rel\<rparr>) (path_map_del r s)"
  have s1: "sbi_inodes s1 = (sbi_inodes s)(r \<mapsto> si\<lparr>si_rel_path := rel, si_path_hashed := h\<rparr>)"
    using h by (auto simp: s1_def fun_eq_iff)
  have s1r: "sbi_inodes s1 r = Some (si\<lparr>si_rel_path := rel, si_path_hashed := h\<rparr>)" using s1 by simp
  have "path_map_add r s1 = s1 \<or> (\<exists>m. path_map_add r s1 = upd_inode r (\<lambda>i. i\<lparr>si_path_hashed := True\<rparr>) (s1\<lparr>sbi_path_map := m\<rparr>))"
    by (auto simp: path_map_add_def split: option.split sum.split prod.split)
  then have "\<exists>h'. sbi_inodes (path_map_add r s1) = (sbi_inodes s1)(r \<mapsto> si\<lparr>si_rel_path := rel, si_path_hashed := h'\<rparr>)"
  proof
    assume "path_map_add r s1 = s1"
    then show ?thesis using s1r by (intro exI [of _ h]) (simp add: fun_upd_idem)
  next
    assume "\<exists>m. path_map_add r s1 = upd_inode r (\<lambda>i. i\<lparr>si_path_hashed := True\<rparr>) (s1\<lparr>sbi_path_map := m\<rparr>)"
    then show ?thesis using s1r by (intro exI [of _ True]) (auto simp: fun_eq_iff)
  qed
  then show ?thesis using s1 by (auto simp: set_rel_path_def s1_def [symmetric])
qed

lemma set_lower_dentry_all_linked: "(d, l) \<in> set (set_lower_dentry_all lower as) \<Longrightarrow> l = Some lower"
proof (induction lower as rule: set_lower_dentry_all.induct)
  case (1 lower as)
  show ?case
  proof (cases "relink_first lower as")
    case None
    have all: "relink_first lower as = None \<Longrightarrow> \<forall>a \<in> set as. snd a = Some lower" for as
      by (induction lower as rule: relink_first.induct) (auto split: if_splits)
    show ?thesis using 1(2) None all [OF None] by (auto simp: set_lower_dentry_all.simps [of lower as])
  next
    case (Some as')
    then show ?thesis using 1 by (simp add: set_lower_dentry_all.simps [of lower as])
  qed
qed

lemma set_lower_dentry_all_names: "map fst (set_lower_dentry_all lower as) = map fst as"
proof (induction lower as rule: set_lower_dentry_all.induct)
  case (1 lower as)
  have names: "relink_first lower as = Some as' \<Longrightarrow> map fst as' = map fst as" for as as'
    by (induction lower as arbitrary: as' rule: relink_first.induct) (auto split: if_splits)
  show ?case
  proof (cases "relink_first lower as")
    case None
    then show ?thesis by (simp add: set_lower_dentry_all.simps [of lower as])
  next
    case (Some as')
    have "map fst (set_lower_dentry_all lower as) = map fst (set_lower_dentry_all lower as')"
      using Some by (simp add: set_lower_dentry_all.simps [of lower as])
    also have "\<dots> = map fst as'" by (rule 1 [OF Some])
    also have "\<dots> = map fst as" by (rule names [OF Some])
    finally show ?thesis .
  qed
qed

text \<open>What the publication does to the inode, and that it touches no other inode.\<close>

definition switched :: "move_env \<Rightarrow> inode_info \<Rightarrow> path \<Rightarrow> inode_info \<Rightarrow> bool" where
  "switched env si dest si' \<longleftrightarrow>
     si_lower_path si' = Some dest \<and> si_current_tier si' = si_intended_tier si
     \<and> si_intended_tier si' = si_intended_tier si \<and> si_cutover_gen si' = si_cutover_gen si + 1
     \<and> si_movement_state si' = MS_SWITCHED \<and> si_ino si' = si_ino si \<and> si_oid si' = si_oid si \<and> si_gen si' = si_gen si
     \<and> si_transaction_seq si' = si_transaction_seq si \<and> si_write_staged si' = si_write_staged si
     \<and> si_write_staged_drain_tier si' = si_write_staged_drain_tier si
     \<and> si_pin_state si' = (if si_pin_state si = PIN_LEASE then PIN_NONE else si_pin_state si)
     \<and> (\<forall>a \<in> set (si_aliases si'). snd a = Some (p_dentry dest))"

lemma lower_ino_map_frame [simp]:
  "sbi_inodes (lower_ino_map_remove t i s) = sbi_inodes s"
  "sbi_inodes (snd (lower_ino_map_insert al t i n s)) = sbi_inodes s"
  "sbi_ntiers (lower_ino_map_remove t i s) = sbi_ntiers s"
  "sbi_ntiers (snd (lower_ino_map_insert al t i n s)) = sbi_ntiers s"
  by (auto simp: lower_ino_map_remove_def lower_ino_map_insert_def rht_insert_def split: option.split)

lemma path_map_frame [simp]:
  "sbi_ntiers (path_map_add r s) = sbi_ntiers s" "sbi_ntiers (path_map_del r s) = sbi_ntiers s"
  "sbi_ntiers (set_rel_path r rel s) = sbi_ntiers s"
  by (auto simp: set_rel_path_def path_map_add_def path_map_del_def rht_insert_def Let_def split: option.split sum.split)

lemma cutover_swap_inode:
  assumes "sbi_inodes s r = Some si"
  shows "\<exists>si'. sbi_inodes (cutover_swap env r si src dest rel s) = (sbi_inodes s)(r \<mapsto> si') \<and> switched env si dest si'"
    and "sbi_ntiers (cutover_swap env r si src dest rel s) = sbi_ntiers s"
proof -
  define s3 where "s3 = snd (lower_ino_map_insert (mv_alloc env) (si_intended_tier si) (mv_lino env (p_dentry dest)) r
      (upd_inode r (\<lambda>i. snd (swap_lower_path dest i)) (lower_ino_map_remove (si_current_tier si) (mv_lino env (p_dentry src)) s)))"
  define s4 where "s4 = (case rel of None \<Rightarrow> s3 | Some p \<Rightarrow> set_rel_path r (Some p) s3)"
  have s3: "sbi_inodes s3 = (sbi_inodes s)(r \<mapsto> si\<lparr>si_lower_path := Some dest\<rparr>)" "sbi_ntiers s3 = sbi_ntiers s"
    using assms by (auto simp: s3_def swap_lower_path_def fun_eq_iff)
  have s4: "\<exists>p h. sbi_inodes s4 = (sbi_inodes s)(r \<mapsto> si\<lparr>si_lower_path := Some dest, si_rel_path := p, si_path_hashed := h\<rparr>)"
      "sbi_ntiers s4 = sbi_ntiers s"
  proof -
    show "sbi_ntiers s4 = sbi_ntiers s" using s3(2) by (simp add: s4_def split: option.split)
    show "\<exists>p h. sbi_inodes s4 = (sbi_inodes s)(r \<mapsto> si\<lparr>si_lower_path := Some dest, si_rel_path := p, si_path_hashed := h\<rparr>)"
    proof (cases rel)
      case None
      then show ?thesis using s3(1) by (intro exI [of _ "si_rel_path si"] exI [of _ "si_path_hashed si"]) (simp add: s4_def)
    next
      case (Some p)
      then show ?thesis using set_rel_path_inode [of s3 r "si\<lparr>si_lower_path := Some dest\<rparr>" "Some p"] s3(1)
        by (auto simp: s4_def)
    qed
  qed
  note D = cutover_swap_def [of env r si src dest rel s, unfolded Let_def, folded s3_def, folded s4_def]
  show "sbi_ntiers (cutover_swap env r si src dest rel s) = sbi_ntiers s" using s4(2) by (simp add: D)
  show "\<exists>si'. sbi_inodes (cutover_swap env r si src dest rel s) = (sbi_inodes s)(r \<mapsto> si') \<and> switched env si dest si'"
    using s4(1) set_lower_dentry_all_linked by (fastforce simp: D switched_def fun_eq_iff)
qed

section \<open>Outcomes of a cutover\<close>

lemma write_identity_cases:
  "(\<exists>e. write_identity env d oid = (Err e, [])) \<or> write_identity env d oid = (Done, [FX_SET_OID d oid])
    \<or> (write_identity env d oid = (Done, []) \<and> mv_read_oid env d = Ok oid)"
  by (cases "mv_write_oid env d"; cases "mv_read_oid env d") (auto simp: write_identity_def)

lemma persist_identity_order:
  assumes "persist_identity env dest oid gen = (Done, fx)"
  shows "\<exists>pre. fx = pre @ [FX_SET_GEN (p_dentry dest) gen, FX_FSYNC dest]
    \<and> (pre = [FX_SET_OID (p_dentry dest) oid] \<or> (pre = [] \<and> mv_read_oid env (p_dentry dest) = Ok oid))"
  using assms write_identity_cases [of env "p_dentry dest" oid]
  by (cases "mv_write_gen env (p_dentry dest)"; cases "mv_open env dest"; cases "mv_fsync env dest")
    (auto simp: persist_identity_def)

lemma persist_identity_no_swap:
  "persist_identity env dest oid gen = (e, fx) \<Longrightarrow> FX_SWAP p \<notin> set fx"
  using write_identity_cases [of env "p_dentry dest" oid]
  by (cases "mv_write_gen env (p_dentry dest)"; cases "mv_open env dest"; cases "mv_fsync env dest")
    (auto simp: persist_identity_def)

lemma cutover_fail_simps [simp]:
  "fst (cutover_fail env oid r si e s fx) = Err e"
  "sbi_inodes (fst (snd (cutover_fail env oid r si e s fx))) =
     (sbi_inodes s)(r := map_option (\<lambda>i. i\<lparr>si_movement_state := MS_FAILED\<rparr>) (sbi_inodes s r))"
  "sbi_lower_ino_map (fst (snd (cutover_fail env oid r si e s fx))) = sbi_lower_ino_map s"
  "sbi_ntiers (fst (snd (cutover_fail env oid r si e s fx))) = sbi_ntiers s"
  "snd (snd (cutover_fail env oid r si e s fx)) =
     fx @ [FX_WAKE, FX_RECORD MS_FAILED (si_current_tier si) (si_intended_tier si)]"
  by (auto simp: cutover_fail_def Let_def fun_eq_iff)

lemma cutover_back_off_simps [simp]:
  "sbi_inodes (fst (cutover_back_off env oid r si s)) =
     (sbi_inodes s)(r := map_option (\<lambda>i. i\<lparr>si_movement_state := MS_COPY_VERIFIED\<rparr>) (sbi_inodes s r))"
  "sbi_lower_ino_map (fst (cutover_back_off env oid r si s)) = sbi_lower_ino_map s"
  "sbi_ntiers (fst (cutover_back_off env oid r si s)) = sbi_ntiers s"
  "snd (cutover_back_off env oid r si s) =
     [FX_WAKE, FX_RECORD MS_COPY_VERIFIED (si_current_tier si) (si_intended_tier si)]"
  by (auto simp: cutover_back_off_def Let_def fun_eq_iff)

text \<open>The three ways the second section ends.\<close>

lemma cutover_finish_cases:
  assumes "sbi_inodes s r = Some si"
  shows "(si_movement_state si \<noteq> MS_CUTOVER_IN_PROGRESS
        \<and> cutover_finish env oid seq expected check r s
          = (Err EBUSY, fst (cutover_back_off env oid r si s), snd (cutover_back_off env oid r si s)))
    \<or> (si_movement_state si = MS_CUTOVER_IN_PROGRESS
        \<and> (\<exists>e fx. cutover_finish env oid seq expected check r s = cutover_fail env oid r si e s fx \<and> (\<forall>p. FX_SWAP p \<notin> set fx)))
    \<or> (si_movement_state si = MS_CUTOVER_IN_PROGRESS
        \<and> (\<exists>src dest fx. si_lower_path si = Some src
          \<and> resolve_cutover_dest env s (si_intended_tier si) (p_dentry src) (current_rel_path env r si) = Ok dest
          \<and> mv_isize env (p_dentry src) \<le> mv_isize env (p_dentry dest)
          \<and> (check \<longrightarrow> si_write_seq si = expected)
          \<and> persist_identity env dest (si_oid si) (si_gen si) = (Done, fx)
          \<and> cutover_finish env oid seq expected check r s
            = (Done, snd (log_move env oid MS_SWITCHED (si_intended_tier si) (si_intended_tier si) True
                 (cutover_swap env r si src dest (current_rel_path env r si) s)),
               fx @ [FX_SWAP dest, FX_WAKE] @ (if si_pin_state si = PIN_LEASE then [FX_MODIFY] else [])
                 @ [FX_RECORD MS_SWITCHED (si_intended_tier si) (si_intended_tier si), FX_EMIT MS_SWITCHED seq])))"
proof (cases "si_movement_state si = MS_CUTOVER_IN_PROGRESS")
  case False
  then show ?thesis using assms by (simp add: cutover_finish_def case_prod_beta del: cutover_back_off_simps)
next
  case cip: True
  have fl: ?thesis if "cutover_finish env oid seq expected check r s = cutover_fail env oid r si e s fx"
      "\<forall>p. FX_SWAP p \<notin> set fx" for e fx
    using cip that by blast
  show ?thesis
  proof (cases "check \<and> si_write_seq si \<noteq> expected")
    case True
    then have "cutover_finish env oid seq expected check r s = cutover_fail env oid r si ESTALE s []"
      using assms cip by (simp add: cutover_finish_def)
    then show ?thesis by (rule fl) simp
  next
    case seq: False
    show ?thesis
    proof (cases "si_lower_path si")
      case None
      then have "cutover_finish env oid seq expected check r s = cutover_fail env oid r si ENOENT s []"
        using assms cip by (simp add: cutover_finish_def if_not_P [OF seq])
      then show ?thesis by (rule fl) simp
    next
      case src: (Some src)
      let ?rel = "current_rel_path env r si"
      show ?thesis
      proof (cases "resolve_cutover_dest env s (si_intended_tier si) (p_dentry src) ?rel")
        case (Inl e)
        then have "cutover_finish env oid seq expected check r s = cutover_fail env oid r si e s []"
          using assms cip src by (simp add: cutover_finish_def if_not_P [OF seq])
        then show ?thesis by (rule fl) simp
      next
        case dest: (Inr dest)
        show ?thesis
        proof (cases "mv_isize env (p_dentry dest) < mv_isize env (p_dentry src)")
          case True
          then have "cutover_finish env oid seq expected check r s = cutover_fail env oid r si EAGAIN s []"
            using assms cip src dest by (simp add: cutover_finish_def if_not_P [OF seq])
          then show ?thesis by (rule fl) simp
        next
          case size: False
          obtain e fx where id: "persist_identity env dest (si_oid si) (si_gen si) = (e, fx)" by fastforce
          show ?thesis
          proof (cases e)
            case (Inl x)
            then have "cutover_finish env oid seq expected check r s = cutover_fail env oid r si x s fx"
              using assms cip src dest size id by (simp add: cutover_finish_def if_not_P [OF seq])
            then show ?thesis by (rule fl) (simp add: persist_identity_no_swap [OF id])
          next
            case (Inr u)
            then show ?thesis
              using assms cip seq src dest size id
              by (intro disjI2) (auto simp: cutover_finish_def Let_def)
          qed
        qed
      qed
    qed
  qed
qed

text \<open>
  The pool against which a cutover is judged: after the concurrent activity of the unlocked
  window, or at the failed check of the first section.
\<close>

definition cutover_base :: "move_env \<Rightarrow> bytes \<Rightarrow> u64 \<Rightarrow> sb_info \<Rightarrow> sb_info" where
  "cutover_base env oid seq sbi =
    (case cutover_begin env oid seq sbi of (Err _, s, _) \<Rightarrow> s | (Ok _, s, _) \<Rightarrow> mv_others env s)"

text \<open>Where an inode's data is: what a move may change only by publishing the destination.\<close>

definition placement_of :: "inode_info \<Rightarrow> path option \<times> u8 \<times> u32 \<times> bytes \<times> string option \<times> (dentry \<times> dentry option) list" where
  "placement_of si = (si_lower_path si, si_current_tier si, si_cutover_gen si, si_oid si, si_rel_path si, si_aliases si)"

text \<open>
  C1. A cutover that succeeds has published a destination that resolved under the object's
  current path on its intended tier, is at least as long as the source, was checked against
  the expected write sequence, carries the object's identity and was synced before the
  switch. The inode then has the new lower path, the intended tier as its current one, a
  bumped cutover generation and its old identity, and all its aliases point at the new file.
\<close>

theorem cutover_publishes_complete_copy:
  assumes "movement_cutover env oid seq expected check sbi = (Done, sbi', fx)"
  shows "\<exists>r s0 fx0 si src dest pre post si'. cutover_begin env oid seq sbi = (Ok r, s0, fx0)
    \<and> sbi_inodes (mv_others env s0) r = Some si \<and> si_movement_state si = MS_CUTOVER_IN_PROGRESS
    \<and> si_lower_path si = Some src
    \<and> resolve_cutover_dest env (mv_others env s0) (si_intended_tier si) (p_dentry src) (current_rel_path env r si) = Ok dest
    \<and> mv_isize env (p_dentry src) \<le> mv_isize env (p_dentry dest)
    \<and> (check \<longrightarrow> si_write_seq si = expected)
    \<and> fx = pre @ [FX_SET_GEN (p_dentry dest) (si_gen si), FX_FSYNC dest, FX_SWAP dest, FX_WAKE] @ post
    \<and> (FX_SET_OID (p_dentry dest) (si_oid si) \<in> set pre \<or> mv_read_oid env (p_dentry dest) = Ok (si_oid si))
    \<and> sbi_inodes sbi' = (sbi_inodes (mv_others env s0))(r \<mapsto> si') \<and> switched env si dest si'"
proof -
  obtain b s0 fx0 where b: "cutover_begin env oid seq sbi = (b, s0, fx0)" by (metis prod_cases3)
  with assms obtain r where r: "b = Ok r" by (cases b) (auto simp: movement_cutover_def)
  let ?s = "mv_others env s0"
  have dr: "drain_writers env = Done"
    using assms b r by (cases "drain_writers env")
      (auto simp: movement_cutover_def Let_def split: option.splits if_splits prod.splits)
  obtain fx1 where fin: "cutover_finish env oid seq expected check r ?s = (Done, sbi', fx1)" "fx = fx0 @ fx1"
    using assms b r dr by (auto simp: movement_cutover_def Let_def split: prod.splits)
  obtain si where si: "sbi_inodes ?s r = Some si"
    using fin(1) by (cases "sbi_inodes ?s r") (auto simp: cutover_finish_def)
  from cutover_finish_cases [OF si, of env oid seq expected check] fin(1)
  obtain src dest fx2 where c: "si_movement_state si = MS_CUTOVER_IN_PROGRESS" "si_lower_path si = Some src"
      "resolve_cutover_dest env ?s (si_intended_tier si) (p_dentry src) (current_rel_path env r si) = Ok dest"
      "mv_isize env (p_dentry src) \<le> mv_isize env (p_dentry dest)" "check \<longrightarrow> si_write_seq si = expected"
    and id: "persist_identity env dest (si_oid si) (si_gen si) = (Done, fx2)"
    and s': "sbi' = snd (log_move env oid MS_SWITCHED (si_intended_tier si) (si_intended_tier si) True
                 (cutover_swap env r si src dest (current_rel_path env r si) ?s))"
    and fx1: "fx1 = fx2 @ [FX_SWAP dest, FX_WAKE] @ (if si_pin_state si = PIN_LEASE then [FX_MODIFY] else [])
                 @ [FX_RECORD MS_SWITCHED (si_intended_tier si) (si_intended_tier si), FX_EMIT MS_SWITCHED seq]"
    by (auto simp del: cutover_fail_simps dest: arg_cong [of _ _ fst] simp: cutover_fail_def Let_def)
  from persist_identity_order [OF id] obtain pre where pre: "fx2 = pre @ [FX_SET_GEN (p_dentry dest) (si_gen si), FX_FSYNC dest]"
      "FX_SET_OID (p_dentry dest) (si_oid si) \<in> set pre \<or> mv_read_oid env (p_dentry dest) = Ok (si_oid si)"
    by auto
  obtain si' where "sbi_inodes sbi' = (sbi_inodes ?s)(r \<mapsto> si')" "switched env si dest si'"
    using cutover_swap_inode(1) [OF si] s' by fastforce
  moreover have "fx = (fx0 @ pre) @ [FX_SET_GEN (p_dentry dest) (si_gen si), FX_FSYNC dest, FX_SWAP dest, FX_WAKE]
      @ ((if si_pin_state si = PIN_LEASE then [FX_MODIFY] else [])
         @ [FX_RECORD MS_SWITCHED (si_intended_tier si) (si_intended_tier si), FX_EMIT MS_SWITCHED seq])"
    using fin(2) fx1 pre(1) by simp
  ultimately show ?thesis
    using b r si c pre(2) by (intro exI conjI) (assumption | simp)+
qed

text \<open>The same as a case rule, for the proofs that do not need the checks.\<close>

lemma cutover_finish_elim:
  assumes si: "sbi_inodes s r = Some si"
    and backed: "cutover_finish env oid seq expected check r s
      = (Err EBUSY, fst (cutover_back_off env oid r si s), snd (cutover_back_off env oid r si s)) \<Longrightarrow> thesis"
    and fail: "\<And>e fx. cutover_finish env oid seq expected check r s = cutover_fail env oid r si e s fx
      \<Longrightarrow> (\<forall>p. FX_SWAP p \<notin> set fx) \<Longrightarrow> thesis"
    and ok: "\<And>dest si' s' fx1 fx2. cutover_finish env oid seq expected check r s = (Done, s', fx1 @ [FX_SWAP dest, FX_WAKE] @ fx2)
      \<Longrightarrow> sbi_inodes s' = (sbi_inodes s)(r \<mapsto> si') \<Longrightarrow> sbi_ntiers s' = sbi_ntiers s \<Longrightarrow> switched env si dest si' \<Longrightarrow> thesis"
  shows thesis
  using cutover_finish_cases [OF si, of env oid seq expected check]
proof (elim disjE conjE exE, goal_cases backed fail ok)
  case backed
  then show ?case using assms(2) by blast
next
  case (fail e fx)
  then show ?case using assms(3) by blast
next
  case (ok src dest fx)
  obtain si' where "sbi_inodes (cutover_swap env r si src dest (current_rel_path env r si) s) = (sbi_inodes s)(r \<mapsto> si')"
      "switched env si dest si'"
    using cutover_swap_inode(1) [OF si] by blast
  then show ?case using cutover_swap_inode(2) [OF si] by (intro assms(4) [OF ok(7)]) simp_all
qed

text \<open>How a cutover that passed its first section ends, by the outcome of the drain.\<close>

lemma movement_cutover_cases:
  assumes "cutover_begin env oid seq sbi = (Ok r, s0, fx0)" "sbi_inodes (mv_others env s0) r = Some si"
  obtains (drained) "drain_writers env = Done"
      "movement_cutover env oid seq expected check sbi =
        (case cutover_finish env oid seq expected check r (mv_others env s0) of (e, s2, fx') \<Rightarrow> (e, s2, fx0 @ fx'))"
    | (busy) "si_movement_state si = MS_CUTOVER_IN_PROGRESS"
      "movement_cutover env oid seq expected check sbi = (Err EBUSY, fst (cutover_back_off env oid r si (mv_others env s0)),
         fx0 @ snd (cutover_back_off env oid r si (mv_others env s0)))"
    | (gone) "si_movement_state si \<noteq> MS_CUTOVER_IN_PROGRESS"
      "movement_cutover env oid seq expected check sbi = (Err EBUSY, mv_others env s0, fx0)"
proof (cases "drain_writers env")
  case (Inl e)
  then show thesis
    using assms busy gone
    by (cases "si_movement_state si = MS_CUTOVER_IN_PROGRESS")
      (simp_all add: movement_cutover_def Let_def case_prod_beta del: cutover_back_off_simps)
next
  case (Inr u)
  then show thesis using assms drained by (simp add: movement_cutover_def)
qed

lemma cutover_begin_no_swap: "cutover_begin env oid seq sbi = (e, s, fx) \<Longrightarrow> FX_SWAP p \<notin> set fx"
  by (auto simp: cutover_begin_def Let_def split: if_splits prod.splits option.splits)

lemma cutover_begin_ok:
  assumes "cutover_begin env oid seq sbi = (Ok r, s0, fx0)"
  obtains s si where "mv_resolve env oid sbi = (Some r, s)" "sbi_inodes s r = Some si" "si_intended_tier si < sbi_ntiers s"
    "ms_precutover (si_movement_state si)" "si_transaction_seq si = seq" "\<not> sbi_quiesced sbi"
    "s0 = snd (log_move env oid MS_CUTOVER_IN_PROGRESS (si_current_tier si) (si_intended_tier si) True
       (upd_inode r (\<lambda>i. i\<lparr>si_movement_state := MS_CUTOVER_IN_PROGRESS\<rparr>) s))"
    "fx0 = [FX_RECORD MS_CUTOVER_IN_PROGRESS (si_current_tier si) (si_intended_tier si)]"
  using assms by (auto simp: cutover_begin_def Let_def not_le split: if_splits prod.splits option.splits)

text \<open>
  C2. A cutover that fails leaves the source authoritative. Nothing was swapped, the table
  of lower inode numbers is unchanged, and every inode has the lower path, tier, cutover
  generation, identity, relative path and aliases it had in the pool the cutover worked on.
\<close>

theorem cutover_failure_keeps_source:
  assumes "movement_cutover env oid seq expected check sbi = (Err e, sbi', fx)"
  shows "(\<forall>p. FX_SWAP p \<notin> set fx)
    \<and> sbi_lower_ino_map sbi' = sbi_lower_ino_map (cutover_base env oid seq sbi)
    \<and> (\<forall>r. map_option placement_of (sbi_inodes sbi' r)
          = map_option placement_of (sbi_inodes (cutover_base env oid seq sbi) r))"
proof -
  obtain b s0 fx0 where b: "cutover_begin env oid seq sbi = (b, s0, fx0)" by (metis prod_cases3)
  note ns = cutover_begin_no_swap [OF b]
  show ?thesis
  proof (cases b)
    case (Inl e')
    then show ?thesis using assms b ns by (simp add: movement_cutover_def cutover_base_def)
  next
    case r: (Inr r)
    let ?s = "mv_others env s0"
    have base: "cutover_base env oid seq sbi = ?s" using b r by (simp add: cutover_base_def)
    have same: "map_option placement_of (((sbi_inodes ?s)(r := map_option (\<lambda>i. i\<lparr>si_movement_state := m\<rparr>) (sbi_inodes ?s r))) q)
        = map_option placement_of (sbi_inodes ?s q)" for m q
      by (cases "sbi_inodes ?s r") (auto simp: placement_of_def)
    show ?thesis
    proof (cases "sbi_inodes ?s r")
      case None
      then show ?thesis using assms b r ns base
        by (cases "drain_writers env") (auto simp: movement_cutover_def cutover_finish_def)
    next
      case si: (Some si)
      from b r have b': "cutover_begin env oid seq sbi = (Ok r, s0, fx0)" by simp
      show ?thesis
      proof (rule movement_cutover_cases [OF b' si, of expected check], goal_cases drained busy gone)
        case drained
        show ?thesis
        proof (rule cutover_finish_elim [OF si, of env oid seq expected check], goal_cases backed fail ok)
          case backed
          then show ?case using assms drained(2) ns same base by auto
        next
          case (fail e' fx')
          then have "sbi' = fst (snd (cutover_fail env oid r si e' ?s fx'))" "fx = fx0 @ snd (snd (cutover_fail env oid r si e' ?s fx'))"
            using assms drained(2) by (auto simp: case_prod_beta)
          then show ?case using ns same fail(2) base by auto
        next
          case ok
          then show ?case using assms drained(2) by simp
        qed
      next
        case busy
        then show ?case using assms ns same base by auto
      next
        case gone
        then show ?case using assms ns base by auto
      qed
    qed
  qed
qed

text \<open>
  C23. However a cutover that started ends, it never leaves the object in the state that
  parks writers, and if the object was in that state the parked writers were woken.
\<close>

theorem cutover_releases_writers:
  assumes "cutover_begin env oid seq sbi = (Ok r, s0, fx0)" "sbi_inodes (mv_others env s0) r = Some si"
    and "movement_cutover env oid seq expected check sbi = (e, sbi', fx)"
  shows "(\<exists>si'. sbi_inodes sbi' r = Some si' \<and> si_movement_state si' \<noteq> MS_CUTOVER_IN_PROGRESS)
    \<and> (si_movement_state si = MS_CUTOVER_IN_PROGRESS \<longrightarrow> FX_WAKE \<in> set fx)"
proof (rule movement_cutover_cases [OF assms(1,2), of expected check], goal_cases drained busy gone)
  case drained
  let ?s = "mv_others env s0"
  show ?case
  proof (rule cutover_finish_elim [OF assms(2), of env oid seq expected check], goal_cases backed fail ok)
    case backed
    then show ?case using assms drained(2) by auto
  next
    case (fail e' fx')
    then have "sbi' = fst (snd (cutover_fail env oid r si e' ?s fx'))" "fx = fx0 @ snd (snd (cutover_fail env oid r si e' ?s fx'))"
      using assms(3) drained(2) by (auto simp: case_prod_beta)
    then show ?case using assms(2) by auto
  next
    case ok
    then show ?case using assms(3) drained(2) by (auto simp: switched_def)
  qed
next
  case busy
  then show ?case using assms by auto
next
  case gone
  then show ?case using assms by auto
qed

section \<open>Concrete instances\<close>

definition ex_move_env :: move_env where
  "ex_move_env = \<lparr>mv_resolve = (\<lambda>oid s. (lookup_oid oid s, s)), mv_mapped = (\<lambda>d. False), mv_alloc = True, mv_now = 1,
     mv_drain_alloc = True, mv_drain_done = True, mv_others = (\<lambda>s. s), mv_alias_path = (\<lambda>r. None),
     mv_lookup = (\<lambda>p s. Ok p), mv_child = (\<lambda>p s. Ok (Some (p_dentry p + 5))), mv_dname = (\<lambda>d. ''f''), mv_isize = (\<lambda>d. 4),
     mv_lino = of_nat, mv_attrs = (\<lambda>d. (IK_REG, 4, 1)), mv_write_oid = (\<lambda>d. Done), mv_read_oid = (\<lambda>d. Err ENODATA),
     mv_write_gen = (\<lambda>d. Done), mv_open = (\<lambda>p. Done), mv_fsync = (\<lambda>p. Done),
     mv_across = (\<lambda>t s. Ok (\<lparr>p_mnt = 0, p_dentry = 5\<rparr>, 0))\<rparr>"

definition ex_moving :: sb_info where
  "ex_moving = upd_inode 77 (\<lambda>i. i\<lparr>si_intended_tier := 0, si_movement_state := MS_COPY_VERIFIED, si_transaction_seq := 9\<rparr>) ex_pool"

lemmas ex_move_defs = ms_precutover_def ex_move_env_def ex_moving_def lookup_oid_def ex_defs upd_inode_def

lemma ex_cutover_begin:
  "mv_others env = (\<lambda>s. s) \<Longrightarrow> mv_resolve env = mv_resolve ex_move_env \<Longrightarrow> mv_mapped env = mv_mapped ex_move_env \<Longrightarrow>
   \<exists>s0 fx0 si. cutover_begin env ex_oid 9 ex_moving = (Ok 77, s0, fx0) \<and> sbi_inodes (mv_others env s0) 77 = Some si
     \<and> si_movement_state si = MS_CUTOVER_IN_PROGRESS"
  by (simp add: cutover_begin_def ex_move_defs)

lemma ex_cutover_done: "fst (movement_cutover ex_move_env ex_oid 9 0 True ex_moving) = Done"
  by (simp add: movement_cutover_def cutover_begin_def drain_writers_def cutover_finish_def ex_move_defs log_move_def
      placement_record_def placement_wb_add_def current_rel_path_def resolve_cutover_dest_def cutover_parent_def
      split_last_slash_def persist_identity_def write_identity_def Let_def)

lemma ex_cutover_stale: "fst (movement_cutover ex_move_env ex_oid 9 3 True ex_moving) = Err ESTALE"
  by (simp add: movement_cutover_def cutover_begin_def drain_writers_def cutover_finish_def cutover_fail_def
      ex_move_defs log_move_def placement_record_def placement_wb_add_def Let_def)

theorem cutover_publishes_complete_copy_witness:
  "\<exists>s fx si. movement_cutover ex_move_env ex_oid 9 0 True ex_moving = (Done, s, fx)
     \<and> sbi_inodes s 77 = Some si \<and> si_movement_state si = MS_SWITCHED"
proof -
  obtain s fx where c: "movement_cutover ex_move_env ex_oid 9 0 True ex_moving = (Done, s, fx)"
    using ex_cutover_done by (metis prod.collapse)
  from ex_cutover_begin [of ex_move_env] obtain s0 fx0 where b: "cutover_begin ex_move_env ex_oid 9 ex_moving = (Ok 77, s0, fx0)"
    by (auto simp: ex_move_env_def)
  from cutover_publishes_complete_copy [OF c] b c show ?thesis by (fastforce simp: switched_def)
qed

theorem cutover_failure_keeps_source_witness:
  "\<exists>s fx. movement_cutover ex_move_env ex_oid 9 3 True ex_moving = (Err ESTALE, s, fx) \<and> FX_SWAP \<lparr>p_mnt = 0, p_dentry = 5\<rparr> \<notin> set fx"
proof -
  obtain s fx where c: "movement_cutover ex_move_env ex_oid 9 3 True ex_moving = (Err ESTALE, s, fx)"
    using ex_cutover_stale by (metis prod.collapse)
  from cutover_failure_keeps_source [OF c] c show ?thesis by blast
qed

theorem cutover_releases_writers_witness:
  "\<exists>s fx. movement_cutover ex_move_env ex_oid 9 3 True ex_moving = (Err ESTALE, s, fx) \<and> FX_WAKE \<in> set fx"
proof -
  obtain s fx where c: "movement_cutover ex_move_env ex_oid 9 3 True ex_moving = (Err ESTALE, s, fx)"
    using ex_cutover_stale by (metis prod.collapse)
  from ex_cutover_begin [of ex_move_env] obtain s0 fx0 si
    where b: "cutover_begin ex_move_env ex_oid 9 ex_moving = (Ok 77, s0, fx0)" "sbi_inodes (mv_others ex_move_env s0) 77 = Some si"
      "si_movement_state si = MS_CUTOVER_IN_PROGRESS"
    by (auto simp: ex_move_env_def)
  from cutover_releases_writers [OF b(1,2) c] b(3) c show ?thesis by blast
qed

end
