(* ===== verification/Movement_Protocol.thy ===== *)
theory Movement_Protocol
  imports Movement
begin

text \<open>
  The movement commands as a protocol: a step relation over the pool, the invariant of the
  per-inode state machine, the life of one move from plan to completion or rollback, and the
  two places where the state machine leaves the documented states.
\<close>

section \<open>The state machine's invariant\<close>

text \<open>
  Both tiers exist; a placed or switched object has its intended tier as the current one; an
  object on its way has not.
\<close>

definition inode_ok :: "u8 \<Rightarrow> inode_info \<Rightarrow> bool" where
  "inode_ok n si \<longleftrightarrow> si_current_tier si < n \<and> si_intended_tier si < n
     \<and> (si_movement_state si \<in> {MS_PLACED, MS_SWITCHED} \<longrightarrow> si_intended_tier si = si_current_tier si)
     \<and> (ms_precutover (si_movement_state si) \<or> si_movement_state si = MS_CUTOVER_IN_PROGRESS
          \<longrightarrow> si_intended_tier si \<noteq> si_current_tier si)"

definition mv_ok :: "sb_info \<Rightarrow> bool" where
  "mv_ok s \<longleftrightarrow> (\<forall>r si. sbi_inodes s r = Some si \<longrightarrow> inode_ok (sbi_ntiers s) si)"

definition at_rest :: "sb_info \<Rightarrow> bool" where
  "at_rest s \<longleftrightarrow> (\<forall>r si. sbi_inodes s r = Some si \<longrightarrow> si_movement_state si \<noteq> MS_CUTOVER_IN_PROGRESS)"

text \<open>
  What the commands rely on: resolving an object id keeps the invariant (it may instantiate
  an inode from the recovery index), and while the cutover waits for the writers no other
  task changes a movement state, a tier or a transaction number.
\<close>

definition moving_part :: "inode_info \<Rightarrow> movement_state \<times> u8 \<times> u8 \<times> u64" where
  "moving_part si = (si_movement_state si, si_current_tier si, si_intended_tier si, si_transaction_seq si)"

definition calm :: "move_env \<Rightarrow> bool" where
  "calm env \<longleftrightarrow>
     (\<forall>oid s. mv_ok s \<and> at_rest s \<longrightarrow> mv_ok (snd (mv_resolve env oid s)) \<and> at_rest (snd (mv_resolve env oid s)))
   \<and> (\<forall>oid s. sbi_ntiers (snd (mv_resolve env oid s)) = sbi_ntiers s)
   \<and> (\<forall>s. sbi_ntiers (mv_others env s) = sbi_ntiers s)
   \<and> (\<forall>s r. map_option moving_part (sbi_inodes (mv_others env s) r) = map_option moving_part (sbi_inodes s r))"

lemma calm_resolve: "calm env \<Longrightarrow> mv_ok s \<Longrightarrow> at_rest s \<Longrightarrow> mv_resolve env oid s = (x, s') \<Longrightarrow> mv_ok s' \<and> at_rest s'"
  unfolding calm_def by (metis snd_conv)

lemma calm_others:
  assumes "calm env" "sbi_inodes (mv_others env s) r = Some si"
  obtains si0 where "sbi_inodes s r = Some si0" "moving_part si = moving_part si0"
  using assms unfolding calm_def by (metis map_option_eq_Some)

lemma mv_ok_step [intro]:
  assumes "mv_ok s" "sbi_ntiers s' = sbi_ntiers s" "sbi_inodes s' = (sbi_inodes s)(r \<mapsto> si')" "inode_ok (sbi_ntiers s) si'"
  shows "mv_ok s'"
  using assms by (auto simp: mv_ok_def)

lemma at_rest_step [intro]:
  assumes "at_rest s" "sbi_inodes s' = (sbi_inodes s)(r \<mapsto> si')" "si_movement_state si' \<noteq> MS_CUTOVER_IN_PROGRESS"
  shows "at_rest s'"
  using assms by (auto simp: at_rest_def)

lemma upd_inode_inodes: "sbi_inodes s r = Some si \<Longrightarrow> sbi_inodes (upd_inode r f s) = (sbi_inodes s)(r \<mapsto> f si)"
  by (simp add: upd_inode_def)

lemma mv_okD: "mv_ok s \<Longrightarrow> sbi_inodes s r = Some si \<Longrightarrow> inode_ok (sbi_ntiers s) si"
  by (auto simp: mv_ok_def)

section \<open>Every command keeps it\<close>

text \<open>
  The four commands that run in one locked section change at most one inode, after the
  lookup; a case rule per command gives the change.
\<close>

definition one_change :: "move_env \<Rightarrow> bytes \<Rightarrow> sb_info \<Rightarrow> (inode_info \<Rightarrow> inode_info \<Rightarrow> bool) \<Rightarrow> sb_info \<Rightarrow> bool" where
  "one_change env oid s R s' \<longleftrightarrow> s' = s \<or> s' = snd (mv_resolve env oid s)
     \<or> (\<exists>r s1 si si'. mv_resolve env oid s = (Some r, s1) \<and> sbi_inodes s1 r = Some si \<and> sbi_ntiers s' = sbi_ntiers s1
          \<and> sbi_inodes s' = (sbi_inodes s1)(r \<mapsto> si') \<and> R si si')"

lemma one_change_keeps:
  assumes "one_change env oid s R s'" "calm env" "mv_ok s" "at_rest s"
    and "\<And>n si si'. R si si' \<Longrightarrow> inode_ok n si \<Longrightarrow> n = sbi_ntiers s \<Longrightarrow> inode_ok n si' \<and> si_movement_state si' \<noteq> MS_CUTOVER_IN_PROGRESS"
  shows "mv_ok s' \<and> at_rest s'"
proof -
  have base: "mv_ok (snd (mv_resolve env oid s)) \<and> at_rest (snd (mv_resolve env oid s))"
    using calm_resolve [OF assms(2-4), of oid] by (metis prod.collapse)
  from assms(1) consider "s' = s" | "s' = snd (mv_resolve env oid s)"
    | r s1 si si' where "mv_resolve env oid s = (Some r, s1)" "sbi_inodes s1 r = Some si" "sbi_ntiers s' = sbi_ntiers s1"
        "sbi_inodes s' = (sbi_inodes s1)(r \<mapsto> si')" "R si si'"
    unfolding one_change_def by blast
  then show ?thesis
  proof cases
    case 3
    then have "mv_ok s1" "at_rest s1" using base by auto
    moreover have "sbi_ntiers s1 = sbi_ntiers s" using assms(2) 3(1) unfolding calm_def by (metis snd_conv)
    then have "inode_ok (sbi_ntiers s1) si' \<and> si_movement_state si' \<noteq> MS_CUTOVER_IN_PROGRESS"
      using assms(5) 3(5) mv_okD [OF \<open>mv_ok s1\<close> 3(2)] by metis
    ultimately show ?thesis using 3 mv_ok_step at_rest_step by metis
  qed (use base assms in auto)
qed

lemma plan_change:
  "one_change env oid s (\<lambda>si si'. si_movement_state si = MS_PLACED \<and> t < sbi_ntiers s \<and> t \<noteq> si_current_tier si
     \<and> si' = si\<lparr>si_mappings_quiesced := False, si_intended_tier := t, si_movement_state := MS_PLAN_ACCEPTED,
         si_transaction_seq := seq\<rparr>)
     (fst (snd (movement_plan env oid t seq force s)))"
  unfolding one_change_def movement_plan_def
  by (auto simp: Let_def not_le upd_inode_inodes split: prod.splits option.splits)

lemma settle_change:
  "one_change env oid s (\<lambda>si si'. si' = si\<lparr>si_movement_state := MS_PLACED, si_intended_tier := si_current_tier si\<rparr>)
     (fst (snd (movement_complete env oid seq s)))"
  "one_change env oid s (\<lambda>si si'. si' = si\<lparr>si_movement_state := MS_PLACED, si_intended_tier := si_current_tier si\<rparr>)
     (fst (snd (movement_rollback env oid seq s)))"
  unfolding one_change_def movement_complete_def movement_rollback_def
  by (auto simp: upd_inode_inodes dest!: log_move_done split: prod.splits option.splits sum.splits)

lemma abort_change:
  "one_change env oid s (\<lambda>si si'. si' = si\<lparr>si_movement_state := MS_FAILED, si_intended_tier := si_current_tier si,
      si_transaction_seq := 0\<rparr>) (fst (snd (movement_abort env oid seq s)))"
  unfolding one_change_def movement_abort_def
  by (auto simp: Let_def upd_inode_inodes split: prod.splits option.splits)

lemma cutover_keeps:
  assumes "calm env" "mv_ok s" "at_rest s"
  shows "mv_ok (fst (snd (movement_cutover env oid seq expected check s)))
    \<and> at_rest (fst (snd (movement_cutover env oid seq expected check s)))"
proof -
  obtain b s0 fx0 where b: "cutover_begin env oid seq s = (b, s0, fx0)" by (metis prod_cases3)
  show ?thesis
  proof (cases b)
    case (Inl e)
    have "s0 = s \<or> s0 = snd (mv_resolve env oid s)"
      using b Inl by (auto simp: cutover_begin_def Let_def split: if_splits prod.splits option.splits)
    moreover have "mv_ok (snd (mv_resolve env oid s)) \<and> at_rest (snd (mv_resolve env oid s))"
      using calm_resolve [OF assms, of oid] by (metis prod.collapse)
    ultimately show ?thesis using b Inl assms by (auto simp: movement_cutover_def)
  next
    case (Inr r)
    with b have b': "cutover_begin env oid seq s = (Ok r, s0, fx0)" by simp
    then obtain s1 si0 where s1: "mv_resolve env oid s = (Some r, s1)" "sbi_inodes s1 r = Some si0"
        "ms_precutover (si_movement_state si0)"
        "s0 = snd (log_move env oid MS_CUTOVER_IN_PROGRESS (si_current_tier si0) (si_intended_tier si0) True
           (upd_inode r (\<lambda>i. i\<lparr>si_movement_state := MS_CUTOVER_IN_PROGRESS\<rparr>) s1))"
      by (rule cutover_begin_ok)
    have ok1: "mv_ok s1" "at_rest s1" using calm_resolve [OF assms s1(1)] by auto
    let ?s = "mv_others env s0"
    have n: "sbi_ntiers ?s = sbi_ntiers s1" using assms(1) s1(4) by (simp add: calm_def)
    have s0: "sbi_inodes s0 = (sbi_inodes s1)(r \<mapsto> si0\<lparr>si_movement_state := MS_CUTOVER_IN_PROGRESS\<rparr>)"
      using s1(2,4) by (simp add: upd_inode_inodes)
    have moved: "\<exists>si1. sbi_inodes s0 q = Some si1 \<and> moving_part si = moving_part si1" if "sbi_inodes ?s q = Some si" for q si
      using calm_others [OF assms(1) that] by metis
    have okb: "inode_ok (sbi_ntiers s1) si" if q: "sbi_inodes ?s q = Some si" for q si
    proof -
      obtain si1 where si1: "sbi_inodes s0 q = Some si1" "moving_part si = moving_part si1" using moved [OF q] by blast
      have "inode_ok (sbi_ntiers s1) si1"
        using si1(1) s0 mv_okD [OF ok1(1) s1(2)] mv_okD [OF ok1(1)] s1(3) by (auto simp: inode_ok_def split: if_splits)
      then show ?thesis using si1(2) by (auto simp: inode_ok_def moving_part_def)
    qed
    have restb: "si_movement_state si \<noteq> MS_CUTOVER_IN_PROGRESS" if q: "sbi_inodes ?s q = Some si" "q \<noteq> r" for q si
    proof -
      obtain si1 where si1: "sbi_inodes s0 q = Some si1" "moving_part si = moving_part si1" using moved [OF q(1)] by blast
      then show ?thesis using s0 q(2) ok1(2) by (auto simp: at_rest_def moving_part_def)
    qed
    have "map_option moving_part (sbi_inodes ?s r) = map_option moving_part (sbi_inodes s0 r)"
      using assms(1) by (simp add: calm_def)
    then have "\<exists>si. sbi_inodes ?s r = Some si \<and> si_movement_state si = MS_CUTOVER_IN_PROGRESS"
      using s0 by (cases "sbi_inodes ?s r") (auto simp: moving_part_def)
    then obtain si where si: "sbi_inodes ?s r = Some si" "si_movement_state si = MS_CUTOVER_IN_PROGRESS" by blast
    have fin: "mv_ok s' \<and> at_rest s'"
      if "sbi_ntiers s' = sbi_ntiers ?s" "sbi_inodes s' = (sbi_inodes ?s)(r \<mapsto> si')" "inode_ok (sbi_ntiers s1) si'"
        "si_movement_state si' \<noteq> MS_CUTOVER_IN_PROGRESS" for s' si'
      using that okb restb n by (auto simp: mv_ok_def at_rest_def)
    note oksi = okb [OF si(1)]
    show ?thesis
    proof (rule movement_cutover_cases [OF b' si(1), of expected check], goal_cases drained busy gone)
      case drained
      show ?case
      proof (rule cutover_finish_elim [OF si(1), of env oid seq expected check], goal_cases backed fail ok)
        case backed
        then show ?case using drained si oksi
          by (simp, intro fin [where si' = "si\<lparr>si_movement_state := MS_COPY_VERIFIED\<rparr>"]) (simp_all add: inode_ok_def)
      next
        case (fail e fx)
        then show ?case using drained si oksi
          by (simp add: case_prod_beta, intro fin [where si' = "si\<lparr>si_movement_state := MS_FAILED\<rparr>"])
            (simp_all add: inode_ok_def ms_precutover_def)
      next
        case (ok dest si' s' fx1 fx2)
        then have "mv_ok s' \<and> at_rest s'" using oksi si(2)
          by (intro fin [where si' = si']) (auto simp: inode_ok_def switched_def ms_precutover_def)
        then show ?case using drained ok(1) by simp
      qed
    next
      case busy
      then show ?case using si oksi
        by (simp, intro fin [where si' = "si\<lparr>si_movement_state := MS_COPY_VERIFIED\<rparr>"]) (simp_all add: inode_ok_def)
    next
      case gone
      then show ?case using si by simp
    qed
  qed
qed

section \<open>Runs\<close>

inductive mv_step :: "sb_info \<Rightarrow> sb_info \<Rightarrow> bool" where
  plan: "calm env \<Longrightarrow> mv_step s (fst (snd (movement_plan env oid t seq force s)))"
| cutover: "calm env \<Longrightarrow> mv_step s (fst (snd (movement_cutover env oid seq expected check s)))"
| complete: "calm env \<Longrightarrow> mv_step s (fst (snd (movement_complete env oid seq s)))"
| rollback: "calm env \<Longrightarrow> mv_step s (fst (snd (movement_rollback env oid seq s)))"
| abort: "calm env \<Longrightarrow> mv_step s (fst (snd (movement_abort env oid seq s)))"

inductive mv_run :: "sb_info \<Rightarrow> sb_info \<Rightarrow> bool" where
  start: "mv_run s s"
| step: "mv_run s s' \<Longrightarrow> mv_step s' s'' \<Longrightarrow> mv_run s s''"

lemma mv_step_keeps: "mv_step s s' \<Longrightarrow> mv_ok s \<Longrightarrow> at_rest s \<Longrightarrow> mv_ok s' \<and> at_rest s'"
proof (induction rule: mv_step.induct)
  case (plan env s oid t seq force)
  show ?case
    by (rule one_change_keeps [OF plan_change plan]) (auto simp: inode_ok_def)
next
  case (cutover env s oid seq expected check)
  then show ?case by (rule cutover_keeps)
next
  case (complete env s oid seq)
  show ?case
    by (rule one_change_keeps [OF settle_change(1) complete]) (auto simp: inode_ok_def ms_precutover_def)
next
  case (rollback env s oid seq)
  show ?case
    by (rule one_change_keeps [OF settle_change(2) rollback]) (auto simp: inode_ok_def ms_precutover_def)
next
  case (abort env s oid seq)
  show ?case
    by (rule one_change_keeps [OF abort_change abort]) (auto simp: inode_ok_def ms_precutover_def)
qed


section \<open>The life of one move\<close>

text \<open>
  The object is cached under its id, and during the cutover's wait no other task changes its
  inode record.
\<close>

definition undisturbed :: "move_env \<Rightarrow> bytes \<Rightarrow> iref \<Rightarrow> bool" where
  "undisturbed env oid r \<longleftrightarrow> (\<forall>s. mv_resolve env oid s = (Some r, s)) \<and> (\<forall>s. sbi_inodes (mv_others env s) r = sbi_inodes s r)"

lemma plan_done:
  assumes "undisturbed env oid r" "movement_plan env oid t seq force s = (Done, s1, fx)" "sbi_inodes s r = Some si"
  shows "sbi_inodes s1 r = Some (si\<lparr>si_mappings_quiesced := False, si_intended_tier := t,
      si_movement_state := MS_PLAN_ACCEPTED, si_transaction_seq := seq\<rparr>)
    \<and> si_movement_state si = MS_PLACED \<and> t < sbi_ntiers s1 \<and> t \<noteq> si_current_tier si \<and> \<not> sbi_quiesced s1"
  using assms by (auto simp: movement_plan_def undisturbed_def Let_def not_le split: if_splits)

text \<open>The inode after the first section of a cutover, as the second one finds it.\<close>

lemma cutover_waiting:
  assumes "undisturbed env oid r" "sbi_inodes s r = Some si" "cutover_begin env oid seq s = (Ok q, s0, fx0)"
  shows "q = r \<and> sbi_inodes (mv_others env s0) r = Some (si\<lparr>si_movement_state := MS_CUTOVER_IN_PROGRESS\<rparr>)
    \<and> si_transaction_seq si = seq"
  using assms(3) by (rule cutover_begin_ok) (use assms in \<open>auto simp: undisturbed_def\<close>)

lemma cutover_done_inode:
  assumes "undisturbed env oid r" "sbi_inodes s r = Some si"
    and "movement_cutover env oid seq expected check s = (Done, s', fx)"
  shows "\<exists>dest si'. sbi_inodes s' r = Some si' \<and> switched env (si\<lparr>si_movement_state := MS_CUTOVER_IN_PROGRESS\<rparr>) dest si'"
proof -
  obtain b s0 fx0 where b: "cutover_begin env oid seq s = (b, s0, fx0)" by (metis prod_cases3)
  with assms(3) obtain q where q: "b = Ok q" by (cases b) (auto simp: movement_cutover_def)
  note w = cutover_waiting [OF assms(1,2) b [unfolded q]]
  then have si: "sbi_inodes (mv_others env s0) q = Some (si\<lparr>si_movement_state := MS_CUTOVER_IN_PROGRESS\<rparr>)" by simp
  show ?thesis
  proof (rule movement_cutover_cases [OF b [unfolded q] si, of expected check], goal_cases drained busy gone)
    case drained
    show ?case
    proof (rule cutover_finish_elim [OF si, of env oid seq expected check], goal_cases backed fail ok)
      case (fail e fx)
      then show ?case using drained assms(3) arg_cong [OF fail(1), of fst] by (auto simp: case_prod_beta)
    next
      case (ok dest si' s' fx1 fx2)
      then show ?case using drained assms(3) w by auto
    qed (use drained assms(3) in auto)
  qed (use assms(3) in auto)
qed

text \<open>A cutover over a lease pin tells the listeners.\<close>

lemma cutover_notifies:
  assumes "undisturbed env oid r" "sbi_inodes s r = Some si" "si_pin_state si = PIN_LEASE"
    and "movement_cutover env oid seq expected check s = (Done, s', fx)"
  shows "FX_MODIFY \<in> set fx"
proof -
  obtain b s0 fx0 where b: "cutover_begin env oid seq s = (b, s0, fx0)" by (metis prod_cases3)
  with assms(4) obtain q where q: "b = Ok q" by (cases b) (auto simp: movement_cutover_def)
  note w = cutover_waiting [OF assms(1,2) b [unfolded q]]
  then have si: "sbi_inodes (mv_others env s0) q = Some (si\<lparr>si_movement_state := MS_CUTOVER_IN_PROGRESS\<rparr>)" by simp
  have "drain_writers env = Done"
    using assms(4) b q by (cases "drain_writers env")
      (auto simp: movement_cutover_def Let_def split: option.splits if_splits prod.splits)
  then obtain fx1 where fin: "cutover_finish env oid seq expected check q (mv_others env s0) = (Done, s', fx1)" "fx = fx0 @ fx1"
    using assms(4) b q by (auto simp: movement_cutover_def Let_def split: prod.splits)
  from cutover_finish_cases [OF si, of env oid seq expected check] fin(1) assms(3) have "FX_MODIFY \<in> set fx1"
    by (auto simp del: cutover_fail_simps dest: arg_cong [of _ _ fst] simp: cutover_fail_def Let_def)
  with fin(2) show ?thesis by simp
qed

lemma cutover_err_inode:
  assumes "undisturbed env oid r" "sbi_inodes s r = Some si" "ms_precutover (si_movement_state si)"
    and "movement_cutover env oid seq expected check s = (Err e, s', fx)"
  shows "\<exists>m. sbi_inodes s' r = Some (si\<lparr>si_movement_state := m\<rparr>) \<and> (ms_precutover m \<or> m = MS_FAILED)"
proof -
  obtain b s0 fx0 where b: "cutover_begin env oid seq s = (b, s0, fx0)" by (metis prod_cases3)
  show ?thesis
  proof (cases b)
    case (Inl e')
    then have "s' = s" using b assms by (auto simp: movement_cutover_def cutover_begin_def undisturbed_def Let_def split: if_splits)
    then show ?thesis using assms(2,3) by (intro exI [of _ "si_movement_state si"]) simp
  next
    case q: (Inr q)
    note w = cutover_waiting [OF assms(1,2) b [unfolded q]]
    then have si: "sbi_inodes (mv_others env s0) q = Some (si\<lparr>si_movement_state := MS_CUTOVER_IN_PROGRESS\<rparr>)" by simp
    have cv: "ms_precutover MS_COPY_VERIFIED" by (simp add: ms_precutover_def)
    show ?thesis
    proof (rule movement_cutover_cases [OF b [unfolded q] si, of expected check], goal_cases drained busy gone)
      case drained
      show ?case
      proof (rule cutover_finish_elim [OF si, of env oid seq expected check], goal_cases backed fail ok)
        case backed
        then show ?case using drained assms(4) w cv by (intro exI [of _ MS_COPY_VERIFIED]) auto
      next
        case (fail e' fx')
        then have "s' = fst (snd (cutover_fail env oid q (si\<lparr>si_movement_state := MS_CUTOVER_IN_PROGRESS\<rparr>) e' (mv_others env s0) fx'))"
          using drained assms(4) by (auto simp: case_prod_beta)
        then show ?case using w by (intro exI [of _ MS_FAILED]) auto
      qed (use drained assms(4) in auto)
    next
      case busy
      then show ?case using assms(4) w cv by (intro exI [of _ MS_COPY_VERIFIED]) auto
    qed (use si in auto)
  qed
qed

text \<open>
  C21. A move that is planned, cut over and completed with the planned transaction number
  puts the object on the planned tier: it is placed there, its lower file and all its aliases
  are the destination, and its object id and generation are the old ones.
\<close>

theorem move_lifecycle:
  assumes "undisturbed env oid r" "sbi_inodes s r = Some si"
    and "movement_plan env oid t seq force s = (Done, s1, fx1)"
    and "movement_cutover env oid seq expected check s1 = (Done, s2, fx2)"
  shows "\<exists>s3 fx3 si' dest. movement_complete env oid seq s2 = (Done, s3, fx3) \<and> sbi_inodes s3 r = Some si'
    \<and> si_movement_state si' = MS_PLACED \<and> si_current_tier si' = t \<and> si_intended_tier si' = t
    \<and> si_lower_path si' = Some dest \<and> (\<forall>a \<in> set (si_aliases si'). snd a = Some (p_dentry dest))
    \<and> si_oid si' = si_oid si \<and> si_gen si' = si_gen si \<and> si_cutover_gen si' = si_cutover_gen si + 1"
proof -
  from plan_done [OF assms(1,3,2)] cutover_done_inode [OF assms(1) _ assms(4)]
  obtain dest si2 where si2: "sbi_inodes s2 r = Some si2" "si_movement_state si2 = MS_SWITCHED" "si_transaction_seq si2 = seq"
      "si_current_tier si2 = t" "si_lower_path si2 = Some dest" "\<forall>a \<in> set (si_aliases si2). snd a = Some (p_dentry dest)"
      "si_oid si2 = si_oid si" "si_gen si2 = si_gen si" "si_cutover_gen si2 = si_cutover_gen si + 1"
    by (fastforce simp: switched_def)
  then have "movement_complete env oid seq s2 = (Done,
      upd_inode r (\<lambda>i. i\<lparr>si_movement_state := MS_PLACED, si_intended_tier := si_current_tier i\<rparr>)
        (snd (log_move env oid MS_PLACED t t True s2)), [FX_RECORD MS_PLACED t t, FX_EMIT MS_PLACED seq])"
    using assms(1) log_move_frame(1) [of env oid MS_PLACED t t True s2]
    by (cases "log_move env oid MS_PLACED t t True s2") (auto simp: movement_complete_def undisturbed_def)
  then show ?thesis using si2 by fastforce
qed

text \<open>
  A planned move whose cutover fails for whatever reason can be rolled back with its
  transaction number: the rollback succeeds and leaves the inode as it was before the plan,
  except for the transaction number and the mapping quiesce flag.
\<close>

theorem failed_cutover_rolls_back:
  assumes "undisturbed env oid r" "sbi_inodes s r = Some si" "inode_ok n si"
    and "movement_plan env oid t seq force s = (Done, s1, fx1)"
    and "movement_cutover env oid seq expected check s1 = (Err e, s2, fx2)"
  shows "\<exists>s3 fx3. movement_rollback env oid seq s2 = (Done, s3, fx3)
    \<and> sbi_inodes s3 r = Some (si\<lparr>si_transaction_seq := seq, si_mappings_quiesced := False\<rparr>)"
proof -
  note p = plan_done [OF assms(1,4,2)]
  then have same: "si_intended_tier si = si_current_tier si" using assms(3) by (simp add: inode_ok_def)
  have pre: "ms_precutover MS_PLAN_ACCEPTED" by (simp add: ms_precutover_def)
  from cutover_err_inode [OF assms(1) conjunct1 [OF p] _ assms(5)] pre
  obtain m where m: "sbi_inodes s2 r = Some (si\<lparr>si_mappings_quiesced := False, si_intended_tier := t,
      si_transaction_seq := seq, si_movement_state := m\<rparr>)" "ms_precutover m \<or> m = MS_FAILED"
    by auto
  let ?c = "si_current_tier si"
  have "movement_rollback env oid seq s2 = (Done,
      upd_inode r (\<lambda>i. i\<lparr>si_movement_state := MS_PLACED, si_intended_tier := si_current_tier i\<rparr>)
        (snd (log_move env oid MS_PLACED ?c ?c True s2)), [FX_RECORD MS_PLACED ?c ?c, FX_EMIT MS_PLACED seq])"
    using assms(1) m log_move_frame(1) [of env oid MS_PLACED ?c ?c True s2]
    by (cases "log_move env oid MS_PLACED ?c ?c True s2") (auto simp: movement_rollback_def undisturbed_def ms_precutover_def)
  then show ?thesis using m(1) p same by (auto intro!: inode_info.equality)
qed

text \<open>
  An aborted move cannot be rolled back with its own transaction number. The abort
  clears the number and leaves the object failed: the rollback then answers with a stale
  sequence, and no plan, cutover or completion is accepted for the object any more.
\<close>

theorem aborted_move_is_stuck:
  assumes "undisturbed env oid r" "sbi_inodes s r = Some si" "seq \<noteq> 0"
    and "movement_abort env oid seq s = (Done, s1, fx)"
  shows "fst (movement_rollback env oid seq s1) = Err ESTALE \<and> fst (movement_plan env oid t seq' force s1) \<noteq> Done
    \<and> fst (movement_cutover env oid seq' expected check s1) \<noteq> Done \<and> fst (movement_complete env oid seq' s1) \<noteq> Done"
proof -
  have si1: "sbi_inodes s1 r = Some (si\<lparr>si_movement_state := MS_FAILED, si_intended_tier := si_current_tier si, si_transaction_seq := 0\<rparr>)"
    using assms by (auto simp: movement_abort_def undisturbed_def Let_def split: if_splits)
  have "fst (cutover_begin env oid seq' s1) \<noteq> Ok q" for q
    using si1 assms(1) by (simp add: cutover_begin_def undisturbed_def ms_precutover_def)
  then have "fst (movement_cutover env oid seq' expected check s1) \<noteq> Done"
    by (cases "cutover_begin env oid seq' s1"; cases "fst (cutover_begin env oid seq' s1)") (auto simp: movement_cutover_def)
  then show ?thesis using si1 assms(1,3)
    by (simp add: movement_rollback_def movement_plan_def movement_complete_def undisturbed_def)
qed

section \<open>Concrete instances\<close>

lemma ex_calm: "calm ex_move_env"
  by (simp add: calm_def ex_move_env_def)

lemma ex_mv_ok: "mv_ok ex_pool" "at_rest ex_pool"
  by (simp_all add: mv_ok_def at_rest_def inode_ok_def ex_defs ms_precutover_def)

definition ex_env77 :: move_env where
  "ex_env77 = ex_move_env\<lparr>mv_resolve := (\<lambda>oid s. (Some 77, s))\<rparr>"

lemma ex_undisturbed: "undisturbed ex_env77 ex_oid 77"
  by (simp add: undisturbed_def ex_env77_def ex_move_env_def)

lemma ex_plan: "fst (movement_plan ex_env77 ex_oid 0 9 False ex_pool) = Done"
  by (simp add: movement_plan_def ex_env77_def ex_move_env_def ex_defs can_move_def Let_def)

lemma ex_plan_cutover:
  assumes "movement_plan ex_env77 ex_oid 0 9 False ex_pool = (Done, s1, fx1)"
  shows "fst (movement_cutover ex_env77 ex_oid 9 0 True s1) = Done" "fst (movement_cutover ex_env77 ex_oid 9 3 True s1) = Err ESTALE"
proof -
  have s1: "s1 = snd (log_move ex_env77 ex_oid MS_PLAN_ACCEPTED 1 0 False
      (upd_inode 77 (\<lambda>i. i\<lparr>si_mappings_quiesced := False, si_intended_tier := 0, si_movement_state := MS_PLAN_ACCEPTED,
         si_transaction_seq := 9\<rparr>) ex_pool))"
    using assms by (simp add: movement_plan_def ex_env77_def ex_move_env_def ex_defs can_move_def Let_def)
  show "fst (movement_cutover ex_env77 ex_oid 9 0 True s1) = Done"
    by (simp add: s1 movement_cutover_def cutover_begin_def drain_writers_def cutover_finish_def ex_env77_def ex_move_env_def
        ex_defs current_rel_path_def resolve_cutover_dest_def cutover_parent_def ms_precutover_def
        split_last_slash_def persist_identity_def write_identity_def Let_def)
  show "fst (movement_cutover ex_env77 ex_oid 9 3 True s1) = Err ESTALE"
    by (simp add: s1 movement_cutover_def cutover_begin_def drain_writers_def cutover_finish_def ex_env77_def ex_move_env_def
        ex_defs ms_precutover_def case_prod_beta Let_def)
qed


theorem move_lifecycle_witness:
  "\<exists>s2 s3 fx3 si'. movement_complete ex_env77 ex_oid 9 s2 = (Done, s3, fx3) \<and> sbi_inodes s3 77 = Some si' \<and> si_current_tier si' = 0"
proof -
  obtain s1 fx1 where p: "movement_plan ex_env77 ex_oid 0 9 False ex_pool = (Done, s1, fx1)"
    using ex_plan by (metis prod.collapse)
  obtain s2 fx2 where c: "movement_cutover ex_env77 ex_oid 9 0 True s1 = (Done, s2, fx2)"
    using ex_plan_cutover(1) [OF p] by (metis prod.collapse)
  have "sbi_inodes ex_pool 77 = Some ex_inode" by (simp add: ex_pool_def)
  from move_lifecycle [OF ex_undisturbed this p c] show ?thesis by blast
qed

theorem failed_cutover_rolls_back_witness:
  "\<exists>s2 s3 fx3. movement_rollback ex_env77 ex_oid 9 s2 = (Done, s3, fx3) \<and> sbi_inodes s3 77 = Some (ex_inode\<lparr>si_transaction_seq := 9\<rparr>)"
proof -
  obtain s1 fx1 where p: "movement_plan ex_env77 ex_oid 0 9 False ex_pool = (Done, s1, fx1)"
    using ex_plan by (metis prod.collapse)
  obtain s2 fx2 where c: "movement_cutover ex_env77 ex_oid 9 3 True s1 = (Err ESTALE, s2, fx2)"
    using ex_plan_cutover(2) [OF p] by (metis prod.collapse)
  have si: "sbi_inodes ex_pool 77 = Some ex_inode" by (simp add: ex_pool_def)
  have ok: "inode_ok 2 ex_inode" by (simp add: inode_ok_def ex_inode_def ms_precutover_def)
  have "ex_inode\<lparr>si_transaction_seq := 9, si_mappings_quiesced := False\<rparr> = ex_inode\<lparr>si_transaction_seq := 9\<rparr>"
    by (simp add: ex_inode_def)
  with failed_cutover_rolls_back [OF ex_undisturbed si ok p c] show ?thesis by auto
qed

theorem aborted_move_is_stuck_witness:
  "\<exists>s fx. movement_abort ex_env77 ex_oid 9 ex_moving = (Done, s, fx) \<and> fst (movement_rollback ex_env77 ex_oid 9 s) = Err ESTALE"
proof -
  have "fst (movement_abort ex_env77 ex_oid 9 ex_moving) = Done"
    by (simp add: movement_abort_def ex_env77_def ex_move_defs Let_def)
  then obtain s fx where a: "movement_abort ex_env77 ex_oid 9 ex_moving = (Done, s, fx)" by (metis prod.collapse)
  have si: "sbi_inodes ex_moving 77 = Some (ex_inode\<lparr>si_intended_tier := 0, si_movement_state := MS_COPY_VERIFIED, si_transaction_seq := 9\<rparr>)"
    by (simp add: ex_moving_def ex_pool_def)
  from aborted_move_is_stuck [OF ex_undisturbed si _ a] a show ?thesis by auto
qed

end
