(* ===== verification/Lower_File.thy ===== *)
theory Lower_File
  imports Movement_Protocol Inode_Identity
begin

text \<open>
  The lower file behind an open file descriptor (\<open>src/src/smoothfs/lower.c\<close>): opening it,
  releasing it, and reopening it lazily after a cutover. The kernel's \<open>dentry_open\<close> and
  \<open>inode_permission\<close> are arguments. Opening takes one more argument, what other tasks make of
  the inode between the opening of the lower file and the read of the cutover generation.
\<close>

section \<open>Flags\<close>

definition O_ACCMODE :: u32 where "O_ACCMODE = 3"
definition O_WRONLY :: u32 where "O_WRONLY = 1"
definition O_RDWR :: u32 where "O_RDWR = 2"
definition O_CREAT :: u32 where "O_CREAT = 0x40"
definition O_EXCL :: u32 where "O_EXCL = 0x80"
definition O_NOCTTY :: u32 where "O_NOCTTY = 0x100"
definition O_APPEND :: u32 where "O_APPEND = 0x400"
definition O_LARGEFILE :: u32 where "O_LARGEFILE = 0x8000"
definition MAY_WRITE :: u32 where "MAY_WRITE = 2"
definition MAY_READ :: u32 where "MAY_READ = 4"
definition MAY_APPEND :: u32 where "MAY_APPEND = 8"

lemmas flag_defs = O_ACCMODE_def O_WRONLY_def O_RDWR_def O_CREAT_def O_EXCL_def O_NOCTTY_def O_APPEND_def
  O_LARGEFILE_def MAY_WRITE_def MAY_READ_def MAY_APPEND_def

definition reissue_perm_mask :: "u32 \<Rightarrow> u32" where
  "reissue_perm_mask flags =
    (let acc = flags AND O_ACCMODE;
         mask = (if acc = 0 then MAY_READ else if acc = O_WRONLY then MAY_WRITE
                 else if acc = O_RDWR then MAY_READ OR MAY_WRITE else 0)
     in if flags AND O_APPEND \<noteq> 0 then mask OR MAY_APPEND else mask)"

section \<open>Open files\<close>

type_synonym cred = nat

record open_file =
  of_path :: path
  of_flags :: u32

record file_info =
  fi_lower_file :: "open_file option"
  fi_lower_gen :: u32
  fi_open_flags :: u32
  fi_open_cred :: cred

record lower_env =
  le_alloc :: bool
  le_iget :: iget_env
  le_permission :: "cred \<Rightarrow> inode_info \<Rightarrow> u32 \<Rightarrow> unit res"
  le_dentry_open :: "path \<Rightarrow> u32 \<Rightarrow> unit res"

text \<open>
  \<open>open_lower_now\<close>. A reopen refreshes the presented attributes from the new lower file and
  repeats the permission check with the opener's credentials. An inode that \<open>smoothfs_iget\<close>
  returned has a lower path; one without is refused.
\<close>

definition open_lower_now ::
  "lower_env \<Rightarrow> u32 \<Rightarrow> cred \<Rightarrow> bool \<Rightarrow> inode_info \<Rightarrow> open_file res \<times> inode_info" where
  "open_lower_now env flags cred reissue si =
    (case si_lower_path si of
       None \<Rightarrow> (Err ENOENT, si)
     | Some p \<Rightarrow>
        (let si1 = (if reissue then copy_attrs (le_iget env) (p_dentry p) si else si)
         in case (if reissue then le_permission env cred si1 (reissue_perm_mask flags) else Done) of
             Err e \<Rightarrow> (Err e, si1)
           | Ok _ \<Rightarrow>
              (let fl = (flags AND NOT (O_CREAT OR O_EXCL OR O_NOCTTY)) OR O_LARGEFILE
               in case le_dentry_open env p fl of
                   Err e \<Rightarrow> (Err e, si1)
                 | Ok _ \<Rightarrow> (Ok \<lparr>of_path = p, of_flags = fl\<rparr>, si1))))"

definition open_lower ::
  "lower_env \<Rightarrow> (inode_info \<Rightarrow> inode_info) \<Rightarrow> u32 \<Rightarrow> cred \<Rightarrow> inode_info \<Rightarrow> file_info res \<times> inode_info" where
  "open_lower env mid flags cred si =
    (if \<not> le_alloc env then (Err ENOMEM, si)
     else case open_lower_now env flags cred False si of
         (Err e, si1) \<Rightarrow> (Err e, si1)
       | (Ok f, si1) \<Rightarrow>
          (let si2 = mid si1
           in (Ok \<lparr>fi_lower_file = Some f, fi_lower_gen = si_cutover_gen si2, fi_open_flags = flags, fi_open_cred = cred\<rparr>,
               si2\<lparr>si_heat := (si_heat si2)\<lparr>h_open_count := h_open_count (si_heat si2) + 1\<rparr>\<rparr>)))"

text \<open>\<open>smoothfs_release_lower\<close>: the file's private data is gone.\<close>

definition release_lower :: "file_info option \<Rightarrow> file_info option" where
  "release_lower fi = None"

definition reissue_lower ::
  "lower_env \<Rightarrow> file_info option \<Rightarrow> inode_info \<Rightarrow> unit res \<times> file_info option \<times> inode_info" where
  "reissue_lower env fio si =
    (case fio of
       None \<Rightarrow> (Err EBADF, None, si)
     | Some fi \<Rightarrow>
        (if fi_lower_gen fi = si_cutover_gen si then (Done, Some fi, si)
         else case open_lower_now env (fi_open_flags fi) (fi_open_cred fi) True si of
             (Err e, si1) \<Rightarrow> (Err e, Some fi, si1)
           | (Ok f, si1) \<Rightarrow> (Done, Some (fi\<lparr>fi_lower_file := Some f, fi_lower_gen := si_cutover_gen si\<rparr>), si1)))"

definition lower_file ::
  "lower_env \<Rightarrow> file_info option \<Rightarrow> inode_info \<Rightarrow> open_file option res \<times> file_info option \<times> inode_info" where
  "lower_file env fio si =
    (case fio of
       None \<Rightarrow> (Err EBADF, None, si)
     | Some _ \<Rightarrow>
        (case reissue_lower env fio si of
           (Err e, fio1, si1) \<Rightarrow> (Err e, fio1, si1)
         | (Ok _, fio1, si1) \<Rightarrow> (Ok (Option.bind fio1 fi_lower_file), fio1, si1)))"

text \<open>\<open>smoothfs_lower_file_error\<close> in \<open>file.c\<close>: an error pointer, or no file at all.\<close>

definition lower_file_error :: "open_file option res \<Rightarrow> unit res" where
  "lower_file_error f = (case f of Err e \<Rightarrow> Err e | Ok None \<Rightarrow> Err EBADF | Ok (Some _) \<Rightarrow> Done)"

section \<open>What a descriptor serves\<close>

text \<open>A descriptor of the inode's generation has the inode's lower file.\<close>

definition fd_current :: "file_info \<Rightarrow> inode_info \<Rightarrow> bool" where
  "fd_current fi si \<longleftrightarrow> fi_lower_gen fi = si_cutover_gen si
     \<longrightarrow> map_option of_path (fi_lower_file fi) = si_lower_path si"

lemma open_lower_now_path:
  "open_lower_now env flags cred re si = (Ok f, si') \<Longrightarrow> si_lower_path si = Some (of_path f)
    \<and> si_lower_path si' = si_lower_path si \<and> si_cutover_gen si' = si_cutover_gen si"
  by (auto simp: open_lower_now_def copy_attrs_def Let_def split: option.splits sum.splits if_splits)

lemma open_lower_now_err:
  "open_lower_now env flags cred re si = (Err e, si') \<Longrightarrow> si_lower_path si' = si_lower_path si \<and> si_cutover_gen si' = si_cutover_gen si"
  by (auto simp: open_lower_now_def copy_attrs_def Let_def split: option.splits sum.splits if_splits)

lemma open_lower_current:
  assumes "open_lower env (\<lambda>i. i) flags cred si = (Ok fi, si')"
  shows "fd_current fi si' \<and> fi_lower_gen fi = si_cutover_gen si \<and> map_option of_path (fi_lower_file fi) = si_lower_path si"
  using assms open_lower_now_path [of env flags cred False si]
  by (auto simp: open_lower_def fd_current_def Let_def split: prod.splits sum.splits if_splits)

lemma lower_file_serves:
  assumes "fd_current fi si" "lower_file env (Some fi) si = (Ok (Some f), fio, si')"
  shows "Some (of_path f) = si_lower_path si \<and> (\<exists>fi'. fio = Some fi' \<and> fd_current fi' si' \<and> fi_lower_gen fi' = si_cutover_gen si)"
proof (cases "fi_lower_gen fi = si_cutover_gen si")
  case True
  then show ?thesis using assms by (auto simp: lower_file_def reissue_lower_def fd_current_def)
next
  case False
  then show ?thesis
    using assms open_lower_now_path [of env "fi_open_flags fi" "fi_open_cred fi" True si]
    by (auto simp: lower_file_def reissue_lower_def fd_current_def split: prod.splits sum.splits)
qed

text \<open>
  A descriptor opened before a move follows it. If the object is opened, and then cut over
  to another tier, the next use of the descriptor gets the destination file, after a
  permission check against it with the opener's credentials, or an error; it never gets the
  source file again.
\<close>

theorem descriptor_follows_cutover:
  assumes "open_lower lenv (\<lambda>i. i) flags cred si0 = (Ok fi, si)"
    and "undisturbed env oid r" "sbi_inodes s r = Some si"
    and "movement_cutover env oid seq expected check s = (Done, s', fx)"
  shows "\<exists>si'. sbi_inodes s' r = Some si' \<and> si_current_tier si' = si_intended_tier si
    \<and> (case lower_file lenv (Some fi) si' of
         (Err e, fio, si'') \<Rightarrow> True
       | (Ok f, fio, si'') \<Rightarrow> map_option of_path f = si_lower_path si'
           \<and> le_permission lenv cred si'' (reissue_perm_mask flags) = Done)"
proof -
  obtain dest si' where si': "sbi_inodes s' r = Some si'"
      "switched env (si\<lparr>si_movement_state := MS_CUTOVER_IN_PROGRESS\<rparr>) dest si'"
    using cutover_done_inode [OF assms(2,3,4)] by blast
  have fi: "fi_lower_gen fi = si_cutover_gen si" "fi_open_flags fi = flags" "fi_open_cred fi = cred"
    using assms(1) by (auto simp: open_lower_def Let_def split: prod.splits sum.splits if_splits)
  have gen: "fi_lower_gen fi \<noteq> si_cutover_gen si'" using si'(2) fi(1) by (simp add: switched_def)
  have path: "si_lower_path si' = Some dest" using si'(2) by (simp add: switched_def)
  have "case lower_file lenv (Some fi) si' of
         (Err e, fio, si'') \<Rightarrow> True
       | (Ok f, fio, si'') \<Rightarrow> map_option of_path f = si_lower_path si'
           \<and> le_permission lenv cred si'' (reissue_perm_mask flags) = Done"
    using gen fi(2,3) path
    by (auto simp: lower_file_def reissue_lower_def open_lower_now_def Let_def split: prod.splits sum.splits option.splits)
  then show ?thesis using si' by (auto simp: switched_def)
qed

text \<open>
  The generation is read after the lower file is opened. If a cutover publishes another
  lower file in between, the new descriptor keeps the old lower file under the new
  generation, and every later use of it is served from the old file without a reopen.
\<close>

theorem open_race_keeps_stale_lower:
  assumes "le_alloc env" "si_lower_path si = Some old" "\<And>fl. le_dentry_open env old fl = Done"
    and "switched menv si dest si'" "dest \<noteq> old"
  shows "\<exists>fi si''. open_lower env (\<lambda>_. si') flags cred si = (Ok fi, si'')
    \<and> (\<exists>f. lower_file env (Some fi) si'' = (Ok (Some f), Some fi, si'') \<and> of_path f = old \<and> si_lower_path si'' = Some dest)"
  using assms by (simp add: open_lower_def open_lower_now_def lower_file_def reissue_lower_def switched_def Let_def)

section \<open>Concrete instances\<close>

definition ex_lower_env :: lower_env where
  "ex_lower_env = \<lparr>le_alloc = True, le_iget = ex_iget_env, le_permission = (\<lambda>c i m. Done), le_dentry_open = (\<lambda>p f. Done)\<rparr>"

theorem descriptor_follows_cutover_witness:
  "\<exists>fi si s' fx si'. open_lower ex_lower_env (\<lambda>i. i) 2 7 ex_inode = (Ok fi, si)
    \<and> movement_cutover ex_env77 ex_oid 9 0 True
        (ex_moving\<lparr>sbi_inodes := [77 \<mapsto> si\<lparr>si_intended_tier := 0, si_movement_state := MS_COPY_VERIFIED, si_transaction_seq := 9\<rparr>]\<rparr>) = (Done, s', fx)
    \<and> sbi_inodes s' 77 = Some si' \<and> si_current_tier si' = 0"
proof -
  define ino where "ino = ex_inode\<lparr>si_intended_tier := 0, si_movement_state := MS_COPY_VERIFIED, si_transaction_seq := 9\<rparr>"
  define si where "si = ex_inode\<lparr>si_heat := ex_heat\<lparr>h_open_count := 1\<rparr>\<rparr>"
  define ino' where "ino' = si\<lparr>si_intended_tier := 0, si_movement_state := MS_COPY_VERIFIED, si_transaction_seq := 9\<rparr>"
  obtain fi where o: "open_lower ex_lower_env (\<lambda>i. i) 2 7 ex_inode = (Ok fi, si)"
    by (simp add: open_lower_def open_lower_now_def ex_lower_env_def si_def ex_inode_def ex_heat_def Let_def)
  have o': "open_lower ex_lower_env (\<lambda>i. i) 2 7 ino = (Ok fi, ino')"
    using o by (simp add: open_lower_def open_lower_now_def ex_lower_env_def ino_def ino'_def si_def ex_inode_def ex_heat_def Let_def)
  let ?s = "ex_moving\<lparr>sbi_inodes := [77 \<mapsto> ino']\<rparr>"
  have i: "sbi_inodes ?s 77 = Some ino'" by simp
  have "fst (movement_cutover ex_env77 ex_oid 9 0 True ?s) = Done"
    by (simp add: ino'_def si_def movement_cutover_def cutover_begin_def drain_writers_def cutover_finish_def ex_env77_def
        ex_move_defs current_rel_path_def resolve_cutover_dest_def cutover_parent_def
        split_last_slash_def persist_identity_def write_identity_def log_move_def placement_record_def placement_wb_add_def Let_def)
  then obtain s' fx where c: "movement_cutover ex_env77 ex_oid 9 0 True ?s = (Done, s', fx)" by (metis prod.collapse)
  from descriptor_follows_cutover [OF o' ex_undisturbed i c] o c show ?thesis
    by (auto simp: ino'_def)
qed

theorem open_race_keeps_stale_lower_witness:
  "\<exists>fi si'' f. open_lower ex_lower_env (\<lambda>i. i\<lparr>si_lower_path := Some \<lparr>p_mnt = 0, p_dentry = 5\<rparr>, si_current_tier := 0,
        si_intended_tier := 0, si_cutover_gen := 1, si_movement_state := MS_SWITCHED, si_aliases := []\<rparr>) 0 7
        (ex_inode\<lparr>si_intended_tier := 0\<rparr>) = (Ok fi, si'')
    \<and> lower_file ex_lower_env (Some fi) si'' = (Ok (Some f), Some fi, si'') \<and> of_path f = \<lparr>p_mnt = 1, p_dentry = 105\<rparr>"
proof -
  let ?si = "ex_inode\<lparr>si_intended_tier := 0\<rparr>"
  let ?f = "\<lambda>i. i\<lparr>si_lower_path := Some \<lparr>p_mnt = 0, p_dentry = 5\<rparr>, si_current_tier := 0,
        si_intended_tier := 0, si_cutover_gen := 1, si_movement_state := MS_SWITCHED, si_aliases := []\<rparr>"
  have sw: "switched ex_move_env ?si \<lparr>p_mnt = 0, p_dentry = 5\<rparr> (?f ?si)" by (simp add: switched_def ex_inode_def)
  have "open_lower ex_lower_env ?f 0 7 ?si = open_lower ex_lower_env (\<lambda>_. ?f ?si) 0 7 ?si"
    by (simp add: open_lower_def open_lower_now_def ex_lower_env_def ex_inode_def Let_def)
  then show ?thesis
    using open_race_keeps_stale_lower [of ex_lower_env ?si "\<lparr>p_mnt = 1, p_dentry = 105\<rparr>" _ _ "?f ?si" 0 7, OF _ _ _ sw]
    by (auto simp: ex_lower_env_def ex_inode_def)
qed

end
