(* ===== verification/Staged_Io.thy ===== *)
theory Staged_Io
  imports Range_Sidecar Lower_File
begin

text \<open>
  Reading and writing a file with staged ranges, and draining the ranges back to the file's
  own tier (\<open>src/src/smoothfs/file.c\<close> and the write-staging part of
  \<open>src/src/smoothfs/super.c\<close>). The state is the pool, the contents of the lower files by
  dentry, and the sidecar directory. The kernel calls are fields of \<open>io_env\<close>.
\<close>

section \<open>State and kernel calls\<close>

text \<open>The read cache of an inode: an anonymous file, its valid chunks, and when they were valid.\<close>

record rcache =
  rc_file :: "bytes option"
  rc_chunks :: "nat \<rightharpoonup> nat"
  rc_seq :: u64
  rc_gen :: u32

record io_world =
  w_sbi :: sb_info
  w_files :: "dentry \<rightharpoonup> bytes"
  w_dir :: sdir
  w_rc :: "iref \<Rightarrow> rcache"

record io_env =
  io_kread :: kread
  io_kwrite :: kwrite
  io_vread :: kread
  io_vwrite :: kwrite
  io_copy :: "bytes \<Rightarrow> nat"
  io_alloc_name :: bool
  io_alloc_range :: bool
  io_alloc_buf :: bool
  io_open_stage :: "string \<Rightarrow> path res"
  io_dentry_open :: "path \<Rightarrow> unit res"
  io_statfs :: "path \<Rightarrow> (u64 \<times> u64) res"
  io_mapped :: "dentry \<Rightarrow> bool"
  io_fsync :: "path \<Rightarrow> unit res"
  io_ancestors :: "dentry \<Rightarrow> dentry list"
  io_unlink :: "path \<Rightarrow> unit res"
  io_grab :: "iref \<Rightarrow> bool"
  io_now :: u64
  io_persist :: persist_env

definition file_of :: "dentry \<Rightarrow> io_world \<Rightarrow> bytes" where
  "file_of d w = (case w_files w d of None \<Rightarrow> [] | Some f \<Rightarrow> f)"

definition set_file :: "dentry \<Rightarrow> bytes \<Rightarrow> io_world \<Rightarrow> io_world" where
  "set_file d f w = w\<lparr>w_files := (w_files w)(d \<mapsto> f)\<rparr>"

abbreviation upd_sbi :: "(sb_info \<Rightarrow> sb_info) \<Rightarrow> io_world \<Rightarrow> io_world" where
  "upd_sbi f w \<equiv> w\<lparr>w_sbi := f (w_sbi w)\<rparr>"

abbreviation ino :: "iref \<Rightarrow> io_world \<Rightarrow> inode_info option" where
  "ino r w \<equiv> sbi_inodes (w_sbi w) r"

definition DEFAULT_FULL_PCT :: u8 where
  "DEFAULT_FULL_PCT = 98"

definition RANGE_READ_CHUNK :: nat where
  "RANGE_READ_CHUNK = 256 * 1024"

section \<open>Admission\<close>

text \<open>The 64-bit comparison both fullness tests make, with its wrap-around.\<close>

definition tier_full :: "u8 \<Rightarrow> u64 \<Rightarrow> u64 \<Rightarrow> bool" where
  "tier_full pct blocks bavail =
    (let p = (if pct = 0 \<or> 100 < pct then DEFAULT_FULL_PCT else pct)
     in blocks * ucast p \<le> (blocks - bavail) * 100)"

text \<open>\<open>smoothfs_tier_near_enospc\<close> of \<open>file.c\<close>: an unknown tier and a failing \<open>statfs\<close> count as full.\<close>

definition tier_near_enospc :: "io_env \<Rightarrow> sb_info \<Rightarrow> u8 \<Rightarrow> bool" where
  "tier_near_enospc env sbi t =
    (if sbi_ntiers sbi \<le> t then True
     else case io_statfs env (t_lower_path (tier_at sbi t)) of
         Err _ \<Rightarrow> True
       | Ok (blocks, bavail) \<Rightarrow>
          (if blocks = 0 then True else tier_full (st_full_pct (sbi_staging sbi)) blocks bavail))"

definition should_range_stage_write :: "io_env \<Rightarrow> bool \<Rightarrow> inode_info \<Rightarrow> path option \<Rightarrow> sb_info \<Rightarrow> bool" where
  "should_range_stage_write env direct si lower sbi =
    (if \<not> st_enabled (sbi_staging sbi) then False
     else if si_kind si \<noteq> IK_REG then False
     else if direct then False
     else if si_pin_state si \<noteq> PIN_NONE then False
     else case lower of
         None \<Rightarrow> False
       | Some p \<Rightarrow>
          (if sbi_cache_mode sbi \<and> io_mapped env (p_dentry p) then False
           else let t = word_of_nat (tier_of sbi (p_mnt p))
             in if sbi_ntiers sbi \<le> t \<or> t = sbi_fastest_tier sbi then False
                else if tier_near_enospc env sbi (sbi_fastest_tier sbi) then False
                else True))"

section \<open>Accounting\<close>

text \<open>\<open>strscpy\<close> into the 64-byte reason buffer.\<close>

definition set_reason :: "string \<Rightarrow> staging_state \<Rightarrow> staging_state" where
  "set_reason reason s = s\<lparr>st_last_drain_reason := take 63 reason\<rparr>"

definition cmpxchg0 :: "int \<Rightarrow> int \<Rightarrow> int" where
  "cmpxchg0 old new = (if old = 0 then new else old)"

definition note_rehome :: "io_env \<Rightarrow> sb_info \<Rightarrow> sb_info" where
  "note_rehome env = upd_staging (\<lambda>s. set_reason ''truncate-rehome''
     (s\<lparr>st_staged_rehomes_total := st_staged_rehomes_total s + 1,
        st_oldest_staged_write_ns := cmpxchg0 (st_oldest_staged_write_ns s) (uint (io_now env))\<rparr>))"

definition note_write :: "io_env \<Rightarrow> int \<Rightarrow> sb_info \<Rightarrow> sb_info" where
  "note_write env n sbi =
    (if n \<le> 0 then sbi
     else upd_staging (\<lambda>s. set_reason ''staged-write''
       (s\<lparr>st_staged_bytes := st_staged_bytes s + n, st_staged_rehome_bytes := st_staged_rehome_bytes s + n,
          st_oldest_staged_write_ns := cmpxchg0 (st_oldest_staged_write_ns s) (uint (io_now env))\<rparr>)) sbi)"

definition note_range_write :: "io_env \<Rightarrow> int \<Rightarrow> sb_info \<Rightarrow> sb_info" where
  "note_range_write env n sbi =
    (if n < 0 then sbi
     else upd_staging (\<lambda>s. set_reason ''range-staged-write''
       (s\<lparr>st_staged_bytes := st_staged_bytes s + n, st_range_staged_bytes := st_range_staged_bytes s + n,
          st_range_staged_writes := st_range_staged_writes s + 1,
          st_oldest_staged_write_ns := cmpxchg0 (st_oldest_staged_write_ns s) (uint (io_now env))\<rparr>)) sbi)"

definition rehome_count :: "bool \<Rightarrow> sb_info \<Rightarrow> nat" where
  "rehome_count drainable_only sbi =
     length (filter (\<lambda>r. case sbi_inodes sbi r of
         None \<Rightarrow> False
       | Some si \<Rightarrow> si_write_staged si \<and> (drainable_only \<longrightarrow> drain_tier_active sbi (si_write_staged_drain_tier si)))
       (sbi_inode_list sbi))"

definition pending_rehomes :: "sb_info \<Rightarrow> nat" where
  "pending_rehomes sbi = rehome_count False sbi"

definition drainable_rehomes :: "sb_info \<Rightarrow> nat" where
  "drainable_rehomes sbi = rehome_count True sbi"

definition has_work :: "sb_info \<Rightarrow> bool" where
  "has_work sbi \<longleftrightarrow> 0 < st_staged_bytes (sbi_staging sbi) \<or> 0 < pending_rehomes sbi"

text \<open>The pressure shown to the administrator: unlike the admission test, a failing \<open>statfs\<close> is no pressure.\<close>

definition fastest_pressure :: "io_env \<Rightarrow> sb_info \<Rightarrow> bool" where
  "fastest_pressure env sbi =
    (if \<not> has_work sbi then False
     else if sbi_ntiers sbi \<le> sbi_fastest_tier sbi then False
     else case io_statfs env (t_lower_path (tier_at sbi (sbi_fastest_tier sbi))) of
         Err _ \<Rightarrow> False
       | Ok (blocks, bavail) \<Rightarrow>
          (if blocks = 0 then False else tier_full (st_full_pct (sbi_staging sbi)) blocks bavail))"

section \<open>Staging a write\<close>

definition range_stage_open :: "io_env \<Rightarrow> iref \<Rightarrow> io_world \<Rightarrow> path res \<times> io_world" where
  "range_stage_open env r w =
    (case ino r w of
       None \<Rightarrow> (Err ENOENT, w)
     | Some si \<Rightarrow>
        (case rs_path (si_rs si) of
           Some p \<Rightarrow> (Ok p, w)
         | None \<Rightarrow>
            (if \<not> io_alloc_name env then (Err ENOMEM, w)
             else case io_open_stage env (range_meta_name (si_oid si) REC_STAGE_SUFFIX) of
                 Err e \<Rightarrow> (Err e, w)
               | Ok p \<Rightarrow>
                  (Ok p, (upd_sbi (upd_inode r (upd_rs (\<lambda>s. s\<lparr>rs_path := Some p\<rparr>))) w)
                    \<lparr>w_files := (w_files w)(p_dentry p \<mapsto> file_of (p_dentry p) w)\<rparr>))))"

text \<open>
  What a successful stage write of \<open>n\<close> bytes at \<open>pos\<close> does to the inode: the range, the pin
  in cache mode, the flags, and the size.
\<close>

definition stage_note :: "bool \<Rightarrow> u8 \<Rightarrow> int \<Rightarrow> nat \<Rightarrow> inode_info \<Rightarrow> inode_info" where
  "stage_note cache_mode source_tier pos n si =
    (let en = pos + int n
     in (upd_rs (\<lambda>s. s\<lparr>rs_ranges := range_stage_record pos en (rs_ranges s), rs_pinned := rs_pinned s \<or> cache_mode,
            rs_range_staged := True, rs_source_tier := source_tier\<rparr>) si)
        \<lparr>si_size := (if si_size si < en then en else si_size si)\<rparr>)"

text \<open>
  \<open>smoothfs_range_stage_write\<close>: the result, the new position, the number of bytes taken from
  the caller's buffer, and the new state.
\<close>

definition range_stage_write ::
  "io_env \<Rightarrow> bool \<Rightarrow> iref \<Rightarrow> path \<Rightarrow> int \<Rightarrow> bytes \<Rightarrow> io_world \<Rightarrow> nat res \<times> int \<times> nat \<times> io_world" where
  "range_stage_write env app r lower pos0 data w =
    (case ino r w of
       None \<Rightarrow> (Err ENOENT, pos0, 0, w)
     | Some si0 \<Rightarrow>
        (let source_tier = word_of_nat (tier_of (w_sbi w) (p_mnt lower));
             pos = (if app then si_size si0 else pos0)
         in case range_stage_open env r w of
             (Err e, w1) \<Rightarrow> (Err e, pos, 0, w1)
           | (Ok p, w1) \<Rightarrow>
              (case io_dentry_open env p of
                 Err e \<Rightarrow> (Err e, pos, 0, w1)
               | Ok _ \<Rightarrow>
                  (if \<not> io_alloc_range env then (Err ENOMEM, pos, 0, w1)
                   else case io_vwrite env (file_of (p_dentry p) w1) pos data of
                       (Err e, f) \<Rightarrow> (Err e, pos, 0, set_file (p_dentry p) f w1)
                     | (Ok n, f) \<Rightarrow>
                        (let w2 = set_file (p_dentry p) f w1
                         in if n = 0 then (Ok 0, pos, 0, w2)
                            else let before = ranges_total (rs_ranges (si_rs si0));
                                     cache = sbi_cache_mode (w_sbi w);
                                     rs' = range_stage_record pos (pos + int n) (rs_ranges (si_rs si0));
                                     w3 = upd_sbi (note_range_write env (ranges_total rs' - before) \<circ>
                                            upd_inode r (stage_note cache source_tier pos n)) w2
                              in case range_staging_persist (io_persist env) (si_oid si0) source_tier rs' (io_now env) (w_dir w3) of
                                  (e, ds) \<Rightarrow>
                                    (let w4 = w3\<lparr>w_dir := last ds\<rparr>
                                     in case e of
                                         Ok _ \<Rightarrow> (Ok n, pos + int n, n, w4)
                                       | Err x \<Rightarrow>
                                          (if cache then (Err x, pos + int n, n, upd_sbi (upd_inode r note_data_change) w4)
                                           else (Ok n, pos + int n, n, w4))))))))"

section \<open>Draining\<close>

text \<open>One range, in chunks: read from the stage, write to the lower file at the same offset.\<close>

function drain_copy :: "io_env \<Rightarrow> bytes \<Rightarrow> int \<Rightarrow> int \<Rightarrow> bytes \<Rightarrow> int \<Rightarrow> unit res \<times> bytes \<times> int" where
  "drain_copy env stage pos en dest drained =
    (if en \<le> pos then (Done, dest, drained)
     else case io_kread env stage pos (nat (min (int RANGE_READ_CHUNK) (en - pos))) of
         Err e \<Rightarrow> (Err e, dest, drained)
       | Ok bs \<Rightarrow>
          (if bs = [] then (Err EIO, dest, drained)
           else case write_full (io_kwrite env) dest pos bs of
               (Err e, dest', _) \<Rightarrow> (Err e, dest', drained)
             | (Ok _, dest', _) \<Rightarrow>
                 drain_copy env stage (pos + int (length bs)) en dest' (drained + int (length bs))))"
  by pat_completeness auto

termination
  by (relation "measure (\<lambda>(env, stage, pos, en, dest, drained). nat (en - pos))") auto

declare drain_copy.simps [simp del]

fun drain_copy_all :: "io_env \<Rightarrow> bytes \<Rightarrow> staged_range list \<Rightarrow> bytes \<Rightarrow> int \<Rightarrow> unit res \<times> bytes \<times> int" where
  "drain_copy_all env stage [] dest drained = (Done, dest, drained)"
| "drain_copy_all env stage ((a, b) # rs) dest drained =
    (case drain_copy env stage a b dest drained of
       (Err e, dest', n) \<Rightarrow> (Err e, dest', n)
     | (Ok _, dest', n) \<Rightarrow> drain_copy_all env stage rs dest' n)"

text \<open>
  \<open>smoothfs_sync_base_parents\<close>: every directory from the file's parent up to the root of the
  base tier, or of its filesystem, which is the last element of the list.
\<close>

fun sync_base_parents :: "io_env \<Rightarrow> vfsmount \<Rightarrow> dentry \<Rightarrow> dentry list \<Rightarrow> unit res" where
  "sync_base_parents env mnt base [] = Done"
| "sync_base_parents env mnt base (d # ds) =
    (let p = \<lparr>p_mnt = mnt, p_dentry = d\<rparr>
     in case io_dentry_open env p of
         Err e \<Rightarrow> Err e
       | Ok _ \<Rightarrow>
          (case io_fsync env p of
             Err e \<Rightarrow> Err e
           | Ok _ \<Rightarrow> (if ds = [] \<or> d = base then Done else sync_base_parents env mnt base ds)))"

definition range_stage_unlink_path :: "io_env \<Rightarrow> path \<Rightarrow> io_world \<Rightarrow> unit res \<times> io_world" where
  "range_stage_unlink_path env p w =
    (case io_unlink env p of
       Err e \<Rightarrow> (if e = ENOENT then Done else Err e, w)
     | Ok _ \<Rightarrow> (Done, w\<lparr>w_files := (w_files w)(p_dentry p := None)\<rparr>))"

definition rs_drained :: "range_state \<Rightarrow> range_state" where
  "rs_drained s = s\<lparr>rs_path := None, rs_ranges := [], rs_range_staged := False,
     rs_source_tier := word_of_nat MAX_TIERS, rs_recovered := False, rs_pinned := False\<rparr>"

text \<open>The counters after a drain of \<open>n\<close> bytes.\<close>

definition note_drained :: "io_env \<Rightarrow> int \<Rightarrow> bool \<Rightarrow> sb_info \<Rightarrow> sb_info" where
  "note_drained env n recovered sbi =
    (let s1 = upd_staging (\<lambda>s. set_reason ''range-staged-drain''
                (s\<lparr>st_staged_bytes := st_staged_bytes s - n, st_range_staged_bytes := st_range_staged_bytes s - n,
                   st_recovery_pending := (if recovered then max 0 (st_recovery_pending s - n) else st_recovery_pending s),
                   st_last_drain_ns := uint (io_now env)\<rparr>)) sbi
     in if has_work s1 then s1 else upd_staging (\<lambda>s. s\<lparr>st_oldest_staged_write_ns := 0\<rparr>) s1)"

text \<open>The part of \<open>smoothfs_write_staging_drain_one_range\<close> after everything is durable on the base.\<close>

definition drain_clear :: "io_env \<Rightarrow> iref \<Rightarrow> inode_info \<Rightarrow> path \<Rightarrow> int \<Rightarrow> io_world \<Rightarrow> unit res \<times> io_world" where
  "drain_clear env r si stage_path drained w =
    (let w1 = upd_sbi (upd_inode r (upd_rs rs_drained)) w
     in case range_stage_unlink_path env stage_path w1 of
         (e, w2) \<Rightarrow>
           (e, (upd_sbi (note_drained env drained (rs_recovered (si_rs si))) w2)
                 \<lparr>w_dir := range_staging_clear (io_persist env) (si_oid si) (w_dir w2)\<rparr>))"

definition drain_one_range :: "io_env \<Rightarrow> iref \<Rightarrow> io_world \<Rightarrow> unit res \<times> io_world" where
  "drain_one_range env r w =
    (case ino r w of
       None \<Rightarrow> (Done, w)
     | Some si \<Rightarrow>
        (if \<not> rs_range_staged (si_rs si) then (Done, w)
         else if \<not> drain_tier_active (w_sbi w) (rs_source_tier (si_rs si)) then (Done, w)
         else case (rs_path (si_rs si), si_lower_path si) of
             (Some sp, Some lp) \<Rightarrow>
              (case io_dentry_open env sp of
                 Err e \<Rightarrow> (Err e, w)
               | Ok _ \<Rightarrow>
                  (case io_dentry_open env lp of
                     Err e \<Rightarrow> (Err e, w)
                   | Ok _ \<Rightarrow>
                      (if \<not> io_alloc_buf env then (Err ENOMEM, w)
                       else case drain_copy_all env (file_of (p_dentry sp) w) (rs_ranges (si_rs si)) (file_of (p_dentry lp) w) 0 of
                           (Err e, f, _) \<Rightarrow> (Err e, set_file (p_dentry lp) f w)
                         | (Ok _, f, drained) \<Rightarrow>
                            (let w1 = set_file (p_dentry lp) f w
                             in case io_fsync env lp of
                                 Err e \<Rightarrow> (Err e, w1)
                               | Ok _ \<Rightarrow>
                                  (case (if sbi_cache_mode (w_sbi w)
                                         then sync_base_parents env (p_mnt lp) (p_dentry (t_lower_path (tier_at (w_sbi w) (sbi_ntiers (w_sbi w) - 1))))
                                                (io_ancestors env (p_dentry lp))
                                         else Done) of
                                     Err e \<Rightarrow> (Err e, w1)
                                   | Ok _ \<Rightarrow> drain_clear env r si sp drained w1)))))
           | _ \<Rightarrow> (Err ENOENT, w)))"

text \<open>\<open>smoothfs_write_staging_drain_inode\<close> only adds the mounter's credentials.\<close>

definition drain_inode :: "io_env \<Rightarrow> iref \<Rightarrow> io_world \<Rightarrow> unit res \<times> io_world" where
  "drain_inode env r w = drain_one_range env r w"

definition find_drainable_range :: "io_env \<Rightarrow> sb_info \<Rightarrow> iref option" where
  "find_drainable_range env sbi =
     find (\<lambda>r. case sbi_inodes sbi r of
         None \<Rightarrow> False
       | Some si \<Rightarrow> rs_range_staged (si_rs si) \<and> drain_tier_active sbi (rs_source_tier (si_rs si)) \<and> io_grab env r)
       (sbi_inode_list sbi)"

partial_function (option) drain_ranges :: "io_env \<Rightarrow> io_world \<Rightarrow> (unit res \<times> io_world) option" where
  "drain_ranges env w =
    (case find_drainable_range env (w_sbi w) of
       None \<Rightarrow> Some (Done, w)
     | Some r \<Rightarrow>
        (case drain_one_range env r w of
           (Err e, w') \<Rightarrow> Some (Err e, w')
         | (Ok _, w') \<Rightarrow> drain_ranges env w'))"

definition cache_drain :: "io_env \<Rightarrow> io_world \<Rightarrow> (unit res \<times> io_world) option" where
  "cache_drain env w = (if \<not> sbi_cache_mode (w_sbi w) then Some (Done, w) else drain_ranges env w)"

section \<open>Transfers\<close>

text \<open>A failing write of a lower file stored nothing, as \<open>generic_perform_write\<close> has it.\<close>

definition kwrite_clean :: "kwrite \<Rightarrow> bool" where
  "kwrite_clean kw \<longleftrightarrow> (\<forall>f pos bs e f'. kw f pos bs = (Err e, f') \<longrightarrow> f' = f)"

lemma disk_write_clean: "kwrite_clean disk_write"
  by (simp add: kwrite_clean_def disk_write_def)

lemma write_full_prefix:
  "kwrite_ok kw \<Longrightarrow> kwrite_clean kw \<Longrightarrow> 0 \<le> pos \<Longrightarrow> write_full kw f pos data = (res, f', pos')
    \<Longrightarrow> \<exists>k \<le> length data. f' = file_put f pos (take k data) \<and> (res = Done \<longrightarrow> k = length data)"
proof (induction kw f pos data arbitrary: f' pos' res rule: write_full.induct)
  case (1 kw f pos data)
  show ?case
  proof (cases "data = []")
    case True
    with 1(5) show ?thesis by (simp add: write_full.simps)
  next
    case False
    obtain x g where x: "kw f pos data = (x, g)" by fastforce
    show ?thesis
    proof (cases x)
      case (Inl e)
      then have "g = f" using x 1(3) by (simp add: kwrite_clean_def)
      then show ?thesis using 1(5) False x Inl by (intro exI [of _ 0]) (auto simp: write_full.simps)
    next
      case (Inr n)
      then have g: "n \<le> length data" "g = file_put f pos (take n data)" using x 1(2,4) by (auto simp: kwrite_ok_def)
      show ?thesis
      proof (cases "n = 0")
        case True
        then show ?thesis using 1(5) False x Inr g by (intro exI [of _ 0]) (auto simp: write_full.simps)
      next
        case n: False
        have rec: "write_full kw g (pos + int n) (drop n data) = (res, f', pos')"
          using 1(5) False x Inr n by (subst (asm) write_full.simps) simp
        obtain k where k: "k \<le> length (drop n data)" "f' = file_put g (pos + int n) (take k (drop n data))"
            "res = Done \<longrightarrow> k = length (drop n data)"
          using 1(1) [OF False x [symmetric] Inr n 1(2,3) _ rec] 1(4) by auto
        have len: "length (take n data) = n" using g(1) by simp
        have "f' = file_put f pos (take n data @ take k (drop n data))"
          using k(2) g(2) file_put_append [OF 1(4), of f "take n data" "take k (drop n data)"] len by simp
        also have "take n data @ take k (drop n data) = take (n + k) data" by (simp add: take_add)
        finally show ?thesis using k g(1) by (intro exI [of _ "n + k"]) auto
      qed
    qed
  qed
qed

text \<open>
  Whatever happens on the way, the copy of a range has changed the lower file only in a prefix
  of the range, and only to what the stage holds there.
\<close>

lemma drain_copy_bytes:
  "kread_ok (io_kread env) \<Longrightarrow> kwrite_ok (io_kwrite env) \<Longrightarrow> kwrite_clean (io_kwrite env) \<Longrightarrow> 0 \<le> pos \<Longrightarrow> pos \<le> en
    \<Longrightarrow> drain_copy env stage pos en dest drained = (res, dest', n)
    \<Longrightarrow> \<exists>k. pos \<le> k \<and> k \<le> en \<and> (\<forall>i. file_byte dest' i = (if pos \<le> i \<and> i < k then file_byte stage i else file_byte dest i))
        \<and> (res = Done \<longrightarrow> k = en \<and> n = drained + (en - pos))"
proof (induction env stage pos en dest drained arbitrary: res dest' n rule: drain_copy.induct)
  case (1 env stage pos en dest drained)
  let ?want = "nat (min (int RANGE_READ_CHUNK) (en - pos))"
  show ?case
  proof (cases "en \<le> pos")
    case True
    then show ?thesis using 1(6,7) by (intro exI [of _ pos]) (auto simp: drain_copy.simps)
  next
    case lt: False
    show ?thesis
    proof (cases "io_kread env stage pos ?want")
      case (Inl e)
      then show ?thesis using 1(6,7) lt by (intro exI [of _ pos]) (auto simp: drain_copy.simps)
    next
      case (Inr bs)
      then have bs: "bs = file_get stage pos (length bs)" "length bs \<le> ?want"
        using 1(2,5) unfolding kread_ok_def by blast+
      have byte: "bs ! j = file_byte stage (pos + int j)" if "j < length bs" for j
        using bs(1) that file_get_nth [of j stage pos "length bs"] 1(5) by metis
      show ?thesis
      proof (cases "bs = []")
        case True
        then show ?thesis using 1(6,7) lt Inr by (intro exI [of _ pos]) (auto simp: drain_copy.simps)
      next
        case ne: False
        obtain x g q where wf: "write_full (io_kwrite env) dest pos bs = (x, g, q)" by (metis prod_cases3)
        from write_full_prefix [OF 1(3,4,5) wf] obtain k where k: "k \<le> length bs" "g = file_put dest pos (take k bs)"
            "x = Done \<longrightarrow> k = length bs" by blast
        have g: "file_byte g i = (if pos \<le> i \<and> i < pos + int k then file_byte stage i else file_byte dest i)" for i
        proof -
          have "take k bs ! nat (i - pos) = file_byte stage i" if "pos \<le> i" "i < pos + int k"
            using that k(1) byte [of "nat (i - pos)"] by simp
          then show ?thesis using k(1) by (auto simp add: k(2) file_byte_put [OF 1(5)] nat_less_iff)
        qed
        have le: "int (length bs) \<le> en - pos" using bs(2) lt by linarith
        show ?thesis
        proof (cases x)
          case (Inl e)
          then have "res = Err e \<and> dest' = g" using 1(7) lt Inr ne wf by (simp add: drain_copy.simps)
          then show ?thesis using g k(1) le by (intro exI [of _ "pos + int k"]) auto
        next
          case x: (Inr u)
          then have kl: "k = length bs" using k(3) by simp
          have rec: "drain_copy env stage (pos + int (length bs)) en g (drained + int (length bs)) = (res, dest', n)"
            using 1(7) lt Inr ne wf x by (subst (asm) drain_copy.simps) simp
          obtain k' where k': "pos + int (length bs) \<le> k'" "k' \<le> en"
              "\<forall>i. file_byte dest' i = (if pos + int (length bs) \<le> i \<and> i < k' then file_byte stage i else file_byte g i)"
              "res = Done \<longrightarrow> k' = en \<and> n = drained + int (length bs) + (en - (pos + int (length bs)))"
            using 1(1) [OF lt Inr ne wf [symmetric] x refl 1(2,3,4) _ _ rec] 1(5) le by auto
          then show ?thesis using g kl by (intro exI [of _ k']) auto
        qed
      qed
    qed
  qed
qed

lemma drain_copy_all_bytes:
  assumes "kread_ok (io_kread env)" "kwrite_ok (io_kwrite env)" "kwrite_clean (io_kwrite env)"
  shows "ranges_above lo rs \<Longrightarrow> -1 \<le> lo
    \<Longrightarrow> drain_copy_all env stage rs dest drained = (res, dest', n)
    \<Longrightarrow> (\<forall>i. file_byte dest' i = file_byte dest i \<or> (range_covers rs i \<and> file_byte dest' i = file_byte stage i))
      \<and> (res = Done \<longrightarrow> (\<forall>i. range_covers rs i \<longrightarrow> file_byte dest' i = file_byte stage i) \<and> n = drained + ranges_total rs)"
proof (induction lo rs arbitrary: dest drained rule: ranges_above.induct)
  case (1 lo)
  then show ?case by simp
next
  case (2 lo a b rs)
  have above: "lo < a" "a < b" "ranges_above b rs" using 2 by auto
  obtain x g m where c: "drain_copy env stage a b dest drained = (x, g, m)" by (metis prod_cases3)
  obtain k where k: "a \<le> k" "k \<le> b" "\<forall>i. file_byte g i = (if a \<le> i \<and> i < k then file_byte stage i else file_byte dest i)"
      "x = Done \<longrightarrow> k = b \<and> m = drained + (b - a)"
    using drain_copy_bytes [OF assms _ _ c] above "2.prems"(2) by auto
  show ?case
  proof (cases x)
    case (Inl e)
    then show ?thesis using "2.prems"(3) c k by auto
  next
    case (Inr u)
    then have rec: "drain_copy_all env stage rs g m = (res, dest', n)" using "2.prems"(3) c by simp
    have IH: "(\<forall>i. file_byte dest' i = file_byte g i \<or> (range_covers rs i \<and> file_byte dest' i = file_byte stage i))
      \<and> (res = Done \<longrightarrow> (\<forall>i. range_covers rs i \<longrightarrow> file_byte dest' i = file_byte stage i) \<and> n = m + ranges_total rs)"
      using "2.IH" [OF above(3) _ rec] above "2.prems"(2) by simp
    have kb: "k = b" "m = drained + (b - a)" using k(4) Inr by auto
    have later: "\<not> range_covers rs i" if "i < b" for i using ranges_above_covers [OF above(3)] that by force
    show ?thesis
    proof (intro conjI allI impI)
      fix i
      show "file_byte dest' i = file_byte dest i \<or> (range_covers ((a, b) # rs) i \<and> file_byte dest' i = file_byte stage i)"
        using IH k(3) kb by (metis range_covers_simps(2))
    next
      fix i
      assume "res = Done" "range_covers ((a, b) # rs) i"
      then show "file_byte dest' i = file_byte stage i" using IH k(3) kb later by (metis range_covers_simps(2))
    next
      assume "res = Done"
      then show "n = drained + ranges_total ((a, b) # rs)" using IH kb by simp
    qed
  qed
qed

end
