(* ===== verification/Staged_View.thy ===== *)
theory Staged_View
  imports Staged_Io
begin

text \<open>
  What a reader of a file with staged ranges sees, as an abstract file: a size and a byte per
  offset. Staging a write is a write of the abstract file, draining changes nothing of it,
  whatever fails on the way, and the staged-byte counter is the number of staged offsets.
\<close>

section \<open>The abstract file\<close>

record afile =
  af_size :: int
  af_byte :: "int \<Rightarrow> u8"

definition af_write :: "int \<Rightarrow> bytes \<Rightarrow> afile \<Rightarrow> afile" where
  "af_write pos data f =
    (if data = [] then f
     else \<lparr>af_size = max (af_size f) (pos + int (length data)),
           af_byte = (\<lambda>i. if pos \<le> i \<and> i < pos + int (length data) then data ! nat (i - pos) else af_byte f i)\<rparr>)"

definition byte_of :: "path option \<Rightarrow> io_world \<Rightarrow> int \<Rightarrow> u8" where
  "byte_of p w i = (case p of None \<Rightarrow> 0 | Some q \<Rightarrow> file_byte (file_of (p_dentry q) w) i)"

definition view :: "inode_info \<Rightarrow> io_world \<Rightarrow> afile" where
  "view si w = \<lparr>af_size = si_size si,
     af_byte = (\<lambda>i. if range_covers (rs_ranges (si_rs si)) i then byte_of (rs_path (si_rs si)) w i
                    else byte_of (si_lower_path si) w i)\<rparr>"

text \<open>
  The invariant of an inode with staged ranges: an ordered range list, a stage file of its
  own that holds every staged byte, and no ranges without the flag.
\<close>

definition staged_ok :: "inode_info \<Rightarrow> io_world \<Rightarrow> bool" where
  "staged_ok si w \<longleftrightarrow> ranges_wf (rs_ranges (si_rs si)) \<and> 0 \<le> si_size si
     \<and> (\<not> rs_range_staged (si_rs si) \<longrightarrow> rs_ranges (si_rs si) = [])
     \<and> (rs_ranges (si_rs si) \<noteq> [] \<longrightarrow> (\<exists>p. rs_path (si_rs si) = Some p \<and> stage_holds (file_of (p_dentry p) w) (rs_ranges (si_rs si))))
     \<and> (\<forall>p l. rs_path (si_rs si) = Some p \<longrightarrow> si_lower_path si = Some l \<longrightarrow> p_dentry p \<noteq> p_dentry l)"

text \<open>A stage file never is the file it stages for.\<close>

definition own_stage :: "io_env \<Rightarrow> inode_info \<Rightarrow> bool" where
  "own_stage env si \<longleftrightarrow>
     (\<forall>p l. io_open_stage env (range_meta_name (si_oid si) REC_STAGE_SUFFIX) = Ok p \<longrightarrow> si_lower_path si = Some l
        \<longrightarrow> p_dentry p \<noteq> p_dentry l)"

section \<open>Effects of a staged write\<close>

abbreviation with_stage :: "path option \<Rightarrow> inode_info \<Rightarrow> inode_info" where
  "with_stage p \<equiv> upd_rs (\<lambda>s. s\<lparr>rs_path := p\<rparr>)"

lemma with_stage_same: "rs_path (si_rs si) = p \<Longrightarrow> with_stage p si = si"
  by (simp add: upd_rs_def)

lemma upd_inode_same: "sbi_inodes s r = Some si \<Longrightarrow> f si = si \<Longrightarrow> upd_inode r f s = s"
  by (simp add: upd_inode_def fun_upd_idem)

lemma range_stage_open_effect:
  assumes "ino r w = Some si" "range_stage_open env r w = (x, w1)"
  shows "(\<forall>d. file_of d w1 = file_of d w) \<and> w_dir w1 = w_dir w
    \<and> ((\<exists>e. x = Err e \<and> w1 = w)
       \<or> (\<exists>p. x = Ok p \<and> w_sbi w1 = upd_inode r (with_stage (Some p)) (w_sbi w)
            \<and> (rs_path (si_rs si) = Some p
               \<or> rs_path (si_rs si) = None \<and> io_open_stage env (range_meta_name (si_oid si) REC_STAGE_SUFFIX) = Ok p)))"
proof (cases "rs_path (si_rs si)")
  case (Some p)
  then have "upd_inode r (with_stage (Some p)) (w_sbi w) = w_sbi w"
    using assms(1) by (intro upd_inode_same [of _ r si]) (simp_all add: upd_rs_def)
  then show ?thesis using assms Some by (simp add: range_stage_open_def)
next
  case None
  show ?thesis
  proof (cases "io_open_stage env (range_meta_name (si_oid si) REC_STAGE_SUFFIX)")
    case (Inl e)
    then have "range_stage_open env r w = (Err (if io_alloc_name env then e else ENOMEM), w)"
      using assms(1) None by (simp add: range_stage_open_def)
    then show ?thesis using assms(2) by auto
  next
    case (Inr p)
    then have "range_stage_open env r w = (if io_alloc_name env
        then (Ok p, (upd_sbi (upd_inode r (with_stage (Some p))) w)\<lparr>w_files := (w_files w)(p_dentry p \<mapsto> file_of (p_dentry p) w)\<rparr>)
        else (Err ENOMEM, w))"
      using assms(1) None by (simp add: range_stage_open_def)
    then show ?thesis using assms(2) None Inr by (auto simp: file_of_def split: if_splits)
  qed
qed

definition wrote_nothing :: "iref \<Rightarrow> inode_info \<Rightarrow> io_env \<Rightarrow> io_world \<Rightarrow> io_world \<Rightarrow> bool" where
  "wrote_nothing r si env w w' \<longleftrightarrow> (\<forall>d. file_of d w' = file_of d w) \<and> sbi_staging (w_sbi w') = sbi_staging (w_sbi w)
     \<and> sbi_ntiers (w_sbi w') = sbi_ntiers (w_sbi w) \<and> sbi_fastest_tier (w_sbi w') = sbi_fastest_tier (w_sbi w)
     \<and> (\<exists>p. ino r w' = Some (with_stage p si) \<and> (p = rs_path (si_rs si)
          \<or> rs_path (si_rs si) = None \<and> (\<exists>q. p = Some q \<and> io_open_stage env (range_meta_name (si_oid si) REC_STAGE_SUFFIX) = Ok q)))"

definition wrote_some :: "iref \<Rightarrow> inode_info \<Rightarrow> io_env \<Rightarrow> int \<Rightarrow> bytes \<Rightarrow> io_world \<Rightarrow> io_world \<Rightarrow> bool" where
  "wrote_some r si env pos bs w w' \<longleftrightarrow>
    (\<exists>p t ws. (rs_path (si_rs si) = Some p
        \<or> rs_path (si_rs si) = None \<and> io_open_stage env (range_meta_name (si_oid si) REC_STAGE_SUFFIX) = Ok p)
      \<and> (\<forall>d. file_of d w' = (if d = p_dentry p then file_put (file_of d w) pos bs else file_of d w))
      \<and> ino r w' = Some ((stage_note (sbi_cache_mode (w_sbi w)) t pos (length bs) (with_stage (Some p) si))\<lparr>si_write_seq := ws\<rparr>)
      \<and> sbi_staging (w_sbi w') = sbi_staging (note_range_write env
           (ranges_total (range_stage_record pos (pos + int (length bs)) (rs_ranges (si_rs si))) - ranges_total (rs_ranges (si_rs si))) (w_sbi w)))"

lemma note_range_write_frame [simp]:
  "sbi_inodes (note_range_write env n s) = sbi_inodes s" "sbi_inode_list (note_range_write env n s) = sbi_inode_list s"
  "sbi_cache_mode (note_range_write env n s) = sbi_cache_mode s"
  by (simp_all add: note_range_write_def upd_staging_def)

lemma note_range_write_staging:
  "sbi_staging s = sbi_staging s' \<Longrightarrow> sbi_staging (note_range_write env n s) = sbi_staging (note_range_write env n s')"
  by (simp add: note_range_write_def upd_staging_def)

lemma file_of_upd [simp]:
  "file_of d (w\<lparr>w_sbi := s\<rparr>) = file_of d w" "file_of d (w\<lparr>w_dir := x\<rparr>) = file_of d w"
  "file_of d (set_file e f w) = (if d = e then f else file_of d w)"
  "w_sbi (set_file e f w) = w_sbi w" "w_dir (set_file e f w) = w_dir w"
  by (simp_all add: file_of_def set_file_def)

lemma range_stage_write_effect:
  assumes si: "ino r w = Some si" and kw: "kwrite_ok (io_vwrite env)" "kwrite_clean (io_vwrite env)"
    and pos: "0 \<le> pos0" "0 \<le> si_size si"
    and w': "range_stage_write env app r lower pos0 data w = (res, pos', n, w')"
  defines "pos \<equiv> if app then si_size si else pos0"
  shows "n \<le> length data \<and> (\<forall>m. res = Ok m \<longrightarrow> n = m) \<and> (\<forall>q. q \<noteq> r \<longrightarrow> ino q w' = ino q w)
    \<and> sbi_inode_list (w_sbi w') = sbi_inode_list (w_sbi w)
    \<and> (n = 0 \<and> wrote_nothing r si env w w' \<or> 0 < n \<and> wrote_some r si env pos (take n data) w w')"
proof -
  have p0: "0 \<le> pos" using pos by (simp add: pos_def)
  obtain x w1 where o: "range_stage_open env r w = (x, w1)" by fastforce
  note oe = range_stage_open_effect [OF si o]
  let ?t = "word_of_nat (tier_of (w_sbi w) (p_mnt lower))"
  show ?thesis
  proof (cases x)
    case (Inl e)
    then have "n = 0 \<and> w' = w \<and> res = Err e" using oe w' si o by (auto simp: range_stage_write_def)
    moreover have "wrote_nothing r si env w w"
      using si with_stage_same [OF refl, of si] by (auto simp: wrote_nothing_def intro!: exI [of _ "rs_path (si_rs si)"])
    ultimately show ?thesis by simp
  next
    case x: (Inr p)
    then have s1: "w_sbi w1 = upd_inode r (with_stage (Some p)) (w_sbi w)"
      and src: "rs_path (si_rs si) = Some p
        \<or> rs_path (si_rs si) = None \<and> io_open_stage env (range_meta_name (si_oid si) REC_STAGE_SUFFIX) = Ok p"
      using oe by auto
    have i1: "ino r w1 = Some (with_stage (Some p) si)" "\<And>q. q \<noteq> r \<Longrightarrow> ino q w1 = ino q w" using s1 si by simp_all
    have idle: "wrote_nothing r si env w w1" using s1 si src oe by (auto simp: wrote_nothing_def)
    show ?thesis
    proof (cases "io_dentry_open env p = Done \<and> io_alloc_range env")
      case False
      then have "n = 0 \<and> w' = w1 \<and> (\<exists>e. res = Err e)"
        using w' si o x by (cases "io_dentry_open env p") (auto simp: range_stage_write_def Let_def)
      then show ?thesis using idle i1 s1 by auto
    next
      case opn: True
      obtain y f where y: "io_vwrite env (file_of (p_dentry p) w1) pos data = (y, f)" by fastforce
      show ?thesis
      proof (cases y)
        case (Inl e)
        then have "f = file_of (p_dentry p) w1" using y kw(2) by (simp add: kwrite_clean_def)
        moreover have "n = 0 \<and> w' = set_file (p_dentry p) f w1 \<and> res = Err e"
          using w' si o x opn y Inl by (simp add: range_stage_write_def pos_def [symmetric] Let_def)
        ultimately show ?thesis using idle i1 s1 by (auto simp: wrote_nothing_def)
      next
        case y': (Inr m)
        then have f: "m \<le> length data" "f = file_put (file_of (p_dentry p) w) pos (take m data)"
          using y kw(1) p0 oe by (auto simp: kwrite_ok_def)
        show ?thesis
        proof (cases "m = 0")
          case True
          then have "n = 0 \<and> w' = set_file (p_dentry p) f w1 \<and> res = Ok 0"
            using w' si o x opn y y' by (simp add: range_stage_write_def pos_def [symmetric] Let_def)
          then show ?thesis using idle i1 s1 f True by (auto simp: wrote_nothing_def)
        next
          case m0: False
          let ?rs = "range_stage_record pos (pos + int m) (rs_ranges (si_rs si))"
          let ?w3 = "upd_sbi (note_range_write env (ranges_total ?rs - ranges_total (rs_ranges (si_rs si))) \<circ>
                        upd_inode r (stage_note (sbi_cache_mode (w_sbi w)) ?t pos m)) (set_file (p_dentry p) f w1)"
          obtain e ds where pe: "range_staging_persist (io_persist env) (si_oid si) ?t ?rs (io_now env) (w_dir w1) = (e, ds)" by fastforce
          have fin: "n = m \<and> (\<forall>k. res = Ok k \<longrightarrow> k = m)
              \<and> (w' = ?w3\<lparr>w_dir := last ds\<rparr> \<or> w' = upd_sbi (upd_inode r note_data_change) (?w3\<lparr>w_dir := last ds\<rparr>))"
            using w' si o x opn y y' m0 pe
            by (cases e) (auto simp: range_stage_write_def pos_def [symmetric] Let_def split: if_splits)
          have i3: "ino r ?w3 = Some (stage_note (sbi_cache_mode (w_sbi w)) ?t pos m (with_stage (Some p) si))"
            using i1(1) by simp
          have len: "length (take m data) = m" using f(1) by simp
          have files: "file_of d w' = (if d = p_dentry p then file_put (file_of d w) pos (take m data) else file_of d w)" for d
            using fin f(2) oe by auto
          have iw: "\<exists>ws. ino r w' = Some ((stage_note (sbi_cache_mode (w_sbi w)) ?t pos m (with_stage (Some p) si))\<lparr>si_write_seq := ws\<rparr>)"
          proof (cases "w' = ?w3\<lparr>w_dir := last ds\<rparr>")
            case True
            then show ?thesis using i3
              by (intro exI [of _ "si_write_seq si"]) (simp add: stage_note_def upd_rs_def Let_def)
          next
            case False
            then have "ino r w' = map_option note_data_change (ino r ?w3)" using fin by simp
            then show ?thesis unfolding i3
              by (intro exI [of _ "si_write_seq si + 1"]) (simp add: note_data_change_def stage_note_def upd_rs_def Let_def)
          qed
          have st: "sbi_staging (w_sbi w') = sbi_staging (note_range_write env (ranges_total ?rs - ranges_total (rs_ranges (si_rs si))) (w_sbi w))"
            using fin s1 by (auto intro!: note_range_write_staging)
          have "wrote_some r si env pos (take m data) w w'"
            unfolding wrote_some_def len using src files iw st by blast
          moreover have "\<forall>q. q \<noteq> r \<longrightarrow> ino q w' = ino q w" using fin i1(2) by auto
          moreover have "sbi_inode_list (w_sbi w') = sbi_inode_list (w_sbi w)" using fin s1 by auto
          ultimately show ?thesis using fin m0 f(1) by auto
        qed
      qed
    qed
  qed
qed

section \<open>Refinement of the write\<close>

lemma stage_holds_covers: "ranges_wf rs \<Longrightarrow> stage_holds st rs \<longleftrightarrow> (\<forall>i. range_covers rs i \<longrightarrow> i < int (length st))"
proof
  assume wf: "ranges_wf rs" and cov: "\<forall>i. range_covers rs i \<longrightarrow> i < int (length st)"
  have "b \<le> int (length st)" if m: "(a, b) \<in> set rs" for a b
  proof -
    have "a < b" using ranges_above_member [of "-1" rs a b] wf m by (simp add: ranges_wf_def)
    then have "range_covers rs (b - 1)" using m by (auto simp: range_covers_def intro!: bexI [of _ "(a, b)"])
    then show ?thesis using cov by auto
  qed
  then show "stage_holds st rs" by (auto simp: stage_holds_def)
next
  assume "stage_holds st rs"
  then show "\<forall>i. range_covers rs i \<longrightarrow> i < int (length st)"
    by (fastforce simp: stage_holds_def range_covers_def)
qed

lemma staged_byte: "af_byte (view si w) i =
    (if range_covers (rs_ranges (si_rs si)) i then byte_of (rs_path (si_rs si)) w i else byte_of (si_lower_path si) w i)"
  by (simp add: view_def)

lemma wrote_nothing_view:
  assumes "wrote_nothing r si env w w'" "staged_ok si w" "own_stage env si"
  shows "\<exists>si'. ino r w' = Some si' \<and> staged_ok si' w' \<and> view si' w' = view si w \<and> si_lower_path si' = si_lower_path si"
proof -
  from assms(1) obtain p where p: "ino r w' = Some (with_stage p si)"
      "p = rs_path (si_rs si) \<or> rs_path (si_rs si) = None
        \<and> (\<exists>q. p = Some q \<and> io_open_stage env (range_meta_name (si_oid si) REC_STAGE_SUFFIX) = Ok q)"
    and files: "\<And>d. file_of d w' = file_of d w" by (auto simp: wrote_nothing_def)
  have b: "byte_of x w' = byte_of x w" for x by (simp add: byte_of_def files fun_eq_iff split: option.split)
  show ?thesis
  proof (cases "p = rs_path (si_rs si)")
    case True
    then have "with_stage p si = si" by (simp add: with_stage_same)
    then show ?thesis using p(1) assms(2) files b by (auto simp: view_def staged_ok_def)
  next
    case False
    then have "rs_ranges (si_rs si) = []" using p(2) assms(2) by (auto simp: staged_ok_def)
    then show ?thesis using False p assms(2,3) b by (auto simp: view_def staged_ok_def own_stage_def upd_rs_def ranges_wf_def)
  qed
qed

lemma wrote_some_view:
  assumes "wrote_some r si env pos bs w w'" "staged_ok si w" "own_stage env si" "0 \<le> pos" "bs \<noteq> []"
  shows "\<exists>si'. ino r w' = Some si' \<and> staged_ok si' w' \<and> view si' w' = af_write pos bs (view si w)
    \<and> si_lower_path si' = si_lower_path si"
proof -
  from assms(1) obtain p t ws where src: "rs_path (si_rs si) = Some p
        \<or> rs_path (si_rs si) = None \<and> io_open_stage env (range_meta_name (si_oid si) REC_STAGE_SUFFIX) = Ok p"
      and files: "\<And>d. file_of d w' = (if d = p_dentry p then file_put (file_of d w) pos bs else file_of d w)"
      and i: "ino r w' = Some ((stage_note (sbi_cache_mode (w_sbi w)) t pos (length bs) (with_stage (Some p) si))\<lparr>si_write_seq := ws\<rparr>)"
    by (auto simp: wrote_some_def)
  define si' where "si' = (stage_note (sbi_cache_mode (w_sbi w)) t pos (length bs) (with_stage (Some p) si))\<lparr>si_write_seq := ws\<rparr>"
  let ?rs = "rs_ranges (si_rs si)" and ?en = "pos + int (length bs)"
  have f: "rs_ranges (si_rs si') = range_stage_record pos ?en ?rs" "rs_path (si_rs si') = Some p" "si_lower_path si' = si_lower_path si"
      "si_size si' = max (si_size si) ?en" "rs_range_staged (si_rs si')"
    by (auto simp: si'_def stage_note_def upd_rs_def Let_def)
  have wf: "ranges_wf ?rs" using assms(2) by (simp add: staged_ok_def)
  note cov = rl.covers_add [OF wf assms(4), of ?en]
  have old: "rs_path (si_rs si) = Some p" if "range_covers ?rs j" for j
    using that src assms(2) by (cases "?rs = []") (auto simp: staged_ok_def)
  have apart: "p_dentry p \<noteq> p_dentry l" if "si_lower_path si = Some l" for l
    using that src assms(2,3) by (auto simp: staged_ok_def own_stage_def)
  have low: "byte_of (si_lower_path si) w' = byte_of (si_lower_path si) w"
    using apart by (auto simp: byte_of_def files fun_eq_iff split: option.split)
  have stg: "byte_of (Some p) w' j = (if pos \<le> j \<and> j < ?en then bs ! nat (j - pos) else byte_of (Some p) w j)" for j
    by (simp add: byte_of_def files file_byte_put [OF assms(4)])
  have "view si' w' = af_write pos bs (view si w)"
    using assms(5) by (auto simp: view_def af_write_def f cov low stg old fun_eq_iff)
  moreover have "staged_ok si' w'"
  proof -
    have "stage_holds (file_of (p_dentry p) w') (range_stage_record pos ?en ?rs)"
    proof -
      have "j < int (length (file_of (p_dentry p) w'))" if "range_covers (range_stage_record pos ?en ?rs) j" for j
      proof (cases "pos \<le> j \<and> j < ?en")
        case True
        then show ?thesis using assms(4,5) by (auto simp: files length_file_put)
      next
        case False
        then have "range_covers ?rs j" using that cov by blast
        moreover from this have "?rs \<noteq> []" by auto
        ultimately have "j < int (length (file_of (p_dentry p) w))"
          using assms(2) old [of j] stage_holds_covers [OF wf] by (auto simp: staged_ok_def)
        then show ?thesis using assms(4,5) by (simp add: files length_file_put)
      qed
      then show ?thesis using stage_holds_covers [OF rl.wf_add [OF wf assms(4)]] by blast
    qed
    then show ?thesis
      unfolding staged_ok_def f(1-4) using f(5) rl.wf_add [OF wf assms(4), of ?en] assms(2) apart by (auto simp: staged_ok_def)
  qed
  ultimately show ?thesis using i f(3) by (auto simp: si'_def [symmetric])
qed

lemma staged_write_view:
  assumes "ino r w = Some si" "staged_ok si w" "own_stage env si" "0 \<le> pos"
    and "kwrite_ok (io_vwrite env)" "kwrite_clean (io_vwrite env)"
    and "range_stage_write env app r lower pos data w = (res, pos', n, w')"
  shows "\<exists>si'. ino r w' = Some si' \<and> staged_ok si' w' \<and> si_lower_path si' = si_lower_path si
    \<and> view si' w' = af_write (if app then si_size si else pos) (take n data) (view si w)
    \<and> n \<le> length data \<and> (\<forall>m. res = Ok m \<longrightarrow> n = m) \<and> (\<forall>q. q \<noteq> r \<longrightarrow> ino q w' = ino q w)"
proof -
  have sz: "0 \<le> si_size si" using assms(2) by (simp add: staged_ok_def)
  note eff = range_stage_write_effect [OF assms(1,5,6,4) sz assms(7)]
  let ?pos = "if app then si_size si else pos"
  have p0: "0 \<le> ?pos" using sz assms(4) by simp
  from eff consider (z) "n = 0" "wrote_nothing r si env w w'" | (p) "0 < n" "wrote_some r si env ?pos (take n data) w w'" by blast
  then have "\<exists>si'. ino r w' = Some si' \<and> staged_ok si' w' \<and> view si' w' = af_write ?pos (take n data) (view si w)
      \<and> si_lower_path si' = si_lower_path si"
  proof cases
    case z
    then show ?thesis using wrote_nothing_view [OF z(2) assms(2,3)] by (simp add: af_write_def)
  next
    case p
    have "take n data \<noteq> []" using p(1) eff by auto
    then show ?thesis using wrote_some_view [OF p(2) assms(2,3) p0] by blast
  qed
  then show ?thesis using eff by blast
qed

text \<open>
  C3. Staging a write is a write of the file the reader sees. Whatever the outcome, the bytes
  taken from the caller are exactly the bytes of the view that change, they are a prefix of
  the data, a successful call reports their number, the size grows to cover them, the lower
  file is not touched, and the invariant of the staged inode is kept.
\<close>

theorem staged_write_refines:
  assumes "ino r w = Some si" "staged_ok si w" "own_stage env si" "0 \<le> pos"
    and "kwrite_ok (io_vwrite env)" "kwrite_clean (io_vwrite env)"
    and "range_stage_write env app r lower pos data w = (res, pos', n, w')"
  shows "\<exists>si'. ino r w' = Some si' \<and> staged_ok si' w' \<and> si_lower_path si' = si_lower_path si
    \<and> view si' w' = af_write (if app then si_size si else pos) (take n data) (view si w)
    \<and> n \<le> length data \<and> (\<forall>m. res = Ok m \<longrightarrow> n = m) \<and> (\<forall>q. q \<noteq> r \<longrightarrow> ino q w' = ino q w)"
  using assms by (rule staged_write_view)

section \<open>Effects of a drain\<close>

text \<open>
  The lower file differs from before only at staged offsets, where it has the staged byte;
  \<open>full\<close> says that it has it at all of them.
\<close>

definition drained_into :: "bool \<Rightarrow> inode_info \<Rightarrow> path \<Rightarrow> path \<Rightarrow> io_world \<Rightarrow> bytes \<Rightarrow> bool" where
  "drained_into full si sp lp w f \<longleftrightarrow>
     (\<forall>i. file_byte f i = file_byte (file_of (p_dentry lp) w) i
        \<or> range_covers (rs_ranges (si_rs si)) i \<and> file_byte f i = file_byte (file_of (p_dentry sp) w) i)
   \<and> (full \<longrightarrow> (\<forall>i. range_covers (rs_ranges (si_rs si)) i \<longrightarrow> file_byte f i = file_byte (file_of (p_dentry sp) w) i))"

definition drain_kept :: "iref \<Rightarrow> inode_info \<Rightarrow> io_world \<Rightarrow> io_world \<Rightarrow> bool" where
  "drain_kept r si w w' \<longleftrightarrow> w' = w
     \<or> (\<exists>sp lp f. rs_path (si_rs si) = Some sp \<and> si_lower_path si = Some lp \<and> drained_into False si sp lp w f
          \<and> w' = set_file (p_dentry lp) f w)"

definition drain_cleared :: "io_env \<Rightarrow> iref \<Rightarrow> inode_info \<Rightarrow> io_world \<Rightarrow> io_world \<Rightarrow> bool" where
  "drain_cleared env r si w w' \<longleftrightarrow>
     (\<exists>sp lp f. rs_path (si_rs si) = Some sp \<and> si_lower_path si = Some lp \<and> drained_into True si sp lp w f
        \<and> (\<forall>d. d \<noteq> p_dentry sp \<longrightarrow> file_of d w' = (if d = p_dentry lp then f else file_of d w))
        \<and> w_sbi w' = note_drained env (ranges_total (rs_ranges (si_rs si))) (rs_recovered (si_rs si))
             (upd_inode r (upd_rs rs_drained) (w_sbi w)))"

lemma note_drained_frame [simp]:
  "sbi_inodes (note_drained env n b s) = sbi_inodes s" "sbi_inode_list (note_drained env n b s) = sbi_inode_list s"
  "sbi_ntiers (note_drained env n b s) = sbi_ntiers s" "sbi_fastest_tier (note_drained env n b s) = sbi_fastest_tier s"
  "st_drain_active_mask (sbi_staging (note_drained env n b s)) = st_drain_active_mask (sbi_staging s)"
  "st_range_staged_bytes (sbi_staging (note_drained env n b s)) = st_range_staged_bytes (sbi_staging s) - n"
  by (simp_all add: note_drained_def upd_staging_def set_reason_def Let_def)

lemma drain_clear_effect:
  assumes "drain_clear env r si sp n w = (res, w')"
  shows "w_sbi w' = note_drained env n (rs_recovered (si_rs si)) (upd_inode r (upd_rs rs_drained) (w_sbi w))
    \<and> (\<forall>d. d \<noteq> p_dentry sp \<longrightarrow> file_of d w' = file_of d w)"
  using assms
  by (cases "io_unlink env sp") (auto simp: drain_clear_def range_stage_unlink_path_def file_of_def Let_def split: if_splits)

lemma drain_one_range_effect:
  assumes si: "ino r w = Some si" and wf: "ranges_wf (rs_ranges (si_rs si))"
    and k: "kread_ok (io_kread env)" "kwrite_ok (io_kwrite env)" "kwrite_clean (io_kwrite env)"
    and w': "drain_one_range env r w = (res, w')"
  shows "(drain_kept r si w w' \<and> (res = Done \<longrightarrow> \<not> (rs_range_staged (si_rs si) \<and> drain_tier_active (w_sbi w) (rs_source_tier (si_rs si)))))
    \<or> drain_cleared env r si w w'"
proof (cases "rs_range_staged (si_rs si) \<and> drain_tier_active (w_sbi w) (rs_source_tier (si_rs si))")
  case False
  then have "w' = w" using w' si by (auto simp: drain_one_range_def split: if_splits)
  then show ?thesis using False by (simp add: drain_kept_def)
next
  case act: True
  show ?thesis
  proof (cases "\<exists>sp lp. rs_path (si_rs si) = Some sp \<and> si_lower_path si = Some lp
      \<and> io_dentry_open env sp = Done \<and> io_dentry_open env lp = Done \<and> io_alloc_buf env")
    case False
    then have "\<exists>e. drain_one_range env r w = (Err e, w)" using si act
      by (cases "rs_path (si_rs si)"; cases "si_lower_path si"; cases "io_dentry_open env (the (rs_path (si_rs si)))";
          cases "io_dentry_open env (the (si_lower_path si))") (auto simp: drain_one_range_def)
    then show ?thesis using w' by (auto simp: drain_kept_def)
  next
    case True
    then obtain sp lp where p: "rs_path (si_rs si) = Some sp" "si_lower_path si = Some lp"
      "io_dentry_open env sp = Done" "io_dentry_open env lp = Done" "io_alloc_buf env" by blast
    obtain x f n where c: "drain_copy_all env (file_of (p_dentry sp) w) (rs_ranges (si_rs si)) (file_of (p_dentry lp) w) 0 = (x, f, n)"
      by (metis prod_cases3)
    from drain_copy_all_bytes [OF k _ _ c, of "-1"] wf
    have into: "drained_into (x = Done) si sp lp w f" and n: "x = Done \<longrightarrow> n = ranges_total (rs_ranges (si_rs si))"
      by (auto simp: drained_into_def ranges_wf_def)
    then have kept: "drain_kept r si w (set_file (p_dentry lp) f w)" using p by (auto simp: drain_kept_def drained_into_def)
    show ?thesis
    proof (cases "x = Done")
      case False
      then have "\<exists>e. drain_one_range env r w = (Err e, set_file (p_dentry lp) f w)"
        using si act p c by (cases x) (auto simp: drain_one_range_def)
      then show ?thesis using w' kept by auto
    next
      case x: True
      let ?w1 = "set_file (p_dentry lp) f w"
      have "(\<exists>e. drain_one_range env r w = (Err e, ?w1)) \<or> drain_one_range env r w = drain_clear env r si sp n ?w1"
        using si act p c x
        by (cases "io_fsync env lp") (auto simp: drain_one_range_def Let_def split: sum.splits)
      then show ?thesis
      proof
        assume "\<exists>e. drain_one_range env r w = (Err e, ?w1)"
        then show ?thesis using w' kept by auto
      next
        assume "drain_one_range env r w = drain_clear env r si sp n ?w1"
        then have "drain_clear env r si sp n ?w1 = (res, w')" using w' by simp
        from drain_clear_effect [OF this] have "drain_cleared env r si w w'"
          using p into n x by (auto simp: drain_cleared_def intro!: exI [of _ sp] exI [of _ lp] exI [of _ f])
        then show ?thesis by blast
      qed
    qed
  qed
qed

lemma drain_view:
  assumes "ino r w = Some si" "staged_ok si w"
    and "kread_ok (io_kread env)" "kwrite_ok (io_kwrite env)" "kwrite_clean (io_kwrite env)"
    and "drain_one_range env r w = (res, w')"
  shows "\<exists>si'. ino r w' = Some si' \<and> staged_ok si' w' \<and> view si' w' = view si w
    \<and> (res = Done \<and> rs_range_staged (si_rs si) \<and> drain_tier_active (w_sbi w) (rs_source_tier (si_rs si))
         \<longrightarrow> \<not> rs_range_staged (si_rs si') \<and> (\<forall>i. byte_of (si_lower_path si') w' i = af_byte (view si w) i))"
proof -
  have wf: "ranges_wf (rs_ranges (si_rs si))" using assms(2) by (simp add: staged_ok_def)
  have apart: "p_dentry sp \<noteq> p_dentry lp" if "rs_path (si_rs si) = Some sp" "si_lower_path si = Some lp" for sp lp
    using that assms(2) by (simp add: staged_ok_def)
  from drain_one_range_effect [OF assms(1) wf assms(3-6)] show ?thesis
  proof (elim disjE conjE)
    assume kept: "drain_kept r si w w'"
      and no: "res = Done \<longrightarrow> \<not> (rs_range_staged (si_rs si) \<and> drain_tier_active (w_sbi w) (rs_source_tier (si_rs si)))"
    have "ino r w' = Some si" using kept assms(1) by (auto simp: drain_kept_def)
    moreover have "view si w' = view si w \<and> staged_ok si w'"
    proof (cases "w' = w")
      case True
      then show ?thesis using assms(2) by simp
    next
      case False
      then obtain sp lp f where p: "rs_path (si_rs si) = Some sp" "si_lower_path si = Some lp"
          "drained_into False si sp lp w f" "w' = set_file (p_dentry lp) f w"
        using kept by (auto simp: drain_kept_def)
      have "view si w' = view si w"
        using p apart [OF p(1,2)] by (auto simp: view_def byte_of_def drained_into_def fun_eq_iff)
      moreover have "staged_ok si w'" using assms(2) p apart [OF p(1,2)] by (auto simp: staged_ok_def)
      ultimately show ?thesis by blast
    qed
    ultimately show ?thesis using no by blast
  next
    assume "drain_cleared env r si w w'"
    then obtain sp lp f where p: "rs_path (si_rs si) = Some sp" "si_lower_path si = Some lp" "drained_into True si sp lp w f"
        "\<And>d. d \<noteq> p_dentry sp \<Longrightarrow> file_of d w' = (if d = p_dentry lp then f else file_of d w)"
        "w_sbi w' = note_drained env (ranges_total (rs_ranges (si_rs si))) (rs_recovered (si_rs si)) (upd_inode r (upd_rs rs_drained) (w_sbi w))"
      by (auto simp: drain_cleared_def)
    define si' where "si' = upd_rs rs_drained si"
    have i: "ino r w' = Some si'" using p(5) assms(1) by (simp add: si'_def)
    have f: "rs_ranges (si_rs si') = []" "si_lower_path si' = Some lp" "\<not> rs_range_staged (si_rs si')" "si_size si' = si_size si"
        "rs_path (si_rs si') = None"
      using p(2) by (simp_all add: si'_def upd_rs_def rs_drained_def)
    have low: "byte_of (Some lp) w' j = af_byte (view si w) j" for j
      using p(1-4) apart [OF p(1,2)] by (auto simp: byte_of_def view_def drained_into_def)
    then have "view si' w' = view si w" using f by (auto simp: view_def intro!: afile.equality)
    moreover have "staged_ok si' w'" using f assms(2) by (auto simp: staged_ok_def ranges_wf_def)
    ultimately show ?thesis using i f low by auto
  qed
qed

text \<open>
  C4. Draining an inode changes nothing a reader sees, whatever the outcome: a read error, a
  short or failing write, a failing sync in the middle leave a lower file that differs only
  where the staged ranges still hide it. If the drain clears the ranges, the lower file alone
  has every byte of the view.
\<close>

theorem drain_preserves_view:
  assumes "ino r w = Some si" "staged_ok si w"
    and "kread_ok (io_kread env)" "kwrite_ok (io_kwrite env)" "kwrite_clean (io_kwrite env)"
    and "drain_one_range env r w = (res, w')"
  shows "\<exists>si'. ino r w' = Some si' \<and> staged_ok si' w' \<and> view si' w' = view si w
    \<and> (res = Done \<and> rs_range_staged (si_rs si) \<and> drain_tier_active (w_sbi w) (rs_source_tier (si_rs si))
         \<longrightarrow> \<not> rs_range_staged (si_rs si') \<and> (\<forall>i. byte_of (si_lower_path si') w' i = af_byte (view si w) i))"
  using assms by (rule drain_view)

section \<open>The drain loop ends\<close>

definition staged_here :: "io_world \<Rightarrow> iref \<Rightarrow> bool" where
  "staged_here w r \<longleftrightarrow> (\<exists>si. ino r w = Some si \<and> rs_range_staged (si_rs si))"

lemma drain_frame:
  assumes "ino r w = Some si" "ranges_wf (rs_ranges (si_rs si))"
    and "kread_ok (io_kread env)" "kwrite_ok (io_kwrite env)" "kwrite_clean (io_kwrite env)"
    and "drain_one_range env r w = (res, w')"
  shows "(\<forall>q. q \<noteq> r \<longrightarrow> ino q w' = ino q w) \<and> sbi_inode_list (w_sbi w') = sbi_inode_list (w_sbi w)
    \<and> (ino r w' = Some si \<or> ino r w' = Some (upd_rs rs_drained si))"
  using drain_one_range_effect [OF assms] assms(1) by (auto simp: drain_kept_def drain_cleared_def)

lemma filter_length_less:
  assumes "r \<in> set xs" "P r" "\<not> Q r" "\<And>x. Q x \<Longrightarrow> P x"
  shows "length (filter Q xs) < length (filter P xs)"
  using assms(1)
proof (induction xs)
  case Nil
  then show ?case by simp
next
  case (Cons x xs)
  have le: "length (filter Q ys) \<le> length (filter P ys)" for ys using assms(4) by (induction ys) auto
  show ?case
  proof (cases "x = r")
    case True
    then show ?thesis using assms(2,3) le [of xs] by (simp add: less_Suc_eq_le)
  next
    case False
    then show ?thesis using Cons assms(4) [of x] by auto
  qed
qed

lemma drain_ranges_ends:
  assumes "kread_ok (io_kread env)" "kwrite_ok (io_kwrite env)" "kwrite_clean (io_kwrite env)"
    and "\<And>r si. ino r w = Some si \<Longrightarrow> ranges_wf (rs_ranges (si_rs si))"
  shows "\<exists>res w'. drain_ranges env w = Some (res, w') \<and> (res = Done \<longrightarrow> find_drainable_range env (w_sbi w') = None)"
  using assms(4)
proof (induction "length (filter (staged_here w) (sbi_inode_list (w_sbi w)))" arbitrary: w rule: less_induct)
  case less
  show ?case
  proof (cases "find_drainable_range env (w_sbi w)")
    case None
    then show ?thesis by (subst drain_ranges.simps) simp
  next
    case (Some r)
    then obtain si where r: "r \<in> set (sbi_inode_list (w_sbi w))" "ino r w = Some si" "rs_range_staged (si_rs si)"
        "drain_tier_active (w_sbi w) (rs_source_tier (si_rs si))"
      by (auto simp: find_drainable_range_def find_Some_iff split: option.splits)
    obtain x w' where d: "drain_one_range env r w = (x, w')" by fastforce
    show ?thesis
    proof (cases x)
      case (Inl e)
      then show ?thesis using Some d by (subst drain_ranges.simps) simp
    next
      case (Inr u)
      note wf = less.prems [OF r(2)]
      have cl: "drain_cleared env r si w w'"
        using drain_one_range_effect [OF r(2) wf assms(1-3) d] r(3,4) Inr by auto
      then have i: "ino r w' = Some (upd_rs rs_drained si)" using r(2) by (auto simp: drain_cleared_def)
      note fr = drain_frame [OF r(2) wf assms(1-3) d]
      have "length (filter (staged_here w') (sbi_inode_list (w_sbi w'))) < length (filter (staged_here w) (sbi_inode_list (w_sbi w)))"
      proof -
        have "\<not> staged_here w' r" using i by (simp add: staged_here_def upd_rs_def rs_drained_def)
        moreover have "staged_here w r" using r by (simp add: staged_here_def)
        moreover have "staged_here w q" if "staged_here w' q" for q
          using that fr calculation by (cases "q = r") (auto simp: staged_here_def)
        ultimately show ?thesis using filter_length_less [OF r(1), of "staged_here w" "staged_here w'"] fr by auto
      qed
      moreover have "ranges_wf (rs_ranges (si_rs sj))" if "ino q w' = Some sj" for q sj
        using that fr less.prems i by (cases "q = r") (auto simp: upd_rs_def rs_drained_def ranges_wf_def)
      ultimately have "\<exists>res w''. drain_ranges env w' = Some (res, w'') \<and> (res = Done \<longrightarrow> find_drainable_range env (w_sbi w'') = None)"
        using less.hyps by blast
      then show ?thesis using Some d Inr by (subst drain_ranges.simps) simp
    qed
  qed
qed

text \<open>
  C24. The loop that drains every drainable inode returns, for every pool whose range lists are
  in order and whatever the transfers do: each turn either fails and stops or takes one inode
  off the set of staged ones. If it succeeds, nothing drainable is left.
\<close>

theorem drain_ranges_returns:
  assumes "kread_ok (io_kread env)" "kwrite_ok (io_kwrite env)" "kwrite_clean (io_kwrite env)"
    and "\<And>r si. ino r w = Some si \<Longrightarrow> ranges_wf (rs_ranges (si_rs si))"
  shows "\<exists>res w'. drain_ranges env w = Some (res, w') \<and> (res = Done \<longrightarrow> find_drainable_range env (w_sbi w') = None)"
  by (rule drain_ranges_ends [OF assms])

section \<open>Accounting\<close>

definition staged_total :: "io_world \<Rightarrow> int" where
  "staged_total w = (\<Sum>r\<leftarrow>sbi_inode_list (w_sbi w). case ino r w of None \<Rightarrow> 0 | Some si \<Rightarrow> ranges_total (rs_ranges (si_rs si)))"

definition acct_ok :: "io_world \<Rightarrow> bool" where
  "acct_ok w \<longleftrightarrow> distinct (sbi_inode_list (w_sbi w))
     \<and> (\<forall>r si. ino r w = Some si \<longrightarrow> r \<in> set (sbi_inode_list (w_sbi w)) \<and> ranges_wf (rs_ranges (si_rs si)) \<and> 0 \<le> si_size si)
     \<and> st_range_staged_bytes (sbi_staging (w_sbi w)) = staged_total w"

inductive io_step :: "io_world \<Rightarrow> io_world \<Rightarrow> bool" where
  stage: "kwrite_ok (io_vwrite env) \<Longrightarrow> kwrite_clean (io_vwrite env) \<Longrightarrow> 0 \<le> pos \<Longrightarrow> ino r w = Some si
    \<Longrightarrow> range_stage_write env app r lower pos data w = (res, pos', n, w') \<Longrightarrow> io_step w w'"
| drain: "kread_ok (io_kread env) \<Longrightarrow> kwrite_ok (io_kwrite env) \<Longrightarrow> kwrite_clean (io_kwrite env) \<Longrightarrow> ino r w = Some si
    \<Longrightarrow> drain_one_range env r w = (res, w') \<Longrightarrow> io_step w w'"

lemma sum_list_change:
  fixes g h :: "'a \<Rightarrow> int"
  assumes "distinct xs" "r \<in> set xs" "\<And>x. x \<noteq> r \<Longrightarrow> h x = g x"
  shows "(\<Sum>x\<leftarrow>xs. h x) = (\<Sum>x\<leftarrow>xs. g x) + (h r - g r)"
  using assms(1,2)
proof (induction xs)
  case (Cons x xs)
  show ?case
  proof (cases "x = r")
    case True
    then have "sum_list (map h xs) = sum_list (map g xs)"
      using Cons.prems by (intro arg_cong [of _ _ sum_list] map_cong refl assms(3)) auto
    then show ?thesis using True by simp
  next
    case False
    then show ?thesis using Cons assms(3) by simp
  qed
qed simp

lemma staged_total_change:
  assumes "acct_ok w" "ino r w = Some si" "ino r w' = Some si'" "\<And>q. q \<noteq> r \<Longrightarrow> ino q w' = ino q w"
    and "sbi_inode_list (w_sbi w') = sbi_inode_list (w_sbi w)"
  shows "staged_total w' = staged_total w + (ranges_total (rs_ranges (si_rs si')) - ranges_total (rs_ranges (si_rs si)))"
  unfolding staged_total_def assms(5)
  using assms sum_list_change [of "sbi_inode_list (w_sbi w)" r
      "\<lambda>r. case ino r w' of None \<Rightarrow> 0 | Some si \<Rightarrow> ranges_total (rs_ranges (si_rs si))"
      "\<lambda>r. case ino r w of None \<Rightarrow> 0 | Some si \<Rightarrow> ranges_total (rs_ranges (si_rs si))"]
  by (simp add: acct_ok_def)

lemma acct_ok_change:
  assumes "acct_ok w" "ino r w = Some si" "ino r w' = Some si'" "\<And>q. q \<noteq> r \<Longrightarrow> ino q w' = ino q w"
    and "sbi_inode_list (w_sbi w') = sbi_inode_list (w_sbi w)" "ranges_wf (rs_ranges (si_rs si'))" "0 \<le> si_size si'"
    and "st_range_staged_bytes (sbi_staging (w_sbi w')) = st_range_staged_bytes (sbi_staging (w_sbi w))
        + (ranges_total (rs_ranges (si_rs si')) - ranges_total (rs_ranges (si_rs si)))"
  shows "acct_ok w'"
proof -
  have "q \<in> set (sbi_inode_list (w_sbi w')) \<and> ranges_wf (rs_ranges (si_rs sj)) \<and> 0 \<le> si_size sj" if "ino q w' = Some sj" for q sj
    using that assms by (cases "q = r") (auto simp: acct_ok_def)
  then show ?thesis using staged_total_change [OF assms(1-5)] assms(1,5,8) by (auto simp: acct_ok_def)
qed

lemma io_step_acct: "io_step w w' \<Longrightarrow> acct_ok w \<Longrightarrow> acct_ok w'"
proof (induction rule: io_step.induct)
  case (stage env pos r w si app lower data res pos' n w')
  then have si: "ranges_wf (rs_ranges (si_rs si))" "0 \<le> si_size si" by (auto simp: acct_ok_def)
  note eff = range_stage_write_effect [OF stage(4,1,2,3) si(2) stage(5)]
  let ?pos = "if app then si_size si else pos"
  have p0: "0 \<le> ?pos" using si(2) stage(3) by simp
  from eff consider (z) "wrote_nothing r si env w w'" | (p) "wrote_some r si env ?pos (take n data) w w'" by blast
  then show ?case
  proof cases
    case z
    then obtain p where i: "ino r w' = Some (with_stage p si)" and "sbi_staging (w_sbi w') = sbi_staging (w_sbi w)"
      by (auto simp: wrote_nothing_def)
    then show ?thesis using stage(4,6) si eff by (intro acct_ok_change [OF stage(6,4) i]) (auto simp: upd_rs_def)
  next
    case p
    then obtain p t ws where i: "ino r w' = Some ((stage_note (sbi_cache_mode (w_sbi w)) t ?pos (length (take n data))
          (with_stage (Some p) si))\<lparr>si_write_seq := ws\<rparr>)" (is "_ = Some ?si")
        and st: "sbi_staging (w_sbi w') = sbi_staging (note_range_write env
           (ranges_total (range_stage_record ?pos (?pos + int (length (take n data))) (rs_ranges (si_rs si)))
             - ranges_total (rs_ranges (si_rs si))) (w_sbi w))"
      unfolding wrote_some_def by blast
    have r: "rs_ranges (si_rs ?si) = range_stage_record ?pos (?pos + int (length (take n data))) (rs_ranges (si_rs si))"
        "si_size ?si = max (si_size si) (?pos + int (length (take n data)))"
      by (auto simp: stage_note_def upd_rs_def Let_def)
    have "0 \<le> ranges_total (rs_ranges (si_rs ?si)) - ranges_total (rs_ranges (si_rs si))"
      unfolding r using rl.total_add_bounds(1) [OF si(1) p0] by simp
    then have "st_range_staged_bytes (sbi_staging (w_sbi w')) = st_range_staged_bytes (sbi_staging (w_sbi w))
        + (ranges_total (rs_ranges (si_rs ?si)) - ranges_total (rs_ranges (si_rs si)))"
      unfolding st r(1) by (simp add: note_range_write_def upd_staging_def set_reason_def)
    moreover have "ranges_wf (rs_ranges (si_rs ?si))" unfolding r by (rule rl.wf_add [OF si(1) p0])
    moreover have "0 \<le> si_size ?si" unfolding r using si(2) by simp
    ultimately show ?thesis using eff by (intro acct_ok_change [OF stage(6,4) i]) auto
  qed
next
  case (drain env r w si res w')
  then have si: "ranges_wf (rs_ranges (si_rs si))" "0 \<le> si_size si" by (auto simp: acct_ok_def)
  note fr = drain_frame [OF drain(4) si(1) drain(1-3,5)]
  from drain_one_range_effect [OF drain(4) si(1) drain(1-3,5)]
  consider (k) "drain_kept r si w w'" | (c) "drain_cleared env r si w w'" by blast
  then show ?case
  proof cases
    case k
    then have i: "ino r w' = Some si" "sbi_staging (w_sbi w') = sbi_staging (w_sbi w)"
      using drain(4) by (auto simp: drain_kept_def)
    then show ?thesis using fr si by (intro acct_ok_change [OF drain(6,4) i(1)]) auto
  next
    case c
    then have i: "ino r w' = Some (upd_rs rs_drained si)"
      and "st_range_staged_bytes (sbi_staging (w_sbi w')) = st_range_staged_bytes (sbi_staging (w_sbi w)) - ranges_total (rs_ranges (si_rs si))"
      using drain(4) by (auto simp: drain_cleared_def)
    then show ?thesis using fr si
      by (intro acct_ok_change [OF drain(6,4) i]) (auto simp: upd_rs_def rs_drained_def ranges_wf_def)
  qed
qed

text \<open>
  C17. Over every sequence of staged writes and drains, of any inodes and with any outcome, the
  counter \<open>range_staged_bytes\<close> is the number of bytes in the range lists of all inodes, so it
  is never negative and is zero exactly when nothing is staged.
\<close>

theorem staged_bytes_accounting:
  assumes "io_step\<^sup>*\<^sup>* w w'" "acct_ok w"
  shows "acct_ok w' \<and> st_range_staged_bytes (sbi_staging (w_sbi w')) = staged_total w' \<and> 0 \<le> staged_total w'"
proof -
  have ok: "acct_ok w'" using assms by (induction rule: rtranclp_induct) (auto dest: io_step_acct)
  have "0 \<le> (case ino r w' of None \<Rightarrow> 0 | Some si \<Rightarrow> ranges_total (rs_ranges (si_rs si)))" for r
    using ok ranges_total_nonneg [of "-1"] by (auto simp: acct_ok_def ranges_wf_def split: option.split)
  then have "0 \<le> staged_total w'" unfolding staged_total_def by (intro sum_list_nonneg) auto
  then show ?thesis using ok by (simp add: acct_ok_def)
qed

lemma evict_steps_frame:
  "sbi_staging (clear_write_reservation r s) = sbi_staging s" "sbi_inode_list (clear_write_reservation r s) = sbi_inode_list s"
  "q \<noteq> r \<Longrightarrow> sbi_inodes (clear_write_reservation r s) q = sbi_inodes s q"
  "sbi_staging (oid_map_remove x s) = sbi_staging s" "sbi_inode_list (oid_map_remove x s) = sbi_inode_list s"
  "sbi_inodes (oid_map_remove x s) = sbi_inodes s"
  "sbi_staging (path_map_del r s) = sbi_staging s" "sbi_inode_list (path_map_del r s) = sbi_inode_list s"
  "q \<noteq> r \<Longrightarrow> sbi_inodes (path_map_del r s) q = sbi_inodes s q"
  "sbi_staging (lower_ino_map_remove t i s) = sbi_staging s" "sbi_inode_list (lower_ino_map_remove t i s) = sbi_inode_list s"
  by (simp_all add: clear_write_reservation_def oid_map_remove_def path_map_del_def lower_ino_map_remove_def
      upd_tier_def Let_def split: option.split)

lemma evict_inode_frame:
  assumes "sbi_inodes s r = Some si"
  shows "sbi_staging (evict_inode lino r s) = sbi_staging s" "sbi_inodes (evict_inode lino r s) r = None"
    "sbi_inode_list (evict_inode lino r s) = removeAll r (sbi_inode_list s)"
    "q \<noteq> r \<Longrightarrow> sbi_inodes (evict_inode lino r s) q = sbi_inodes s q"
  using assms by (simp_all add: evict_inode_def Let_def evict_steps_frame split: option.split)

text \<open>
  Eviction breaks it. An inode that is evicted while it has staged ranges, which nothing
  prevents outside of cache mode, takes its range list with it: the staged bytes are no
  longer part of the inode, and the counter keeps them for ever.
\<close>

theorem evict_loses_staged_ranges:
  assumes "acct_ok w" "ino r w = Some si" "rs_ranges (si_rs si) \<noteq> []"
    and "w' = upd_sbi (evict_inode lino r) w"
  shows "ino r w' = None \<and> st_range_staged_bytes (sbi_staging (w_sbi w')) = st_range_staged_bytes (sbi_staging (w_sbi w)) \<and> \<not> acct_ok w'"
proof -
  have st: "sbi_staging (w_sbi w') = sbi_staging (w_sbi w)" "ino r w' = None" "sbi_inode_list (w_sbi w') = removeAll r (sbi_inode_list (w_sbi w))"
    and oth: "\<And>q. q \<noteq> r \<Longrightarrow> ino q w' = ino q w"
    using evict_inode_frame [OF assms(2)] assms(4) by simp_all
  have dist: "distinct (sbi_inode_list (w_sbi w))" and mem: "r \<in> set (sbi_inode_list (w_sbi w))"
    and wf: "ranges_wf (rs_ranges (si_rs si))" using assms(1,2) by (auto simp: acct_ok_def)
  let ?g = "\<lambda>w r. case ino r w of None \<Rightarrow> 0 | Some si \<Rightarrow> ranges_total (rs_ranges (si_rs si))"
  have "staged_total w' = (\<Sum>q\<leftarrow>removeAll r (sbi_inode_list (w_sbi w)). ?g w q)"
    unfolding staged_total_def st(3) using oth by (intro arg_cong [of _ _ sum_list] map_cong) auto
  also have "\<dots> = staged_total w - ?g w r"
unfolding staged_total_def using sum_list_map_remove1 [OF mem, of "?g w"] distinct_remove1_removeAll [OF dist, of r] by simp
  finally have "staged_total w' = staged_total w - ranges_total (rs_ranges (si_rs si))" using assms(2) by simp
  moreover have "0 < ranges_total (rs_ranges (si_rs si))"
    using wf assms(3) ranges_total_nonneg by (cases "rs_ranges (si_rs si)") (force simp: ranges_wf_def)+
  ultimately show ?thesis using st assms(1) by (auto simp: acct_ok_def)
qed

section \<open>Concrete instances\<close>

definition ex_io_env :: io_env where
  "ex_io_env = \<lparr>io_kread = disk_read, io_kwrite = disk_write, io_vread = disk_read, io_vwrite = disk_write, io_copy = length,
     io_alloc_name = True, io_alloc_range = True, io_alloc_buf = True, io_open_stage = (\<lambda>n. Ok \<lparr>p_mnt = 0, p_dentry = 50\<rparr>),
     io_dentry_open = (\<lambda>p. Done), io_statfs = (\<lambda>p. Ok (100, 60)), io_mapped = (\<lambda>d. False), io_fsync = (\<lambda>p. Done),
     io_ancestors = (\<lambda>d. [100]), io_unlink = (\<lambda>p. Done), io_grab = (\<lambda>r. True), io_now = 7, io_persist = env_ok\<rparr>"

definition ex_rc :: rcache where
  "ex_rc = \<lparr>rc_file = None, rc_chunks = Map.empty, rc_seq = 0, rc_gen = 0\<rparr>"

definition ex_world :: io_world where
  "ex_world = \<lparr>w_sbi = ex_pool, w_files = [105 \<mapsto> [1, 2, 3, 4]], w_dir = Map.empty, w_rc = (\<lambda>r. ex_rc)\<rparr>"

text \<open>The same file with two bytes staged at offset 1.\<close>

definition ex_staged_inode :: inode_info where
  "ex_staged_inode = upd_rs (\<lambda>s. s\<lparr>rs_range_staged := True, rs_source_tier := 1, rs_path := Some \<lparr>p_mnt = 0, p_dentry = 50\<rparr>,
     rs_ranges := [(1, 3)]\<rparr>) ex_inode"

definition ex_staged_world :: io_world where
  "ex_staged_world = \<lparr>w_sbi = upd_staging (\<lambda>s. s\<lparr>st_staged_bytes := 2, st_range_staged_bytes := 2\<rparr>)
        (ex_pool\<lparr>sbi_inodes := [77 \<mapsto> ex_staged_inode]\<rparr>),
     w_files = [105 \<mapsto> [1, 2, 3, 4], 50 \<mapsto> [0, 8, 9]], w_dir = Map.empty, w_rc = (\<lambda>r. ex_rc)\<rparr>"

lemma ex_io_ok:
  "kread_ok (io_kread ex_io_env)" "kwrite_ok (io_kwrite ex_io_env)" "kwrite_clean (io_kwrite ex_io_env)"
  "kwrite_ok (io_vwrite ex_io_env)" "kwrite_clean (io_vwrite ex_io_env)"
  by (simp_all add: ex_io_env_def disk_write_ok disk_write_clean kread_full_ok [OF disk_read_full])

lemma ex_world_inode: "ino 77 ex_world = Some ex_inode" "staged_ok ex_inode ex_world" "own_stage ex_io_env ex_inode"
  by (simp_all add: ex_world_def ex_pool_def staged_ok_def own_stage_def ex_inode_def ex_rs_def ex_io_env_def ranges_wf_def)

lemma ex_staged_world_inode: "ino 77 ex_staged_world = Some ex_staged_inode" "staged_ok ex_staged_inode ex_staged_world"
  by (simp_all add: ex_staged_world_def ex_staged_inode_def upd_staging_def upd_rs_def staged_ok_def ex_inode_def ex_rs_def
      ranges_wf_def stage_holds_def file_of_def)

lemma ex_acct: "acct_ok ex_staged_world"
  by (simp add: acct_ok_def staged_total_def ex_staged_world_def upd_staging_def ex_staged_inode_def upd_rs_def ex_pool_def
      ex_inode_def ex_rs_def ranges_wf_def)

theorem staged_write_refines_witness:
  "\<exists>res pos' n w' si'. range_stage_write ex_io_env False 77 \<lparr>p_mnt = 1, p_dentry = 105\<rparr> 1 [8, 9] ex_world = (res, pos', n, w')
    \<and> ino 77 w' = Some si' \<and> view si' w' = af_write 1 (take n [8, 9]) (view ex_inode ex_world)"
proof -
  obtain res pos' n w' where w: "range_stage_write ex_io_env False 77 \<lparr>p_mnt = 1, p_dentry = 105\<rparr> 1 [8, 9] ex_world = (res, pos', n, w')"
    by (metis prod_cases4)
  from staged_write_refines [OF ex_world_inode _ ex_io_ok(4,5) w] w show ?thesis by auto
qed

theorem drain_preserves_view_witness:
  "\<exists>res w' si'. drain_one_range ex_io_env 77 ex_staged_world = (res, w') \<and> ino 77 w' = Some si'
    \<and> view si' w' = view ex_staged_inode ex_staged_world"
proof -
  obtain res w' where w: "drain_one_range ex_io_env 77 ex_staged_world = (res, w')" by fastforce
  from drain_preserves_view [OF ex_staged_world_inode ex_io_ok(1-3) w] w show ?thesis by auto
qed

theorem drain_ranges_returns_witness: "\<exists>res w'. drain_ranges ex_io_env ex_staged_world = Some (res, w')"
proof -
  have wf: "\<And>r si. ino r ex_staged_world = Some si \<Longrightarrow> ranges_wf (rs_ranges (si_rs si))"
    using ex_acct by (auto simp: acct_ok_def)
  show ?thesis using drain_ranges_returns [OF ex_io_ok(1-3), of ex_staged_world] wf by blast
qed

theorem staged_bytes_accounting_witness:
  "\<exists>w'. io_step\<^sup>*\<^sup>* ex_staged_world w' \<and> w' = snd (drain_one_range ex_io_env 77 ex_staged_world)
    \<and> st_range_staged_bytes (sbi_staging (w_sbi w')) = staged_total w'"
proof -
  obtain res w' where w: "drain_one_range ex_io_env 77 ex_staged_world = (res, w')" by fastforce
  then have s: "io_step\<^sup>*\<^sup>* ex_staged_world w'"
    using io_step.drain [OF ex_io_ok(1-3) ex_staged_world_inode(1) w] by blast
  from staged_bytes_accounting [OF s ex_acct] s w show ?thesis by auto
qed

theorem evict_loses_staged_ranges_witness:
  "st_range_staged_bytes (sbi_staging (evict_inode (\<lambda>d. 0) 77 (w_sbi ex_staged_world))) = 2
    \<and> \<not> acct_ok (upd_sbi (evict_inode (\<lambda>d. 0) 77) ex_staged_world)"
proof -
  have "rs_ranges (si_rs ex_staged_inode) \<noteq> []" by (simp add: ex_staged_inode_def upd_rs_def)
  from evict_loses_staged_ranges [OF ex_acct ex_staged_world_inode(1) this refl, of "\<lambda>d. 0"]
  show ?thesis by (simp add: ex_staged_world_def upd_staging_def)
qed

end
