(* ===== verification/File_Ops.thy ===== *)
theory File_Ops
  imports Staged_View
begin

text \<open>
  The file operations of \<open>src/src/smoothfs/file.c\<close>: open, release, the three read paths, write
  with its cutover gate, fsync, mmap, seek, splice, fallocate and the clone operations. An
  operation of the lower file's own \<open>f_op\<close> table is an argument.
\<close>

section \<open>The lower file of a descriptor\<close>

definition lower_file_w ::
  "lower_env \<Rightarrow> iref \<Rightarrow> file_info option \<Rightarrow> io_world \<Rightarrow> open_file option res \<times> file_info option \<times> io_world" where
  "lower_file_w lenv r fio w =
    (case ino r w of
       None \<Rightarrow> (Err EBADF, fio, w)
     | Some si \<Rightarrow> (case lower_file lenv fio si of (f, fio', si') \<Rightarrow> (f, fio', upd_sbi (upd_inode r (\<lambda>_. si')) w)))"

text \<open>\<open>smoothfs_open\<close>, with the O_DIRECT capability of the lower file mirrored onto the upper.\<close>

definition file_open ::
  "lower_env \<Rightarrow> (open_file \<Rightarrow> bool) \<Rightarrow> (inode_info \<Rightarrow> inode_info) \<Rightarrow> u32 \<Rightarrow> cred \<Rightarrow> inode_info \<Rightarrow> (file_info \<times> bool) res \<times> inode_info" where
  "file_open lenv can_odirect mid flags cred si =
    (case open_lower lenv mid flags cred si of
       (Err e, si') \<Rightarrow> (Err e, si')
     | (Ok fi, si') \<Rightarrow> (Ok (fi, (case fi_lower_file fi of None \<Rightarrow> False | Some f \<Rightarrow> can_odirect f)), si'))"

text \<open>\<open>smoothfs_release\<close>: the last close returns an unused write reservation.\<close>

definition file_release :: "iref \<Rightarrow> file_info option \<Rightarrow> sb_info \<Rightarrow> file_info option \<times> sb_info" where
  "file_release r fio sbi =
    (case sbi_inodes sbi r of
       None \<Rightarrow> (release_lower fio, sbi)
     | Some si \<Rightarrow>
        (let s1 = upd_inode r (\<lambda>i. i\<lparr>si_heat := (si_heat i)\<lparr>h_open_count := h_open_count (si_heat i) - 1\<rparr>\<rparr>) sbi
         in (release_lower fio, if h_open_count (si_heat si) = 1 then clear_write_reservation r s1 else s1)))"

section \<open>Reading\<close>

text \<open>
  One turn of the loop of \<open>smoothfs_range_stage_read_iter\<close>: the lower file's bytes in a zeroed
  buffer with the staged bytes laid over them, as far as the reader's buffer took them. The
  flag says that it took the whole chunk.
\<close>

definition stage_read_step ::
  "io_env \<Rightarrow> bytes \<Rightarrow> bytes res \<Rightarrow> staged_range list \<Rightarrow> int \<Rightarrow> int \<Rightarrow> nat \<Rightarrow> (bytes \<times> bool) res" where
  "stage_read_step env f stage rs isize pos count =
    (let avail = nat (min (int (min count RANGE_READ_CHUNK)) (isize - pos))
     in if \<not> io_alloc_buf env then Err ENOMEM
        else case io_kread env f pos avail of
            Err e \<Rightarrow> Err e
          | Ok bs \<Rightarrow>
             (case range_stage_overlay (io_kread env) stage pos rs (buf_put 0 bs (replicate avail 0)) of
                (Err e, _) \<Rightarrow> Err e
              | (Ok _, buf) \<Rightarrow> (let n = min (io_copy env buf) avail in Ok (take n buf, n = avail))))"

function stage_read_loop ::
  "io_env \<Rightarrow> bytes \<Rightarrow> bytes res \<Rightarrow> staged_range list \<Rightarrow> int \<Rightarrow> int \<Rightarrow> nat \<Rightarrow> bytes \<Rightarrow> nat res \<times> bytes \<times> int" where
  "stage_read_loop env f stage rs isize pos count acc =
    (if count = 0 \<or> isize \<le> pos then (Ok (length acc), acc, pos)
     else case stage_read_step env f stage rs isize pos count of
         Err e \<Rightarrow> (if acc = [] then Err e else Ok (length acc), acc, pos)
       | Ok (got, all) \<Rightarrow>
          (if got = [] then (Ok (length acc), acc, pos)
           else if \<not> all then (Ok (length acc + length got), acc @ got, pos + int (length got))
           else stage_read_loop env f stage rs isize (pos + int (length got)) (count - length got) (acc @ got)))"
  by pat_completeness auto

termination
  by (relation "measure (\<lambda>(env, f, stage, rs, isize, pos, count, acc). count)") auto

declare stage_read_loop.simps [simp del]

definition range_stage_read_iter ::
  "io_env \<Rightarrow> lower_env \<Rightarrow> iref \<Rightarrow> file_info option \<Rightarrow> int \<Rightarrow> nat \<Rightarrow> io_world \<Rightarrow> nat res \<times> bytes \<times> int \<times> file_info option \<times> io_world" where
  "range_stage_read_iter env lenv r fio pos count w =
    (case lower_file_w lenv r fio w of
       (f, fio', w') \<Rightarrow>
         (case (lower_file_error f, f, ino r w') of
            (Ok _, Ok (Some lf), Some si) \<Rightarrow>
              (let sp = rs_path (si_rs si);
                   stage = (case sp of
                       None \<Rightarrow> Err ENOENT
                     | Some p \<Rightarrow> (case io_dentry_open env p of Err e \<Rightarrow> Err e | Ok _ \<Rightarrow> Ok (file_of (p_dentry p) w')))
               in case stage_read_loop env (file_of (p_dentry (of_path lf)) w') stage (rs_ranges (si_rs si)) (si_size si) pos count [] of
                   (res, data, pos') \<Rightarrow> (res, data, pos', fio', w'))
          | (Err e, _, _) \<Rightarrow> (Err e, [], pos, fio', w')
          | _ \<Rightarrow> (Err EBADF, [], pos, fio', w')))"

subsection \<open>The read cache\<close>

definition read_cache_clear :: "rcache \<Rightarrow> rcache" where
  "read_cache_clear rc = rc\<lparr>rc_file := None, rc_chunks := Map.empty\<rparr>"

text \<open>
  The kernel calls of the cached read that the other paths do not have: opening the anonymous
  cache file, and storing an entry in the chunk index.
\<close>

record cache_env =
  ca_open :: bool
  ca_store :: bool
  ca_buf :: bool

text \<open>Dropping the cache when it is older than the file, or the file is mapped for writing.\<close>

definition cache_validate :: "bool \<Rightarrow> inode_info \<Rightarrow> rcache \<Rightarrow> rcache" where
  "cache_validate mapped si rc =
    (if mapped \<or> rc_seq rc \<noteq> si_write_seq si \<or> rc_gen rc \<noteq> si_cutover_gen si
     then (read_cache_clear rc)\<lparr>rc_seq := si_write_seq si, rc_gen := si_cutover_gen si\<rparr> else rc)"

text \<open>A chunk from the cache, if all of its valid bytes can be read from there.\<close>

definition cache_hit :: "io_env \<Rightarrow> rcache \<Rightarrow> nat \<Rightarrow> bytes option" where
  "cache_hit env rc idx =
    (case (rc_file rc, rc_chunks rc idx) of
       (Some cf, Some valid) \<Rightarrow>
         (case io_kread env cf (int (idx * RANGE_READ_CHUNK)) valid of
            Err _ \<Rightarrow> None
          | Ok bs \<Rightarrow> (if length bs = valid then Some bs else None))
     | _ \<Rightarrow> None)"

text \<open>Filling a chunk that was read from the lower file into the cache.\<close>

definition cache_fill :: "io_env \<Rightarrow> cache_env \<Rightarrow> nat \<Rightarrow> bytes \<Rightarrow> rcache \<Rightarrow> rcache" where
  "cache_fill env cenv idx bs rc =
    (let cf = (case rc_file rc of Some f \<Rightarrow> Some f | None \<Rightarrow> if ca_open cenv then Some [] else None)
     in case cf of
         None \<Rightarrow> rc
       | Some f \<Rightarrow>
          (case io_kwrite env f (int (idx * RANGE_READ_CHUNK)) bs of
             (x, f') \<Rightarrow>
               (let rc' = rc\<lparr>rc_file := Some f', rc_chunks := (rc_chunks rc)(idx := None)\<rparr>
                in if x = Ok (length bs) \<and> ca_store cenv then rc'\<lparr>rc_chunks := (rc_chunks rc)(idx \<mapsto> length bs)\<rparr> else rc')))"

definition cache_chunk ::
  "io_env \<Rightarrow> cache_env \<Rightarrow> bool \<Rightarrow> bool \<Rightarrow> bytes \<Rightarrow> nat \<Rightarrow> rcache \<Rightarrow> bytes res \<times> rcache" where
  "cache_chunk env cenv mapped full f idx rc =
    (case cache_hit env rc idx of
       Some bs \<Rightarrow> (Ok bs, rc)
     | None \<Rightarrow>
        (case io_kread env f (int (idx * RANGE_READ_CHUNK)) RANGE_READ_CHUNK of
           Err e \<Rightarrow> (Err e, rc)
         | Ok bs \<Rightarrow> (Ok bs, if bs \<noteq> [] \<and> \<not> mapped \<and> \<not> full then cache_fill env cenv idx bs rc else rc)))"

definition cached_read_step ::
  "io_env \<Rightarrow> cache_env \<Rightarrow> bool \<Rightarrow> bool \<Rightarrow> inode_info \<Rightarrow> bytes \<Rightarrow> rcache \<Rightarrow> nat \<Rightarrow> nat \<Rightarrow> bytes res \<times> rcache" where
  "cached_read_step env cenv mapped full si f rc pos count =
    (let idx = pos div RANGE_READ_CHUNK; offset = pos - idx * RANGE_READ_CHUNK
     in case cache_chunk env cenv mapped full f idx (cache_validate mapped si rc) of
         (Err e, rc') \<Rightarrow> (Err e, rc')
       | (Ok bs, rc') \<Rightarrow>
          (if length bs \<le> offset then (Ok [], rc')
           else let chunk = take (min (length bs - offset) count) (drop offset bs)
             in (Ok (take (io_copy env chunk) chunk), rc')))"

function cached_read_loop ::
  "io_env \<Rightarrow> cache_env \<Rightarrow> bool \<Rightarrow> bool \<Rightarrow> inode_info \<Rightarrow> bytes \<Rightarrow> rcache \<Rightarrow> nat \<Rightarrow> nat \<Rightarrow> bytes \<Rightarrow> nat res \<times> bytes \<times> nat \<times> rcache" where
  "cached_read_loop env cenv mapped full si f rc pos count acc =
    (if count = 0 then (Ok (length acc), acc, pos, rc)
     else case cached_read_step env cenv mapped full si f rc pos count of
         (Err e, rc') \<Rightarrow> (if acc = [] then Err e else Ok (length acc), acc, pos, rc')
       | (Ok got, rc') \<Rightarrow>
          (if got = [] then (Ok (length acc), acc, pos, rc')
           else cached_read_loop env cenv mapped full si f rc' (pos + length got) (count - length got) (acc @ got)))"
  by pat_completeness auto

termination
  by (relation "measure (\<lambda>(env, cenv, mapped, full, si, f, rc, pos, count, acc). count)") auto

declare cached_read_loop.simps [simp del]

definition cached_read_iter ::
  "io_env \<Rightarrow> cache_env \<Rightarrow> lower_env \<Rightarrow> iref \<Rightarrow> file_info option \<Rightarrow> nat \<Rightarrow> nat \<Rightarrow> io_world
    \<Rightarrow> nat res \<times> bytes \<times> nat \<times> file_info option \<times> io_world" where
  "cached_read_iter env cenv lenv r fio pos count w =
    (case lower_file_w lenv r fio w of
       (f, fio', w') \<Rightarrow>
         (case (lower_file_error f, f, ino r w') of
            (Ok _, Ok (Some lf), Some si) \<Rightarrow>
              (let content = file_of (p_dentry (of_path lf)) w'
               in if \<not> ca_buf cenv
                  then case io_vread env content (int pos) count of
                      Err e \<Rightarrow> (Err e, [], pos, fio', w')
                    | Ok bs \<Rightarrow> (Ok (length bs), bs, pos + length bs, fio', w')
                  else case cached_read_loop env cenv (io_mapped env (p_dentry (of_path lf)))
                              (tier_near_enospc env (w_sbi w') (sbi_fastest_tier (w_sbi w'))) si content (w_rc w' r) pos count [] of
                      (res, data, pos', rc) \<Rightarrow> (res, data, pos', fio', w'\<lparr>w_rc := (w_rc w')(r := rc)\<rparr>))
          | (Err e, _, _) \<Rightarrow> (Err e, [], pos, fio', w')
          | _ \<Rightarrow> (Err EBADF, [], pos, fio', w')))"

definition note_read :: "io_env \<Rightarrow> iref \<Rightarrow> nat res \<Rightarrow> io_world \<Rightarrow> io_world" where
  "note_read env r ret w =
    (case ret of
       Ok n \<Rightarrow> (if 0 < n then upd_sbi (upd_inode r (\<lambda>i. i\<lparr>si_heat := (si_heat i)\<lparr>h_read_bytes := h_read_bytes (si_heat i) + word_of_nat n,
                   h_last_access_ns := io_now env\<rparr>\<rparr>)) w else w)
     | Err _ \<Rightarrow> w)"

text \<open>\<open>smoothfs_read_iter\<close>: staged, cached or straight from the lower file.\<close>

definition read_iter ::
  "io_env \<Rightarrow> cache_env \<Rightarrow> lower_env \<Rightarrow> bool \<Rightarrow> iref \<Rightarrow> file_info option \<Rightarrow> nat \<Rightarrow> nat \<Rightarrow> io_world
    \<Rightarrow> nat res \<times> bytes \<times> int \<times> file_info option \<times> io_world" where
  "read_iter env cenv lenv direct r fio pos count w =
    (case ino r w of
       None \<Rightarrow> (Err EBADF, [], int pos, fio, w)
     | Some si \<Rightarrow>
        (if rs_range_staged (si_rs si) \<and> direct then (Err EBUSY, [], int pos, fio, w)
         else if rs_range_staged (si_rs si)
         then case range_stage_read_iter env lenv r fio (int pos) count w of
             (res, data, pos', fio', w') \<Rightarrow> (res, data, pos', fio', note_read env r res w')
         else if sbi_cache_mode (w_sbi w) \<and> \<not> direct \<and> si_current_tier si = sbi_ntiers (w_sbi w) - 1
         then case cached_read_iter env cenv lenv r fio pos count w of
             (res, data, pos', fio', w') \<Rightarrow> (res, data, int pos', fio', note_read env r res w')
         else case lower_file_w lenv r fio w of
             (Ok (Some lf), fio', w') \<Rightarrow>
               (case io_vread env (file_of (p_dentry (of_path lf)) w') (int pos) count of
                  Err e \<Rightarrow> (Err e, [], int pos, fio', w')
                | Ok bs \<Rightarrow> (Ok (length bs), bs, int (pos + length bs), fio', note_read env r (Ok (length bs)) w'))
           | (Ok None, fio', w') \<Rightarrow> (Err EBADF, [], int pos, fio', w')
           | (Err e, fio', w') \<Rightarrow> (Err e, [], int pos, fio', w')))"

section \<open>Writing\<close>

text \<open>
  The cutover gate of a writer. The list holds what each interruptible wait returns and the
  state at that wake-up; a writer that is parked after the last of them sleeps on.
\<close>

definition parked :: "iref \<Rightarrow> io_world \<Rightarrow> bool" where
  "parked r w \<longleftrightarrow> (case ino r w of None \<Rightarrow> False | Some si \<Rightarrow> si_movement_state si = MS_CUTOVER_IN_PROGRESS)"

fun write_gate :: "iref \<Rightarrow> (unit res \<times> io_world) list \<Rightarrow> io_world \<Rightarrow> (unit res \<times> io_world) option" where
  "write_gate r wakes w =
    (if \<not> parked r w then Some (Done, w)
     else case wakes of
         [] \<Rightarrow> None
       | (Err e, w') # ws \<Rightarrow> Some (Err e, w')
       | (Ok _, w') # ws \<Rightarrow> write_gate r ws w')"

text \<open>A write through to the lower file, at its end if it was opened for appending.\<close>

definition lower_write :: "io_env \<Rightarrow> open_file \<Rightarrow> int \<Rightarrow> bytes \<Rightarrow> io_world \<Rightarrow> nat res \<times> int \<times> io_world" where
  "lower_write env lf pos data w =
    (let d = p_dentry (of_path lf); f = file_of d w;
         at = (if of_flags lf AND O_APPEND \<noteq> 0 then int (length f) else pos)
     in case io_vwrite env f at data of
         (Err e, f') \<Rightarrow> (Err e, pos, set_file d f' w)
       | (Ok n, f') \<Rightarrow> (Ok n, if 0 < n then at + int n else pos, set_file d f' w))"

text \<open>The body of the SRCU section: stage the write, or drain what is staged and write through.\<close>

definition write_body ::
  "io_env \<Rightarrow> bool \<Rightarrow> bool \<Rightarrow> iref \<Rightarrow> open_file \<Rightarrow> int \<Rightarrow> bytes \<Rightarrow> io_world \<Rightarrow> nat res \<times> int \<times> io_world" where
  "write_body env direct app r lf pos data w =
    (case ino r w of
       None \<Rightarrow> (Err EBADF, pos, w)
     | Some si \<Rightarrow>
        (if should_range_stage_write env direct si (Some (of_path lf)) (w_sbi w)
         then case range_stage_write env app r (of_path lf) pos data w of
             (ret, pos', n, w') \<Rightarrow>
               (if sbi_cache_mode (w_sbi w) \<and> ret = Err ENOSPC \<and> n = 0
                then case drain_inode env r w' of
                    (Err e, w'') \<Rightarrow> (Err e, pos', w'')
                  | (Ok _, w'') \<Rightarrow> lower_write env lf pos' data w''
                else (ret, pos', w'))
         else case (if rs_range_staged (si_rs si) then drain_inode env r w else (Done, w)) of
             (Err e, w') \<Rightarrow> (Err e, pos, w')
           | (Ok _, w') \<Rightarrow>
              (if (case ino r w' of None \<Rightarrow> False | Some si' \<Rightarrow> rs_range_staged (si_rs si')) then (Err EBUSY, pos, w')
               else lower_write env lf pos data w')))"

definition add_active :: "u8 \<Rightarrow> int \<Rightarrow> sb_info \<Rightarrow> sb_info" where
  "add_active t n sbi = (if t < sbi_ntiers sbi then upd_tier t (\<lambda>x. x\<lparr>t_active_writes := t_active_writes x + n\<rparr>) sbi else sbi)"

text \<open>The bookkeeping of a successful write, after the SRCU section has ended.\<close>

definition note_written :: "io_env \<Rightarrow> iref \<Rightarrow> u8 \<Rightarrow> open_file \<Rightarrow> nat \<Rightarrow> io_world \<Rightarrow> io_world" where
  "note_written env r t lf n w =
    (case ino r w of
       None \<Rightarrow> w
     | Some si \<Rightarrow>
        (let staged = rs_range_staged (si_rs si);
             w1 = upd_sbi (upd_inode r (\<lambda>i. note_data_change (i\<lparr>si_heat := (si_heat i)\<lparr>h_write_bytes := h_write_bytes (si_heat i) + word_of_nat n\<rparr>\<rparr>))) w;
             w2 = (if \<not> staged \<and> si_write_staged si \<and> t = sbi_fastest_tier (w_sbi w) then upd_sbi (note_write env (int n)) w1 else w1)
         in upd_sbi (upd_inode r (\<lambda>i. i\<lparr>si_heat := (si_heat i)\<lparr>h_last_access_ns := io_now env\<rparr>,
                 si_size := (if staged then si_size i else int (length (file_of (p_dentry (of_path lf)) w)))\<rparr>)) w2))"

definition write_iter_unlocked ::
  "io_env \<Rightarrow> lower_env \<Rightarrow> (unit res \<times> io_world) list \<Rightarrow> bool \<Rightarrow> bool \<Rightarrow> bool \<Rightarrow> iref \<Rightarrow> file_info option \<Rightarrow> int \<Rightarrow> bytes \<Rightarrow> io_world
    \<Rightarrow> (nat res \<times> int \<times> file_info option \<times> io_world) option" where
  "write_iter_unlocked env lenv wakes direct app sync r fio pos data w0 =
    (case write_gate r wakes w0 of
       None \<Rightarrow> None
     | Some (Err e, w) \<Rightarrow> Some (Err e, pos, fio, w)
     | Some (Ok _, w) \<Rightarrow>
        (case lower_file_w lenv r fio w of
           (Err e, fio', w1) \<Rightarrow> Some (Err e, pos, fio', w1)
         | (Ok None, fio', w1) \<Rightarrow> Some (Err EBADF, pos, fio', w1)
         | (Ok (Some lf), fio', w1) \<Rightarrow>
            (let t = word_of_nat (tier_of (w_sbi w1) (p_mnt (of_path lf)))
             in if (case ino r w1 of None \<Rightarrow> False | Some si \<Rightarrow> rs_range_staged (si_rs si)) \<and> direct
                then Some (Err EBUSY, pos, fio', w1)
                else case write_body env direct app r lf pos data
                            (upd_sbi (clear_write_reservation r \<circ> add_active t 1) w1) of
                    (ret, pos', w2) \<Rightarrow>
                      (let w3 = upd_sbi (add_active t (-1)) w2
                       in case ret of
                           Err e \<Rightarrow> Some (Err e, pos', fio', w3)
                         | Ok n \<Rightarrow>
                            (if n = 0 then Some (Ok 0, pos', fio', w3)
                             else let w4 = note_written env r t lf n w3
                               in if sbi_cache_mode (w_sbi w4) \<and> sync
                                  then case drain_inode env r w4 of
                                      (Err e, w5) \<Rightarrow> Some (Err e, pos', fio', w5)
                                    | (Ok _, w5) \<Rightarrow>
                                       (case io_fsync env (of_path lf) of
                                          Err e \<Rightarrow> Some (Err e, pos', fio', w5)
                                        | Ok _ \<Rightarrow> Some (Ok n, pos', fio', w5))
                                  else Some (Ok n, pos', fio', w4))))))"

text \<open>The mutation lock of \<open>smoothfs_write_iter\<close> orders the writers of one inode in cache mode.\<close>

definition write_iter ::
  "io_env \<Rightarrow> lower_env \<Rightarrow> (unit res \<times> io_world) list \<Rightarrow> bool \<Rightarrow> bool \<Rightarrow> bool \<Rightarrow> iref \<Rightarrow> file_info option \<Rightarrow> int \<Rightarrow> bytes \<Rightarrow> io_world
    \<Rightarrow> (nat res \<times> int \<times> file_info option \<times> io_world) option" where
  "write_iter = write_iter_unlocked"

definition fsync ::
  "io_env \<Rightarrow> lower_env \<Rightarrow> iref \<Rightarrow> file_info option \<Rightarrow> io_world \<Rightarrow> unit res \<times> file_info option \<times> io_world" where
  "fsync env lenv r fio w =
    (case lower_file_w lenv r fio w of
       (Err e, fio', w1) \<Rightarrow> (Err e, fio', w1)
     | (Ok None, fio', w1) \<Rightarrow> (Err EBADF, fio', w1)
     | (Ok (Some lf), fio', w1) \<Rightarrow>
        (if sbi_cache_mode (w_sbi w1)
         then case drain_inode env r w1 of
             (Err e, w2) \<Rightarrow> (Err e, fio', w2)
           | (Ok _, w2) \<Rightarrow> (io_fsync env (of_path lf), fio', w2)
         else (io_fsync env (of_path lf), fio', w1)))"

section \<open>Operations that go to the lower file\<close>

definition begin_data_change ::
  "io_env \<Rightarrow> (unit res \<times> io_world) list \<Rightarrow> iref \<Rightarrow> io_world \<Rightarrow> (unit res \<times> io_world) option" where
  "begin_data_change env wakes r w0 =
    (case write_gate r wakes w0 of
       None \<Rightarrow> None
     | Some (Err e, w) \<Rightarrow> Some (Err e, w)
     | Some (Ok _, w) \<Rightarrow>
        (if sbi_cache_mode (w_sbi w) \<and> (case ino r w of None \<Rightarrow> False | Some si \<Rightarrow> rs_range_staged (si_rs si))
         then Some (drain_inode env r w) else Some (Done, w)))"

text \<open>The pattern of splice_write, fallocate and the clones: the lower operation inside the gate.\<close>

definition data_change ::
  "io_env \<Rightarrow> (unit res \<times> io_world) list \<Rightarrow> iref \<Rightarrow> (io_world \<Rightarrow> nat res \<times> io_world) \<Rightarrow> (nat \<Rightarrow> bool) \<Rightarrow> io_world \<Rightarrow> (nat res \<times> io_world) option" where
  "data_change env wakes r op changed w0 =
    (case begin_data_change env wakes r w0 of
       None \<Rightarrow> None
     | Some (Err e, w) \<Rightarrow> Some (Err e, w)
     | Some (Ok _, w) \<Rightarrow>
        (case op w of
           (Err e, w') \<Rightarrow> Some (Err e, w')
         | (Ok n, w') \<Rightarrow> Some (Ok n, if changed n then upd_sbi (upd_inode r note_data_change) w' else w')))"

definition splice_read ::
  "io_env \<Rightarrow> lower_env \<Rightarrow> (bytes \<Rightarrow> int \<Rightarrow> nat \<Rightarrow> bytes res) option \<Rightarrow> iref \<Rightarrow> file_info option \<Rightarrow> int \<Rightarrow> nat \<Rightarrow> io_world
    \<Rightarrow> bytes res \<times> file_info option \<times> io_world" where
  "splice_read env lenv lop r fio pos len w =
    (case lower_file_w lenv r fio w of
       (f, fio', w1) \<Rightarrow>
         (case (if sbi_cache_mode (w_sbi w1) then drain_inode env r w1 else (Done, w1)) of
            (Err e, w2) \<Rightarrow> (Err e, fio', w2)
          | (Ok _, w2) \<Rightarrow>
             (case f of
                Err e \<Rightarrow> (Err e, fio', w2)
              | Ok None \<Rightarrow> (Err EBADF, fio', w2)
              | Ok (Some lf) \<Rightarrow>
                 (case lop of
                    None \<Rightarrow> (Err EINVAL, fio', w2)
                  | Some op \<Rightarrow> (op (file_of (p_dentry (of_path lf)) w2) pos len, fio', w2)))))"

definition splice_write ::
  "io_env \<Rightarrow> lower_env \<Rightarrow> (unit res \<times> io_world) list \<Rightarrow> (open_file \<Rightarrow> io_world \<Rightarrow> nat res \<times> io_world) option \<Rightarrow> iref \<Rightarrow> file_info option \<Rightarrow> io_world
    \<Rightarrow> (nat res \<times> file_info option \<times> io_world) option" where
  "splice_write env lenv wakes lop r fio w =
    (case lower_file_w lenv r fio w of
       (Err e, fio', w1) \<Rightarrow> Some (Err e, fio', w1)
     | (Ok None, fio', w1) \<Rightarrow> Some (Err EBADF, fio', w1)
     | (Ok (Some lf), fio', w1) \<Rightarrow>
        (case lop of
           None \<Rightarrow> Some (Err EINVAL, fio', w1)
         | Some op \<Rightarrow> map_option (\<lambda>(ret, w2). (ret, fio', w2)) (data_change env wakes r (op lf) (\<lambda>n. 0 < n) w1)))"

definition fallocate ::
  "io_env \<Rightarrow> lower_env \<Rightarrow> (unit res \<times> io_world) list \<Rightarrow> (open_file \<Rightarrow> io_world \<Rightarrow> nat res \<times> io_world) option \<Rightarrow> iref \<Rightarrow> file_info option \<Rightarrow> io_world
    \<Rightarrow> (nat res \<times> file_info option \<times> io_world) option" where
  "fallocate env lenv wakes lop r fio w =
    (case lower_file_w lenv r fio w of
       (Err e, fio', w1) \<Rightarrow> Some (Err e, fio', w1)
     | (Ok None, fio', w1) \<Rightarrow> Some (Err EBADF, fio', w1)
     | (Ok (Some lf), fio', w1) \<Rightarrow>
        (case lop of
           None \<Rightarrow> Some (Err EOPNOTSUPP, fio', w1)
         | Some op \<Rightarrow> map_option (\<lambda>(ret, w2). (ret, fio', w2)) (data_change env wakes r (op lf) (\<lambda>n. n = 0) w1)))"

text \<open>
  \<open>smoothfs_llseek\<close>: the upper position is copied to the lower file, which answers; \<open>lop\<close> is
  the lower seek on a position.
\<close>

definition llseek ::
  "io_env \<Rightarrow> lower_env \<Rightarrow> (bytes \<Rightarrow> int \<Rightarrow> int \<Rightarrow> nat \<Rightarrow> int res) \<Rightarrow> iref \<Rightarrow> file_info option \<Rightarrow> int \<Rightarrow> int \<Rightarrow> nat \<Rightarrow> io_world
    \<Rightarrow> int res \<times> int \<times> file_info option \<times> io_world" where
  "llseek env lenv lop r fio fpos offset whence w =
    (case lower_file_w lenv r fio w of
       (f, fio', w1) \<Rightarrow>
         (case (if sbi_cache_mode (w_sbi w1) then drain_inode env r w1 else (Done, w1)) of
            (Err e, w2) \<Rightarrow> (Err e, fpos, fio', w2)
          | (Ok _, w2) \<Rightarrow>
             (case f of
                Err e \<Rightarrow> (Err e, fpos, fio', w2)
              | Ok None \<Rightarrow> (Err EBADF, fpos, fio', w2)
              | Ok (Some lf) \<Rightarrow>
                 (case lop (file_of (p_dentry (of_path lf)) w2) fpos offset whence of
                    Err e \<Rightarrow> (Err e, fpos, fio', w2)
                  | Ok p \<Rightarrow> (Ok p, p, fio', w2)))))"

definition mmap ::
  "io_env \<Rightarrow> lower_env \<Rightarrow> (open_file \<Rightarrow> bool) \<Rightarrow> (open_file \<Rightarrow> unit res) \<Rightarrow> bool \<Rightarrow> iref \<Rightarrow> file_info option \<Rightarrow> io_world
    \<Rightarrow> unit res \<times> file_info option \<times> io_world" where
  "mmap env lenv can_mmap vfs_mmap shared_maywrite r fio w =
    (case lower_file_w lenv r fio w of
       (f, fio', w1) \<Rightarrow>
         (case (if sbi_cache_mode (w_sbi w1) then drain_inode env r w1 else (Done, w1)) of
            (Err e, w2) \<Rightarrow> (Err e, fio', w2)
          | (Ok _, w2) \<Rightarrow>
             (case (f, ino r w2) of
                (Ok (Some lf), Some si) \<Rightarrow>
                 (if \<not> can_mmap lf then (Err ENODEV, fio', w2)
                  else if shared_maywrite \<and> si_mappings_quiesced si then (Err EBUSY, fio', w2)
                  else if rs_range_staged (si_rs si) then (Err EBUSY, fio', w2)
                  else (vfs_mmap lf, fio',
                        if shared_maywrite then w2\<lparr>w_rc := (w_rc w2)(r := read_cache_clear (w_rc w2 r))\<rparr> else w2))
              | (Err e, _) \<Rightarrow> (Err e, fio', w2)
              | _ \<Rightarrow> (Err EBADF, fio', w2))))"

text \<open>
  \<open>smoothfs_remap_source_file\<close>: of a file on the pool its lower file, unless the lower file
  misses staged bytes in cache mode; of any other file the file itself.
\<close>

datatype remap_file = Pool_File iref "file_info option" | Other_File open_file

definition remap_source_file ::
  "lower_env \<Rightarrow> remap_file option \<Rightarrow> io_world \<Rightarrow> open_file option res \<times> remap_file option \<times> io_world" where
  "remap_source_file lenv src w =
    (case src of
       None \<Rightarrow> (Err EBADF, None, w)
     | Some (Other_File f) \<Rightarrow> (Ok (Some f), src, w)
     | Some (Pool_File r fio) \<Rightarrow>
        (if sbi_cache_mode (w_sbi w) \<and> (case ino r w of None \<Rightarrow> False | Some si \<Rightarrow> rs_range_staged (si_rs si))
         then (Err EBUSY, src, w)
         else case lower_file_w lenv r fio w of (f, fio', w') \<Rightarrow> (f, Some (Pool_File r fio'), w')))"

definition remap_file_range ::
  "io_env \<Rightarrow> lower_env \<Rightarrow> (unit res \<times> io_world) list \<Rightarrow> (open_file \<Rightarrow> nat) \<Rightarrow> (open_file \<Rightarrow> open_file \<Rightarrow> io_world \<Rightarrow> nat res \<times> io_world) option
    \<Rightarrow> (open_file \<Rightarrow> open_file \<Rightarrow> io_world \<Rightarrow> nat res \<times> io_world) \<Rightarrow> bool \<Rightarrow> remap_file option \<Rightarrow> iref \<Rightarrow> file_info option \<Rightarrow> io_world
    \<Rightarrow> (nat res \<times> io_world) option" where
  "remap_file_range env lenv wakes sb_of rop clone no_flags file_in r_out fio_out w =
    (case remap_source_file lenv file_in w of
       (fin, _, w1) \<Rightarrow>
         (case remap_source_file lenv (Some (Pool_File r_out fio_out)) w1 of
            (fout, _, w2) \<Rightarrow>
              (case (fin, fout) of
                 (Err e, _) \<Rightarrow> Some (Err e, w2)
               | (Ok None, _) \<Rightarrow> Some (Err EBADF, w2)
               | (_, Err e) \<Rightarrow> Some (Err e, w2)
               | (_, Ok None) \<Rightarrow> Some (Err EBADF, w2)
               | (Ok (Some lin), Ok (Some lout)) \<Rightarrow>
                  (if sb_of lin \<noteq> sb_of lout then Some (Err EXDEV, w2)
                   else data_change env wakes r_out
                          (case rop of
                             Some op \<Rightarrow> op lin lout
                           | None \<Rightarrow> if no_flags then clone lin lout else (\<lambda>x. (Err EOPNOTSUPP, x))) (\<lambda>n. True) w2))))"

section \<open>A staged read returns the view\<close>

text \<open>A reader whose buffer can be filled, and enough memory for the chunk buffer.\<close>

definition reads_well :: "io_env \<Rightarrow> bool" where
  "reads_well env \<longleftrightarrow> kread_full (io_kread env) \<and> (\<forall>bs. io_copy env bs = length bs) \<and> io_alloc_buf env
     \<and> (\<forall>p. io_dentry_open env p = Done)"

lemma stage_read_step_bytes:
  fixes isize :: int and count :: nat
  assumes "reads_well env" "ranges_wf rs" "stage_holds st rs" "0 \<le> pos"
  defines "m \<equiv> nat (min (int (min count RANGE_READ_CHUNK)) (isize - pos))"
  shows "\<exists>got. stage_read_step env f (Ok st) rs isize pos count = Ok (got, True) \<and> length got = m
    \<and> (\<forall>i < m. got ! i = (if range_covers rs (pos + int i) then file_byte st (pos + int i) else file_byte f (pos + int i)))"
proof -
  have kr: "kread_full (io_kread env)" and cp: "\<And>bs. io_copy env bs = length bs" and al: "io_alloc_buf env"
    using assms(1) by (auto simp: reads_well_def)
  let ?bs = "file_get f pos m"
  let ?buf = "buf_put 0 ?bs (replicate m 0)"
  have rd: "io_kread env f pos m = Ok ?bs" using kr assms(4) by (simp add: kread_full_def)
  have le: "length ?bs \<le> m" by (simp add: file_get_def)
  have buf: "length ?buf = m" "i < m \<Longrightarrow> ?buf ! i = file_byte f (pos + int i)" for i
  proof -
    show "length ?buf = m" using le by simp
    assume i: "i < m"
    show "?buf ! i = file_byte f (pos + int i)"
    proof (cases "i < length ?bs")
      case True
      then show ?thesis using i le assms(4) by (simp add: nth_buf_put file_get_nth)
    next
      case False
      then have "length f \<le> nat (pos + int i)" using i assms(4) by (auto simp: file_get_def nat_add_distrib)
      then show ?thesis using False i le assms(4) by (simp add: nth_buf_put file_byte_def)
    qed
  qed
  obtain out where out: "range_stage_overlay (io_kread env) (Ok st) pos rs ?buf = (Done, out)" "length out = m"
      "\<forall>i < m. out ! i = (if range_covers rs (pos + int i) then file_byte st (pos + int i) else ?buf ! i)"
    using range_stage_overlay_bytes [OF kr assms(4,2,3), of ?buf] buf(1) by auto
  have "stage_read_step env f (Ok st) rs isize pos count = Ok (out, True)"
    using out(1,2) by (simp add: stage_read_step_def m_def [symmetric] al rd cp Let_def)
  then show ?thesis using out(2,3) buf(2) by auto
qed

lemma stage_read_loop_bytes:
  assumes "reads_well env" "ranges_wf rs" "stage_holds st rs"
  shows "0 \<le> pos \<Longrightarrow> \<exists>data. stage_read_loop env f (Ok st) rs isize pos count acc
        = (Ok (length acc + length data), acc @ data, pos + int (length data))
      \<and> length data = nat (min (int count) (isize - pos))
      \<and> (\<forall>i < length data. data ! i = (if range_covers rs (pos + int i) then file_byte st (pos + int i) else file_byte f (pos + int i)))"
proof (induction count arbitrary: pos acc rule: less_induct)
  case (less count)
  show ?case
  proof (cases "count = 0 \<or> isize \<le> pos")
    case True
    then show ?thesis by (intro exI [of _ "[]"]) (auto simp: stage_read_loop.simps)
  next
    case go: False
    define m where "m = nat (min (int (min count RANGE_READ_CHUNK)) (isize - pos))"
    have m: "0 < m" "m \<le> count" "int m \<le> isize - pos" using go by (auto simp: m_def RANGE_READ_CHUNK_def)
    obtain got where got: "stage_read_step env f (Ok st) rs isize pos count = Ok (got, True)" "length got = m"
        "\<forall>i < m. got ! i = (if range_covers rs (pos + int i) then file_byte st (pos + int i) else file_byte f (pos + int i))"
      using stage_read_step_bytes [OF assms less.prems, of f isize count] by (auto simp: m_def)
    obtain data where d: "stage_read_loop env f (Ok st) rs isize (pos + int m) (count - m) (acc @ got)
          = (Ok (length (acc @ got) + length data), (acc @ got) @ data, pos + int m + int (length data))"
        "length data = nat (min (int (count - m)) (isize - (pos + int m)))"
        "\<forall>i < length data. data ! i = (if range_covers rs (pos + int m + int i) then file_byte st (pos + int m + int i)
            else file_byte f (pos + int m + int i))"
      using less.IH [of "count - m" "pos + int m" "acc @ got"] m less.prems by auto
    have "got \<noteq> []" using got(2) m(1) by auto
    then have "stage_read_loop env f (Ok st) rs isize pos count acc
        = stage_read_loop env f (Ok st) rs isize (pos + int m) (count - m) (acc @ got)"
      using go got(1,2) by (subst stage_read_loop.simps) simp
    moreover have "(got @ data) ! i = (if range_covers rs (pos + int i) then file_byte st (pos + int i) else file_byte f (pos + int i))"
      if "i < length (got @ data)" for i
      using that got(2,3) d(3) [rule_format, of "i - m"] by (cases "i < m") (auto simp: nth_append)
    moreover have "length (got @ data) = nat (min (int count) (isize - pos))" using got(2) d(2) m by auto
    moreover have "stage_read_loop env f (Ok st) rs isize (pos + int m) (count - m) (acc @ got)
        = (Ok (length acc + length (got @ data)), acc @ got @ data, pos + int (length (got @ data)))"
      using d(1) got(2) by simp
    ultimately show ?thesis by (intro exI [of _ "got @ data"]) metis
  qed
qed

text \<open>A descriptor that is open on the inode's lower file.\<close>

definition serves :: "file_info \<Rightarrow> open_file \<Rightarrow> inode_info \<Rightarrow> bool" where
  "serves fi lf si \<longleftrightarrow> fi_lower_gen fi = si_cutover_gen si \<and> fi_lower_file fi = Some lf \<and> si_lower_path si = Some (of_path lf)"

lemma lower_file_w_serves:
  assumes "ino r w = Some si" "serves fi lf si"
  shows "lower_file_w lenv r (Some fi) w = (Ok (Some lf), Some fi, w)"
  using assms upd_inode_same [OF assms(1), of "\<lambda>_. si"]
  by (simp add: lower_file_w_def lower_file_def reissue_lower_def serves_def)

text \<open>
  C14. A read of a file with staged ranges returns what the view says: as many bytes as the
  reader asked for and the file has from that offset, each the staged byte where a range
  covers it and the lower file's byte elsewhere, across chunk borders and past the end of
  the lower file.
\<close>

theorem staged_read_returns_view:
  assumes "ino r w = Some si" "staged_ok si w" "rs_ranges (si_rs si) \<noteq> []" "serves fi lf si" "reads_well env" "0 \<le> pos"
  shows "\<exists>data. range_stage_read_iter env lenv r (Some fi) pos count w = (Ok (length data), data, pos + int (length data), Some fi, w)
    \<and> length data = nat (min (int count) (si_size si - pos))
    \<and> (\<forall>i < length data. data ! i = af_byte (view si w) (pos + int i))"
proof -
  obtain sp where sp: "rs_path (si_rs si) = Some sp" "stage_holds (file_of (p_dentry sp) w) (rs_ranges (si_rs si))"
    and wf: "ranges_wf (rs_ranges (si_rs si))" using assms(2,3) by (auto simp: staged_ok_def)
  have op: "io_dentry_open env sp = Done" using assms(5) by (simp add: reads_well_def)
  obtain data where d: "stage_read_loop env (file_of (p_dentry (of_path lf)) w) (Ok (file_of (p_dentry sp) w)) (rs_ranges (si_rs si))
        (si_size si) pos count [] = (Ok (length data), data, pos + int (length data))"
      "length data = nat (min (int count) (si_size si - pos))"
      "\<forall>i < length data. data ! i = (if range_covers (rs_ranges (si_rs si)) (pos + int i)
         then file_byte (file_of (p_dentry sp) w) (pos + int i) else file_byte (file_of (p_dentry (of_path lf)) w) (pos + int i))"
    using stage_read_loop_bytes [OF assms(5) wf sp(2) assms(6), of "file_of (p_dentry (of_path lf)) w" "si_size si" count "[]"] by auto
  have "range_stage_read_iter env lenv r (Some fi) pos count w = (Ok (length data), data, pos + int (length data), Some fi, w)"
    using assms(1) sp(1) op d(1) by (simp add: range_stage_read_iter_def lower_file_w_serves [OF assms(1,4)] lower_file_error_def)
  moreover have "si_lower_path si = Some (of_path lf)" using assms(4) by (simp add: serves_def)
  ultimately show ?thesis using d(2,3) sp(1) by (auto simp: view_def byte_of_def)
qed

section \<open>The read cache is transparent\<close>

definition chunk_of :: "bytes \<Rightarrow> nat \<Rightarrow> bytes" where
  "chunk_of f idx = file_get f (int (idx * RANGE_READ_CHUNK)) RANGE_READ_CHUNK"

text \<open>
  While the cache is of the inode's write sequence and cutover generation, every valid chunk
  holds the lower file's chunk.
\<close>

definition rc_ok :: "bytes \<Rightarrow> inode_info \<Rightarrow> rcache \<Rightarrow> bool" where
  "rc_ok f si rc \<longleftrightarrow> (rc_seq rc = si_write_seq si \<and> rc_gen rc = si_cutover_gen si \<longrightarrow>
     (\<forall>idx v. rc_chunks rc idx = Some v \<longrightarrow> (\<exists>cf. rc_file rc = Some cf
        \<and> file_get cf (int (idx * RANGE_READ_CHUNK)) v = chunk_of f idx \<and> v = length (chunk_of f idx))))"

lemma chunk_pos: "0 < RANGE_READ_CHUNK"
  by (simp add: RANGE_READ_CHUNK_def)

lemma chunk_of_length: "length (chunk_of f idx) \<le> RANGE_READ_CHUNK"
  by (simp add: chunk_of_def file_get_def)

text \<open>Writing into one chunk of a file leaves what another chunk holds.\<close>

lemma file_get_other_chunk:
  assumes "idx \<noteq> j" "length bs \<le> RANGE_READ_CHUNK" "v \<le> RANGE_READ_CHUNK"
    and "length (file_get cf (int (j * RANGE_READ_CHUNK)) v) = v"
  shows "file_get (file_put cf (int (idx * RANGE_READ_CHUNK)) bs) (int (j * RANGE_READ_CHUNK)) v = file_get cf (int (j * RANGE_READ_CHUNK)) v"
proof (rule nth_equalityI)
  let ?C = RANGE_READ_CHUNK and ?g = "file_put cf (int (idx * RANGE_READ_CHUNK)) bs"
  have len: "length cf \<le> length ?g" by (auto simp: length_file_put)
  have v: "v = 0 \<or> j * ?C + v \<le> length cf" using assms(4) by (auto simp: file_get_def simp del: of_nat_mult)
  then show l: "length (file_get ?g (int (j * ?C)) v) = length (file_get cf (int (j * ?C)) v)"
    using len assms(4) by (auto simp: file_get_def simp del: of_nat_mult)
  fix i
  assume i: "i < length (file_get ?g (int (j * ?C)) v)"
  then have iv: "i < v" using l assms(4) by simp
  have "idx * ?C + length bs \<le> j * ?C + i \<or> j * ?C + i < idx * ?C"
  proof (cases "idx < j")
    case True
    then have "Suc idx * ?C \<le> j * ?C" by (intro mult_le_mono1) simp
    then show ?thesis using assms(2) by simp
  next
    case False
    then have "Suc j * ?C \<le> idx * ?C" using assms(1) by (intro mult_le_mono1) simp
    then show ?thesis using iv assms(3) by simp
  qed
  then have "\<not> (int (idx * ?C) \<le> int (j * ?C) + int i \<and> int (j * ?C) + int i < int (idx * ?C) + int (length bs))" by linarith
  then show "file_get ?g (int (j * ?C)) v ! i = file_get cf (int (j * ?C)) v ! i"
    using i l by (auto simp add: file_get_nth file_byte_put simp del: of_nat_mult)
qed

lemma cache_validate_ok:
  "rc_ok f si rc \<Longrightarrow> rc_ok f si (cache_validate mapped si rc)"
  "rc_seq (cache_validate mapped si rc) = si_write_seq si" "rc_gen (cache_validate mapped si rc) = si_cutover_gen si"
  by (auto simp: cache_validate_def read_cache_clear_def rc_ok_def)

lemma file_get_file_put: "0 \<le> pos \<Longrightarrow> file_get (file_put f pos bs) pos (length bs) = bs"
  by (cases "bs = []") (auto simp: file_get_def file_put_def)

lemma cache_fill_ok:
  assumes "kwrite_ok (io_kwrite env)" "kwrite_clean (io_kwrite env)" "rc_ok f si rc" "bs = chunk_of f idx"
    and "rc_seq rc = si_write_seq si" "rc_gen rc = si_cutover_gen si"
  shows "rc_ok f si (cache_fill env cenv idx bs rc) \<and> rc_seq (cache_fill env cenv idx bs rc) = rc_seq rc
    \<and> rc_gen (cache_fill env cenv idx bs rc) = rc_gen rc"
proof -
  let ?p = "int (idx * RANGE_READ_CHUNK)"
  have keep: "rc_ok f si (rc\<lparr>rc_file := Some g, rc_chunks := c\<rparr>)"
    if g: "g = file_put cf ?p (take n bs)" "rc_file rc = Some cf \<or> rc_file rc = None"
      and c: "c = (rc_chunks rc)(idx := None) \<or> (c = (rc_chunks rc)(idx \<mapsto> length bs) \<and> n = length bs)" for g cf n c
  proof -
    have "file_get g (int (j * RANGE_READ_CHUNK)) v = chunk_of f j \<and> v = length (chunk_of f j)" if j: "c j = Some v" for j v
    proof (cases "j = idx")
      case True
      then have "n = length bs" "v = length bs" using c j by auto
      then show ?thesis using True g(1) assms(4) file_get_file_put [of ?p cf bs] by simp
    next
      case False
      then have "rc_chunks rc j = Some v" using c j by auto
      then obtain cf' where cf': "rc_file rc = Some cf'" "file_get cf' (int (j * RANGE_READ_CHUNK)) v = chunk_of f j" "v = length (chunk_of f j)"
        using assms(3,5,6) unfolding rc_ok_def by blast
      then have "cf' = cf" using g(2) by simp
      have "length (take n bs) \<le> RANGE_READ_CHUNK" using chunk_of_length [of f idx] assms(4) by simp
      then show ?thesis
        using file_get_other_chunk [of idx j "take n bs" v cf] False cf' \<open>cf' = cf\<close> g(1) chunk_of_length [of f j] by simp
    qed
    then show ?thesis unfolding rc_ok_def by simp
  qed
  show ?thesis
  proof (cases "rc_file rc = None \<and> \<not> ca_open cenv")
    case True
    then show ?thesis using assms(3) by (simp add: cache_fill_def)
  next
    case False
    define cf where "cf = (case rc_file rc of Some f \<Rightarrow> f | None \<Rightarrow> [])"
    have cf: "(case rc_file rc of Some f \<Rightarrow> Some f | None \<Rightarrow> if ca_open cenv then Some [] else None) = Some cf"
      using False by (auto simp: cf_def split: option.split)
    have src: "rc_file rc = Some cf \<or> rc_file rc = None" by (auto simp: cf_def split: option.split)
    obtain x g where x: "io_kwrite env cf ?p bs = (x, g)" by fastforce
    have g: "\<exists>n. g = file_put cf ?p (take n bs) \<and> (x = Ok (length bs) \<longrightarrow> n = length bs)"
    proof (cases x)
      case (Inl e)
      then show ?thesis using x assms(2) by (intro exI [of _ 0]) (simp add: kwrite_clean_def)
    next
      case (Inr n)
      then show ?thesis using x assms(1) by (intro exI [of _ n]) (simp add: kwrite_ok_def)
    qed
    then obtain n where n: "g = file_put cf ?p (take n bs)" "x = Ok (length bs) \<longrightarrow> n = length bs" by blast
    show ?thesis using x cf
      by (simp add: cache_fill_def Let_def del: of_nat_mult) (use keep [OF n(1) src] n(2) in auto)
  qed
qed

lemma cache_chunk_ok:
  assumes "kread_full (io_kread env)" "kwrite_ok (io_kwrite env)" "kwrite_clean (io_kwrite env)" "rc_ok f si rc"
    and "rc_seq rc = si_write_seq si" "rc_gen rc = si_cutover_gen si"
  shows "\<exists>rc'. cache_chunk env cenv mapped full f idx rc = (Ok (chunk_of f idx), rc') \<and> rc_ok f si rc'
    \<and> rc_seq rc' = si_write_seq si \<and> rc_gen rc' = si_cutover_gen si"
proof (cases "cache_hit env rc idx")
  case (Some bs)
  then obtain cf v where h: "rc_file rc = Some cf" "rc_chunks rc idx = Some v" "io_kread env cf (int (idx * RANGE_READ_CHUNK)) v = Ok bs"
    by (auto simp: cache_hit_def split: option.splits sum.splits if_splits)
  then have "bs = file_get cf (int (idx * RANGE_READ_CHUNK)) v" using assms(1) by (simp add: kread_full_def)
  then have "bs = chunk_of f idx" using h(1,2) assms(4-6) unfolding rc_ok_def by auto
  then show ?thesis using Some assms(4-6) by (simp add: cache_chunk_def)
next
  case None
  have "io_kread env f (int (idx * RANGE_READ_CHUNK)) RANGE_READ_CHUNK = Ok (chunk_of f idx)"
    using assms(1) by (simp add: kread_full_def chunk_of_def)
  then show ?thesis using None assms(4-6) cache_fill_ok [OF assms(2-4) refl assms(5,6)] by (simp add: cache_chunk_def)
qed

lemma chunk_of_slice:
  fixes pos :: nat
  assumes "0 < count"
  defines "off \<equiv> pos - pos div RANGE_READ_CHUNK * RANGE_READ_CHUNK"
  shows "(if length (chunk_of f (pos div RANGE_READ_CHUNK)) \<le> off then []
      else take (min (length (chunk_of f (pos div RANGE_READ_CHUNK)) - off) count) (drop off (chunk_of f (pos div RANGE_READ_CHUNK))))
    = take (min count (RANGE_READ_CHUNK - off)) (drop pos f)"
proof -
  let ?C = RANGE_READ_CHUNK and ?b = "pos div RANGE_READ_CHUNK * RANGE_READ_CHUNK"
  have b: "?b \<le> pos" "off < ?C" using chunk_pos by (auto simp: off_def minus_div_mult_eq_mod)
  have X: "drop off (chunk_of f (pos div ?C)) = take (?C - off) (drop pos f)"
    using b by (simp add: chunk_of_def file_get_def off_def drop_take del: of_nat_mult)
  have len: "length (chunk_of f (pos div ?C)) = min ?C (length f - ?b)"
    by (simp add: chunk_of_def file_get_def del: of_nat_mult)
  show ?thesis
  proof (cases "length (chunk_of f (pos div ?C)) \<le> off")
    case True
    then have "length f - ?b \<le> off" using len b(2) by (simp add: min_def split: if_splits)
    then have "length f \<le> pos" using b(1) unfolding off_def by linarith
    then show ?thesis using True by simp
  next
    case False
    let ?X = "drop off (chunk_of f (pos div ?C))"
    have "take (min (length (chunk_of f (pos div ?C)) - off) count) ?X = take (min (length ?X) count) ?X" by simp
    also have "\<dots> = take count ?X" by (simp add: min_def)
    also have "\<dots> = take (min count (?C - off)) (drop pos f)" unfolding X by simp
    finally show ?thesis using False by simp
  qed
qed

lemma cached_read_loop_ok:
  assumes "kread_full (io_kread env)" "kwrite_ok (io_kwrite env)" "kwrite_clean (io_kwrite env)" "\<And>bs. io_copy env bs = length bs"
  shows "rc_ok f si rc \<Longrightarrow> \<exists>rc'. cached_read_loop env cenv mapped full si f rc pos count acc
      = (Ok (length acc + length (take count (drop pos f))), acc @ take count (drop pos f), pos + length (take count (drop pos f)), rc')
    \<and> rc_ok f si rc' \<and> (0 < count \<longrightarrow> rc_seq rc' = si_write_seq si)"
proof (induction count arbitrary: rc pos acc rule: less_induct)
  case (less count)
  show ?case
  proof (cases "count = 0")
    case True
    then show ?thesis using less.prems by (simp add: cached_read_loop.simps)
  next
    case go: False
    let ?idx = "pos div RANGE_READ_CHUNK" and ?off = "pos - pos div RANGE_READ_CHUNK * RANGE_READ_CHUNK"
    define k where "k = min count (RANGE_READ_CHUNK - ?off)"
    define got where "got = take k (drop pos f)"
    have k: "0 < k" using go chunk_pos by (auto simp: k_def minus_div_mult_eq_mod)
    obtain rc1 where rc1: "cache_chunk env cenv mapped full f ?idx (cache_validate mapped si rc) = (Ok (chunk_of f ?idx), rc1)"
        "rc_ok f si rc1" "rc_seq rc1 = si_write_seq si"
      using cache_chunk_ok [OF assms(1-3) cache_validate_ok(1) [OF less.prems] cache_validate_ok(2,3)] by blast
    have step: "cached_read_step env cenv mapped full si f rc pos count = (Ok got, rc1)"
    proof -
      have "cached_read_step env cenv mapped full si f rc pos count
          = (Ok (if length (chunk_of f ?idx) \<le> ?off then []
             else take (min (length (chunk_of f ?idx) - ?off) count) (drop ?off (chunk_of f ?idx))), rc1)"
        by (simp add: cached_read_step_def Let_def rc1(1) assms(4))
      then show ?thesis using chunk_of_slice [of count f pos] go by (simp only: got_def k_def neq0_conv)
    qed
    show ?thesis
    proof (cases "got = []")
      case True
      then have "length f \<le> pos" using k by (simp add: got_def)
      then show ?thesis using True go step rc1(2,3) by (subst cached_read_loop.simps) simp
    next
      case False
      have "got = take (length got) (drop pos f)" unfolding got_def by (cases "k \<le> length (drop pos f)") auto
      moreover have "length got \<le> count" by (auto simp: got_def k_def)
      ultimately have le: "length got \<le> count" "got = take (length got) (drop pos f)" by blast+
      have all: "take count (drop pos f) = got @ take (count - length got) (drop (pos + length got) f)"
        using le take_add [of "length got" "count - length got" "drop pos f"] by (simp add: add.commute)
      obtain rc' where rc': "cached_read_loop env cenv mapped full si f rc1 (pos + length got) (count - length got) (acc @ got)
            = (Ok (length (acc @ got) + length (take (count - length got) (drop (pos + length got) f))),
               (acc @ got) @ take (count - length got) (drop (pos + length got) f),
               pos + length got + length (take (count - length got) (drop (pos + length got) f)), rc')"
          "rc_ok f si rc'" "0 < count - length got \<longrightarrow> rc_seq rc' = si_write_seq si"
        using less.IH [of "count - length got" rc1 "pos + length got" "acc @ got"] False go rc1(2) by auto
      have seq: "rc_seq rc' = si_write_seq si"
      proof (cases "0 < count - length got")
        case True
        then show ?thesis using rc'(3) by simp
      next
        case z: False
        then have "rc' = rc1" using rc'(1) by (simp add: cached_read_loop.simps)
        then show ?thesis using rc1(3) by simp
      qed
      have "cached_read_loop env cenv mapped full si f rc pos count acc
          = cached_read_loop env cenv mapped full si f rc1 (pos + length got) (count - length got) (acc @ got)"
        using False go step by (subst cached_read_loop.simps) simp
      then show ?thesis using rc' seq unfolding all by auto
    qed
  qed
qed

text \<open>
  C15. The read cache is transparent. For every position and length, and whatever chunks the
  cache holds, a cached read returns exactly what a read of the lower file would return, and
  the cache stays coherent; whatever the next write stores, a cache this read has used is not
  used again for it.
\<close>

theorem cached_read_equals_direct:
  assumes "kread_full (io_kread env)" "kwrite_ok (io_kwrite env)" "kwrite_clean (io_kwrite env)" "\<And>bs. io_copy env bs = length bs"
    and "rc_ok f si rc"
  shows "\<exists>rc'. cached_read_loop env cenv mapped full si f rc pos count []
      = (Ok (length (file_get f (int pos) count)), file_get f (int pos) count, pos + length (file_get f (int pos) count), rc')
    \<and> rc_ok f si rc' \<and> (0 < count \<longrightarrow> (\<forall>f'. rc_ok f' (note_data_change si) rc'))"
  using cached_read_loop_ok [OF assms(1-4), of f si rc cenv mapped full pos count "[]"] assms(5)
  by (auto simp: file_get_def rc_ok_def note_data_change_def)

section \<open>Writing refines a write of the view\<close>

definition writes_well :: "io_env \<Rightarrow> bool" where
  "writes_well env \<longleftrightarrow> kread_ok (io_kread env) \<and> kwrite_ok (io_kwrite env) \<and> kwrite_clean (io_kwrite env)
     \<and> kwrite_ok (io_vwrite env) \<and> kwrite_clean (io_vwrite env)"

text \<open>What a write of the abstract file changes, without its size.\<close>

definition overwrites :: "int \<Rightarrow> bytes \<Rightarrow> afile \<Rightarrow> afile \<Rightarrow> bool" where
  "overwrites at bs f f' \<longleftrightarrow> af_byte f' = af_byte (af_write at bs f)"

lemma lower_write_view:
  assumes "writes_well env" "ino r w = Some si" "staged_ok si w" "rs_ranges (si_rs si) = []" "si_lower_path si = Some (of_path lf)"
    and "0 \<le> pos" "lower_write env lf pos data w = (ret, pos', w')"
  shows "\<exists>at n. ino r w' = Some si \<and> staged_ok si w' \<and> n \<le> length data \<and> (\<forall>m. ret = Ok m \<longrightarrow> n = m)
    \<and> overwrites at (take n data) (view si w) (view si w') \<and> (of_flags lf AND O_APPEND = 0 \<longrightarrow> at = pos)"
proof -
  let ?f = "file_of (p_dentry (of_path lf)) w"
  define at where "at = (if of_flags lf AND O_APPEND \<noteq> 0 then int (length ?f) else pos)"
  obtain x g where x: "io_vwrite env ?f at data = (x, g)" by fastforce
  have at0: "0 \<le> at" using assms(6) by (simp add: at_def)
  have w': "w' = set_file (p_dentry (of_path lf)) g w" and ret: "ret = x"
    using assms(7) x by (cases x; simp add: lower_write_def at_def [symmetric] Let_def)+
  obtain n where n: "n \<le> length data" "g = file_put ?f at (take n data)" "\<forall>m. x = Ok m \<longrightarrow> n = m"
  proof (cases x)
    case (Inl e)
    then have "g = ?f" using x assms(1) by (simp add: writes_well_def kwrite_clean_def)
    then show thesis using that [of 0] Inl by simp
  next
    case (Inr m)
    have "kwrite_ok (io_vwrite env)" using assms(1) by (simp add: writes_well_def)
    then have *: "m \<le> length data \<and> g = file_put ?f at (take m data)"
      unfolding kwrite_ok_def using at0 x [unfolded Inr] by (elim allE [of _ ?f] allE [of _ at] allE [of _ data] allE [of _ m] allE [of _ g]) simp
    have "\<forall>k. x = Ok k \<longrightarrow> m = k" unfolding Inr by simp
    then show thesis by (rule that [OF conjunct1 [OF *] conjunct2 [OF *]])
  qed
  have bytes: "af_byte (view si w') = af_byte (af_write at (take n data) (view si w))"
  proof (cases "take n data = []")
    case True
    then have "g = ?f" using n(2) by (simp only: file_put_Nil)
    then show ?thesis using assms(4,5) w' unfolding True by (simp add: view_def byte_of_def af_write_def)
  next
    case False
    then show ?thesis using assms(4,5) n(2) w' by (simp add: view_def byte_of_def af_write_def file_byte_put [OF at0] fun_eq_iff)
  qed
  have "staged_ok si w'" using assms(3,4) w' by (auto simp: staged_ok_def)
  then show ?thesis using assms(2) w' ret n bytes by (intro exI [of _ at] exI [of _ n]) (auto simp: overwrites_def at_def)
qed

lemma drain_for_write:
  assumes "writes_well env" "ino r w = Some si" "staged_ok si w" "drain_inode env r w = (Done, w')"
    and "rs_range_staged (si_rs si) \<longrightarrow> drain_tier_active (w_sbi w) (rs_source_tier (si_rs si))"
  shows "\<exists>si'. ino r w' = Some si' \<and> staged_ok si' w' \<and> view si' w' = view si w \<and> rs_ranges (si_rs si') = []
    \<and> si_lower_path si' = si_lower_path si"
proof -
  have wf: "ranges_wf (rs_ranges (si_rs si))" using assms(3) by (simp add: staged_ok_def)
  note k = assms(1) [unfolded writes_well_def]
  have d: "drain_one_range env r w = (Done, w')" using assms(4) by (simp add: drain_inode_def)
  obtain si' where si': "ino r w' = Some si'" "staged_ok si' w'" "view si' w' = view si w"
      "rs_range_staged (si_rs si) \<and> drain_tier_active (w_sbi w) (rs_source_tier (si_rs si)) \<longrightarrow> \<not> rs_range_staged (si_rs si')"
    using drain_view [OF assms(2,3) _ _ _ d] k by auto
  have fr: "ino r w' = Some si \<or> ino r w' = Some (upd_rs rs_drained si)"
    using drain_frame [OF assms(2) wf _ _ _ d] k by blast
  have "\<not> rs_range_staged (si_rs si')"
    using si'(1,4) fr assms(5) by (cases "rs_range_staged (si_rs si)") (auto simp: upd_rs_def rs_drained_def)
  then have "rs_ranges (si_rs si') = []" using si'(2) by (simp add: staged_ok_def)
  moreover have "si_lower_path si' = si_lower_path si" using si'(1) fr by (auto simp: upd_rs_def)
  ultimately show ?thesis using si' by blast
qed

lemma range_stage_write_pos:
  assumes "ino r w = Some si" "range_stage_write env app r lower pos0 data w = (x, p1, n, w1)"
  shows "n = 0 \<longrightarrow> p1 = (if app then si_size si else pos0)"
  using assms
  by (cases "range_stage_open env r w"; cases "fst (range_stage_open env r w)")
    (auto simp: range_stage_write_def Let_def split: sum.splits prod.splits if_splits)

text \<open>A write that is staged, and falls back to the lower file when the cache is full.\<close>

lemma write_body_staged:
  assumes "writes_well env" "ino r w = Some si" "staged_ok si w" "own_stage env si" "si_lower_path si = Some (of_path lf)" "0 \<le> pos"
    and "sbi_cache_mode (w_sbi w) \<and> rs_range_staged (si_rs si) \<longrightarrow> drain_tier_active (w_sbi w) (rs_source_tier (si_rs si))"
    and "write_body env direct app r lf pos data w = (ret, pos', w')"
    and st: "should_range_stage_write env direct si (Some (of_path lf)) (w_sbi w)"
  shows "\<exists>si' at n. ino r w' = Some si' \<and> staged_ok si' w' \<and> n \<le> length data \<and> (\<forall>m. ret = Ok m \<longrightarrow> n = m)
    \<and> overwrites at (take n data) (view si w) (view si' w') \<and> (\<not> app \<and> of_flags lf AND O_APPEND = 0 \<longrightarrow> at = pos)"
proof -
  note k = assms(1) [unfolded writes_well_def]
  obtain x p1 n w1 where s: "range_stage_write env app r (of_path lf) pos data w = (x, p1, n, w1)" by (metis prod_cases4)
  show ?thesis
  proof (cases "sbi_cache_mode (w_sbi w) \<and> x = Err ENOSPC \<and> n = 0")
    case False
    then have e: "ret = x" "w' = w1" using assms(2,8) st s by (auto simp: write_body_def)
    obtain si' where "ino r w1 = Some si'" "staged_ok si' w1"
        "view si' w1 = af_write (if app then si_size si else pos) (take n data) (view si w)" "n \<le> length data" "\<forall>m. x = Ok m \<longrightarrow> n = m"
      using staged_write_view [OF assms(2,3,4,6) _ _ s] k by blast
    then show ?thesis using e by (auto simp: overwrites_def)
  next
    case full: True
    have sz: "0 \<le> si_size si" using assms(3) by (simp add: staged_ok_def)
    have wn: "wrote_nothing r si env w w1"
      using range_stage_write_effect [OF assms(2) _ _ assms(6) sz s] k full by auto
    obtain p where i1: "ino r w1 = Some (with_stage p si)" using wn by (auto simp: wrote_nothing_def)
    obtain si1 where si1: "ino r w1 = Some si1" "staged_ok si1 w1" "view si1 w1 = view si w" "si_lower_path si1 = si_lower_path si"
      using wrote_nothing_view [OF wn assms(3,4)] by blast
    have act: "rs_range_staged (si_rs si1) \<longrightarrow> drain_tier_active (w_sbi w1) (rs_source_tier (si_rs si1))"
      using si1(1) i1 wn full assms(7) by (auto simp: wrote_nothing_def upd_rs_def drain_tier_active_def)
    have p1: "\<not> app \<longrightarrow> p1 = pos" "0 \<le> p1"
      using range_stage_write_pos [OF assms(2) s] full sz assms(6) by auto
    obtain y w2 where d: "drain_inode env r w1 = (y, w2)" by fastforce
    show ?thesis
    proof (cases y)
      case (Inl e)
      have d1: "drain_one_range env r w1 = (Err e, w2)" using d Inl by (simp add: drain_inode_def)
      have "ret = Err e \<and> w' = w2" using assms(2,8) st s full d Inl by (auto simp: write_body_def)
      moreover obtain si2 where "ino r w2 = Some si2" "staged_ok si2 w2" "view si2 w2 = view si w"
        using drain_view [OF si1(1,2) _ _ _ d1] k si1(3) by auto
      ultimately show ?thesis by (intro exI [of _ si2] exI [of _ pos] exI [of _ 0]) (simp add: overwrites_def af_write_def)
    next
      case (Inr u)
      then have lw: "lower_write env lf p1 data w2 = (ret, pos', w')" using assms(2,8) st s full d by (auto simp: write_body_def)
      obtain si2 where si2: "ino r w2 = Some si2" "staged_ok si2 w2" "view si2 w2 = view si w" "rs_ranges (si_rs si2) = []"
          "si_lower_path si2 = Some (of_path lf)"
        using drain_for_write [OF assms(1) si1(1,2) _ act] d Inr si1(3,4) assms(5) by auto
      from lower_write_view [OF assms(1) si2(1,2,4,5) p1(2) lw] show ?thesis using si2(3) p1(1) by auto
    qed
  qed
qed

text \<open>A write that goes through to the lower file, after a drain of what is staged.\<close>

lemma write_body_through:
  assumes "writes_well env" "ino r w = Some si" "staged_ok si w" "own_stage env si" "si_lower_path si = Some (of_path lf)" "0 \<le> pos"
    and "sbi_cache_mode (w_sbi w) \<and> rs_range_staged (si_rs si) \<longrightarrow> drain_tier_active (w_sbi w) (rs_source_tier (si_rs si))"
    and "write_body env direct app r lf pos data w = (ret, pos', w')"
    and ns: "\<not> should_range_stage_write env direct si (Some (of_path lf)) (w_sbi w)"
  shows "\<exists>si' at n. ino r w' = Some si' \<and> staged_ok si' w' \<and> n \<le> length data \<and> (\<forall>m. ret = Ok m \<longrightarrow> n = m)
    \<and> overwrites at (take n data) (view si w) (view si' w') \<and> (\<not> app \<and> of_flags lf AND O_APPEND = 0 \<longrightarrow> at = pos)"
proof -
  obtain y w1 where d: "(if rs_range_staged (si_rs si) then drain_inode env r w else (Done, w)) = (y, w1)" by fastforce
  note k = assms(1) [unfolded writes_well_def]
  have dv: "\<exists>si1. ino r w1 = Some si1 \<and> staged_ok si1 w1 \<and> view si1 w1 = view si w \<and> si_lower_path si1 = si_lower_path si"
  proof (cases "rs_range_staged (si_rs si)")
    case True
    then have d1: "drain_one_range env r w = (y, w1)" using d by (simp add: drain_inode_def)
    have wf: "ranges_wf (rs_ranges (si_rs si))" using assms(3) by (simp add: staged_ok_def)
    have "ino r w1 = Some si \<or> ino r w1 = Some (upd_rs rs_drained si)" using drain_frame [OF assms(2) wf _ _ _ d1] k by blast
    then show ?thesis using drain_view [OF assms(2,3) _ _ _ d1] k by (auto simp: upd_rs_def)
  next
    case False
    then show ?thesis using d assms(2,3) by simp
  qed
  then obtain si1 where si1: "ino r w1 = Some si1" "staged_ok si1 w1" "view si1 w1 = view si w" "si_lower_path si1 = si_lower_path si" by blast
  show ?thesis
  proof (cases "y = Done \<and> \<not> rs_range_staged (si_rs si1)")
    case True
    then have "rs_ranges (si_rs si1) = []" using si1(2) by (simp add: staged_ok_def)
    moreover have "lower_write env lf pos data w1 = (ret, pos', w')" using assms(2,8) ns d True si1(1) by (auto simp: write_body_def)
    ultimately show ?thesis
      using lower_write_view [OF assms(1) si1(1,2) _ _ assms(6)] si1(3,4) assms(5) by (metis (no_types, lifting))
  next
    case False
    then have "(\<exists>e. ret = Err e) \<and> w' = w1"
      using assms(2,8) ns d si1(1) by (cases y) (auto simp: write_body_def)
    then show ?thesis using si1 by (intro exI [of _ si1] exI [of _ pos] exI [of _ 0]) (auto simp: overwrites_def af_write_def)
  qed
qed


section \<open>fsync and splice\<close>

text \<open>
  C16. In cache mode a successful fsync leaves nothing staged: the lower file that was synced
  holds every byte the reader saw before the call, and the view did not change.
\<close>

theorem fsync_writes_back:
  assumes "writes_well env" "ino r w = Some si" "staged_ok si w" "serves fi lf si" "sbi_cache_mode (w_sbi w)"
    and "rs_range_staged (si_rs si) \<longrightarrow> drain_tier_active (w_sbi w) (rs_source_tier (si_rs si))"
    and "fsync env lenv r (Some fi) w = (Done, fio', w')"
  shows "\<exists>si'. ino r w' = Some si' \<and> staged_ok si' w' \<and> view si' w' = view si w \<and> rs_ranges (si_rs si') = []
    \<and> (\<forall>i. file_byte (file_of (p_dentry (of_path lf)) w') i = af_byte (view si w) i) \<and> io_fsync env (of_path lf) = Done"
proof -
  have lf: "si_lower_path si = Some (of_path lf)" using assms(4) by (simp add: serves_def)
  have d: "drain_inode env r w = (Done, w')" and f: "io_fsync env (of_path lf) = Done"
    using assms(5,7) lower_file_w_serves [OF assms(2,4)] by (auto simp: fsync_def split: prod.splits sum.splits)
  obtain si' where si': "ino r w' = Some si'" "staged_ok si' w'" "view si' w' = view si w" "rs_ranges (si_rs si') = []"
      "si_lower_path si' = si_lower_path si"
    using drain_for_write [OF assms(1-3) d assms(6)] by blast
  have "file_byte (file_of (p_dentry (of_path lf)) w') i = af_byte (view si' w') i" for i
    using si'(4,5) lf by (simp add: view_def byte_of_def)
  then show ?thesis using si' f by simp
qed

text \<open>
  Outside of cache mode fsync and splice_read do not look at staged ranges. fsync reports
  success after syncing only the lower file, whatever an fsync of the stage file would say, and
  leaves the staged bytes where they were; splice_read returns the lower file's bytes, so at a
  staged offset it can return a byte that differs from what read returns.
\<close>

theorem tier_mode_skips_staged:
  assumes "ino r w = Some si" "serves fi lf si" "\<not> sbi_cache_mode (w_sbi w)" "rs_path (si_rs si) = Some sp"
    and "p_dentry sp \<noteq> p_dentry (of_path lf)" "io_fsync env (of_path lf) = Done"
    and "range_covers (rs_ranges (si_rs si)) pos" "0 \<le> pos" "nat pos < length (file_of (p_dentry (of_path lf)) w)"
    and "file_byte (file_of (p_dentry sp) w) pos \<noteq> file_byte (file_of (p_dentry (of_path lf)) w) pos"
  shows "fsync (env\<lparr>io_fsync := (io_fsync env)(sp := Err EIO)\<rparr>) lenv r (Some fi) w = (Done, Some fi, w)
    \<and> (\<exists>b. splice_read env lenv (Some disk_read) r (Some fi) pos 1 w = (Ok [b], Some fi, w) \<and> b \<noteq> af_byte (view si w) pos)"
proof -
  have ne: "sp \<noteq> of_path lf" using assms(5) by auto
  have lf: "lower_file_w lenv r (Some fi) w = (Ok (Some lf), Some fi, w)" by (rule lower_file_w_serves [OF assms(1,2)])
  have "file_get (file_of (p_dentry (of_path lf)) w) pos 1 = [file_byte (file_of (p_dentry (of_path lf)) w) pos]"
    using assms(8,9) by (simp add: file_get_def file_byte_def take_Suc_conv_app_nth hd_drop_conv_nth take_Suc)
  then show ?thesis
    using ne assms(3,4,6,7,10) lf by (simp add: fsync_def splice_read_def disk_read_def view_def byte_of_def)
qed

section \<open>Instances\<close>

definition ex_lf :: open_file where
  "ex_lf = \<lparr>of_path = \<lparr>p_mnt = 1, p_dentry = 105\<rparr>, of_flags = 2\<rparr>"

definition ex_fi :: file_info where
  "ex_fi = \<lparr>fi_lower_file = Some ex_lf, fi_lower_gen = 0, fi_open_flags = 2, fi_open_cred = 7\<rparr>"

definition ex_cache_world :: io_world where
  "ex_cache_world = upd_sbi (\<lambda>s. s\<lparr>sbi_cache_mode := True\<rparr>) ex_staged_world"

lemma ex_serves: "serves ex_fi ex_lf ex_staged_inode" "serves ex_fi ex_lf ex_inode"
  by (simp_all add: serves_def ex_fi_def ex_lf_def ex_staged_inode_def upd_rs_def ex_inode_def)

lemma ex_reads_well: "reads_well ex_io_env" "kread_full (io_kread ex_io_env)"
  by (simp_all add: reads_well_def ex_io_env_def disk_read_full)

lemma ex_writes_well: "writes_well ex_io_env"
  using ex_io_ok by (simp add: writes_well_def)

lemma ex_cache_world_inode: "ino 77 ex_cache_world = Some ex_staged_inode" "staged_ok ex_staged_inode ex_cache_world"
  using ex_staged_world_inode by (simp_all add: ex_cache_world_def staged_ok_def)

theorem staged_read_returns_view_witness:
  "\<exists>data. range_stage_read_iter ex_io_env ex_lower_env 77 (Some ex_fi) 0 10 ex_staged_world = (Ok 4, data, 4, Some ex_fi, ex_staged_world)
    \<and> data ! 1 = 8 \<and> data ! 3 = 4"
proof -
  have ne: "rs_ranges (si_rs ex_staged_inode) \<noteq> []" by (simp add: ex_staged_inode_def upd_rs_def)
  obtain data where d: "range_stage_read_iter ex_io_env ex_lower_env 77 (Some ex_fi) 0 10 ex_staged_world
        = (Ok (length data), data, 0 + int (length data), Some ex_fi, ex_staged_world)"
      "length data = nat (min (int 10) (si_size ex_staged_inode - 0))"
      "\<forall>i < length data. data ! i = af_byte (view ex_staged_inode ex_staged_world) (0 + int i)"
    using staged_read_returns_view [OF ex_staged_world_inode ne ex_serves(1) ex_reads_well(1), of 0 ex_lower_env 10] by blast
  have l: "length data = 4" using d(2) by (simp add: ex_staged_inode_def upd_rs_def ex_inode_def)
  have "data ! 1 = af_byte (view ex_staged_inode ex_staged_world) 1" "data ! 3 = af_byte (view ex_staged_inode ex_staged_world) 3"
    using d(3) [rule_format, of 1] d(3) [rule_format, of 3] l by simp_all
  then show ?thesis using d(1) l
    by (simp add: view_def byte_of_def ex_staged_inode_def upd_rs_def ex_inode_def ex_staged_world_def file_of_def file_byte_def range_covers_def)
qed

theorem cached_read_equals_direct_witness:
  "\<exists>rc'. cached_read_loop ex_io_env \<lparr>ca_open = True, ca_store = True, ca_buf = True\<rparr> False False ex_inode [1, 2, 3, 4] ex_rc 1 2 []
     = (Ok 2, [2, 3], 3, rc') \<and> rc_ok [1, 2, 3, 4] ex_inode rc'"
proof -
  have c: "io_copy ex_io_env bs = length bs" for bs by (simp add: ex_io_env_def)
  have rc: "rc_ok [1, 2, 3, 4] ex_inode ex_rc" by (simp add: rc_ok_def ex_rc_def)
  from cached_read_equals_direct [OF ex_reads_well(2) ex_io_ok(2,3) c rc, of "\<lparr>ca_open = True, ca_store = True, ca_buf = True\<rparr>" False False 1 2]
  show ?thesis by (auto simp: file_get_def numeral_2_eq_2 numeral_3_eq_3)
qed


lemma ex_drain_copy: "\<exists>f n. drain_copy_all ex_io_env [0, 8, 9] [(1, 3)] [1, 2, 3, 4] 0 = (Done, f, n)"
  by (simp add: drain_copy.simps [of _ _ 1] drain_copy.simps [of _ _ 3] ex_io_env_def disk_read_def disk_write_def file_get_def
      RANGE_READ_CHUNK_def write_full.simps)

lemma ex_cache_active: "drain_tier_active (w_sbi ex_cache_world) (rs_source_tier (si_rs ex_staged_inode))"
  by (simp add: drain_tier_active_def ex_cache_world_def ex_staged_world_def upd_staging_def ex_staged_inode_def upd_rs_def ex_defs
      BIT_def word_le_nat_alt)

lemma ex_drain: "\<exists>w'. drain_inode ex_io_env 77 ex_cache_world = (Done, w')"
proof -
  have "drain_tier_active (w_sbi ex_cache_world) (rs_source_tier (si_rs ex_staged_inode))"
    by (rule ex_cache_active)
  moreover have "rs_path (si_rs ex_staged_inode) = Some \<lparr>p_mnt = 0, p_dentry = 50\<rparr>" "rs_range_staged (si_rs ex_staged_inode)"
      "si_lower_path ex_staged_inode = Some \<lparr>p_mnt = 1, p_dentry = 105\<rparr>" "rs_ranges (si_rs ex_staged_inode) = [(1, 3)]"
      "file_of 50 ex_cache_world = [0, 8, 9]" "file_of 105 ex_cache_world = [1, 2, 3, 4]"
    by (simp_all add: ex_staged_inode_def upd_rs_def ex_inode_def ex_cache_world_def ex_staged_world_def file_of_def)
  moreover obtain f n where "drain_copy_all ex_io_env [0, 8, 9] [(1, 3)] [1, 2, 3, 4] 0 = (Done, f, n)" using ex_drain_copy by blast
  moreover have "io_dentry_open ex_io_env p = Done" "io_alloc_buf ex_io_env" "io_fsync ex_io_env p = Done" "io_unlink ex_io_env p = Done"
      "io_ancestors ex_io_env d = [100]" for p d by (simp_all add: ex_io_env_def)
  ultimately show ?thesis
    by (simp add: drain_inode_def drain_one_range_def ex_cache_world_inode(1) drain_clear_def range_stage_unlink_path_def Let_def)
qed

lemma ex_fsync:
  "\<exists>fio' w'. fsync ex_io_env ex_lower_env 77 (Some ex_fi) ex_cache_world = (Done, fio', w')"
proof -
  obtain w' where "drain_inode ex_io_env 77 ex_cache_world = (Done, w')" using ex_drain by blast
  moreover have "sbi_cache_mode (w_sbi ex_cache_world)" by (simp add: ex_cache_world_def)
  moreover have "io_fsync ex_io_env (of_path ex_lf) = Done" by (simp add: ex_io_env_def)
  ultimately show ?thesis
    using lower_file_w_serves [OF ex_cache_world_inode(1) ex_serves(1), of ex_lower_env] by (simp add: fsync_def)
qed

theorem fsync_writes_back_witness:
  "\<exists>fio' w'. fsync ex_io_env ex_lower_env 77 (Some ex_fi) ex_cache_world = (Done, fio', w')
    \<and> file_byte (file_of 105 w') 1 = 8"
proof -
  obtain fio' w' where w: "fsync ex_io_env ex_lower_env 77 (Some ex_fi) ex_cache_world = (Done, fio', w')" using ex_fsync by blast
  have "sbi_cache_mode (w_sbi ex_cache_world)" by (simp add: ex_cache_world_def)
  moreover have "drain_tier_active (w_sbi ex_cache_world) (rs_source_tier (si_rs ex_staged_inode))"
    by (rule ex_cache_active)
  ultimately have "file_byte (file_of (p_dentry (of_path ex_lf)) w') 1 = af_byte (view ex_staged_inode ex_cache_world) 1"
    using fsync_writes_back [OF ex_writes_well ex_cache_world_inode ex_serves(1) _ _ w] by blast
  then show ?thesis using w
    by (simp add: ex_lf_def view_def byte_of_def ex_staged_inode_def upd_rs_def ex_cache_world_def ex_staged_world_def file_of_def
        file_byte_def range_covers_def)
qed

theorem tier_mode_skips_staged_witness:
  "fsync (ex_io_env\<lparr>io_fsync := (io_fsync ex_io_env)(\<lparr>p_mnt = 0, p_dentry = 50\<rparr> := Err EIO)\<rparr>) ex_lower_env 77 (Some ex_fi) ex_staged_world
     = (Done, Some ex_fi, ex_staged_world)
    \<and> (\<exists>b. splice_read ex_io_env ex_lower_env (Some disk_read) 77 (Some ex_fi) 1 1 ex_staged_world = (Ok [b], Some ex_fi, ex_staged_world)
         \<and> b \<noteq> af_byte (view ex_staged_inode ex_staged_world) 1)"
proof (rule tier_mode_skips_staged [OF ex_staged_world_inode(1) ex_serves(1)])
  show "\<not> sbi_cache_mode (w_sbi ex_staged_world)" by (simp add: ex_staged_world_def upd_staging_def ex_pool_def)
  show "io_fsync ex_io_env (of_path ex_lf) = Done" by (simp add: ex_io_env_def)
qed (simp_all add: ex_staged_inode_def upd_rs_def ex_lf_def range_covers_def ex_staged_world_def file_of_def file_byte_def)

end
