(* ===== verification/Heat.thy ===== *)
theory Heat
  imports File_Ops
begin

text \<open>
  The heat sampling of \<open>heat.c\<close>: every drain walks the pool's inodes, reports what changed
  since the last drain in at most 256 records, and remembers the counters it reported. The
  counters themselves are bumped by open, read and write. The main lemma says that activity is
  reported exactly once; a second one says what the record of a closed file looks like.
\<close>

section \<open>Samples\<close>

definition HEAT_BATCH_MAX :: nat where
  "HEAT_BATCH_MAX = 256"

record heat_sample =
  hs_oid :: bytes
  hs_open_count_delta :: u32
  hs_reserved :: u32
  hs_read_bytes_delta :: u64
  hs_write_bytes_delta :: u64
  hs_last_access_ns :: u64
  hs_sample_window_ns :: u64

definition heat_quiet :: "heat_counters \<Rightarrow> bool" where
  "heat_quiet h \<longleftrightarrow> h_open_count h = h_last_drained_open_count h \<and> h_read_bytes h = h_last_drained_read_bytes h
     \<and> h_write_bytes h = h_last_drained_write_bytes h"

definition heat_sample_of :: "u64 \<Rightarrow> inode_info \<Rightarrow> heat_sample" where
  "heat_sample_of now si =
    (let h = si_heat si
     in \<lparr>hs_oid = si_oid si, hs_open_count_delta = h_open_count h - h_last_drained_open_count h, hs_reserved = 0,
         hs_read_bytes_delta = h_read_bytes h - h_last_drained_read_bytes h,
         hs_write_bytes_delta = h_write_bytes h - h_last_drained_write_bytes h,
         hs_last_access_ns = h_last_access_ns h, hs_sample_window_ns = now - h_last_drain_ns h\<rparr>)"

definition heat_mark :: "u64 \<Rightarrow> inode_info \<Rightarrow> inode_info" where
  "heat_mark now si =
    (let h = si_heat si
     in si\<lparr>si_heat := h\<lparr>h_last_drained_open_count := h_open_count h, h_last_drained_read_bytes := h_read_bytes h,
          h_last_drained_write_bytes := h_write_bytes h, h_last_drain_ns := now\<rparr>\<rparr>)"

text \<open>The walk of the inode list: quiet inodes are skipped, and it ends when the batch is full.\<close>

fun heat_collect_loop :: "u64 \<Rightarrow> nat \<Rightarrow> iref list \<Rightarrow> nat \<Rightarrow> sb_info \<Rightarrow> heat_sample list \<times> sb_info" where
  "heat_collect_loop now mx [] n sbi = ([], sbi)"
| "heat_collect_loop now mx (r # rs) n sbi =
    (if mx \<le> n then ([], sbi)
     else case sbi_inodes sbi r of
         None \<Rightarrow> heat_collect_loop now mx rs n sbi
       | Some si \<Rightarrow>
          (if heat_quiet (si_heat si) then heat_collect_loop now mx rs n sbi
           else case heat_collect_loop now mx rs (n + 1) (upd_inode r (heat_mark now) sbi) of
               (batch, sbi') \<Rightarrow> (heat_sample_of now si # batch, sbi')))"

definition heat_collect :: "u64 \<Rightarrow> nat \<Rightarrow> sb_info \<Rightarrow> heat_sample list \<times> sb_info" where
  "heat_collect now mx sbi = heat_collect_loop now mx (sbi_inode_list sbi) 0 sbi"

section \<open>The drain work\<close>

text \<open>The pool's delayed work: whether it may run, and whether it is queued.\<close>

record heat_work =
  hw_active :: bool
  hw_queued :: bool

definition heat_init :: heat_work where
  "heat_init = \<lparr>hw_active = True, hw_queued = True\<rparr>"

definition heat_destroy :: "heat_work \<Rightarrow> heat_work" where
  "heat_destroy hw = hw\<lparr>hw_active := False, hw_queued := False\<rparr>"

definition heat_kick_drain :: "heat_work \<Rightarrow> heat_work" where
  "heat_kick_drain hw = (if hw_active hw then hw\<lparr>hw_queued := True\<rparr> else hw)"

text \<open>
  One run of the work: the cache drain, whose failure is only logged, then one batch, which is
  sent when it is not empty. \<open>alloc\<close> is the allocation of the batch.
\<close>

definition heat_drain_work :: "io_env \<Rightarrow> bool \<Rightarrow> heat_work \<Rightarrow> io_world \<Rightarrow> (heat_sample list option \<times> heat_work \<times> io_world) option" where
  "heat_drain_work env alloc hw w =
    (let run = hw\<lparr>hw_queued := False\<rparr>
     in if \<not> hw_active hw then Some (None, run, w)
        else case cache_drain env w of
            None \<Rightarrow> None
          | Some (_, w1) \<Rightarrow>
             (let hw' = run\<lparr>hw_queued := True\<rparr>
              in if \<not> alloc then Some (None, hw', w1)
                 else case heat_collect (io_now env) HEAT_BATCH_MAX (w_sbi w1) of
                     (batch, sbi') \<Rightarrow> Some (if batch = [] then None else Some batch, hw', w1\<lparr>w_sbi := sbi'\<rparr>)))"

section \<open>Activity and drains\<close>

text \<open>What open, release, read and write do to the counters of an inode, and a drain.\<close>

datatype heat_event =
    HE_open iref | HE_release iref | HE_read iref nat | HE_written iref nat | HE_drain u64

definition upd_heat :: "(heat_counters \<Rightarrow> heat_counters) \<Rightarrow> inode_info \<Rightarrow> inode_info" where
  "upd_heat f si = si\<lparr>si_heat := f (si_heat si)\<rparr>"

fun heat_event_step :: "heat_event \<Rightarrow> sb_info \<Rightarrow> heat_sample list \<times> sb_info" where
  "heat_event_step (HE_open r) sbi = ([], upd_inode r (upd_heat (\<lambda>h. h\<lparr>h_open_count := h_open_count h + 1\<rparr>)) sbi)"
| "heat_event_step (HE_release r) sbi = ([], upd_inode r (upd_heat (\<lambda>h. h\<lparr>h_open_count := h_open_count h - 1\<rparr>)) sbi)"
| "heat_event_step (HE_read r n) sbi = ([], upd_inode r (upd_heat (\<lambda>h. h\<lparr>h_read_bytes := h_read_bytes h + word_of_nat n\<rparr>)) sbi)"
| "heat_event_step (HE_written r n) sbi = ([], upd_inode r (upd_heat (\<lambda>h. h\<lparr>h_write_bytes := h_write_bytes h + word_of_nat n\<rparr>)) sbi)"
| "heat_event_step (HE_drain now) sbi = heat_collect now HEAT_BATCH_MAX sbi"

fun heat_run :: "heat_event list \<Rightarrow> sb_info \<Rightarrow> heat_sample list \<times> sb_info" where
  "heat_run [] sbi = ([], sbi)"
| "heat_run (ev # evs) sbi =
    (case heat_event_step ev sbi of (b, s1) \<Rightarrow> (case heat_run evs s1 of (bs, s2) \<Rightarrow> (b @ bs, s2)))"

fun read_activity :: "iref \<Rightarrow> heat_event list \<Rightarrow> nat" where
  "read_activity r [] = 0"
| "read_activity r (HE_read q n # evs) = (if q = r then n else 0) + read_activity r evs"
| "read_activity r (_ # evs) = read_activity r evs"

fun write_activity :: "iref \<Rightarrow> heat_event list \<Rightarrow> nat" where
  "write_activity r [] = 0"
| "write_activity r (HE_written q n # evs) = (if q = r then n else 0) + write_activity r evs"
| "write_activity r (_ # evs) = write_activity r evs"

text \<open>What the samples report for an object, and what is not yet reported for an inode.\<close>

definition reported :: "(heat_sample \<Rightarrow> u64) \<Rightarrow> bytes \<Rightarrow> heat_sample list \<Rightarrow> u64" where
  "reported f oid bs = sum_list (map f (filter (\<lambda>s. hs_oid s = oid) bs))"

definition unread :: "inode_info \<Rightarrow> u64" where
  "unread si = h_read_bytes (si_heat si) - h_last_drained_read_bytes (si_heat si)"

definition unwritten :: "inode_info \<Rightarrow> u64" where
  "unwritten si = h_write_bytes (si_heat si) - h_last_drained_write_bytes (si_heat si)"

lemma reported_simps [simp]:
  "reported f oid [] = 0" "reported f oid (s # bs) = (if hs_oid s = oid then f s else 0) + reported f oid bs"
  "reported f oid (as @ bs) = reported f oid as + reported f oid bs"
  by (simp_all add: reported_def)

text \<open>Every listed inode is loaded, once, with an object id of its own.\<close>

definition heat_ready :: "sb_info \<Rightarrow> bool" where
  "heat_ready sbi \<longleftrightarrow> distinct (sbi_inode_list sbi)
     \<and> (\<forall>r q a b. sbi_inodes sbi r = Some a \<longrightarrow> sbi_inodes sbi q = Some b \<longrightarrow> si_oid a = si_oid b \<longrightarrow> r = q)"

text \<open>What a walk does to one inode: nothing, or a report of all that was outstanding.\<close>

lemma heat_mark_fields [simp]:
  "si_oid (heat_mark now si) = si_oid si" "unread (heat_mark now si) = 0" "unwritten (heat_mark now si) = 0"
  "heat_quiet (si_heat (heat_mark now si))"
  by (simp_all add: heat_mark_def Let_def unread_def unwritten_def heat_quiet_def)

lemma upd_inode_ready:
  assumes "heat_ready sbi" "\<And>si. si_oid (f si) = si_oid si"
  shows "heat_ready (upd_inode r f sbi)"
  using assms unfolding heat_ready_def by (auto split: if_splits)

definition accounted :: "heat_sample list \<Rightarrow> inode_info \<Rightarrow> inode_info \<Rightarrow> bool" where
  "accounted bs si si' \<longleftrightarrow> si_oid si' = si_oid si
     \<and> reported hs_read_bytes_delta (si_oid si) bs + unread si' = unread si
     \<and> reported hs_write_bytes_delta (si_oid si) bs + unwritten si' = unwritten si"

lemma heat_sample_of_fields [simp]:
  "hs_oid (heat_sample_of now si) = si_oid si" "hs_read_bytes_delta (heat_sample_of now si) = unread si"
  "hs_write_bytes_delta (heat_sample_of now si) = unwritten si"
  by (simp_all add: heat_sample_of_def Let_def unread_def unwritten_def)

lemma heat_collect_loop_frame:
  "heat_collect_loop now mx rs n sbi = (bs, sbi') \<Longrightarrow> n \<le> mx \<Longrightarrow> heat_ready sbi \<Longrightarrow>
    heat_ready sbi' \<and> n + length bs \<le> mx \<and> sbi_inode_list sbi' = sbi_inode_list sbi"
proof (induction rs arbitrary: n sbi bs sbi')
  case Nil
  then show ?case by simp
next
  case (Cons q rs)
  then show ?case
    by (fastforce split: if_splits option.splits prod.splits simp: upd_inode_ready)
qed

lemma heat_collect_loop_other:
  "heat_collect_loop now mx rs n sbi = (bs, sbi') \<Longrightarrow> r \<notin> set rs \<Longrightarrow> sbi_inodes sbi r = Some si \<Longrightarrow> heat_ready sbi
    \<Longrightarrow> sbi_inodes sbi' r = Some si \<and> (\<forall>f. reported f (si_oid si) bs = 0)"
proof (induction rs arbitrary: n sbi bs sbi')
  case Nil
  then show ?case by simp
next
  case (Cons q rs)
  show ?case
  proof (cases "mx \<le> n \<or> sbi_inodes sbi q = None \<or> (\<exists>sq. sbi_inodes sbi q = Some sq \<and> heat_quiet (si_heat sq))")
    case True
    then show ?thesis using Cons by (auto split: if_splits)
  next
    case False
    then obtain sq cs where q: "sbi_inodes sbi q = Some sq" "bs = heat_sample_of now sq # cs"
        "heat_collect_loop now mx rs (n + 1) (upd_inode q (heat_mark now) sbi) = (cs, sbi')"
      using Cons.prems(1) by (auto split: prod.splits)
    have "si_oid sq \<noteq> si_oid si" using Cons.prems(2,3,4) q(1) by (auto simp: heat_ready_def)
    moreover have "sbi_inodes (upd_inode q (heat_mark now) sbi) r = Some si" using Cons.prems(2,3) by simp
    ultimately show ?thesis using Cons.IH [OF q(3)] Cons.prems(2,4) q(2) by (simp add: upd_inode_ready)
  qed
qed

lemma heat_collect_loop_effect:
  "heat_collect_loop now mx rs n sbi = (bs, sbi') \<Longrightarrow> heat_ready sbi \<Longrightarrow> distinct rs \<Longrightarrow> sbi_inodes sbi r = Some si
    \<Longrightarrow> \<exists>si'. sbi_inodes sbi' r = Some si' \<and> accounted bs si si'
      \<and> (r \<in> set rs \<and> n + length rs \<le> mx \<longrightarrow> heat_quiet (si_heat si'))"
proof (induction rs arbitrary: n sbi bs sbi')
  case Nil
  then show ?case by (simp add: accounted_def)
next
  case (Cons q rs)
  have d: "distinct rs" "q \<notin> set rs" using Cons.prems(3) by auto
  consider (full) "mx \<le> n" | (skip) "\<not> mx \<le> n" "sbi_inodes sbi q = None \<or> (\<exists>sq. sbi_inodes sbi q = Some sq \<and> heat_quiet (si_heat sq))"
    | (busy) sq where "\<not> mx \<le> n" "sbi_inodes sbi q = Some sq" "\<not> heat_quiet (si_heat sq)" by fastforce
  then show ?case
  proof cases
    case full
    then show ?thesis using Cons.prems by (auto simp: accounted_def)
  next
    case skip
    then have *: "heat_collect_loop now mx rs n sbi = (bs, sbi')" using Cons.prems(1) by auto
    show ?thesis
    proof (cases "r = q")
      case True
      then have "sbi_inodes sbi' r = Some si \<and> (\<forall>f. reported f (si_oid si) bs = 0)"
        using heat_collect_loop_other [OF * _ Cons.prems(4,2)] d(2) by blast
      then show ?thesis using skip True Cons.prems(4) by (auto simp: accounted_def)
    next
      case False
      then show ?thesis using Cons.IH [OF * Cons.prems(2) d(1) Cons.prems(4)] by auto
    qed
  next
    case busy
    let ?s1 = "upd_inode q (heat_mark now) sbi"
    have r1: "heat_ready ?s1" by (rule upd_inode_ready [OF Cons.prems(2)]) simp
    obtain cs where cs: "heat_collect_loop now mx rs (n + 1) ?s1 = (cs, sbi')" "bs = heat_sample_of now sq # cs"
      using Cons.prems(1) busy by (auto split: prod.splits)
    show ?thesis
    proof (cases "r = q")
      case True
      then have i: "sbi_inodes ?s1 r = Some (heat_mark now si)" "sq = si" using busy(2) Cons.prems(4) by auto
      from heat_collect_loop_other [OF cs(1) _ i(1) r1] d(2) True
      have "sbi_inodes sbi' r = Some (heat_mark now si) \<and> (\<forall>f. reported f (si_oid si) cs = 0)" by simp
      then show ?thesis using cs(2) i(2) by (simp add: accounted_def)
    next
      case False
      then have ne: "si_oid sq \<noteq> si_oid si" using Cons.prems(2,4) busy(2) by (auto simp: heat_ready_def)
      have "sbi_inodes ?s1 r = Some si" using False Cons.prems(4) by simp
      from Cons.IH [OF cs(1) r1 d(1) this] show ?thesis using False ne cs(2) by (auto simp: accounted_def)
    qed
  qed
qed

section \<open>Activity is reported once\<close>

lemma heat_collect_effect:
  assumes "heat_ready sbi" "heat_collect now mx sbi = (bs, sbi')" "sbi_inodes sbi r = Some si"
  shows "heat_ready sbi' \<and> length bs \<le> mx \<and> sbi_inode_list sbi' = sbi_inode_list sbi
    \<and> (\<exists>si'. sbi_inodes sbi' r = Some si' \<and> accounted bs si si'
        \<and> (r \<in> set (sbi_inode_list sbi) \<and> length (sbi_inode_list sbi) \<le> mx \<longrightarrow> heat_quiet (si_heat si')))"
proof -
  have "distinct (sbi_inode_list sbi)" using assms(1) by (simp add: heat_ready_def)
  then show ?thesis
    using heat_collect_loop_frame [OF assms(2) [unfolded heat_collect_def]] heat_collect_loop_effect [OF assms(2) [unfolded heat_collect_def]]
      assms(1,3) by fastforce
qed

lemma upd_heat_fields [simp]:
  "si_oid (upd_heat f si) = si_oid si" "si_heat (upd_heat f si) = f (si_heat si)"
  by (simp_all add: upd_heat_def)

lemma heat_event_effect:
  assumes "heat_ready sbi" "heat_event_step ev sbi = (bs, sbi')" "sbi_inodes sbi r = Some si"
  shows "\<exists>si'. heat_ready sbi' \<and> sbi_inode_list sbi' = sbi_inode_list sbi \<and> sbi_inodes sbi' r = Some si' \<and> si_oid si' = si_oid si
    \<and> reported hs_read_bytes_delta (si_oid si) bs + unread si' = unread si + word_of_nat (read_activity r [ev])
    \<and> reported hs_write_bytes_delta (si_oid si) bs + unwritten si' = unwritten si + word_of_nat (write_activity r [ev])"
proof (cases ev)
  case (HE_drain now)
  then show ?thesis using heat_collect_effect [OF assms(1) _ assms(3)] assms(2) by (fastforce simp: accounted_def)
qed (use assms in \<open>auto simp: upd_inode_ready unread_def unwritten_def\<close>)

lemma activity_Cons:
  "read_activity r (ev # evs) = read_activity r [ev] + read_activity r evs"
  "write_activity r (ev # evs) = write_activity r [ev] + write_activity r evs"
  by (cases ev; simp)+

lemma sum_step:
  fixes a :: "'a::comm_ring_1"
  assumes "a + u = v + x" "b + t = u + y"
  shows "a + b + t = v + (x + y)"
proof -
  have "a + b + t = a + (b + t)" by (rule add.assoc)
  also have "\<dots> = (a + u) + y" unfolding assms(2) by (rule add.assoc [symmetric])
  finally show ?thesis unfolding assms(1) by (simp add: add.assoc)
qed

lemma heat_run_effect:
  "heat_ready sbi \<Longrightarrow> heat_run evs sbi = (bs, sbi') \<Longrightarrow> sbi_inodes sbi r = Some si \<Longrightarrow>
    \<exists>si'. heat_ready sbi' \<and> sbi_inode_list sbi' = sbi_inode_list sbi \<and> sbi_inodes sbi' r = Some si' \<and> si_oid si' = si_oid si
      \<and> reported hs_read_bytes_delta (si_oid si) bs + unread si' = unread si + word_of_nat (read_activity r evs)
      \<and> reported hs_write_bytes_delta (si_oid si) bs + unwritten si' = unwritten si + word_of_nat (write_activity r evs)"
proof (induction evs arbitrary: sbi bs si)
  case Nil
  then show ?case by simp
next
  case (Cons ev evs)
  obtain b s1 where st: "heat_event_step ev sbi = (b, s1)" by fastforce
  obtain cs where cs: "heat_run evs s1 = (cs, sbi')" "bs = b @ cs" using Cons.prems(2) st by (auto split: prod.splits)
  from heat_event_effect [OF Cons.prems(1) st Cons.prems(3)] obtain s where
    s: "heat_ready s1" "sbi_inode_list s1 = sbi_inode_list sbi" "sbi_inodes s1 r = Some s" "si_oid s = si_oid si"
      "reported hs_read_bytes_delta (si_oid si) b + unread s = unread si + word_of_nat (read_activity r [ev])"
      "reported hs_write_bytes_delta (si_oid si) b + unwritten s = unwritten si + word_of_nat (write_activity r [ev])" by blast
  from Cons.IH [OF s(1) cs(1) s(3)] obtain s' where
    s': "heat_ready sbi'" "sbi_inode_list sbi' = sbi_inode_list s1" "sbi_inodes sbi' r = Some s'" "si_oid s' = si_oid s"
      "reported hs_read_bytes_delta (si_oid s) cs + unread s' = unread s + word_of_nat (read_activity r evs)"
      "reported hs_write_bytes_delta (si_oid s) cs + unwritten s' = unwritten s + word_of_nat (write_activity r evs)" by blast
  have "reported hs_read_bytes_delta (si_oid si) bs + unread s' = unread si + word_of_nat (read_activity r (ev # evs))"
    using sum_step [OF s(5) s'(5) [unfolded s(4)]] unfolding cs(2) activity_Cons(1) [of r ev evs] by simp
  moreover have "reported hs_write_bytes_delta (si_oid si) bs + unwritten s' = unwritten si + word_of_nat (write_activity r (ev # evs))"
    using sum_step [OF s(6) s'(6) [unfolded s(4)]] unfolding cs(2) activity_Cons(2) [of r ev evs] by simp
  ultimately show ?case using s s' by auto
qed

text \<open>
  C25. Heat activity is reported exactly once. Over any sequence of opens, closes, reads, writes
  and drains, what the drains reported for an object, added up, and what is still outstanding is
  the outstanding amount before plus the bytes read or written in between; a drain that has room
  for every inode leaves nothing outstanding.
\<close>

theorem heat_reported_once:
  assumes "heat_ready sbi" "heat_run (evs @ [HE_drain now]) sbi = (bs, sbi')" "sbi_inodes sbi r = Some si"
    and "r \<in> set (sbi_inode_list sbi)" "length (sbi_inode_list sbi) \<le> HEAT_BATCH_MAX"
  shows "reported hs_read_bytes_delta (si_oid si) bs = unread si + word_of_nat (read_activity r evs)
    \<and> reported hs_write_bytes_delta (si_oid si) bs = unwritten si + word_of_nat (write_activity r evs)"
proof -
  have run: "heat_run (evs @ [HE_drain now]) s = (case heat_run evs s of (b, s1) \<Rightarrow>
      case heat_collect now HEAT_BATCH_MAX s1 of (c, s2) \<Rightarrow> (b @ c, s2))" for s
    by (induction evs arbitrary: s) (auto split: prod.splits)
  obtain b s1 c where b: "heat_run evs sbi = (b, s1)" "heat_collect now HEAT_BATCH_MAX s1 = (c, sbi')" "bs = b @ c"
    using assms(2) run [of sbi] by (auto split: prod.splits)
  from heat_run_effect [OF assms(1) b(1) assms(3)] obtain s where
    s: "heat_ready s1" "sbi_inode_list s1 = sbi_inode_list sbi" "sbi_inodes s1 r = Some s" "si_oid s = si_oid si"
      "reported hs_read_bytes_delta (si_oid si) b + unread s = unread si + word_of_nat (read_activity r evs)"
      "reported hs_write_bytes_delta (si_oid si) b + unwritten s = unwritten si + word_of_nat (write_activity r evs)" by blast
  from heat_collect_effect [OF s(1) b(2) s(3)] s(2) assms(4,5) obtain s' where
    "accounted c s s'" "heat_quiet (si_heat s')" by auto
  then have "reported hs_read_bytes_delta (si_oid si) c = unread s" "reported hs_write_bytes_delta (si_oid si) c = unwritten s"
    using s(4) by (auto simp: accounted_def heat_quiet_def unread_def unwritten_def)
  then show ?thesis using s(5,6) b(3) by simp
qed

text \<open>
  Closing a file makes it look hot. The open counter goes down on release, and the delta is
  an unsigned difference, so when a file is opened before a drain and closed after it, the next
  drain reports \<open>2 ^ 32 - 1\<close> opens for it although nothing happened but the close.
\<close>

theorem close_reported_as_opens:
  assumes "sbi_inode_list sbi = [r]" "sbi_inodes sbi r = Some si" "heat_quiet (si_heat si)"
  shows "\<exists>opened closed. map hs_open_count_delta (fst (heat_run [HE_open r, HE_drain t1, HE_release r, HE_drain t2] sbi)) = [opened, closed]
    \<and> unat opened = 1 \<and> unat closed = 2 ^ 32 - 1"
proof -
  have q: "h_open_count (si_heat si) = h_last_drained_open_count (si_heat si)" using assms(3) by (simp add: heat_quiet_def)
  have m: "unat (- 1 :: u32) = 2 ^ 32 - 1" by (simp add: unsigned_minus_1_eq_mask mask_eq_exp_minus_1)
  show ?thesis
    using assms(1,2) q m
    by (simp add: heat_collect_def HEAT_BATCH_MAX_def heat_quiet_def heat_mark_def heat_sample_of_def upd_heat_def Let_def)
qed

theorem heat_reported_once_witness:
  "reported hs_read_bytes_delta ex_oid (fst (heat_run ([HE_read 77 5, HE_drain 1, HE_read 77 7] @ [HE_drain 2]) ex_pool)) = 12"
proof -
  obtain bs sbi' where run: "heat_run ([HE_read 77 5, HE_drain 1, HE_read 77 7] @ [HE_drain 2]) ex_pool = (bs, sbi')" by fastforce
  have "heat_ready ex_pool" "sbi_inodes ex_pool 77 = Some ex_inode" "77 \<in> set (sbi_inode_list ex_pool)"
      "length (sbi_inode_list ex_pool) \<le> HEAT_BATCH_MAX"
    by (simp_all add: heat_ready_def ex_pool_def HEAT_BATCH_MAX_def)
  from heat_reported_once [OF this(1) run this(2-4)] run show ?thesis
    by (simp add: ex_inode_def unread_def ex_heat_def)
qed

theorem close_reported_as_opens_witness:
  "\<exists>opened closed. map hs_open_count_delta (fst (heat_run [HE_open 77, HE_drain 1, HE_release 77, HE_drain 2] ex_pool)) = [opened, closed]
    \<and> unat opened = 1 \<and> unat closed = 2 ^ 32 - 1"
  by (rule close_reported_as_opens [where si = ex_inode]) (simp_all add: ex_pool_def ex_inode_def ex_heat_def heat_quiet_def)

end
