(* ===== verification/Dir_Merge.thy ===== *)
theory Dir_Merge
  imports Lower_File Placement_Log
begin

text \<open>
  Directory reading and syncing, \<open>dir.c\<close>. A directory can have entries on several tiers: the
  listing is built once per open directory from the canonical tier and then from every other
  active tier that has the directory, each name once, and it is handed out in pages that the
  caller's buffer ends. A directory fsync flushes the deferred metadata and syncs the directory
  on every tier that has it.
\<close>

section \<open>The merged listing\<close>

record dir_entry =
  de_name :: string
  de_ino :: u64
  de_dtype :: u32

record dir_cache =
  dc_entries :: "dir_entry list"
  dc_cap :: nat

text \<open>
  What the module gets from the kernel: its allocations, the path of the opened directory, the
  lower lookups, opens, and the entries a lower directory offers to the actor with the result
  of the walk.
\<close>

record dir_env =
  dv_alloc :: bool
  dv_grow :: "nat \<Rightarrow> bool"
  dv_dup :: "string \<Rightarrow> bool"
  dv_rel_path :: "string option"
  dv_lookup :: "path \<Rightarrow> string \<Rightarrow> path res"
  dv_open :: "path \<Rightarrow> unit res"
  dv_is_dir :: "path \<Rightarrow> bool"
  dv_iterate :: "path \<Rightarrow> dir_entry list \<times> unit res"
  dv_fsync :: "path \<Rightarrow> unit res"
  dv_fsync_log :: "unit res"

definition dir_cache_has :: "dir_cache \<Rightarrow> string \<Rightarrow> bool" where
  "dir_cache_has c name = list_ex (\<lambda>e. de_name e = name) (dc_entries c)"

definition dir_cache_add :: "dir_env \<Rightarrow> dir_entry \<Rightarrow> dir_cache \<Rightarrow> unit res \<times> dir_cache" where
  "dir_cache_add env e c =
    (if de_name e = ''.'' \<or> de_name e = ''..'' then (Done, c)
     else if dir_cache_has c (de_name e) then (Done, c)
     else if length (dc_entries c) = dc_cap c \<and> \<not> dv_grow env (if dc_cap c \<noteq> 0 then dc_cap c * 2 else 64) then (Err ENOMEM, c)
     else let c1 = (if length (dc_entries c) = dc_cap c then c\<lparr>dc_cap := if dc_cap c \<noteq> 0 then dc_cap c * 2 else 64\<rparr> else c)
       in if \<not> dv_dup env (de_name e) then (Err ENOMEM, c1)
          else (Done, c1\<lparr>dc_entries := dc_entries c1 @ [e]\<rparr>))"

text \<open>The walk of one lower directory: the actor ends it with its first error.\<close>

fun collect_actor :: "dir_env \<Rightarrow> dir_entry list \<Rightarrow> dir_cache \<Rightarrow> unit res \<times> dir_cache" where
  "collect_actor env [] c = (Done, c)"
| "collect_actor env (e # es) c =
    (case dir_cache_add env e c of
       (Err x, c') \<Rightarrow> (Err x, c')
     | (Ok _, c') \<Rightarrow> collect_actor env es c')"

definition collect_one_dir :: "dir_env \<Rightarrow> path \<Rightarrow> dir_cache \<Rightarrow> unit res \<times> dir_cache" where
  "collect_one_dir env p c =
    (case dv_open env p of
       Err e \<Rightarrow> (Err e, c)
     | Ok _ \<Rightarrow>
        (case dv_iterate env p of
           (es, ret) \<Rightarrow>
             (case collect_actor env es c of
                (err, c') \<Rightarrow> (case ret of Err e \<Rightarrow> (Err e, c') | Ok _ \<Rightarrow> (err, c')))))"

text \<open>The loop over the other tiers, with the counter of skipped tiers in the pool.\<close>

fun build_tiers :: "dir_env \<Rightarrow> string \<Rightarrow> u8 \<Rightarrow> u8 list \<Rightarrow> sb_info \<Rightarrow> dir_cache \<Rightarrow> dir_cache res \<times> sb_info" where
  "build_tiers env rel canonical [] sbi c = (Ok c, sbi)"
| "build_tiers env rel canonical (t # ts) sbi c =
    (if t = canonical then build_tiers env rel canonical ts sbi c
     else if \<not> metadata_tier_active sbi t then build_tiers env rel canonical ts (note_metadata_tier_skip sbi) c
     else case resolve_rel_path_on_tier (dv_lookup env) sbi t (Some rel) of
         Err e \<Rightarrow> (if e = ENOENT \<or> e = ENOTDIR then build_tiers env rel canonical ts sbi c else (Err e, sbi))
       | Ok p \<Rightarrow>
          (if \<not> dv_is_dir env p then build_tiers env rel canonical ts sbi c
           else case collect_one_dir env p c of
               (Err e, _) \<Rightarrow> (Err e, sbi)
             | (Ok _, c') \<Rightarrow> build_tiers env rel canonical ts sbi c'))"

definition canonical_tier :: "sb_info \<Rightarrow> inode_info \<Rightarrow> u8" where
  "canonical_tier sbi si = (if sbi_ntiers sbi \<le> si_current_tier si then sbi_fastest_tier sbi else si_current_tier si)"

definition build_dir_cache :: "dir_env \<Rightarrow> inode_info \<Rightarrow> sb_info \<Rightarrow> dir_cache res \<times> sb_info" where
  "build_dir_cache env si sbi =
    (if \<not> dv_alloc env then (Err ENOMEM, sbi)
     else case (dv_rel_path env, si_lower_path si) of
         (None, _) \<Rightarrow> (Err ENOMEM, sbi)
       | (_, None) \<Rightarrow> (Err ENOENT, sbi)
       | (Some rel, Some lp) \<Rightarrow>
          (case collect_one_dir env lp \<lparr>dc_entries = [], dc_cap = 0\<rparr> of
             (Err e, _) \<Rightarrow> (Err e, sbi)
           | (Ok _, c) \<Rightarrow>
              build_tiers env rel (canonical_tier sbi si) (if sbi_cache_mode sbi then [] else tier_ids sbi) sbi c))"

section \<open>Open directories\<close>

text \<open>The private data of an open directory with its listing.\<close>

record dir_file =
  df_info :: file_info
  df_cache :: "dir_cache option"

text \<open>
  \<open>opendir\<close> only opens the lower directory. The private data comes from \<open>kmalloc\<close>, so the listing
  of a fresh descriptor is what the allocator left there: \<open>mem\<close>.
\<close>

definition opendir ::
  "lower_env \<Rightarrow> (inode_info \<Rightarrow> inode_info) \<Rightarrow> dir_cache option \<Rightarrow> u32 \<Rightarrow> cred \<Rightarrow> inode_info \<Rightarrow> dir_file res \<times> inode_info" where
  "opendir lenv mid mem flags cred si =
    (case open_lower lenv mid flags cred si of
       (Err e, si') \<Rightarrow> (Err e, si')
     | (Ok fi, si') \<Rightarrow> (Ok \<lparr>df_info = fi, df_cache = mem\<rparr>, si'))"

definition releasedir :: "dir_file option \<Rightarrow> file_info option" where
  "releasedir df = release_lower (map_option df_info df)"

text \<open>
  \<open>dir_emit\<close> into a buffer with \<open>room\<close> free slots: the position moves only past what was taken.
\<close>

definition emit_dots :: "nat \<Rightarrow> nat \<Rightarrow> string list \<times> nat \<times> bool" where
  "emit_dots room pos =
    (if pos = 0
     then if room = 0 then ([], 0, False) else if room = 1 then ([''.''], 1, False) else ([''.'', ''..''], 2, True)
     else if pos = 1 then if room = 0 then ([], 1, False) else ([''..''], 2, True)
     else ([], pos, True))"

fun emit_entries :: "nat \<Rightarrow> dir_entry list \<Rightarrow> nat \<Rightarrow> string list \<times> nat" where
  "emit_entries room es pos =
    (if room = 0 \<or> length es \<le> pos - 2 then ([], pos)
     else case emit_entries (room - 1) es (pos + 1) of (ns, pos') \<Rightarrow> (de_name (es ! (pos - 2)) # ns, pos'))"

declare emit_entries.simps [simp del]

definition iterate_shared ::
  "dir_env \<Rightarrow> inode_info \<Rightarrow> nat \<Rightarrow> nat \<Rightarrow> dir_file option \<Rightarrow> sb_info \<Rightarrow> string list res \<times> nat \<times> dir_file option \<times> sb_info" where
  "iterate_shared env si room pos dfo sbi =
    (case dfo of
       None \<Rightarrow> (Err EBADF, pos, dfo, sbi)
     | Some df \<Rightarrow>
        (case emit_dots room pos of
           (ds, pos1, False) \<Rightarrow> (Ok ds, pos1, dfo, sbi)
         | (ds, pos1, True) \<Rightarrow>
            (case (case df_cache df of Some c \<Rightarrow> (Ok c, sbi) | None \<Rightarrow> build_dir_cache env si sbi) of
               (Err e, sbi') \<Rightarrow> (Err e, pos1, dfo, sbi')
             | (Ok c, sbi') \<Rightarrow>
                (case emit_entries (room - length ds) (dc_entries c) pos1 of
                   (ns, pos2) \<Rightarrow> (Ok (ds @ ns), pos2, Some (df\<lparr>df_cache := Some c\<rparr>), sbi')))))"

definition dir_llseek :: "int res \<Rightarrow> dir_file option \<Rightarrow> int res \<times> dir_file option" where
  "dir_llseek ret dfo = (ret, if ret = Ok 0 then map_option (\<lambda>df. df\<lparr>df_cache := None\<rparr>) dfo else dfo)"

section \<open>fsync of a directory\<close>

text \<open>
  The loop returns what was synced; the directory of the descriptor itself is not synced twice.
\<close>

fun dir_sync_tiers :: "dir_env \<Rightarrow> sb_info \<Rightarrow> string \<Rightarrow> path \<Rightarrow> u8 list \<Rightarrow> path list \<Rightarrow> unit res \<times> path list" where
  "dir_sync_tiers env sbi rel lower [] done = (Done, done)"
| "dir_sync_tiers env sbi rel lower (t # ts) done =
    (case resolve_rel_path_on_tier (dv_lookup env) sbi t (Some rel) of
       Err e \<Rightarrow> (if e = ENOENT \<or> e = ENOTDIR then dir_sync_tiers env sbi rel lower ts done else (Err e, done))
     | Ok p \<Rightarrow>
        (if \<not> dv_is_dir env p \<or> p = lower then dir_sync_tiers env sbi rel lower ts done
         else case dv_open env p of
             Err e \<Rightarrow> (Err e, done)
           | Ok _ \<Rightarrow>
              (case dv_fsync env p of
                 Err e \<Rightarrow> (Err e, done)
               | Ok _ \<Rightarrow> dir_sync_tiers env sbi rel lower ts (done @ [p]))))"

definition dir_fsync ::
  "dir_env \<Rightarrow> lower_env \<Rightarrow> append \<Rightarrow> (dentry \<Rightarrow> nat option) \<Rightarrow> (nat \<Rightarrow> errno option) \<Rightarrow> file_info option \<Rightarrow> inode_info \<Rightarrow> sb_info \<Rightarrow> xattrs
    \<Rightarrow> unit res \<times> path list \<times> (file_info option \<times> inode_info) \<times> sb_info \<times> xattrs" where
  "dir_fsync env lenv aw dino xerr fio si sbi xs =
    (case lower_file lenv fio si of
       (Err e, fs) \<Rightarrow> (Err e, [], fs, sbi, xs)
     | (Ok None, fs) \<Rightarrow> (Err EBADF, [], fs, sbi, xs)
     | (Ok (Some lf), fs) \<Rightarrow>
        (case dv_rel_path env of
           None \<Rightarrow> (Err ENOMEM, [], fs, sbi, xs)
         | Some rel \<Rightarrow>
            (case oid_wb_drain dino xerr sbi xs of
               (sbi1, xs1) \<Rightarrow>
                 (let sbi2 = placement_wb_drain aw sbi1
                  in case dv_fsync env (of_path lf) of
                      Err e \<Rightarrow> (Err e, [], fs, sbi2, xs1)
                    | Ok _ \<Rightarrow>
                       (case dir_sync_tiers env sbi2 rel (of_path lf) (tier_ids sbi2) [of_path lf] of
                          (Err e, synced) \<Rightarrow> (Err e, synced, fs, sbi2, xs1)
                        | (Ok _, synced) \<Rightarrow>
                           (case sbi_placement_log sbi2 of
                              None \<Rightarrow> (Done, synced, fs, sbi2, xs1)
                            | Some _ \<Rightarrow> (dv_fsync_log env, synced, fs, sbi2, xs1)))))))"

section \<open>What the listing is\<close>

text \<open>The specification: entries in order, without the dots, the first of each name.\<close>

fun absorb :: "dir_entry list \<Rightarrow> dir_entry list \<Rightarrow> dir_entry list" where
  "absorb acc [] = acc"
| "absorb acc (e # es) =
    absorb (if de_name e \<in> {''.'', ''..''} \<or> de_name e \<in> de_name ` set acc then acc else acc @ [e]) es"

text \<open>The directories that contribute after the canonical one, in the order of the tiers.\<close>

definition replicas :: "dir_env \<Rightarrow> sb_info \<Rightarrow> string \<Rightarrow> u8 \<Rightarrow> u8 list \<Rightarrow> path list" where
  "replicas env sbi rel canonical ts =
     concat (map (\<lambda>t. if t \<noteq> canonical \<and> metadata_tier_active sbi t
                      then case resolve_rel_path_on_tier (dv_lookup env) sbi t (Some rel) of
                          Err _ \<Rightarrow> [] | Ok p \<Rightarrow> (if dv_is_dir env p then [p] else [])
                      else []) ts)"

abbreviation offered :: "dir_env \<Rightarrow> path \<Rightarrow> dir_entry list" where
  "offered env p \<equiv> fst (dv_iterate env p)"

definition is_dot :: "string \<Rightarrow> bool" where
  "is_dot n \<longleftrightarrow> n = ''.'' \<or> n = ''..''"

lemma absorb_append: "absorb a (xs @ ys) = absorb (absorb a xs) ys"
  by (induction xs arbitrary: a) simp_all

lemma absorb_names:
  assumes "distinct (map de_name a)" "\<forall>e \<in> set a. \<not> is_dot (de_name e)"
  shows "distinct (map de_name (absorb a es)) \<and> (\<forall>e \<in> set (absorb a es). \<not> is_dot (de_name e))"
  using assms
proof (induction es arbitrary: a)
  case Nil
  then show ?case by simp
next
  case (Cons e es)
  let ?a = "if de_name e \<in> {''.'', ''..''} \<or> de_name e \<in> de_name ` set a then a else a @ [e]"
  have "distinct (map de_name ?a)" "\<forall>e \<in> set ?a. \<not> is_dot (de_name e)"
    using Cons.prems by (simp_all add: is_dot_def)
  from Cons.IH [OF this] show ?case by simp
qed

lemma find_append: "find P (xs @ ys) = (case find P xs of None \<Rightarrow> find P ys | Some x \<Rightarrow> Some x)"
  by (induction xs) auto

lemma absorb_find:
  assumes "\<not> is_dot n"
  shows "find (\<lambda>e. de_name e = n) (absorb a es)
    = (case find (\<lambda>e. de_name e = n) a of Some e \<Rightarrow> Some e | None \<Rightarrow> find (\<lambda>e. de_name e = n) es)"
proof (induction es arbitrary: a)
  case Nil
  then show ?case by (simp split: option.split)
next
  case (Cons e es)
  show ?case
  proof (cases "de_name e \<in> {''.'', ''..''} \<or> de_name e \<in> de_name ` set a")
    case True
    then have st: "absorb a (e # es) = absorb a es" by simp
    show ?thesis
    proof (cases "de_name e = n")
      case en: True
      then have "n \<in> de_name ` set a" using True assms by (auto simp: is_dot_def)
      then obtain x where "find (\<lambda>x. de_name x = n) a = Some x"
        by (cases "find (\<lambda>x. de_name x = n) a") (auto simp: find_None_iff)
      then show ?thesis unfolding st Cons by simp
    next
      case False
      then show ?thesis unfolding st Cons by (simp split: option.split)
    qed
  next
    case False
    then have st: "absorb a (e # es) = absorb (a @ [e]) es" by simp
    show ?thesis unfolding st Cons find_append by (cases "find (\<lambda>x. de_name x = n) a") simp_all
  qed
qed

lemma dir_cache_add_absorb:
  "dir_cache_add env e c = (Done, c') \<Longrightarrow> dc_entries c' = absorb (dc_entries c) [e]"
  by (auto simp: dir_cache_add_def dir_cache_has_def list_ex_iff Let_def split: if_splits) (metis image_eqI)

lemma collect_actor_absorb:
  "collect_actor env es c = (Done, c') \<Longrightarrow> dc_entries c' = absorb (dc_entries c) es"
proof (induction es arbitrary: c)
  case Nil
  then show ?case by simp
next
  case (Cons e es)
  then obtain c1 where "dir_cache_add env e c = (Done, c1)" "collect_actor env es c1 = (Done, c')"
    by (auto split: prod.splits sum.splits)
  then show ?case using Cons.IH dir_cache_add_absorb [of env e c c1] by simp
qed

lemma collect_one_dir_absorb:
  "collect_one_dir env p c = (Done, c') \<Longrightarrow> dc_entries c' = absorb (dc_entries c) (offered env p)"
  by (auto simp: collect_one_dir_def split: prod.splits sum.splits dest!: collect_actor_absorb)

lemma skip_keeps_tiers [simp]:
  "metadata_tier_active (note_metadata_tier_skip sbi) t = metadata_tier_active sbi t"
  "resolve_rel_path_on_tier lk (note_metadata_tier_skip sbi) t rel = resolve_rel_path_on_tier lk sbi t rel"
  by (simp_all add: metadata_tier_active_def note_metadata_tier_skip_def resolve_rel_path_on_tier_def split: option.split)

lemma replicas_skip [simp]: "replicas env (note_metadata_tier_skip sbi) rel canonical ts = replicas env sbi rel canonical ts"
  unfolding replicas_def skip_keeps_tiers ..

lemma replicas_Cons:
  "replicas env sbi rel canonical (t # ts) = (if t \<noteq> canonical \<and> metadata_tier_active sbi t
     then case resolve_rel_path_on_tier (dv_lookup env) sbi t (Some rel) of
         Err _ \<Rightarrow> [] | Ok p \<Rightarrow> (if dv_is_dir env p then [p] else [])
     else []) @ replicas env sbi rel canonical ts"
  by (simp add: replicas_def)

lemma build_tiers_absorb:
  "build_tiers env rel canonical ts sbi c = (Ok c', sbi') \<Longrightarrow>
    dc_entries c' = absorb (dc_entries c) (concat (map (offered env) (replicas env sbi rel canonical ts)))"
proof (induction ts arbitrary: sbi c)
  case Nil
  then show ?case by (simp add: replicas_def)
next
  case (Cons t ts)
  show ?case
  proof (cases "t \<noteq> canonical \<and> metadata_tier_active sbi t")
    case False
    then show ?thesis using Cons.prems Cons.IH by (auto simp: replicas_Cons split: if_splits)
  next
    case act: True
    show ?thesis
    proof (cases "resolve_rel_path_on_tier (dv_lookup env) sbi t (Some rel)")
      case (Inl e)
      then show ?thesis using act Cons.prems Cons.IH by (auto simp: replicas_Cons split: if_splits)
    next
      case (Inr p)
      show ?thesis
      proof (cases "dv_is_dir env p")
        case False
        then show ?thesis using act Inr Cons.prems Cons.IH by (auto simp: replicas_Cons)
      next
        case True
        then obtain c1 where c1: "collect_one_dir env p c = (Done, c1)" "build_tiers env rel canonical ts sbi c1 = (Ok c', sbi')"
          using act Inr Cons.prems by (auto split: prod.splits sum.splits)
        show ?thesis using Cons.IH [OF c1(2)] collect_one_dir_absorb [OF c1(1)] act Inr True
          by (simp add: replicas_Cons absorb_append)
      qed
    qed
  qed
qed

text \<open>The directories that contribute to the listing of an inode.\<close>

definition listed_dirs :: "dir_env \<Rightarrow> inode_info \<Rightarrow> sb_info \<Rightarrow> path list" where
  "listed_dirs env si sbi =
     (case (dv_rel_path env, si_lower_path si) of
        (Some rel, Some lp) \<Rightarrow> lp # (if sbi_cache_mode sbi then [] else replicas env sbi rel (canonical_tier sbi si) (tier_ids sbi))
      | _ \<Rightarrow> [])"

lemma build_dir_cache_absorb:
  assumes "build_dir_cache env si sbi = (Ok c, sbi')"
  shows "dc_entries c = absorb [] (concat (map (offered env) (listed_dirs env si sbi)))"
proof -
  obtain rel lp c0 where e: "dv_rel_path env = Some rel" "si_lower_path si = Some lp"
      "collect_one_dir env lp \<lparr>dc_entries = [], dc_cap = 0\<rparr> = (Done, c0)"
      "build_tiers env rel (canonical_tier sbi si) (if sbi_cache_mode sbi then [] else tier_ids sbi) sbi c0 = (Ok c, sbi')"
    using assms by (auto simp: build_dir_cache_def split: if_splits option.splits prod.splits sum.splits)
  have "replicas env sbi rel (canonical_tier sbi si) [] = []" by (simp add: replicas_def)
  then show ?thesis using build_tiers_absorb [OF e(4)] collect_one_dir_absorb [OF e(3)] e(1,2)
    by (simp add: listed_dirs_def absorb_append)
qed

section \<open>Pages\<close>

text \<open>A reader that calls with buffers of the given sizes until they are used up.\<close>

fun readdir ::
  "dir_env \<Rightarrow> inode_info \<Rightarrow> nat list \<Rightarrow> nat \<Rightarrow> dir_file option \<Rightarrow> sb_info \<Rightarrow> string list res \<times> nat \<times> dir_file option \<times> sb_info" where
  "readdir env si [] pos dfo sbi = (Ok [], pos, dfo, sbi)"
| "readdir env si (room # rooms) pos dfo sbi =
    (case iterate_shared env si room pos dfo sbi of
       (Err e, pos', dfo', sbi') \<Rightarrow> (Err e, pos', dfo', sbi')
     | (Ok ns, pos', dfo', sbi') \<Rightarrow>
        (case readdir env si rooms pos' dfo' sbi' of
           (Err e, x) \<Rightarrow> (Err e, x)
         | (Ok ms, x) \<Rightarrow> (Ok (ns @ ms), x)))"

lemma emit_entries_page:
  "2 \<le> pos \<Longrightarrow> emit_entries room es pos
    = (map de_name (take room (drop (pos - 2) es)), pos + min room (length es - (pos - 2)))"
proof (induction room arbitrary: pos)
  case 0
  then show ?case by (simp add: emit_entries.simps)
next
  case (Suc room)
  show ?case
  proof (cases "length es \<le> pos - 2")
    case True
    then show ?thesis by (simp add: emit_entries.simps)
  next
    case False
    then have d: "drop (pos - 2) es = es ! (pos - 2) # drop (pos + 1 - 2) es"
      using Suc.prems Cons_nth_drop_Suc [of "pos - 2" es] by (simp add: Suc_diff_le [symmetric])
    have "emit_entries room es (pos + 1) = (map de_name (take room (drop (pos + 1 - 2) es)), pos + 1 + min room (length es - (pos + 1 - 2)))"
      using Suc.IH [of "pos + 1"] Suc.prems by simp
    then show ?thesis using False Suc.prems unfolding d by (simp add: emit_entries.simps [of "Suc room"] min_def) arith
  qed
qed

text \<open>What a reader sees of a listing, with the two dots in front.\<close>

definition full_list :: "dir_cache \<Rightarrow> string list" where
  "full_list c = ''.'' # ''..'' # map de_name (dc_entries c)"

definition lists :: "dir_env \<Rightarrow> inode_info \<Rightarrow> dir_cache \<Rightarrow> dir_file option \<Rightarrow> sb_info \<Rightarrow> bool" where
  "lists env si c dfo sbi \<longleftrightarrow> (\<exists>df. dfo = Some df
     \<and> (df_cache df = Some c \<or> df_cache df = None \<and> (\<exists>sbi'. build_dir_cache env si sbi = (Ok c, sbi'))))"

lemma iterate_shared_page:
  assumes "lists env si c dfo sbi"
  shows "\<exists>dfo' sbi'. iterate_shared env si room pos dfo sbi
      = (Ok (take room (drop pos (full_list c))), pos + min room (length (full_list c) - pos), dfo', sbi') \<and> lists env si c dfo' sbi'"
proof -
  obtain df where df: "dfo = Some df" using assms by (auto simp: lists_def)
  obtain sbi' where b: "(case df_cache df of Some c \<Rightarrow> (Ok c, sbi) | None \<Rightarrow> build_dir_cache env si sbi) = (Ok c, sbi')"
    using assms df by (auto simp: lists_def)
  show ?thesis
  proof (cases "2 \<le> pos + room")
    case False
    then have "pos = 0 \<and> room = 0 \<or> pos = 0 \<and> room = 1 \<or> pos = 1 \<and> room = 0" by arith
    then show ?thesis using assms df by (auto simp: iterate_shared_def emit_dots_def full_list_def)
  next
    case True
    have l: "lists env si c (Some (df\<lparr>df_cache := Some c\<rparr>)) sbi'" by (simp add: lists_def)
    consider (zero) k where "pos = 0" "room = Suc (Suc k)" | (one) k where "pos = 1" "room = Suc k" | (two) "2 \<le> pos"
    proof (cases "2 \<le> pos")
      case False
      then have "pos = 0 \<or> pos = 1" by arith
      then show thesis using True zero [of "room - 2"] one [of "room - 1"] by (elim disjE) simp_all
    qed
    then show ?thesis
    proof cases
      case zero
      then have "iterate_shared env si room pos dfo sbi = (Ok (take room (drop pos (full_list c))),
          pos + min room (length (full_list c) - pos), Some (df\<lparr>df_cache := Some c\<rparr>), sbi')"
        using df b by (simp add: iterate_shared_def emit_dots_def emit_entries_page full_list_def take_map)
      then show ?thesis using l by blast
    next
      case one
      then have "iterate_shared env si room pos dfo sbi = (Ok (take room (drop pos (full_list c))),
          pos + min room (length (full_list c) - pos), Some (df\<lparr>df_cache := Some c\<rparr>), sbi')"
        using df b by (simp add: iterate_shared_def emit_dots_def emit_entries_page full_list_def take_map)
      then show ?thesis using l by blast
    next
      case two
      then obtain k where k: "pos = Suc (Suc k)" by (metis add_2_eq_Suc le_Suc_ex)
      then have "iterate_shared env si room pos dfo sbi = (Ok (take room (drop pos (full_list c))),
          pos + min room (length (full_list c) - pos), Some (df\<lparr>df_cache := Some c\<rparr>), sbi')"
        using df b by (simp add: iterate_shared_def emit_dots_def emit_entries_page full_list_def take_map drop_map)
      then show ?thesis using l by blast
    qed
  qed
qed

lemma readdir_pages:
  assumes "lists env si c dfo sbi"
  shows "\<exists>x. readdir env si rooms pos dfo sbi = (Ok (take (sum_list rooms) (drop pos (full_list c))), x)"
  using assms
proof (induction rooms arbitrary: pos dfo sbi)
  case Nil
  then show ?case by simp
next
  case (Cons room rooms)
  obtain dfo' sbi' where it: "iterate_shared env si room pos dfo sbi
      = (Ok (take room (drop pos (full_list c))), pos + min room (length (full_list c) - pos), dfo', sbi')" "lists env si c dfo' sbi'"
    using iterate_shared_page [OF Cons.prems] by blast
  have "drop (min room (length (full_list c) - pos)) (drop pos (full_list c)) = drop room (drop pos (full_list c))"
    by (simp add: min_def)
  then show ?case using Cons.IH [OF it(2), of "pos + min room (length (full_list c) - pos)"] it(1)
    by (auto simp: take_add add.commute)
qed

text \<open>
  C26. Reading a directory lists every tier once. If the listing can be built, then a reader that
  starts at the beginning gets, whatever the sizes of its buffers, the dots and then the listing
  in order, nothing left out and nothing twice; no name occurs twice in the listing; and a name
  is listed exactly if the canonical directory or a directory of an active tier offers it, with
  the entry of the first one that does.
\<close>

theorem readdir_complete:
  assumes "build_dir_cache env si sbi = (Ok c, sbi')"
  shows "(\<exists>x. readdir env si rooms 0 (Some \<lparr>df_info = fi, df_cache = None\<rparr>) sbi
        = (Ok (take (sum_list rooms) (''.'' # ''..'' # map de_name (dc_entries c))), x))
    \<and> distinct (''.'' # ''..'' # map de_name (dc_entries c))
    \<and> (\<forall>n. n \<noteq> ''.'' \<and> n \<noteq> ''..'' \<longrightarrow> find (\<lambda>e. de_name e = n) (dc_entries c)
          = find (\<lambda>e. de_name e = n) (concat (map (offered env) (listed_dirs env si sbi))))"
proof -
  have l: "lists env si c (Some \<lparr>df_info = fi, df_cache = None\<rparr>) sbi" using assms by (simp add: lists_def)
  have d: "distinct (map de_name (dc_entries c)) \<and> (\<forall>e \<in> set (dc_entries c). \<not> is_dot (de_name e))"
    unfolding build_dir_cache_absorb [OF assms] by (rule absorb_names) simp_all
  have f: "find (\<lambda>e. de_name e = n) (dc_entries c) = find (\<lambda>e. de_name e = n) (concat (map (offered env) (listed_dirs env si sbi)))"
    if "n \<noteq> ''.'' \<and> n \<noteq> ''..''" for n
    using that unfolding build_dir_cache_absorb [OF assms] by (subst absorb_find) (simp_all add: is_dot_def)
  have "''.'' \<notin> set (map de_name (dc_entries c))" "''..'' \<notin> set (map de_name (dc_entries c))"
    using d by (auto simp: is_dot_def)
  then have "distinct (''.'' # ''..'' # map de_name (dc_entries c))" using d by simp
  then show ?thesis using readdir_pages [OF l, of rooms 0] f unfolding full_list_def by simp
qed

text \<open>
  A fresh descriptor can list what was never in the directory. The private data of the open
  file is not cleared, so what the allocator left in the field of the listing is taken for one.
\<close>

theorem opendir_uninitialised_listing:
  assumes "opendir lenv mid (Some junk) flags cred si = (Ok df, si')"
  shows "\<exists>x. readdir env si' rooms 0 (Some df) sbi = (Ok (take (sum_list rooms) (''.'' # ''..'' # map de_name (dc_entries junk))), x)"
proof -
  have "df_cache df = Some junk" using assms by (auto simp: opendir_def split: prod.splits sum.splits)
  then have "lists env si' junk (Some df) sbi" by (simp add: lists_def)
  from readdir_pages [OF this, of rooms 0] show ?thesis by (simp add: full_list_def)
qed

section \<open>fsync\<close>

lemma dir_sync_tiers_all:
  "dir_sync_tiers env sbi rel lower ts acc = (Done, synced) \<Longrightarrow> set acc \<subseteq> set synced
    \<and> (\<forall>t \<in> set ts. \<forall>p. resolve_rel_path_on_tier (dv_lookup env) sbi t (Some rel) = Ok p \<longrightarrow> dv_is_dir env p
        \<longrightarrow> p = lower \<or> p \<in> set synced)
    \<and> (\<forall>p \<in> set synced. p \<in> set acc \<or> dv_fsync env p = Done)"
proof (induction ts arbitrary: acc)
  case Nil
  then show ?case by simp
next
  case (Cons t ts)
  show ?case
  proof (cases "resolve_rel_path_on_tier (dv_lookup env) sbi t (Some rel)")
    case (Inl e)
    then have "dir_sync_tiers env sbi rel lower ts acc = (Done, synced)" using Cons.prems by (auto split: if_splits)
    from Cons.IH [OF this] show ?thesis using Inl by simp
  next
    case (Inr p)
    show ?thesis
    proof (cases "\<not> dv_is_dir env p \<or> p = lower")
      case True
      then have "dir_sync_tiers env sbi rel lower ts acc = (Done, synced)" using Cons.prems Inr by auto
      from Cons.IH [OF this] show ?thesis using Inr True by auto
    next
      case False
      then have *: "dir_sync_tiers env sbi rel lower ts (acc @ [p]) = (Done, synced)" "dv_fsync env p = Done"
        using Cons.prems Inr by (auto split: sum.splits)
      from Cons.IH [OF *(1)] show ?thesis using Inr *(2) by auto
    qed
  qed
qed

lemma oid_wb_drain_frame:
  "oid_wb_drain dino xerr sbi xs = (sbi', xs') \<Longrightarrow> sbi_placement_wb_ready sbi' = sbi_placement_wb_ready sbi
    \<and> sbi_placement_wb_pending sbi' = sbi_placement_wb_pending sbi \<and> sbi_placement_log sbi' = sbi_placement_log sbi
    \<and> (sbi_oid_wb_ready sbi \<longrightarrow> sbi_oid_wb_pending sbi' = [])"
  by (auto simp: oid_wb_drain_def oid_wb_worker_def oid_wb_take_def split: if_splits)

text \<open>
  A successful fsync of a directory has synced the directory on every tier that has it,
  active or not, the descriptor's own lower directory included, and left no deferred identity
  or placement record in memory; the placement log is synced last.
\<close>

theorem dir_fsync_syncs_every_tier:
  assumes "dir_fsync env lenv aw dino xerr fio si sbi xs = (Done, synced, fs, sbi', xs')" "dv_rel_path env = Some rel"
    and "sbi_oid_wb_ready sbi" "sbi_placement_wb_ready sbi"
  shows "(\<forall>t p. t < sbi_ntiers sbi' \<longrightarrow> resolve_rel_path_on_tier (dv_lookup env) sbi' t (Some rel) = Ok p \<longrightarrow> dv_is_dir env p
        \<longrightarrow> p \<in> set synced \<and> dv_fsync env p = Done)
    \<and> sbi_oid_wb_pending sbi' = [] \<and> sbi_placement_wb_pending sbi' = []
    \<and> (sbi_placement_log sbi' \<noteq> None \<longrightarrow> dv_fsync_log env = Done)"
proof -
  obtain sbi1 xs1 where o: "oid_wb_drain dino xerr sbi xs = (sbi1, xs1)" by fastforce
  then obtain lf :: open_file where d: "oid_wb_drain dino xerr sbi xs = (sbi1, xs1)" "sbi' = placement_wb_drain aw sbi1"
      "dv_fsync env (of_path lf) = Done" "dir_sync_tiers env sbi' rel (of_path lf) (tier_ids sbi') [of_path lf] = (Done, synced)"
      "sbi_placement_log sbi' \<noteq> None \<longrightarrow> dv_fsync_log env = Done"
    using assms(1,2) by (auto simp: dir_fsync_def Let_def split: prod.splits sum.splits option.splits)
  note fr = oid_wb_drain_frame [OF d(1)]
  have "sbi_oid_wb_pending sbi' = []" "sbi_placement_wb_pending sbi' = []"
    using fr assms(3,4) d(2) by (simp_all add: placement_wb_drain_def placement_wb_worker_def)
  moreover have "p \<in> set synced \<and> dv_fsync env p = Done"
    if "t < sbi_ntiers sbi'" "resolve_rel_path_on_tier (dv_lookup env) sbi' t (Some rel) = Ok p" "dv_is_dir env p" for t p
  proof -
    have "t \<in> set (tier_ids sbi')" using that(1) unfolding set_tier_ids by simp
    then have "p = of_path lf \<or> p \<in> set synced" "of_path lf \<in> set synced"
        "\<forall>p \<in> set synced. p \<in> set [of_path lf] \<or> dv_fsync env p = Done"
      using dir_sync_tiers_all [OF d(4)] that(2,3) by (blast, simp, blast)
    then show ?thesis using d(3) by auto
  qed
  ultimately show ?thesis using d(5) by blast
qed

text \<open>
  The flush before the acknowledgement cannot fail: when the log refuses a record, the record is
  dropped and the fsync still succeeds.
\<close>

lemma dir_fsync_acks_dropped_records:
  assumes "dir_fsync env lenv aw dino xerr fio si sbi xs = (Done, synced, fs, sbi', xs')"
    and "sbi_placement_wb_ready sbi" "\<And>log e. aw log e = Err ENOSPC"
  shows "sbi_placement_wb_pending sbi' = [] \<and> sbi_placement_log sbi' = sbi_placement_log sbi"
proof -
  obtain sbi1 xs1 where d: "oid_wb_drain dino xerr sbi xs = (sbi1, xs1)" "sbi' = placement_wb_drain aw sbi1"
    using assms(1) by (auto simp: dir_fsync_def Let_def split: prod.splits sum.splits option.splits)
  have "wb_append aw e log = log" for e log by (simp add: wb_append_def assms(3))
  then have "fold (wb_append aw) es log = log" for es log by (induction es) simp_all
  then show ?thesis using oid_wb_drain_frame [OF d(1)] assms(2) d(2)
    by (cases "sbi_placement_log sbi") (simp_all add: placement_wb_drain_def placement_wb_worker_def)
qed

section \<open>Instances\<close>

definition ex_entry :: "string \<Rightarrow> u64 \<Rightarrow> dir_entry" where
  "ex_entry n i = \<lparr>de_name = n, de_ino = i, de_dtype = 8\<rparr>"

text \<open>A directory on both tiers of the example pool, with one name on both.\<close>

definition ex_dir_env :: dir_env where
  "ex_dir_env = \<lparr>dv_alloc = True, dv_grow = (\<lambda>n. True), dv_dup = (\<lambda>n. True), dv_rel_path = Some ''d'',
     dv_lookup = (\<lambda>p s. Ok p), dv_open = (\<lambda>p. Done), dv_is_dir = (\<lambda>p. True),
     dv_iterate = (\<lambda>p. (if p_mnt p = 0 then [ex_entry ''.'' 1, ex_entry ''a'' 2, ex_entry ''b'' 3] else [ex_entry ''b'' 4, ex_entry ''c'' 5], Done)),
     dv_fsync = (\<lambda>p. Done), dv_fsync_log = Done\<rparr>"

definition ex_dir_inode :: inode_info where
  "ex_dir_inode = ex_inode\<lparr>si_kind := IK_DIR, si_lower_path := Some \<lparr>p_mnt = 0, p_dentry = 9\<rparr>, si_current_tier := 0\<rparr>"

definition ex_dir_file :: dir_file where
  "ex_dir_file = \<lparr>df_info = \<lparr>fi_lower_file = None, fi_lower_gen = 0, fi_open_flags = 0, fi_open_cred = 7\<rparr>, df_cache = None\<rparr>"

lemma ex_dir_build: "\<exists>c sbi'. build_dir_cache ex_dir_env ex_dir_inode ex_pool = (Ok c, sbi')
    \<and> map de_name (dc_entries c) = [''a'', ''b'', ''c'']"
  by (simp add: build_dir_cache_def ex_dir_env_def ex_dir_inode_def ex_inode_def collect_one_dir_def dir_cache_add_def dir_cache_has_def
      ex_entry_def canonical_tier_def ex_pool_def ex_staging_def metadata_tier_active_def resolve_rel_path_on_tier_def ex_tier_def
      BIT_def word_le_nat_alt upt_rec)

theorem readdir_complete_witness:
  "\<exists>x. readdir ex_dir_env ex_dir_inode [1, 2, 5] 0 (Some ex_dir_file) ex_pool = (Ok [''.'', ''..'', ''a'', ''b'', ''c''], x)"
proof -
  obtain c sbi' where c: "build_dir_cache ex_dir_env ex_dir_inode ex_pool = (Ok c, sbi')" "map de_name (dc_entries c) = [''a'', ''b'', ''c'']"
    using ex_dir_build by (elim exE conjE)
  from readdir_complete [OF c(1), of "[1, 2, 5]" "df_info ex_dir_file"] show ?thesis unfolding c(2) by (simp add: ex_dir_file_def)
qed

theorem opendir_uninitialised_listing_witness:
  "\<exists>df si' x. opendir ex_lower_env (\<lambda>i. i) (Some \<lparr>dc_entries = [ex_entry ''ghost'' 1], dc_cap = 64\<rparr>) 0 7 ex_dir_inode = (Ok df, si')
    \<and> readdir ex_dir_env si' [9] 0 (Some df) ex_pool = (Ok [''.'', ''..'', ''ghost''], x)"
proof -
  obtain df si' where o: "opendir ex_lower_env (\<lambda>i. i) (Some \<lparr>dc_entries = [ex_entry ''ghost'' 1], dc_cap = 64\<rparr>) 0 7 ex_dir_inode = (Ok df, si')"
    by (simp add: opendir_def open_lower_def open_lower_now_def ex_lower_env_def ex_dir_inode_def Let_def)
  from opendir_uninitialised_listing [OF o, of ex_dir_env "[9]" ex_pool] o show ?thesis by (simp add: ex_entry_def)
qed

theorem dir_fsync_syncs_every_tier_witness:
  "\<exists>synced. fst (snd (dir_fsync ex_dir_env ex_lower_env (\<lambda>l e. Ok (length e)) (\<lambda>d. None) (\<lambda>i. None)
        (Some \<lparr>fi_lower_file = Some \<lparr>of_path = \<lparr>p_mnt = 0, p_dentry = 9\<rparr>, of_flags = 0\<rparr>, fi_lower_gen = 0, fi_open_flags = 0, fi_open_cred = 7\<rparr>)
        ex_dir_inode ex_pool Map.empty)) = synced \<and> \<lparr>p_mnt = 1, p_dentry = 100\<rparr> \<in> set synced"
proof -
  let ?fi = "\<lparr>fi_lower_file = Some \<lparr>of_path = \<lparr>p_mnt = 0, p_dentry = 9\<rparr>, of_flags = 0\<rparr>, fi_lower_gen = 0, fi_open_flags = 0, fi_open_cred = 7\<rparr>"
  obtain synced fs sbi' xs' where d: "dir_fsync ex_dir_env ex_lower_env (\<lambda>l e. Ok (length e)) (\<lambda>d. None) (\<lambda>i. None) (Some ?fi)
        ex_dir_inode ex_pool Map.empty = (Done, synced, fs, sbi', xs')" and n: "sbi_ntiers sbi' = 2" "sbi_tiers sbi' = [ex_tier 0, ex_tier 1]"
    by (simp add: dir_fsync_def lower_file_def reissue_lower_def ex_dir_inode_def ex_inode_def ex_dir_env_def oid_wb_drain_def oid_wb_worker_def
        oid_wb_take_def placement_wb_drain_def placement_wb_worker_def ex_pool_def resolve_rel_path_on_tier_def ex_tier_def upt_rec Let_def word_le_nat_alt)
  have t: "1 < sbi_ntiers sbi'" "resolve_rel_path_on_tier (dv_lookup ex_dir_env) sbi' 1 (Some ''d'') = Ok \<lparr>p_mnt = 1, p_dentry = 100\<rparr>"
      "dv_is_dir ex_dir_env \<lparr>p_mnt = 1, p_dentry = 100\<rparr>" "dv_rel_path ex_dir_env = Some ''d''" "sbi_oid_wb_ready ex_pool" "sbi_placement_wb_ready ex_pool"
    using n by (simp_all add: ex_dir_env_def ex_pool_def resolve_rel_path_on_tier_def ex_tier_def word_le_nat_alt word_less_nat_alt)
  have "\<lparr>p_mnt = 1, p_dentry = 100\<rparr> \<in> set synced"
    using dir_fsync_syncs_every_tier [OF d t(4-6)] t(1-3) by (elim conjE) (drule spec [of _ 1], drule spec, drule mp, assumption, auto)
  then show ?thesis using d by simp
qed

end
