(* ===== verification/Create_Tier.thy ===== *)
theory Create_Tier
  imports Staged_Io
begin

text \<open>
  Where a new file goes: the tier selection of \<open>inode.c\<close> for the two create policies. The
  fastest-first policy is a scan; the high-water policy halves a water line until some tier has
  more free blocks than it. The lemmas bound the choice: it is always a tier of the pool, a
  faster tier is passed over only when it is nearly full, and under the high-water policy no
  eligible tier has more than twice the free blocks of the chosen one.
\<close>

text \<open>\<open>smoothfs_tier_near_enospc\<close> of \<open>inode.c\<close>: here a failing \<open>statfs\<close> does not count as full.\<close>

definition create_near_enospc :: "io_env \<Rightarrow> sb_info \<Rightarrow> u8 \<Rightarrow> bool" where
  "create_near_enospc env sbi t =
    (case io_statfs env (t_lower_path (tier_at sbi t)) of
       Err _ \<Rightarrow> False
     | Ok (blocks, bavail) \<Rightarrow>
        (if blocks = 0 then False else tier_full (st_full_pct (sbi_staging sbi)) blocks bavail))"

section \<open>The high-water policy\<close>

text \<open>The usable statistics of a tier: \<open>f_blocks\<close> and \<open>f_bavail\<close>.\<close>

definition tier_stats :: "io_env \<Rightarrow> sb_info \<Rightarrow> u8 \<Rightarrow> (u64 \<times> u64) option" where
  "tier_stats env sbi t =
    (case io_statfs env (t_lower_path (tier_at sbi t)) of
       Err _ \<Rightarrow> None
     | Ok (blocks, bavail) \<Rightarrow> (if blocks = 0 then None else Some (blocks, bavail)))"

text \<open>The first loop: the largest tier, and the tier with the most free blocks.\<close>

fun hw_scan :: "io_env \<Rightarrow> sb_info \<Rightarrow> u8 list \<Rightarrow> u64 \<times> u64 \<times> u8 \<Rightarrow> u64 \<times> u64 \<times> u8" where
  "hw_scan env sbi [] acc = acc"
| "hw_scan env sbi (t # ts) (max_blocks, best_avail, best_tier) =
    (case tier_stats env sbi t of
       None \<Rightarrow> hw_scan env sbi ts (max_blocks, best_avail, best_tier)
     | Some (blocks, bavail) \<Rightarrow>
        hw_scan env sbi ts
          (if max_blocks < blocks then blocks else max_blocks,
           if best_avail < bavail then bavail else best_avail,
           if best_avail < bavail then t else best_tier))"

definition hw_eligible :: "io_env \<Rightarrow> sb_info \<Rightarrow> u8 \<Rightarrow> bool" where
  "hw_eligible env sbi t \<longleftrightarrow> tier_stats env sbi t \<noteq> None
     \<and> (t = sbi_ntiers sbi - 1 \<or> \<not> create_near_enospc env sbi t)"

definition hw_avail :: "io_env \<Rightarrow> sb_info \<Rightarrow> u8 \<Rightarrow> u64" where
  "hw_avail env sbi t = (case tier_stats env sbi t of None \<Rightarrow> 0 | Some (_, bavail) \<Rightarrow> bavail)"

definition hw_pick :: "io_env \<Rightarrow> sb_info \<Rightarrow> u64 \<Rightarrow> u8 option" where
  "hw_pick env sbi water = find (\<lambda>t. hw_eligible env sbi t \<and> water < hw_avail env sbi t) (tier_ids sbi)"

lemma half_less: "(w :: u64) \<noteq> 0 \<Longrightarrow> unat (w div 2) < unat w"
  by (simp add: unat_div unat_gt_0)

text \<open>The second loop: the water line is halved until a tier rises above it or it reaches zero.\<close>

function hw_loop :: "io_env \<Rightarrow> sb_info \<Rightarrow> u64 \<Rightarrow> u8 option" where
  "hw_loop env sbi water =
    (if water = 0 then None
     else case hw_pick env sbi water of
         Some t \<Rightarrow> Some t
       | None \<Rightarrow> hw_loop env sbi (water div 2))"
  by pat_completeness auto

termination
  by (relation "measure (\<lambda>(env, sbi, w). unat w)") (simp_all add: half_less)

declare hw_loop.simps [simp del]

definition select_high_water_tier :: "io_env \<Rightarrow> bool \<Rightarrow> bool \<Rightarrow> sb_info \<Rightarrow> u8" where
  "select_high_water_tier env alloc_stats alloc_ok sbi =
    (if \<not> alloc_stats \<or> \<not> alloc_ok then sbi_fastest_tier sbi
     else case hw_scan env sbi (tier_ids sbi) (0, 0, sbi_fastest_tier sbi) of
         (max_blocks, _, best_tier) \<Rightarrow>
           (case hw_loop env sbi (max_blocks div 2) of Some t \<Rightarrow> t | None \<Rightarrow> best_tier))"

section \<open>The create tier\<close>

fun first_with_space :: "io_env \<Rightarrow> sb_info \<Rightarrow> u8 list \<Rightarrow> u8" where
  "first_with_space env sbi [] = sbi_fastest_tier sbi"
| "first_with_space env sbi (t # ts) =
    (if t = sbi_ntiers sbi - 1 then t
     else if \<not> create_near_enospc env sbi t then t
     else first_with_space env sbi ts)"

definition select_create_tier :: "io_env \<Rightarrow> bool \<Rightarrow> bool \<Rightarrow> sb_info \<Rightarrow> u8" where
  "select_create_tier env alloc_stats alloc_ok sbi =
    (if sbi_cache_mode sbi then sbi_ntiers sbi - 1
     else if sbi_ntiers sbi \<le> 1 then sbi_fastest_tier sbi
     else if sbi_create_policy sbi = CREATE_POLICY_HIGH_WATER then select_high_water_tier env alloc_stats alloc_ok sbi
     else first_with_space env sbi (tier_ids sbi))"

section \<open>Bounds\<close>

lemma hw_pick_Some:
  "hw_pick env sbi w = Some t \<Longrightarrow> t < sbi_ntiers sbi \<and> hw_eligible env sbi t \<and> w < hw_avail env sbi t"
  using set_tier_ids [of sbi] by (auto simp: hw_pick_def find_Some_iff dest!: nth_mem)

lemma hw_pick_None:
  "hw_pick env sbi w = None \<Longrightarrow> t < sbi_ntiers sbi \<Longrightarrow> hw_eligible env sbi t \<Longrightarrow> hw_avail env sbi t \<le> w"
proof -
  assume n: "hw_pick env sbi w = None" and t: "t < sbi_ntiers sbi" "hw_eligible env sbi t"
  have "t \<in> set (tier_ids sbi)" using t(1) unfolding set_tier_ids by simp
  then show "hw_avail env sbi t \<le> w" using n t(2) unfolding hw_pick_def find_None_iff by (auto simp: not_less)
qed

lemma hw_loop_Some:
  assumes "\<And>t. t < sbi_ntiers sbi \<Longrightarrow> hw_eligible env sbi t \<Longrightarrow> unat (hw_avail env sbi t) \<le> 2 * unat w + 1"
    and "hw_loop env sbi w = Some r"
  shows "r < sbi_ntiers sbi \<and> hw_eligible env sbi r
    \<and> (\<forall>t < sbi_ntiers sbi. hw_eligible env sbi t \<longrightarrow> unat (hw_avail env sbi t) \<le> 2 * unat (hw_avail env sbi r))"
  using assms
proof (induction env sbi w rule: hw_loop.induct)
  case (1 env sbi w)
  have w: "w \<noteq> 0" using 1(3) by (auto simp: hw_loop.simps)
  show ?case
  proof (cases "hw_pick env sbi w")
    case (Some t)
    then have r: "r = t" using 1(3) w by (simp add: hw_loop.simps)
    have p: "t < sbi_ntiers sbi" "hw_eligible env sbi t" "unat w < unat (hw_avail env sbi t)"
      using hw_pick_Some [OF Some] by (auto simp: word_less_nat_alt)
    have "unat (hw_avail env sbi u) \<le> 2 * unat (hw_avail env sbi t)" if "u < sbi_ntiers sbi" "hw_eligible env sbi u" for u
      using 1(2) [OF that] p(3) by linarith
    then show ?thesis using p r by blast
  next
    case None
    have "hw_loop env sbi (w div 2) = Some r" using 1(3) w None by (simp add: hw_loop.simps [of env sbi w])
    moreover have "unat (hw_avail env sbi t) \<le> 2 * unat (w div 2) + 1" if "t < sbi_ntiers sbi" "hw_eligible env sbi t" for t
    proof -
      have "unat (hw_avail env sbi t) \<le> unat w" using hw_pick_None [OF None that] by (simp add: word_le_nat_alt)
      then show ?thesis by (simp add: unat_div)
    qed
    ultimately show ?thesis using 1(1) [OF w None] by blast
  qed
qed

lemma hw_loop_None:
  assumes "\<And>t. t < sbi_ntiers sbi \<Longrightarrow> hw_eligible env sbi t \<Longrightarrow> unat (hw_avail env sbi t) \<le> 2 * unat w + 1"
    and "hw_loop env sbi w = None" "t < sbi_ntiers sbi" "hw_eligible env sbi t"
  shows "unat (hw_avail env sbi t) \<le> 1"
  using assms
proof (induction env sbi w rule: hw_loop.induct)
  case (1 env sbi w)
  show ?case
  proof (cases "w = 0")
    case True
    then show ?thesis using 1(2) [OF 1(4,5)] by simp
  next
    case w: False
    have p: "hw_pick env sbi w = None" using 1(3) w by (simp add: hw_loop.simps [of env sbi w] split: option.splits)
    have l: "hw_loop env sbi (w div 2) = None" using 1(3) w p by (simp add: hw_loop.simps [of env sbi w])
    have "unat (hw_avail env sbi u) \<le> 2 * unat (w div 2) + 1" if "u < sbi_ntiers sbi" "hw_eligible env sbi u" for u
    proof -
      have "unat (hw_avail env sbi u) \<le> unat w" using hw_pick_None [OF p that] by (simp add: word_le_nat_alt)
      then show ?thesis by (simp add: unat_div)
    qed
    then show ?thesis using 1(1) [OF w p _ l 1(4,5)] by blast
  qed
qed

text \<open>What the first loop computes.\<close>

lemma hw_scan_bounds:
  assumes "hw_scan env sbi ts (m, a, b) = (m', a', b')" "a = 0 \<or> hw_avail env sbi b = a"
  shows "m \<le> m' \<and> a \<le> a' \<and> (\<forall>t \<in> set ts. \<forall>bl av. tier_stats env sbi t = Some (bl, av) \<longrightarrow> bl \<le> m' \<and> av \<le> a')
    \<and> (a' = 0 \<or> hw_avail env sbi b' = a') \<and> (b' = b \<or> b' \<in> set ts)"
  using assms
proof (induction ts arbitrary: m a b)
  case Nil
  then show ?case by simp
next
  case (Cons t ts)
  show ?case
  proof (cases "tier_stats env sbi t")
    case None
    then show ?thesis using Cons by auto
  next
    case (Some p)
    obtain bl av where p: "p = (bl, av)" by fastforce
    have ih: "hw_scan env sbi ts (if m < bl then bl else m, if a < av then av else a, if a < av then t else b) = (m', a', b')"
      using Cons.prems(1) Some p by simp
    have inv: "(if a < av then av else a) = 0 \<or> hw_avail env sbi (if a < av then t else b) = (if a < av then av else a)"
      using Cons.prems(2) Some p by (simp add: hw_avail_def)
    from Cons.IH [OF ih inv] have
      ih': "(if m < bl then bl else m) \<le> m'" "(if a < av then av else a) \<le> a'"
        "\<forall>t \<in> set ts. \<forall>bl av. tier_stats env sbi t = Some (bl, av) \<longrightarrow> bl \<le> m' \<and> av \<le> a'"
        "a' = 0 \<or> hw_avail env sbi b' = a'" "b' = (if a < av then t else b) \<or> b' \<in> set ts" by blast+
    have "m \<le> m'" "bl \<le> m'" using ih'(1) by (auto split: if_splits)
    moreover have "a \<le> a'" "av \<le> a'" using ih'(2) by (auto split: if_splits)
    ultimately show ?thesis using ih' Some p by (auto split: if_splits)
  qed
qed

text \<open>As \<open>statfs(2)\<close> has it, the free blocks are at most all blocks.\<close>

definition statfs_ok :: "io_env \<Rightarrow> bool" where
  "statfs_ok env \<longleftrightarrow> (\<forall>p bl av. io_statfs env p = Ok (bl, av) \<longrightarrow> av \<le> bl)"

lemma tier_stats_ok: "statfs_ok env \<Longrightarrow> tier_stats env sbi t = Some (bl, av) \<Longrightarrow> av \<le> bl"
  by (auto simp: statfs_ok_def tier_stats_def split: sum.splits if_splits)

lemma high_water_choice:
  assumes "statfs_ok env" "sbi_fastest_tier sbi < sbi_ntiers sbi"
  shows "select_high_water_tier env True True sbi < sbi_ntiers sbi
    \<and> (\<forall>t < sbi_ntiers sbi. hw_eligible env sbi t
         \<longrightarrow> unat (hw_avail env sbi t) \<le> 2 * unat (hw_avail env sbi (select_high_water_tier env True True sbi)))"
proof -
  obtain m a b where s: "hw_scan env sbi (tier_ids sbi) (0, 0, sbi_fastest_tier sbi) = (m, a, b)" by (metis prod_cases3)
  from hw_scan_bounds [OF s] have
    st: "\<forall>t \<in> set (tier_ids sbi). \<forall>bl av. tier_stats env sbi t = Some (bl, av) \<longrightarrow> bl \<le> m \<and> av \<le> a"
      "a = 0 \<or> hw_avail env sbi b = a" "b = sbi_fastest_tier sbi \<or> b \<in> set (tier_ids sbi)" by auto
  have b: "b < sbi_ntiers sbi" using st(3) assms(2) unfolding set_tier_ids by auto
  have le: "unat (hw_avail env sbi t) \<le> unat a" "unat (hw_avail env sbi t) \<le> 2 * unat (m div 2) + 1"
    if t: "t < sbi_ntiers sbi" "hw_eligible env sbi t" for t
  proof -
    obtain bl av where q: "tier_stats env sbi t = Some (bl, av)" using t(2) by (auto simp: hw_eligible_def)
    then have "bl \<le> m" "av \<le> a" using st(1) t(1) unfolding set_tier_ids by auto
    moreover have "av \<le> bl" by (rule tier_stats_ok [OF assms(1) q])
    ultimately have "unat av \<le> unat m" "unat av \<le> unat a" by (auto simp: word_le_nat_alt)
    then show "unat (hw_avail env sbi t) \<le> unat a" "unat (hw_avail env sbi t) \<le> 2 * unat (m div 2) + 1"
      using q by (simp_all add: hw_avail_def unat_div)
  qed
  show ?thesis
  proof (cases "hw_loop env sbi (m div 2)")
    case (Some r)
    then show ?thesis using hw_loop_Some [OF le(2) Some] s by (simp add: select_high_water_tier_def)
  next
    case None
    have "unat (hw_avail env sbi t) \<le> 2 * unat (hw_avail env sbi b)" if "t < sbi_ntiers sbi" "hw_eligible env sbi t" for t
      using le(1) [OF that] st(2) by auto
    then show ?thesis using None s b by (simp add: select_high_water_tier_def)
  qed
qed

lemma first_with_space_choice:
  assumes "sbi_ntiers sbi - 1 \<in> set ts" "sorted_wrt (<) ts"
  shows "first_with_space env sbi ts \<in> set ts
    \<and> (first_with_space env sbi ts = sbi_ntiers sbi - 1 \<or> \<not> create_near_enospc env sbi (first_with_space env sbi ts))
    \<and> (\<forall>t \<in> set ts. t < first_with_space env sbi ts \<longrightarrow> create_near_enospc env sbi t)"
  using assms by (induction ts) (auto dest: order.asym)

lemma tier_ids_sorted: "sorted_wrt (<) (tier_ids sbi)"
proof -
  have n: "ntiers sbi < 2 ^ LENGTH(8)" by (rule unsigned_less)
  have "(word_of_nat i :: u8) < word_of_nat j" if "i < j" "j < ntiers sbi" for i j
    using that n by (simp add: word_less_nat_alt unat_of_nat take_bit_nat_eq_self)
  then show ?thesis unfolding sorted_wrt_map by (auto simp: sorted_wrt_iff_nth_less)
qed

text \<open>
  C27. A new file always goes to a tier of the pool: the permanent tier in cache mode; under the
  fastest-first policy the fastest tier that is not nearly full, or the slowest one; under the
  high-water policy a tier such that no eligible tier has more than twice its free blocks.
\<close>

theorem select_create_tier_sound:
  assumes "pool_wf sbi" "statfs_ok env" "t = select_create_tier env True True sbi"
  shows "t < sbi_ntiers sbi
    \<and> (sbi_cache_mode sbi \<longrightarrow> t = sbi_ntiers sbi - 1)
    \<and> (\<not> sbi_cache_mode sbi \<and> 1 < sbi_ntiers sbi \<and> sbi_create_policy sbi \<noteq> CREATE_POLICY_HIGH_WATER \<longrightarrow>
         (\<forall>u < t. create_near_enospc env sbi u) \<and> (t = sbi_ntiers sbi - 1 \<or> \<not> create_near_enospc env sbi t))
    \<and> (\<not> sbi_cache_mode sbi \<and> 1 < sbi_ntiers sbi \<and> sbi_create_policy sbi = CREATE_POLICY_HIGH_WATER \<longrightarrow>
         (\<forall>u < sbi_ntiers sbi. hw_eligible env sbi u \<longrightarrow> unat (hw_avail env sbi u) \<le> 2 * unat (hw_avail env sbi t)))"
proof -
  have n0: "sbi_ntiers sbi \<noteq> 0" "sbi_fastest_tier sbi < sbi_ntiers sbi" using assms(1) by (auto simp: pool_wf_def unat_gt_0)
  then have last: "sbi_ntiers sbi - 1 < sbi_ntiers sbi" by (simp add: word_less_nat_alt unat_minus_one)
  then have "sbi_ntiers sbi - 1 \<in> set (tier_ids sbi)" unfolding set_tier_ids by simp
  note fs = first_with_space_choice [OF this tier_ids_sorted, of env, unfolded set_tier_ids]
  note hw = high_water_choice [OF assms(2) n0(2)]
  have "\<not> (sbi_ntiers sbi \<le> 1 \<and> 1 < sbi_ntiers sbi)" by auto
  then show ?thesis unfolding assms(3) select_create_tier_def using last n0(2) fs hw
    by (auto simp: not_le dest: order.strict_trans)
qed

theorem select_create_tier_sound_witness:
  "select_create_tier \<lparr>io_kread = disk_read, io_kwrite = disk_write, io_vread = disk_read, io_vwrite = disk_write, io_copy = length,
     io_alloc_name = True, io_alloc_range = True, io_alloc_buf = True, io_open_stage = (\<lambda>n. Err ENOENT),
     io_dentry_open = (\<lambda>p. Done), io_statfs = (\<lambda>p. Ok (100, if p_mnt p = 0 then 1 else 60)), io_mapped = (\<lambda>d. False), io_fsync = (\<lambda>p. Done),
     io_ancestors = (\<lambda>d. []), io_unlink = (\<lambda>p. Done), io_grab = (\<lambda>r. True), io_now = 7, io_persist = env_ok\<rparr> True True ex_pool < 2"
proof -
  let ?env = "\<lparr>io_kread = disk_read, io_kwrite = disk_write, io_vread = disk_read, io_vwrite = disk_write, io_copy = length,
     io_alloc_name = True, io_alloc_range = True, io_alloc_buf = True, io_open_stage = (\<lambda>n. Err ENOENT),
     io_dentry_open = (\<lambda>p. Done), io_statfs = (\<lambda>p. Ok (100, if p_mnt p = 0 then 1 else 60)), io_mapped = (\<lambda>d. False), io_fsync = (\<lambda>p. Done),
     io_ancestors = (\<lambda>d. []), io_unlink = (\<lambda>p. Done), io_grab = (\<lambda>r. True), io_now = 7, io_persist = env_ok\<rparr>"
  have "statfs_ok ?env" by (auto simp: statfs_ok_def word_le_nat_alt)
  from select_create_tier_sound [OF ex_pool_wf this refl] show ?thesis by (simp add: ex_pool_def)
qed

end
