(* ===== verification/Tier_Paths.thy ===== *)
theory Tier_Paths
  imports Create_Tier
begin

text \<open>
  Names on the tiers. Every lower filesystem is a tree of names below the root of its tier; the
  operations here work on one relative path on one tier (\<open>super.c\<close>: unlink, rmdir and rename on
  a tier, the copies of a renamed directory, forgetting a placement), search a name on all tiers,
  and create missing parents on a tier (\<open>inode.c\<close>). The rehome machinery rests on them: a
  truncated file moves to the fastest tier at once, and the copy it left behind is unlinked later.
\<close>

section \<open>The lower trees\<close>

text \<open>
  \<open>n_tree m s\<close> is the positive dentry at the relative path \<open>s\<close> of the lower filesystem mounted
  as \<open>m\<close>; \<open>n_at\<close> is where a dentry is, or was when it was unlinked; \<open>n_nlink\<close> is the link count
  of a lower inode.
\<close>

record ns_world =
  n_sbi :: sb_info
  n_xs :: xattrs
  n_tree :: "vfsmount \<Rightarrow> string \<Rightarrow> dentry option"
  n_at :: "dentry \<Rightarrow> vfsmount \<times> string"
  n_nlink :: "nat \<Rightarrow> nat"

text \<open>
  The kernel's side: the attributes of lower dentries, allocations, the error for a name that is
  missing (\<open>ENOENT\<close> or \<open>ENOTDIR\<close>), lookups that fail for another reason, and the results of the
  namespace operations of the lower filesystems; a creation gives the new dentry.
\<close>

record ns_env =
  ne_ig :: iget_env
  ne_io :: io_env
  ne_alloc :: bool
  ne_missing :: "vfsmount \<Rightarrow> string \<Rightarrow> errno"
  ne_fault :: "vfsmount \<Rightarrow> string \<Rightarrow> errno option"
  ne_create :: "path \<Rightarrow> string \<Rightarrow> dentry res"
  ne_mkdir :: "path \<Rightarrow> string \<Rightarrow> dentry res"
  ne_mknod :: "path \<Rightarrow> string \<Rightarrow> dentry res"
  ne_symlink :: "path \<Rightarrow> string \<Rightarrow> dentry res"
  ne_link :: "dentry \<Rightarrow> path \<Rightarrow> string \<Rightarrow> dentry res"
  ne_unlink :: "dentry \<Rightarrow> unit res"
  ne_rmdir :: "dentry \<Rightarrow> unit res"
  ne_rename :: "dentry \<Rightarrow> path \<Rightarrow> string \<Rightarrow> unit res"
  ne_notify :: "dentry \<Rightarrow> unit res"
  ne_write_gen :: "dentry \<Rightarrow> unit res"

abbreviation upd_ns :: "(sb_info \<Rightarrow> sb_info) \<Rightarrow> ns_world \<Rightarrow> ns_world" where
  "upd_ns f w \<equiv> w\<lparr>n_sbi := f (n_sbi w)\<rparr>"

abbreviation ns_ino :: "iref \<Rightarrow> ns_world \<Rightarrow> inode_info option" where
  "ns_ino r w \<equiv> sbi_inodes (n_sbi w) r"

definition join_path :: "string \<Rightarrow> string \<Rightarrow> string" where
  "join_path p n = (if p = [] then n else p @ ''/'' @ n)"

definition ns_kind :: "ns_env \<Rightarrow> dentry \<Rightarrow> ikind" where
  "ns_kind env d = ig_kind (ne_ig env) d"

definition ns_walk :: "ns_env \<Rightarrow> ns_world \<Rightarrow> path \<Rightarrow> string \<Rightarrow> path res" where
  "ns_walk env w root s =
    (case ne_fault env (p_mnt root) s of
       Some e \<Rightarrow> Err e
     | None \<Rightarrow>
        (case n_tree w (p_mnt root) s of
           None \<Rightarrow> Err (ne_missing env (p_mnt root) s)
         | Some d \<Rightarrow> Ok \<lparr>p_mnt = p_mnt root, p_dentry = d\<rparr>))"

definition ns_child :: "ns_env \<Rightarrow> ns_world \<Rightarrow> path \<Rightarrow> string \<Rightarrow> dentry option res" where
  "ns_child env w parent name =
    (let s = join_path (snd (n_at w (p_dentry parent))) name
     in case ne_fault env (p_mnt parent) s of Some e \<Rightarrow> Err e | None \<Rightarrow> Ok (n_tree w (p_mnt parent) s))"

definition put_name :: "vfsmount \<Rightarrow> string \<Rightarrow> dentry \<Rightarrow> ns_world \<Rightarrow> ns_world" where
  "put_name m s d w = w\<lparr>n_tree := (n_tree w)(m := (n_tree w m)(s \<mapsto> d)), n_at := (n_at w)(d := (m, s))\<rparr>"

definition cut_name :: "vfsmount \<Rightarrow> string \<Rightarrow> ns_world \<Rightarrow> ns_world" where
  "cut_name m s w = w\<lparr>n_tree := (n_tree w)(m := (n_tree w m)(s := None))\<rparr>"

definition set_nlink :: "ns_env \<Rightarrow> dentry \<Rightarrow> (nat \<Rightarrow> nat) \<Rightarrow> ns_world \<Rightarrow> ns_world" where
  "set_nlink env d f w =
    (case ig_dino (ne_ig env) d of None \<Rightarrow> w | Some n \<Rightarrow> w\<lparr>n_nlink := (n_nlink w)(n := f (n_nlink w n))\<rparr>)"

definition lower_nlink :: "ns_env \<Rightarrow> ns_world \<Rightarrow> dentry \<Rightarrow> nat" where
  "lower_nlink env w d = (case ig_dino (ne_ig env) d of None \<Rightarrow> 0 | Some n \<Rightarrow> n_nlink w n)"

text \<open>\<open>vfs_unlink\<close> and \<open>vfs_rmdir\<close> of the entry a dentry is at.\<close>

definition lower_unlink :: "ns_env \<Rightarrow> dentry \<Rightarrow> ns_world \<Rightarrow> unit res \<times> ns_world" where
  "lower_unlink env d w =
    (case ne_unlink env d of
       Err e \<Rightarrow> (Err e, w)
     | Ok _ \<Rightarrow> (Done, set_nlink env d (\<lambda>n. n - 1) (cut_name (fst (n_at w d)) (snd (n_at w d)) w)))"

definition lower_rmdir :: "ns_env \<Rightarrow> dentry \<Rightarrow> ns_world \<Rightarrow> unit res \<times> ns_world" where
  "lower_rmdir env d w =
    (case ne_rmdir env d of
       Err e \<Rightarrow> (Err e, w)
     | Ok _ \<Rightarrow> (Done, set_nlink env d (\<lambda>n. 0) (cut_name (fst (n_at w d)) (snd (n_at w d)) w)))"

text \<open>
  \<open>vfs_rename\<close> of a dentry to a name below a parent of the same filesystem; everything below a
  renamed directory moves with it, and an entry that was at the new name is gone.
\<close>

definition moved_path :: "string \<Rightarrow> string \<Rightarrow> string \<Rightarrow> string option" where
  "moved_path old new s =
    (if s = old then Some new
     else if take (length old + 1) s = old @ ''/'' then Some (new @ drop (length old) s) else None)"

definition rename_tree :: "string \<Rightarrow> string \<Rightarrow> (string \<Rightarrow> dentry option) \<Rightarrow> string \<Rightarrow> dentry option" where
  "rename_tree old new f s =
    (case moved_path new old s of
       Some src \<Rightarrow> f src
     | None \<Rightarrow> (if moved_path old new s \<noteq> None then None else f s))"

definition exchange_tree :: "string \<Rightarrow> string \<Rightarrow> (string \<Rightarrow> dentry option) \<Rightarrow> string \<Rightarrow> dentry option" where
  "exchange_tree old new f s =
    (case moved_path new old s of
       Some src \<Rightarrow> f src
     | None \<Rightarrow> (case moved_path old new s of Some src \<Rightarrow> f src | None \<Rightarrow> f s))"

text \<open>Where a dentry is after names moved: a dentry that was not at a name keeps its old place.\<close>

definition moved_at :: "bool \<Rightarrow> vfsmount \<Rightarrow> string \<Rightarrow> string \<Rightarrow> ns_world \<Rightarrow> dentry \<Rightarrow> vfsmount \<times> string" where
  "moved_at exch m old new w x =
    (case n_at w x of
       (mx, s) \<Rightarrow>
         (if mx \<noteq> m \<or> n_tree w m s \<noteq> Some x then (mx, s)
          else case moved_path old new s of
              Some s' \<Rightarrow> (m, s')
            | None \<Rightarrow> (case (if exch then moved_path new old s else None) of Some s' \<Rightarrow> (m, s') | None \<Rightarrow> (m, s))))"

definition lower_rename :: "ns_env \<Rightarrow> bool \<Rightarrow> dentry \<Rightarrow> path \<Rightarrow> string \<Rightarrow> ns_world \<Rightarrow> unit res \<times> ns_world" where
  "lower_rename env exch d parent name w =
    (case ne_rename env d parent name of
       Err e \<Rightarrow> (Err e, w)
     | Ok _ \<Rightarrow>
        (let m = fst (n_at w d); old = snd (n_at w d); new = join_path (snd (n_at w (p_dentry parent))) name
         in if new = old then (Done, w)
            else let w1 = (case n_tree w m new of Some v \<Rightarrow> (if exch then w else set_nlink env v (\<lambda>n. n - 1) w) | None \<Rightarrow> w)
              in (Done, w1\<lparr>n_tree := (n_tree w1)(m := (if exch then exchange_tree else rename_tree) old new (n_tree w1 m)),
                            n_at := moved_at exch m old new w1\<rparr>)))"

section \<open>One path on one tier\<close>

definition on_tier :: "ns_env \<Rightarrow> ns_world \<Rightarrow> u8 \<Rightarrow> string \<Rightarrow> path res" where
  "on_tier env w t s = resolve_rel_path_on_tier (ns_walk env w) (n_sbi w) t (Some s)"

text \<open>The parent and the last component, as \<open>strrchr\<close> splits a relative path.\<close>

definition split_rel :: "string \<Rightarrow> string \<times> string" where
  "split_rel s = (case split_last_slash s of None \<Rightarrow> ([], s) | Some pn \<Rightarrow> pn)"

definition unlink_rel_path_on_tier :: "ns_env \<Rightarrow> u8 \<Rightarrow> string \<Rightarrow> ns_world \<Rightarrow> unit res \<times> ns_world" where
  "unlink_rel_path_on_tier env t s w =
    (if s = [] then (Err EINVAL, w)
     else if \<not> ne_alloc env then (Err ENOMEM, w)
     else case split_rel s of
         (parent_rel, name) \<Rightarrow>
           (if name = [] then (Err EINVAL, w)
            else case on_tier env w t parent_rel of
                Err e \<Rightarrow> (Err e, w)
              | Ok parent \<Rightarrow>
                 (case ns_child env w parent name of
                    Err e \<Rightarrow> (Err e, w)
                  | Ok None \<Rightarrow> (Done, w)
                  | Ok (Some lower) \<Rightarrow>
                     (if ns_kind env lower \<noteq> IK_REG then (Err EISDIR, w) else lower_unlink env lower w))))"

definition rmdir_rel_path_on_tier :: "ns_env \<Rightarrow> u8 \<Rightarrow> string \<Rightarrow> ns_world \<Rightarrow> unit res \<times> ns_world" where
  "rmdir_rel_path_on_tier env t s w =
    (if s = [] then (Err EINVAL, w)
     else if \<not> ne_alloc env then (Err ENOMEM, w)
     else case split_rel s of
         (parent_rel, name) \<Rightarrow>
           (if name = [] then (Err EINVAL, w)
            else case on_tier env w t parent_rel of
                Err e \<Rightarrow> (if e = ENOENT then Done else Err e, w)
              | Ok parent \<Rightarrow>
                 (case ns_child env w parent name of
                    Err e \<Rightarrow> (Err e, w)
                  | Ok None \<Rightarrow> (Done, w)
                  | Ok (Some lower) \<Rightarrow>
                     (if ns_kind env lower \<noteq> IK_DIR then (Err ENOTDIR, w) else lower_rmdir env lower w))))"

text \<open>\<open>smoothfs_compat_rename\<close> with a missing source is a success that does nothing.\<close>

definition rename_rel_path_on_tier :: "ns_env \<Rightarrow> u8 \<Rightarrow> string \<Rightarrow> string \<Rightarrow> ns_world \<Rightarrow> unit res \<times> ns_world" where
  "rename_rel_path_on_tier env t old new w =
    (if old = [] \<or> new = [] then (Err EINVAL, w)
     else if \<not> ne_alloc env then (Err ENOMEM, w)
     else case (split_rel old, split_rel new) of
         ((o_parent, o_name), (n_parent, n_name)) \<Rightarrow>
           (if o_name = [] \<or> n_name = [] then (Err EINVAL, w)
            else case on_tier env w t o_parent of
                Err e \<Rightarrow> (if e = ENOENT then Done else Err e, w)
              | Ok op \<Rightarrow>
                 (case on_tier env w t n_parent of
                    Err e \<Rightarrow> (if e = ENOENT then Done else Err e, w)
                  | Ok np \<Rightarrow>
                     (case ns_child env w op o_name of
                        Err e \<Rightarrow> (Err e, w)
                      | Ok None \<Rightarrow> (Done, w)
                      | Ok (Some d) \<Rightarrow> lower_rename env False d np n_name w))))"

definition rename_spill_tiers :: "ns_env \<Rightarrow> string \<Rightarrow> string \<Rightarrow> ns_world \<Rightarrow> ns_world" where
  "rename_spill_tiers env old new w =
     fold (\<lambda>t w. if \<not> metadata_tier_active (n_sbi w) t then w else snd (rename_rel_path_on_tier env t old new w))
       (tier_ids (n_sbi w)) w"

section \<open>All tiers\<close>

fun across_loop :: "ns_env \<Rightarrow> u8 \<Rightarrow> string option \<Rightarrow> u8 list \<Rightarrow> ns_world \<Rightarrow> (path \<times> u8) res \<times> ns_world" where
  "across_loop env exclude rel [] w = (Err ENOENT, w)"
| "across_loop env exclude rel (t # ts) w =
    (if t = exclude \<or> rel = None \<or> rel = Some [] then across_loop env exclude rel ts w
     else if \<not> metadata_tier_active (n_sbi w) t then across_loop env exclude rel ts (upd_ns note_metadata_tier_skip w)
     else case on_tier env w t (the rel) of
         Ok p \<Rightarrow> (Ok (p, t), w)
       | Err _ \<Rightarrow> across_loop env exclude rel ts w)"

definition lookup_rel_across_tiers :: "ns_env \<Rightarrow> u8 \<Rightarrow> string option \<Rightarrow> ns_world \<Rightarrow> (path \<times> u8) res \<times> ns_world" where
  "lookup_rel_across_tiers env exclude rel w =
     across_loop env exclude rel (if sbi_cache_mode (n_sbi w) then [sbi_ntiers (n_sbi w) - 1] else tier_ids (n_sbi w)) w"

definition purge_dir_tiers :: "ns_env \<Rightarrow> string \<Rightarrow> ns_world \<Rightarrow> ns_world" where
  "purge_dir_tiers env rel w =
     fold (\<lambda>t w. if \<not> metadata_tier_active (n_sbi w) t then w else snd (rmdir_rel_path_on_tier env t rel w))
       (tier_ids (n_sbi w)) w"

definition forget_placement :: "ns_env \<Rightarrow> iref \<Rightarrow> bool \<Rightarrow> ns_world \<Rightarrow> ns_world" where
  "forget_placement env r purge w =
    (case ns_ino r w of
       None \<Rightarrow> w
     | Some si \<Rightarrow>
        (let rel = si_rel_path si;
             w1 = (if rel = None then w else upd_ns (upd_inode r (\<lambda>i. i\<lparr>si_rel_path := None\<rparr>) \<circ> path_map_del r) w);
             w2 = (case rel of Some s \<Rightarrow> (if purge then purge_dir_tiers env s w1 else w1) | None \<Rightarrow> w1)
         in upd_ns (upd_inode r (\<lambda>i. i\<lparr>si_replay_pinned := False\<rparr>)) w2))"

section \<open>Placing an inode\<close>

abbreviation ig_at :: "ns_env \<Rightarrow> ns_world \<Rightarrow> iget_env" where
  "ig_at env w \<equiv> (ne_ig env)\<lparr>ig_nlink := lower_nlink env w\<rparr>"

definition ns_iget :: "ns_env \<Rightarrow> path \<Rightarrow> bool \<Rightarrow> ns_world \<Rightarrow> iref res \<times> ns_world" where
  "ns_iget env p fresh w =
    (case iget (ig_at env w) p False fresh (n_sbi w) (n_xs w) of (r, sbi, xs) \<Rightarrow> (r, w\<lparr>n_sbi := sbi, n_xs := xs\<rparr>))"

definition ensure_oid_persisted :: "ns_env \<Rightarrow> inode_info \<Rightarrow> ns_world \<Rightarrow> unit res \<times> ns_world" where
  "ensure_oid_persisted env si w =
    (case Option.bind (si_lower_path si) (\<lambda>p. ig_dino (ne_ig env) (p_dentry p)) of
       None \<Rightarrow> (Err ENOENT, w)
     | Some n \<Rightarrow>
        (case read_oid_xattr (ig_rerr (ne_ig env)) n (n_xs w) of
           Ok _ \<Rightarrow> (Done, w)
         | Err e \<Rightarrow>
            (if e \<noteq> ENODATA then (Err e, w)
             else case write_oid_xattr (ig_xerr (ne_ig env)) n (si_oid si) (n_xs w) of
                 (x, xs) \<Rightarrow> (if x = Err EEXIST then Done else x, w\<lparr>n_xs := xs\<rparr>))))"

definition set_inode_placement :: "bool \<Rightarrow> iref \<Rightarrow> string option \<Rightarrow> u8 \<Rightarrow> sb_info \<Rightarrow> unit res \<times> sb_info" where
  "set_inode_placement alloc r rel t sbi =
    (if rel \<noteq> None \<and> \<not> alloc then (Err ENOMEM, sbi)
     else (Done, upd_inode r (\<lambda>i. i\<lparr>si_current_tier := t, si_intended_tier := t, si_movement_state := MS_PLACED,
                                    si_transaction_seq := 0\<rparr>) (set_rel_path r rel sbi)))"

definition track_placed :: "ns_env \<Rightarrow> iref \<Rightarrow> string option \<Rightarrow> u8 \<Rightarrow> bool \<Rightarrow> bool \<Rightarrow> ns_world \<Rightarrow> unit res \<times> ns_world" where
  "track_placed env r rel t pin record_log w =
    (case set_inode_placement (ne_alloc env) r rel t (n_sbi w) of
       (Err e, _) \<Rightarrow> (Err e, w)
     | (Ok _, sbi1) \<Rightarrow>
        (let w1 = w\<lparr>n_sbi := sbi1\<rparr>
         in case (if record_log
                  then case ns_ino r w1 of
                      None \<Rightarrow> (Err ENOENT, w1)
                    | Some si \<Rightarrow>
                       (case ensure_oid_persisted env si w1 of
                          (Err e, w2) \<Rightarrow> (Err e, w2)
                        | (Ok _, w2) \<Rightarrow>
                           (case placement_record (ne_alloc env) (io_now (ne_io env)) (si_oid si) MS_PLACED t t False (n_sbi w2) of
                              (x, _, sbi3) \<Rightarrow> (x, w2\<lparr>n_sbi := sbi3\<rparr>)))
                  else (Done, w1)) of
             (Err e, w2) \<Rightarrow> (Err e, w2)
           | (Ok _, w2) \<Rightarrow>
              (Done, if pin then upd_ns (upd_inode r (\<lambda>i. i\<lparr>si_replay_pinned := True\<rparr>)) w2 else w2)))"

text \<open>\<open>strsep(&rest, "/")\<close>: the components, empty ones left out.\<close>

fun split_slash :: "string \<Rightarrow> string \<Rightarrow> string list" where
  "split_slash acc [] = (if acc = [] then [] else [acc])"
| "split_slash acc (c # cs) =
    (if c = CHR ''/'' then (if acc = [] then [] else [acc]) @ split_slash [] cs else split_slash (acc @ [c]) cs)"

fun materialize_loop :: "ns_env \<Rightarrow> u8 \<Rightarrow> string list \<Rightarrow> string \<Rightarrow> path \<Rightarrow> ns_world \<Rightarrow> path res \<times> ns_world" where
  "materialize_loop env t [] built cur w = (Ok cur, w)"
| "materialize_loop env t (c # cs) built cur w =
    (if \<not> ne_alloc env then (Err ENOMEM, w)
     else let built' = join_path built c
       in case ns_child env w cur c of
           Err e \<Rightarrow> (Err e, w)
         | Ok (Some d) \<Rightarrow>
            (if ns_kind env d \<noteq> IK_DIR then (Err ENOTDIR, w)
             else materialize_loop env t cs built' \<lparr>p_mnt = p_mnt cur, p_dentry = d\<rparr> w)
         | Ok None \<Rightarrow>
            (case ne_mkdir env cur c of
               Err e \<Rightarrow> (Err e, w)
             | Ok d \<Rightarrow>
                (let p = \<lparr>p_mnt = p_mnt cur, p_dentry = d\<rparr>;
                     w1 = set_nlink env d (\<lambda>n. 2) (put_name (p_mnt cur) (join_path (snd (n_at w (p_dentry cur))) c) d w)
                 in if ns_kind env d \<noteq> IK_DIR then (Err ENOTDIR, w1)
                    else case ns_iget env p True w1 of
                        (Err e, w2) \<Rightarrow> (Err e, w2)
                      | (Ok r, w2) \<Rightarrow>
                         (case track_placed env r (Some built') t True True w2 of
                            (Err e, w3) \<Rightarrow> (Err e, w3)
                          | (Ok _, w3) \<Rightarrow> materialize_loop env t cs built' p w3))))"

definition materialize_parent_on_tier :: "ns_env \<Rightarrow> u8 \<Rightarrow> string option \<Rightarrow> ns_world \<Rightarrow> path res \<times> ns_world" where
  "materialize_parent_on_tier env t rel w =
    (let root = t_lower_path (tier_at (n_sbi w) t)
     in case rel of
         None \<Rightarrow> (Ok root, w)
       | Some s \<Rightarrow>
          (if s = [] then (Ok root, w)
           else if \<not> ne_alloc env then (Err ENOMEM, w)
           else materialize_loop env t (split_slash [] s) [] root w))"

section \<open>Rehoming a truncated file\<close>

definition should_stage_truncate :: "ns_env \<Rightarrow> bool \<Rightarrow> int \<Rightarrow> inode_info \<Rightarrow> sb_info \<Rightarrow> bool" where
  "should_stage_truncate env attr_size ia_size si sbi =
    (if \<not> st_enabled (sbi_staging sbi) then False
     else if si_kind si \<noteq> IK_REG then False
     else if \<not> attr_size \<or> ia_size \<noteq> 0 then False
     else if si_current_tier si = sbi_fastest_tier sbi then False
     else if si_pin_state si \<noteq> PIN_NONE then False
     else if create_near_enospc (ne_io env) sbi (sbi_fastest_tier sbi) then False
     else True)"

text \<open>
  The publication of the new lower file: the path swap, the new place of the inode, the mark for
  the later drain of the old copy, and the lower-number table.
\<close>

definition rehome_swap :: "ns_env \<Rightarrow> iref \<Rightarrow> dentry \<Rightarrow> string \<Rightarrow> path \<Rightarrow> inode_info \<Rightarrow> ns_world \<Rightarrow> ns_world" where
  "rehome_swap env r d rel new_path si w =
    (let sbi0 = n_sbi w; fast = sbi_fastest_tier sbi0;
         old_tier = (case si_lower_path si of None \<Rightarrow> MAX_TIERS | Some p \<Rightarrow> tier_of sbi0 (p_mnt p));
         s1 = upd_inode r (\<lambda>i. snd (swap_lower_path new_path i)) sbi0;
         s2 = set_rel_path r (Some rel) s1;
         s3 = upd_inode r (\<lambda>i. i\<lparr>si_current_tier := fast, si_intended_tier := fast, si_movement_state := MS_PLACED,
                si_transaction_seq := 0, si_write_staged := True, si_write_staged_drain_tier := word_of_nat old_tier,
                si_cutover_gen := si_cutover_gen i + 1\<rparr>) s2;
         s4 = (case si_lower_path si of
                 Some p \<Rightarrow> (if old_tier < MAX_TIERS then lower_ino_map_remove (word_of_nat old_tier) (ig_lino (ne_ig env) (p_dentry p)) s3 else s3)
               | None \<Rightarrow> s3);
         s5 = snd (lower_ino_map_insert (ig_alloc_map (ne_ig env)) fast (ig_lino (ne_ig env) (p_dentry new_path)) r s4);
         s6 = upd_inode r (\<lambda>i. copy_attrs (ig_at env w) (p_dentry new_path)
                (i\<lparr>si_aliases := map (\<lambda>(u, l). if u = d then (u, Some (p_dentry new_path)) else (u, l)) (si_aliases i)\<rparr>)) s5;
         s7 = note_rehome (ne_io env) s6;
         s8 = snd (snd (placement_record (ne_alloc env) (io_now (ne_io env)) (si_oid si) MS_PLACED fast fast False s7))
     in w\<lparr>n_sbi := s8\<rparr>)"

text \<open>\<open>d\<close> is the upper dentry, with its path and the path and name below its parent.\<close>

definition stage_truncate_to_fast ::
  "ns_env \<Rightarrow> bool \<Rightarrow> int \<Rightarrow> iref \<Rightarrow> dentry \<Rightarrow> string option \<Rightarrow> string option \<Rightarrow> string \<Rightarrow> ns_world \<Rightarrow> unit res \<times> ns_world" where
  "stage_truncate_to_fast env attr_size ia_size r d rel parent_rel name w =
    (case ns_ino r w of
       None \<Rightarrow> (Err EOPNOTSUPP, w)
     | Some si \<Rightarrow>
        (if sbi_cache_mode (n_sbi w) \<or> \<not> should_stage_truncate env attr_size ia_size si (n_sbi w) then (Err EOPNOTSUPP, w)
         else case (rel, parent_rel) of
             (Some s, Some ps) \<Rightarrow>
               (if \<not> ne_alloc env then (Err ENOMEM, w)
                else case materialize_parent_on_tier env (sbi_fastest_tier (n_sbi w)) (Some ps) w of
                    (Err e, w1) \<Rightarrow> (Err e, w1)
                  | (Ok parent, w1) \<Rightarrow>
                     (case ns_child env w1 parent name of
                        Err e \<Rightarrow> (Err e, w1)
                      | Ok lo \<Rightarrow>
                         (case (case lo of
                                  Some l \<Rightarrow> (Ok l, w1)
                                | None \<Rightarrow>
                                   (case ne_create env parent name of
                                      Err e \<Rightarrow> (Err e, w1)
                                    | Ok l \<Rightarrow>
                                       (Ok l, set_nlink env l (\<lambda>n. 1)
                                          (put_name (p_mnt parent) (join_path (snd (n_at w1 (p_dentry parent))) name) l w1)))) of
                            (Err e, w2) \<Rightarrow> (Err e, w2)
                          | (Ok l, w2) \<Rightarrow>
                             (case ne_notify env l of
                                Err e \<Rightarrow> (Err e, w2)
                              | Ok _ \<Rightarrow>
                                 (case ig_dino (ne_ig env) l of
                                    None \<Rightarrow> (Err ENOENT, w2)
                                  | Some n \<Rightarrow>
                                     (case write_oid_xattr (ig_xerr (ne_ig env)) n (si_oid si) (n_xs w2) of
                                        (x, xs) \<Rightarrow>
                                          (if x \<noteq> Done \<and> x \<noteq> Err EEXIST then (x, w2\<lparr>n_xs := xs\<rparr>)
                                           else case ne_write_gen env l of
                                               Err e \<Rightarrow> (Err e, w2\<lparr>n_xs := xs\<rparr>)
                                             | Ok _ \<Rightarrow>
                                                (Done, rehome_swap env r d s \<lparr>p_mnt = p_mnt parent, p_dentry = l\<rparr> si (w2\<lparr>n_xs := xs\<rparr>)))))))))
           | _ \<Rightarrow> (Err ENOMEM, w)))"

section \<open>Draining rehomes\<close>

definition find_drainable_rehome :: "ns_env \<Rightarrow> sb_info \<Rightarrow> iref option" where
  "find_drainable_rehome env sbi =
     find (\<lambda>r. case sbi_inodes sbi r of
         None \<Rightarrow> False
       | Some si \<Rightarrow> si_write_staged si \<and> drain_tier_active sbi (si_write_staged_drain_tier si) \<and> io_grab (ne_io env) r)
       (sbi_inode_list sbi)"

definition rehome_drained :: "ns_env \<Rightarrow> iref \<Rightarrow> sb_info \<Rightarrow> sb_info" where
  "rehome_drained env r sbi =
    (let s1 = upd_inode r (\<lambda>i. i\<lparr>si_write_staged := False, si_write_staged_drain_tier := word_of_nat MAX_TIERS\<rparr>) sbi;
         s2 = upd_staging (\<lambda>s. set_reason ''truncate-rehome-drain'' (s\<lparr>st_last_drain_ns := uint (io_now (ne_io env))\<rparr>)) s1
     in if pending_rehomes s2 = 0 \<and> st_range_staged_bytes (sbi_staging s2) = 0
        then upd_staging (\<lambda>s. s\<lparr>st_staged_bytes := 0, st_oldest_staged_write_ns := 0\<rparr>) s2 else s2)"

definition drain_one_rehome :: "ns_env \<Rightarrow> iref \<Rightarrow> ns_world \<Rightarrow> unit res \<times> ns_world" where
  "drain_one_rehome env r w =
    (case ns_ino r w of
       None \<Rightarrow> (Done, w)
     | Some si \<Rightarrow>
        (if \<not> si_write_staged si then (Done, w)
         else let t = si_write_staged_drain_tier si
           in if \<not> drain_tier_active (n_sbi w) t then (Done, w)
              else case si_rel_path si of
                  None \<Rightarrow> (Err ENOMEM, w)
                | Some s \<Rightarrow>
                   (if \<not> ne_alloc env then (Err ENOMEM, w)
                    else case unlink_rel_path_on_tier env t s w of
                        (Err e, w1) \<Rightarrow> (Err e, w1)
                      | (Ok _, w1) \<Rightarrow> (Done, upd_ns (rehome_drained env r) w1))))"

partial_function (option) drain_rehomes :: "ns_env \<Rightarrow> ns_world \<Rightarrow> (unit res \<times> ns_world) option" where
  "drain_rehomes env w =
    (case find_drainable_rehome env (n_sbi w) of
       None \<Rightarrow> Some (Done, w)
     | Some r \<Rightarrow>
        (case drain_one_rehome env r w of
           (Err e, w') \<Rightarrow> Some (Err e, w')
         | (Ok _, w') \<Rightarrow> drain_rehomes env w'))"

end
