(* ===== verification/Namespace.thy ===== *)
theory Namespace
  imports Tier_Paths
begin

text \<open>
  The namespace operations of \<open>inode.c\<close> over the lower trees: lookup, create, mknod, symlink,
  link, unlink, mkdir, rmdir and rename. A dentry of the pool is known by a number; the dentries
  of an inode and the lower dentry each of them holds (\<open>d_fsdata\<close>) are its \<open>si_aliases\<close>. The
  directory, the dentry, its name and the relative paths the kernel renders for it (\<open>None\<close> when
  the allocation fails) are arguments. Every operation runs with the mounter's credentials.
\<close>

section \<open>Dentries\<close>

definition alias_lower :: "dentry \<Rightarrow> inode_info \<Rightarrow> dentry option" where
  "alias_lower d si = Option.bind (map_of (si_aliases si) d) (\<lambda>x. x)"

definition set_lower_dentry :: "iref \<Rightarrow> dentry \<Rightarrow> dentry option \<Rightarrow> sb_info \<Rightarrow> sb_info" where
  "set_lower_dentry r d lo =
     upd_inode r (\<lambda>i. i\<lparr>si_aliases := map (\<lambda>(u, l). if u = d then (u, lo) else (u, l)) (si_aliases i)\<rparr>)"

text \<open>\<open>d_instantiate\<close> and \<open>d_splice_alias\<close>: the dentry becomes an alias of the inode.\<close>

definition add_alias :: "iref \<Rightarrow> dentry \<Rightarrow> dentry \<Rightarrow> sb_info \<Rightarrow> sb_info" where
  "add_alias r d lo =
     upd_inode r (\<lambda>i. i\<lparr>si_aliases := (d, Some lo) # filter (\<lambda>a. fst a \<noteq> d) (si_aliases i)\<rparr>)"

definition ns_copy_attrs :: "ns_env \<Rightarrow> iref \<Rightarrow> dentry \<Rightarrow> ns_world \<Rightarrow> ns_world" where
  "ns_copy_attrs env r lo w = upd_ns (upd_inode r (copy_attrs (ig_at env w) lo)) w"

text \<open>\<open>lower->d_parent\<close>: the directory a lower dentry is in, on its own filesystem.\<close>

definition lower_parent :: "dentry \<Rightarrow> ns_world \<Rightarrow> path option" where
  "lower_parent lo w =
    (case n_at w lo of
       (m, s) \<Rightarrow>
         (let ps = fst (split_rel s)
          in if ps = [] then map_option t_lower_path (find (\<lambda>t. p_mnt (t_lower_path t) = m) (sbi_tiers (n_sbi w)))
             else map_option (\<lambda>d. \<lparr>p_mnt = m, p_dentry = d\<rparr>) (n_tree w m ps)))"

definition copy_parent_attrs :: "ns_env \<Rightarrow> iref \<Rightarrow> dentry \<Rightarrow> ns_world \<Rightarrow> ns_world" where
  "copy_parent_attrs env dir lo w =
    (case lower_parent lo w of None \<Rightarrow> w | Some p \<Rightarrow> ns_copy_attrs env dir (p_dentry p) w)"

definition parent_tier :: "sb_info \<Rightarrow> path \<Rightarrow> u8" where
  "parent_tier sbi p =
    (let t = word_of_nat (tier_of sbi (p_mnt p)) in if sbi_ntiers sbi \<le> t then sbi_fastest_tier sbi else t)"

section \<open>Lookup\<close>

text \<open>The path of a replayed inode counts only while its lower file still has a link.\<close>

definition live_replayed :: "ns_env \<Rightarrow> ns_world \<Rightarrow> string \<Rightarrow> (iref \<times> path) option" where
  "live_replayed env w s =
    (case lookup_rel_path (Some s) (n_sbi w) of
       None \<Rightarrow> None
     | Some r \<Rightarrow>
        (case Option.bind (ns_ino r w) si_lower_path of
           None \<Rightarrow> None
         | Some p \<Rightarrow> (if lower_nlink env w (p_dentry p) = 0 then None else Some (r, p))))"

definition lookup_negative :: "ns_env \<Rightarrow> u8 \<Rightarrow> dentry \<Rightarrow> string \<Rightarrow> ns_world \<Rightarrow> iref option res \<times> ns_world" where
  "lookup_negative env ptier d s w =
    (case live_replayed env w s of
       Some (r, p) \<Rightarrow>
         (if \<not> io_grab (ne_io env) r then (Err ESTALE, w)
          else (Ok (Some r), upd_ns (add_alias r d (p_dentry p) \<circ> upd_inode r (\<lambda>i. i\<lparr>si_replay_pinned := False\<rparr>)) w))
     | None \<Rightarrow>
        (case lookup_rel_across_tiers env (word_of_nat MAX_TIERS) (Some s) w of
           (Err _, w1) \<Rightarrow> (Ok None, w1)
         | (Ok (p, t), w1) \<Rightarrow>
            (let w2 = (if t = ptier
                       then upd_ns (\<lambda>x. x\<lparr>sbi_spill := (sbi_spill x)\<lparr>sp_parent_tier_recoveries := sp_parent_tier_recoveries (sbi_spill x) + 1\<rparr>\<rparr>) w1
                       else w1)
             in case ns_iget env p False w2 of
                 (Err e, w3) \<Rightarrow> (Err e, w3)
               | (Ok r, w3) \<Rightarrow>
                  (case track_placed env r (Some s) t False True w3 of
                     (Err e, w4) \<Rightarrow> (Err e, w4)
                   | (Ok _, w4) \<Rightarrow>
                      (case Option.bind (ns_ino r w4) si_lower_path of
                         None \<Rightarrow> (Ok (Some r), w4)
                       | Some lp \<Rightarrow> (Ok (Some r), upd_ns (add_alias r d (p_dentry lp)) w4))))))"

definition lookup_inner :: "ns_env \<Rightarrow> path \<Rightarrow> dentry \<Rightarrow> string \<Rightarrow> string option \<Rightarrow> ns_world \<Rightarrow> iref option res \<times> ns_world" where
  "lookup_inner env parent d name rel w =
    (if sbi_cache_mode (n_sbi w)
     then case rel of
         None \<Rightarrow> (Err ENOMEM, w)
       | Some s \<Rightarrow>
          (let base = sbi_ntiers (n_sbi w) - 1
           in case on_tier env w base s of
               Err e \<Rightarrow> (if e \<noteq> ENOENT \<and> e \<noteq> ENOTDIR then Err e else Ok None, w)
             | Ok p \<Rightarrow>
                (case ns_iget env p False w of
                   (Err e, w1) \<Rightarrow> (Err e, w1)
                 | (Ok r, w1) \<Rightarrow>
                    (case track_placed env r (Some s) base False True w1 of
                       (Err e, w2) \<Rightarrow> (Err e, w2)
                     | (Ok _, w2) \<Rightarrow> (Ok (Some r), upd_ns (add_alias r d (p_dentry p)) w2))))
     else case ns_child env w parent name of
         Err e \<Rightarrow> (Err e, w)
       | Ok (Some lo) \<Rightarrow>
          (case ns_iget env \<lparr>p_mnt = p_mnt parent, p_dentry = lo\<rparr> False w of
             (Err e, w1) \<Rightarrow> (Err e, w1)
           | (Ok r, w1) \<Rightarrow> (Ok (Some r), upd_ns (add_alias r d lo) w1))
       | Ok None \<Rightarrow>
          (if \<not> ne_alloc env then (Err ENOMEM, w)
           else case rel of
               None \<Rightarrow> (Ok None, w)
             | Some s \<Rightarrow> lookup_negative env (parent_tier (n_sbi w) parent) d s w))"

section \<open>Creating\<close>

definition spill_note_success :: "sb_info \<Rightarrow> sb_info" where
  "spill_note_success sbi = sbi\<lparr>sbi_spill := (sbi_spill sbi)\<lparr>sp_creates_total := sp_creates_total (sbi_spill sbi) + 1,
     sp_any_since_mount := True\<rparr>\<rparr>"

definition spill_note_failed_all_tiers :: "sb_info \<Rightarrow> sb_info" where
  "spill_note_failed_all_tiers sbi =
     sbi\<lparr>sbi_spill := (sbi_spill sbi)\<lparr>sp_failed_all_tiers := sp_failed_all_tiers (sbi_spill sbi) + 1\<rparr>\<rparr>"

text \<open>The parent directory of a new name on a tier: the directory itself, or one made there.\<close>

definition create_parent :: "ns_env \<Rightarrow> path \<Rightarrow> u8 \<Rightarrow> u8 \<Rightarrow> string \<Rightarrow> ns_world \<Rightarrow> path res \<times> ns_world" where
  "create_parent env dirp ptier t parent_rel w =
    (if t \<noteq> ptier then materialize_parent_on_tier env t (Some parent_rel) w else (Ok dirp, w))"

text \<open>
  One attempt of \<open>smoothfs_create_inner\<close> on one tier. \<open>Inl True\<close> is an ENOSPC that moves on to
  the next tier, \<open>Inl False\<close> a tier passed over because it is nearly full, \<open>Inr\<close> the end.
\<close>

definition create_attempt ::
  "ns_env \<Rightarrow> iref \<Rightarrow> path \<Rightarrow> dentry \<Rightarrow> string \<Rightarrow> string \<Rightarrow> string \<Rightarrow> u8 \<Rightarrow> u8 \<Rightarrow> bool \<Rightarrow> u8 \<Rightarrow> ns_world
    \<Rightarrow> (bool + iref res) \<times> ns_world" where
  "create_attempt env dir dirp d name rel parent_rel ptier start fallback t w =
    (if t \<noteq> sbi_ntiers (n_sbi w) - 1 \<and> create_near_enospc (ne_io env) (n_sbi w) t then (Inl False, w)
     else case create_parent env dirp ptier t parent_rel w of
         (Err e, w1) \<Rightarrow> (if e = ENOSPC then Inl True else Inr (Err e), w1)
       | (Ok parent, w1) \<Rightarrow>
          (case ns_child env w1 parent name of
             Err e \<Rightarrow> (Inr (Err e), w1)
           | Ok lo \<Rightarrow>
              (case (if lo = None then ne_create env parent name else Err EEXIST) of
                 Err e \<Rightarrow> (if e = ENOSPC then Inl True else Inr (Err e), w1)
               | Ok l \<Rightarrow>
                  (let w2 = set_nlink env l (\<lambda>n. 1) (put_name (p_mnt parent) (join_path (snd (n_at w1 (p_dentry parent))) name) l w1)
                   in case ns_iget env \<lparr>p_mnt = p_mnt parent, p_dentry = l\<rparr> True w2 of
                       (Err e, w3) \<Rightarrow> (Inr (Err e), w3)
                     | (Ok r, w3) \<Rightarrow>
                        (case track_placed env r (Some rel) t False False w3 of
                           (Err e, w4) \<Rightarrow> (Inr (Err e), w4)
                         | (Ok _, w4) \<Rightarrow>
                            (let w5 = upd_ns (upd_tier t (\<lambda>x. x\<lparr>t_pending_writes := t_pending_writes x + 1\<rparr>) \<circ>
                                        upd_inode r (\<lambda>i. i\<lparr>si_write_reservation := True\<rparr>)) w4;
                                 w6 = (if fallback \<and> t \<noteq> start then upd_ns spill_note_success w5 else w5);
                                 w7 = upd_ns (add_alias r d l) w6
                             in (Inr (Ok r), ns_copy_attrs env dir (p_dentry parent) w7)))))))"

text \<open>The loop over the attempts, with the error and the fallback mark the C variables hold.\<close>

fun create_loop ::
  "ns_env \<Rightarrow> iref \<Rightarrow> path \<Rightarrow> dentry \<Rightarrow> string \<Rightarrow> string \<Rightarrow> string \<Rightarrow> u8 \<Rightarrow> u8 \<Rightarrow> bool \<Rightarrow> errno \<Rightarrow> u8 list \<Rightarrow> ns_world
    \<Rightarrow> iref res \<times> ns_world" where
  "create_loop env dir dirp d name rel parent_rel ptier start fallback err [] w = (Err err, w)"
| "create_loop env dir dirp d name rel parent_rel ptier start fallback err (t # ts) w =
    (case create_attempt env dir dirp d name rel parent_rel ptier start fallback t w of
       (Inl nospc, w1) \<Rightarrow> create_loop env dir dirp d name rel parent_rel ptier start True (if nospc then ENOSPC else err) ts w1
     | (Inr res, w1) \<Rightarrow> (res, w1))"

definition create_order :: "sb_info \<Rightarrow> u8 \<Rightarrow> u8 list" where
  "create_order sbi start =
     map (\<lambda>i. word_of_nat ((unat start + i) mod ntiers sbi)) [0..<(if sbi_cache_mode sbi then 1 else ntiers sbi)]"

definition create_inner ::
  "ns_env \<Rightarrow> iref \<Rightarrow> path \<Rightarrow> dentry \<Rightarrow> string \<Rightarrow> string option \<Rightarrow> string option \<Rightarrow> ns_world \<Rightarrow> iref res \<times> ns_world" where
  "create_inner env dir dirp d name rel parent_rel w =
    (let ptier = parent_tier (n_sbi w) dirp; start = select_create_tier (ne_io env) (ne_alloc env) (ne_alloc env) (n_sbi w)
     in case (case (rel, parent_rel) of
                (Some s, Some ps) \<Rightarrow> create_loop env dir dirp d name s ps ptier start False ENOSPC (create_order (n_sbi w) start) w
              | _ \<Rightarrow> (Err ENOMEM, w)) of
         (res, w') \<Rightarrow> (res, if res = Err ENOSPC then upd_ns spill_note_failed_all_tiers w' else w'))"

text \<open>\<open>smoothfs_mknod_inner\<close> and \<open>smoothfs_symlink_inner\<close> differ in the lower operation only.\<close>

definition make_node ::
  "(path \<Rightarrow> string \<Rightarrow> dentry res) \<Rightarrow> ns_env \<Rightarrow> iref \<Rightarrow> path \<Rightarrow> dentry \<Rightarrow> string \<Rightarrow> ns_world \<Rightarrow> iref res \<times> ns_world" where
  "make_node mk env dir parent d name w =
    (case ns_child env w parent name of
       Err e \<Rightarrow> (Err e, w)
     | Ok lo \<Rightarrow>
        (case (if lo = None then mk parent name else Err EEXIST) of
           Err e \<Rightarrow> (Err e, w)
         | Ok l \<Rightarrow>
            (let w1 = set_nlink env l (\<lambda>n. 1) (put_name (p_mnt parent) (join_path (snd (n_at w (p_dentry parent))) name) l w)
             in case ns_iget env \<lparr>p_mnt = p_mnt parent, p_dentry = l\<rparr> True w1 of
                 (Err e, w2) \<Rightarrow> (Err e, w2)
               | (Ok r, w2) \<Rightarrow> (Ok r, ns_copy_attrs env dir (p_dentry parent) (upd_ns (add_alias r d l) w2)))))"

definition mknod_inner :: "ns_env \<Rightarrow> iref \<Rightarrow> path \<Rightarrow> dentry \<Rightarrow> string \<Rightarrow> ns_world \<Rightarrow> iref res \<times> ns_world" where
  "mknod_inner env = make_node (ne_mknod env) env"

definition symlink_inner :: "ns_env \<Rightarrow> iref \<Rightarrow> path \<Rightarrow> dentry \<Rightarrow> string \<Rightarrow> ns_world \<Rightarrow> iref res \<times> ns_world" where
  "symlink_inner env = make_node (ne_symlink env) env"

text \<open>A hard link stays on one tier; the second link pins the file to it.\<close>

definition link_inner ::
  "ns_env \<Rightarrow> iref \<Rightarrow> dentry \<Rightarrow> iref \<Rightarrow> path option \<Rightarrow> dentry \<Rightarrow> string \<Rightarrow> ns_world \<Rightarrow> unit res \<times> ns_world" where
  "link_inner env r old_d dir dirp d name w =
    (case ns_ino r w of
       None \<Rightarrow> (Err ENOENT, w)
     | Some si \<Rightarrow>
        (case (alias_lower old_d si, dirp) of
           (Some lower_old, Some parent) \<Rightarrow>
             (if fst (n_at w lower_old) \<noteq> p_mnt parent then (Err EXDEV, w)
              else case ns_child env w parent name of
                  Err e \<Rightarrow> (Err e, w)
                | Ok lo \<Rightarrow>
                   (case (if lo = None then ne_link env lower_old parent name else Err EEXIST) of
                      Err e \<Rightarrow> (Err e, w)
                    | Ok l \<Rightarrow>
                       (let w1 = set_nlink env lower_old (\<lambda>n. n + 1)
                                   (put_name (p_mnt parent) (join_path (snd (n_at w (p_dentry parent))) name) l w);
                            w2 = upd_ns (upd_inode r (\<lambda>i. i\<lparr>si_nlink_observed := si_nlink_observed i + 1,
                                   si_pin_state := (if 1 < si_nlink_observed i + 1 \<and> si_pin_state i = PIN_NONE then PIN_HARDLINK else si_pin_state i)\<rparr>)) w1;
                            w3 = ns_copy_attrs env r lower_old (upd_ns (add_alias r d l) w2)
                        in (Done, ns_copy_attrs env dir (p_dentry parent) w3))))
         | _ \<Rightarrow> (Err ENOENT, w)))"

section \<open>Removing\<close>

text \<open>
  \<open>smoothfs_compat_start_removing\<close>: under the parent's lock the name is looked up again and must
  still be the same inode; what is removed is the fresh dentry.
\<close>

definition start_removing :: "ns_env \<Rightarrow> dentry \<Rightarrow> ns_world \<Rightarrow> dentry res" where
  "start_removing env lo w =
    (case n_at w lo of
       (m, s) \<Rightarrow>
         (case ne_fault env m s of
            Some e \<Rightarrow> Err e
          | None \<Rightarrow>
             (case n_tree w m s of
                None \<Rightarrow> Err ENOENT
              | Some f \<Rightarrow> (if ig_dino (ne_ig env) f = ig_dino (ne_ig env) lo then Ok f else Err ENOENT))))"

definition remove_lower :: "ns_env \<Rightarrow> dentry \<Rightarrow> ns_world \<Rightarrow> unit res \<times> ns_world" where
  "remove_lower env lo w =
    (case start_removing env lo w of
       Err e \<Rightarrow> (if e \<noteq> ENOENT then Err e else Done, w)
     | Ok f \<Rightarrow> (if lower_nlink env w f = 0 then (Done, w) else lower_unlink env f w))"

definition unlink_inner :: "ns_env \<Rightarrow> iref \<Rightarrow> iref \<Rightarrow> dentry \<Rightarrow> ns_world \<Rightarrow> unit res \<times> ns_world" where
  "unlink_inner env dir r d w =
    (case Option.bind (ns_ino r w) (alias_lower d) of
       None \<Rightarrow> (Err ENOENT, w)
     | Some lo \<Rightarrow>
        (case remove_lower env lo w of
           (Err e, w1) \<Rightarrow> (Err e, w1)
         | (Ok _, w1) \<Rightarrow>
            (let w2 = upd_ns (oid_wb_forget (ig_dino (ne_ig env)) (ig_dino (ne_ig env) lo) (lower_nlink env w1 lo)) w1;
                 w3 = upd_ns (upd_inode r (\<lambda>i. i\<lparr>si_nlink_observed := si_nlink_observed i - 1,
                        si_pin_state := (if si_nlink_observed i - 1 \<le> 1 \<and> si_pin_state i = PIN_HARDLINK then PIN_NONE else si_pin_state i),
                        si_nlink := si_nlink i - 1\<rparr>)) w2;
                 w4 = copy_parent_attrs env dir lo (upd_ns (set_lower_dentry r d None) w3)
             in (Done, if map_option si_nlink (ns_ino r w4) = Some 0 then forget_placement env r False w4 else w4))))"

definition rmdir_inner :: "ns_env \<Rightarrow> iref \<Rightarrow> iref \<Rightarrow> dentry \<Rightarrow> string option \<Rightarrow> ns_world \<Rightarrow> unit res \<times> ns_world" where
  "rmdir_inner env dir r d rel w =
    (case Option.bind (ns_ino r w) (alias_lower d) of
       None \<Rightarrow> (Err ENOENT, w)
     | Some lo \<Rightarrow>
        (case (case start_removing env lo w of
                 Err e \<Rightarrow> (if e \<noteq> ENOENT then Err e else Done, w)
               | Ok f \<Rightarrow> lower_rmdir env f w) of
           (Err e, w1) \<Rightarrow> (Err e, w1)
         | (Ok _, w1) \<Rightarrow>
            (let w2 = upd_ns (upd_inode r (\<lambda>i. i\<lparr>si_rel_path := (if si_rel_path i = None then rel else si_rel_path i), si_nlink := 0\<rparr>)) w1;
                 w3 = copy_parent_attrs env dir lo (upd_ns (set_lower_dentry r d None) w2)
             in (Done, forget_placement env r True w3))))"

section \<open>mkdir\<close>

definition mkdir_attempt ::
  "ns_env \<Rightarrow> iref \<Rightarrow> path \<Rightarrow> dentry \<Rightarrow> string \<Rightarrow> string \<Rightarrow> string \<Rightarrow> u8 \<Rightarrow> u8 \<Rightarrow> ns_world \<Rightarrow> (bool + iref res) \<times> ns_world" where
  "mkdir_attempt env dir dirp d name rel parent_rel ptier t w =
    (if t \<noteq> sbi_ntiers (n_sbi w) - 1 \<and> create_near_enospc (ne_io env) (n_sbi w) t then (Inl False, w)
     else case create_parent env dirp ptier t parent_rel w of
         (Err e, w1) \<Rightarrow> (if e = ENOSPC then Inl True else Inr (Err e), w1)
       | (Ok parent, w1) \<Rightarrow>
          (case ns_child env w1 parent name of
             Err e \<Rightarrow> (Inr (Err e), w1)
           | Ok lo \<Rightarrow>
              (case (if lo = None then ne_mkdir env parent name else Err EEXIST) of
                 Err e \<Rightarrow> (if e = ENOSPC then Inl True else Inr (Err e), w1)
               | Ok l \<Rightarrow>
                  (let w2 = set_nlink env l (\<lambda>n. 2) (put_name (p_mnt parent) (join_path (snd (n_at w1 (p_dentry parent))) name) l w1)
                   in case ns_iget env \<lparr>p_mnt = p_mnt parent, p_dentry = l\<rparr> True w2 of
                       (Err e, w3) \<Rightarrow> (Inr (Err e), w3)
                     | (Ok r, w3) \<Rightarrow>
                        (case track_placed env r (Some rel) t False False w3 of
                           (Err e, w4) \<Rightarrow> (Inr (Err e), w4)
                         | (Ok _, w4) \<Rightarrow>
                            (let w5 = (if t \<noteq> sbi_fastest_tier (n_sbi w) then upd_ns spill_note_success w4 else w4)
                             in (Inr (Ok r), ns_copy_attrs env dir (p_dentry parent) (upd_ns (add_alias r d l) w5))))))))"

fun mkdir_loop ::
  "ns_env \<Rightarrow> iref \<Rightarrow> path \<Rightarrow> dentry \<Rightarrow> string \<Rightarrow> string \<Rightarrow> string \<Rightarrow> u8 \<Rightarrow> errno \<Rightarrow> u8 list \<Rightarrow> ns_world \<Rightarrow> iref res \<times> ns_world" where
  "mkdir_loop env dir dirp d name rel parent_rel ptier err [] w = (Err err, w)"
| "mkdir_loop env dir dirp d name rel parent_rel ptier err (t # ts) w =
    (case mkdir_attempt env dir dirp d name rel parent_rel ptier t w of
       (Inl nospc, w1) \<Rightarrow> mkdir_loop env dir dirp d name rel parent_rel ptier (if nospc then ENOSPC else err) ts w1
     | (Inr res, w1) \<Rightarrow> (res, w1))"

definition mkdir_inner ::
  "ns_env \<Rightarrow> iref \<Rightarrow> path \<Rightarrow> dentry \<Rightarrow> string \<Rightarrow> string option \<Rightarrow> string option \<Rightarrow> ns_world \<Rightarrow> iref res \<times> ns_world" where
  "mkdir_inner env dir dirp d name rel parent_rel w =
    (let sbi = n_sbi w; first = (if sbi_cache_mode sbi then sbi_ntiers sbi - 1 else sbi_fastest_tier sbi)
     in case (case (rel, parent_rel) of
                (Some s, Some ps) \<Rightarrow>
                  mkdir_loop env dir dirp d name s ps (parent_tier sbi dirp) ENOSPC (map word_of_nat [unat first..<ntiers sbi]) w
              | _ \<Rightarrow> (Err ENOMEM, w)) of
         (res, w') \<Rightarrow> (res, if res = Err ENOSPC then upd_ns spill_note_failed_all_tiers w' else w'))"

section \<open>Rename\<close>

record rename_flags =
  rf_noreplace :: bool
  rf_exchange :: bool
  rf_whiteout :: bool

text \<open>
  The arguments of a rename: the directories, the inode and dentry of the source, the dentry of
  the target with its inode if there is one, the lower path of the new parent, and the paths the
  kernel renders.
\<close>

record rename_args =
  ra_old_dir :: iref
  ra_new_dir :: iref
  ra_inode :: iref
  ra_old :: dentry
  ra_new :: dentry
  ra_target :: "iref option"
  ra_same_dir :: bool
  ra_new_parent :: path
  ra_name :: string
  ra_parent_rel :: "string option"
  ra_old_rel :: "string option"
  ra_new_rel :: "string option"

definition drop_new_lower :: "rename_args \<Rightarrow> ns_world \<Rightarrow> ns_world" where
  "drop_new_lower a w = (case ra_target a of None \<Rightarrow> w | Some rn \<Rightarrow> upd_ns (set_lower_dentry rn (ra_new a) None) w)"

text \<open>The parents on the other tiers, made for the copies of a renamed directory.\<close>

definition materialize_others :: "ns_env \<Rightarrow> u8 \<Rightarrow> string \<Rightarrow> ns_world \<Rightarrow> ns_world" where
  "materialize_others env src rel w =
     fold (\<lambda>t w. if t = src \<or> \<not> metadata_tier_active (n_sbi w) t then w else snd (materialize_parent_on_tier env t (Some rel) w))
       (tier_ids (n_sbi w)) w"

text \<open>
  Where the rename happens: the new parent on the source's own tier, the lower target there, and
  the target's lower dentry on another tier that becomes stale.
\<close>

definition rename_same_dir ::
  "ns_env \<Rightarrow> rename_flags \<Rightarrow> rename_args \<Rightarrow> path \<Rightarrow> dentry option \<Rightarrow> ns_world
    \<Rightarrow> (path \<times> dentry option \<times> dentry option) res \<times> ns_world" where
  "rename_same_dir env f a old_parent lower_new w =
    (case lower_new of
       Some ln \<Rightarrow>
         (if fst (n_at w ln) = p_mnt old_parent then (Ok (old_parent, Some ln, None), w)
          else if ns_kind env ln = IK_DIR \<or> rf_exchange f \<or> rf_whiteout f then (Err EXDEV, w)
          else if rf_noreplace f then (Err EEXIST, w)
          else (Ok (old_parent, None, Some ln), drop_new_lower a w))
     | None \<Rightarrow> (Ok (old_parent, None, None), w))"

definition rename_other_tier ::
  "ns_env \<Rightarrow> rename_flags \<Rightarrow> rename_args \<Rightarrow> bool \<Rightarrow> path \<Rightarrow> dentry option \<Rightarrow> ns_world
    \<Rightarrow> (path \<times> dentry option \<times> dentry option) res \<times> ns_world" where
  "rename_other_tier env f a is_dir old_parent lower_new w =
    (if rf_exchange f \<or> rf_whiteout f then (Err EXDEV, w)
     else case find (\<lambda>t. p_mnt (t_lower_path (tier_at (n_sbi w) t)) = p_mnt old_parent) (tier_ids (n_sbi w)) of
         None \<Rightarrow> (Err EXDEV, w)
       | Some src \<Rightarrow>
          (if (case lower_new of Some ln \<Rightarrow> ns_kind env ln = IK_DIR | None \<Rightarrow> False) then (Err EXDEV, w)
           else if lower_new \<noteq> None \<and> rf_noreplace f then (Err EEXIST, w)
           else case ra_parent_rel a of
               None \<Rightarrow> (Err ENOMEM, w)
             | Some ps \<Rightarrow>
                (case materialize_parent_on_tier env src (Some ps) w of
                   (Err e, w1) \<Rightarrow> (Err e, w1)
                 | (Ok parent, w1) \<Rightarrow>
                    (Ok (parent, None, lower_new), drop_new_lower a (if is_dir then materialize_others env src ps w1 else w1)))))"

definition rename_place ::
  "ns_env \<Rightarrow> rename_flags \<Rightarrow> rename_args \<Rightarrow> dentry \<Rightarrow> path \<Rightarrow> dentry option \<Rightarrow> ns_world
    \<Rightarrow> (path \<times> dentry option \<times> dentry option) res \<times> ns_world" where
  "rename_place env f a lower_old old_parent lower_new w =
    (if ra_same_dir a then rename_same_dir env f a old_parent lower_new w
     else if p_mnt old_parent \<noteq> p_mnt (ra_new_parent a)
     then rename_other_tier env f a (ns_kind env lower_old = IK_DIR) old_parent lower_new w
     else if (case lower_new of Some ln \<Rightarrow> fst (n_at w ln) \<noteq> fst (n_at w lower_old) | None \<Rightarrow> False) then (Err EXDEV, w)
     else (Ok (ra_new_parent a, lower_new, None), w))"

text \<open>\<open>smoothfs_compat_start_rename\<close>: the checks under the locks of the parents.\<close>

definition start_rename :: "ns_env \<Rightarrow> rename_flags \<Rightarrow> dentry \<Rightarrow> path \<Rightarrow> string \<Rightarrow> dentry option \<Rightarrow> ns_world \<Rightarrow> unit res" where
  "start_rename env f lower_old parent name lower_new w =
    (case (case lower_new of Some ln \<Rightarrow> Ok (Some ln) | None \<Rightarrow> ns_child env w parent name) of
       Err e \<Rightarrow> Err e
     | Ok target \<Rightarrow>
        (if n_tree w (fst (n_at w lower_old)) (snd (n_at w lower_old)) \<noteq> Some lower_old then Err EINVAL
         else if target \<noteq> None \<and> rf_noreplace f then Err EEXIST
         else Done))"

definition drop_stale_rename_target :: "ns_env \<Rightarrow> dentry \<Rightarrow> iref option \<Rightarrow> ns_world \<Rightarrow> ns_world" where
  "drop_stale_rename_target env stale rn w =
    (let w1 = snd (remove_lower env stale w)
     in case rn of None \<Rightarrow> w1 | Some r \<Rightarrow> forget_placement env r False w1)"

definition rename_finish ::
  "ns_env \<Rightarrow> rename_args \<Rightarrow> dentry \<Rightarrow> path \<Rightarrow> path \<Rightarrow> dentry option \<Rightarrow> ns_world \<Rightarrow> ns_world" where
  "rename_finish env a lower_old old_parent new_parent stale w =
    (let w1 = drop_new_lower a (upd_ns (set_lower_dentry (ra_inode a) (ra_old a) (Some lower_old)) w);
         w2 = ns_copy_attrs env (ra_new_dir a) (p_dentry new_parent) (ns_copy_attrs env (ra_old_dir a) (p_dentry old_parent) w1);
         w3 = (case ra_new_rel a of None \<Rightarrow> w2 | Some s \<Rightarrow> upd_ns (set_rel_path (ra_inode a) (Some s)) w2);
         w4 = (case stale of None \<Rightarrow> w3 | Some l \<Rightarrow> drop_stale_rename_target env l (ra_target a) w3)
     in if ns_kind env lower_old = IK_DIR
        then case (ra_old_rel a, ra_new_rel a) of (Some o', Some n) \<Rightarrow> rename_spill_tiers env o' n w4 | _ \<Rightarrow> w4
        else w4)"

text \<open>
  The source of a rename always has a lower dentry: the code uses it without a test, and the
  model refuses a source without one.
\<close>

definition rename_inner :: "ns_env \<Rightarrow> rename_flags \<Rightarrow> rename_args \<Rightarrow> ns_world \<Rightarrow> unit res \<times> ns_world" where
  "rename_inner env f a w =
    (case Option.bind (ns_ino (ra_inode a) w) (alias_lower (ra_old a)) of
       None \<Rightarrow> (Err EFAULT, w)
     | Some lower_old \<Rightarrow>
        (case lower_parent lower_old w of
           None \<Rightarrow> (Err EFAULT, w)
         | Some old_parent \<Rightarrow>
            (let lower_new = Option.bind (Option.bind (ra_target a) (\<lambda>rn. ns_ino rn w)) (alias_lower (ra_new a))
             in case rename_place env f a lower_old old_parent lower_new w of
                 (Err e, w1) \<Rightarrow> (Err e, w1)
               | (Ok (parent, target, stale), w1) \<Rightarrow>
                  (case start_rename env f lower_old parent (ra_name a) target w1 of
                     Err e \<Rightarrow> (Err e, w1)
                   | Ok _ \<Rightarrow>
                      (case lower_rename env (rf_exchange f) lower_old parent (ra_name a) w1 of
                         (Err e, w2) \<Rightarrow> (Err e, w2)
                       | (Ok _, w2) \<Rightarrow> (Done, rename_finish env a lower_old old_parent parent stale w2))))))"

end
