(* ===== verification/Namespace_Facts.thy ===== *)
theory Namespace_Facts
  imports Namespace Staged_View
begin

text \<open>
  What the namespace operations guarantee over the lower trees: a removed name is gone, a renamed
  file has exactly its new name, and the drain of rehomed files removes the copies left behind
  and nothing else. Where the code falls short of that, for one of several hard links and for a
  copy left on another tier, the facts say so.
\<close>

section \<open>Well-formed lower trees\<close>

text \<open>A positive dentry is at the place of the tree where it is found; the roots are at the empty path.\<close>

definition tree_ok :: "ns_world \<Rightarrow> bool" where
  "tree_ok w \<longleftrightarrow> (\<forall>m s d. n_tree w m s = Some d \<longrightarrow> n_at w d = (m, s) \<and> s \<noteq> [])
     \<and> (\<forall>t < sbi_ntiers (n_sbi w). n_at w (p_dentry (t_lower_path (tier_at (n_sbi w) t))) = (p_mnt (t_lower_path (tier_at (n_sbi w) t)), []))"

text \<open>No two entries of the path table disagree with the inodes they name.\<close>

definition path_index_ok :: "sb_info \<Rightarrow> bool" where
  "path_index_ok sbi \<longleftrightarrow> (\<forall>s r. sbi_path_map sbi s = Some r \<longrightarrow>
     (\<exists>si. sbi_inodes sbi r = Some si \<and> si_path_hashed si \<and> si_rel_path si = Some s))"

text \<open>A name for which the lower filesystems answer: no failing lookup, and a missing name is reported as missing.\<close>

definition answers :: "ns_env \<Rightarrow> string \<Rightarrow> bool" where
  "answers env s \<longleftrightarrow> (\<forall>m. ne_fault env m s = None) \<and> (\<forall>m. ne_missing env m s = ENOENT \<or> ne_missing env m s = ENOTDIR)"

lemma tree_okD: "tree_ok w \<Longrightarrow> n_tree w m s = Some d \<Longrightarrow> n_at w d = (m, s)"
  by (simp add: tree_ok_def)

lemma set_nlink_frame [simp]:
  "n_sbi (set_nlink env d f w) = n_sbi w" "n_xs (set_nlink env d f w) = n_xs w"
  "n_tree (set_nlink env d f w) = n_tree w" "n_at (set_nlink env d f w) = n_at w"
  by (simp_all add: set_nlink_def split: option.split)

lemma cut_name_frame [simp]:
  "n_sbi (cut_name m s w) = n_sbi w" "n_xs (cut_name m s w) = n_xs w" "n_at (cut_name m s w) = n_at w"
  "n_nlink (cut_name m s w) = n_nlink w"
  "n_tree (cut_name m s w) m' s' = (if m' = m \<and> s' = s then None else n_tree w m' s')"
  by (simp_all add: cut_name_def)

lemma lower_nlink_set:
  "lower_nlink env (set_nlink env d f w) d' =
    (if ig_dino (ne_ig env) d' = ig_dino (ne_ig env) d \<and> ig_dino (ne_ig env) d \<noteq> None
     then f (lower_nlink env w d) else lower_nlink env w d')"
  by (simp add: lower_nlink_def set_nlink_def split: option.splits)

lemma lower_nlink_cut [simp]: "lower_nlink env (cut_name m s w) d = lower_nlink env w d"
  by (simp add: lower_nlink_def split: option.split)

lemma lower_nlink_sbi [simp]: "lower_nlink env (w\<lparr>n_sbi := x\<rparr>) d = lower_nlink env w d"
  by (simp add: lower_nlink_def split: option.split)

section \<open>Names on one tier\<close>

lemma split_rel_join:
  assumes "split_rel s = (p, n)" "hd s \<noteq> CHR ''/''" "s \<noteq> []"
  shows "join_path p n = s"
proof (cases "CHR ''/'' \<in> set s")
  case False
  then show ?thesis using assms by (auto simp: split_rel_def split_last_slash_def join_path_def)
next
  case True
  define c where "c = CHR ''/''"
  define nm where "nm = rev (takeWhile (\<lambda>x. x \<noteq> c) (rev s))"
  have c: "c \<in> set s" using True by (simp add: c_def)
  then obtain xs ys where s: "s = xs @ c # ys" "c \<notin> set ys" by (metis split_list_last)
  have "takeWhile (\<lambda>x. x \<noteq> c) (rev ys @ c # rev xs) = rev ys" using s(2) by (subst takeWhile_append2) auto
  then have nm: "nm = ys" using s(1) by (simp add: nm_def)
  have "p = take (length s - length nm - 1) s" "n = nm"
    using assms(1) True by (auto simp add: split_rel_def split_last_slash_def Let_def nm_def c_def)
  then have pn: "p = xs" "n = ys" using s nm by simp_all
  have "xs \<noteq> []" using assms(2) s by (auto simp: c_def)
  then show ?thesis using pn s by (simp add: join_path_def c_def)
qed

lemma on_tier_missing:
  "n_tree w (p_mnt (t_lower_path (tier_at (n_sbi w) t))) s = None \<Longrightarrow> s \<noteq> [] \<Longrightarrow> answers env s
    \<Longrightarrow> t < sbi_ntiers (n_sbi w) \<Longrightarrow> on_tier env w t s = Err ENOENT \<or> on_tier env w t s = Err ENOTDIR"
  by (auto simp: on_tier_def resolve_rel_path_on_tier_def ns_walk_def answers_def)

lemma on_tier_missing_err:
  "\<forall>m. n_tree w m s = None \<Longrightarrow> s \<noteq> [] \<Longrightarrow> \<exists>e. on_tier env w t s = Err e"
  by (auto simp: on_tier_def resolve_rel_path_on_tier_def ns_walk_def split: option.split)

lemma across_missing:
  assumes "\<forall>m. n_tree w m s = None" "s \<noteq> []"
  shows "fst (across_loop env x (Some s) ts w) = Err ENOENT"
  using assms
proof (induction ts arbitrary: w)
  case Nil
  then show ?case by simp
next
  case (Cons t ts)
  have *: "\<exists>e. on_tier env w t s = Err e" using on_tier_missing_err [OF Cons.prems] .
  show ?case using Cons * by (auto split: sum.splits)
qed

section \<open>Removing a file\<close>

text \<open>The effect of an unlink on the lower tree and on the inode, its last link or not.\<close>

lemma path_map_del_frame [simp]:
  "sbi_tiers (path_map_del r sbi) = sbi_tiers sbi" "sbi_ntiers (path_map_del r sbi) = sbi_ntiers sbi"
  "sbi_fastest_tier (path_map_del r sbi) = sbi_fastest_tier sbi" "sbi_staging (path_map_del r sbi) = sbi_staging sbi"
  "sbi_cache_mode (path_map_del r sbi) = sbi_cache_mode sbi" "sbi_path_map_ready (path_map_del r sbi) = sbi_path_map_ready sbi"
  by (simp_all add: path_map_del_def Let_def upd_inode_def split: option.split)

lemma path_map_del_inode:
  "sbi_inodes (path_map_del r sbi) r = map_option (\<lambda>i. if si_path_hashed i then i\<lparr>si_path_hashed := False\<rparr> else i) (sbi_inodes sbi r)"
  by (auto simp: path_map_del_def Let_def split: option.splits)

lemma path_map_del_gone:
  assumes "path_index_ok sbi" "sbi_inodes sbi r = Some si" "sbi_path_map sbi s = None \<or> sbi_path_map sbi s = Some r" "sbi_path_map_ready sbi"
  shows "sbi_path_map (path_map_del r sbi) s = None"
proof (cases "sbi_path_map sbi s")
  case None
  then show ?thesis using assms(2) by (auto simp: path_map_del_def Let_def split: option.splits)
next
  case (Some q)
  then have q: "sbi_path_map sbi s = Some r" using assms(3) by simp
  then have "si_path_hashed si \<and> si_rel_path si = Some s" using assms(1,2) by (fastforce simp: path_index_ok_def)
  then show ?thesis using assms(2,4) by (simp add: path_map_del_def Let_def)
qed

definition same_pool :: "sb_info \<Rightarrow> sb_info \<Rightarrow> bool" where
  "same_pool s s' \<longleftrightarrow> sbi_tiers s' = sbi_tiers s \<and> sbi_ntiers s' = sbi_ntiers s \<and> sbi_fastest_tier s' = sbi_fastest_tier s
     \<and> sbi_staging s' = sbi_staging s \<and> sbi_cache_mode s' = sbi_cache_mode s \<and> sbi_path_map_ready s' = sbi_path_map_ready s"

lemma oid_wb_forget_frame [simp]:
  "same_pool s (oid_wb_forget f l n s)" "sbi_path_map (oid_wb_forget f l n s) = sbi_path_map s"
  "sbi_inodes (oid_wb_forget f l n s) = sbi_inodes s"
  by (simp_all add: oid_wb_forget_def same_pool_def Let_def split: option.split)

lemma same_pool_upd [simp]: "same_pool s (upd_inode r f s') = same_pool s s'"
  by (simp add: same_pool_def upd_inode_def)

lemma same_pool_del [simp]: "same_pool s (path_map_del r s') = same_pool s s'"
  by (simp add: same_pool_def)

lemma same_pool_refl [simp]: "same_pool s s"
  by (simp add: same_pool_def)

text \<open>The bookkeeping after the lower entry is gone touches the pool's tables only.\<close>

lemma copy_parent_attrs_frame:
  "n_tree (copy_parent_attrs env dir lo w) = n_tree w" "n_at (copy_parent_attrs env dir lo w) = n_at w"
  "n_nlink (copy_parent_attrs env dir lo w) = n_nlink w" "n_xs (copy_parent_attrs env dir lo w) = n_xs w"
  "same_pool s (n_sbi (copy_parent_attrs env dir lo w)) = same_pool s (n_sbi w)"
  "sbi_path_map (n_sbi (copy_parent_attrs env dir lo w)) = sbi_path_map (n_sbi w)"
  "r \<noteq> dir \<Longrightarrow> sbi_inodes (n_sbi (copy_parent_attrs env dir lo w)) r = sbi_inodes (n_sbi w) r"
  by (auto simp: copy_parent_attrs_def ns_copy_attrs_def split: option.split)

lemma unlink_effect:
  assumes "ns_ino r w = Some si" "alias_lower d si = Some lo" "n_at w lo = (m, s)" "n_tree w m s = Some lo"
    and "ne_fault env m s = None" "lower_nlink env w lo \<noteq> 0" "ne_unlink env lo = Ok u" "dir \<noteq> r"
  obtains w' where "unlink_inner env dir r d w = (Done, w')" "n_tree w' = (n_tree w)(m := (n_tree w m)(s := None))"
    and "n_at w' = n_at w" "lower_nlink env w' lo = lower_nlink env w lo - 1" "same_pool (n_sbi w) (n_sbi w')"
    and "sbi_path_map (n_sbi w') = (if si_nlink si \<le> 1 \<and> si_rel_path si \<noteq> None then sbi_path_map (path_map_del r (n_sbi w)) else sbi_path_map (n_sbi w))"
    and "map_option si_lower_path (ns_ino r w') = Some (si_lower_path si)"
proof -
  define w1 where "w1 = set_nlink env lo (\<lambda>n. n - 1) (cut_name m s w)"
  have rm: "remove_lower env lo w = (Done, w1)"
    using assms by (simp add: remove_lower_def start_removing_def lower_unlink_def w1_def)
  have b: "Option.bind (ns_ino r w) (alias_lower d) = Some lo" using assms(1,2) by simp
  have n1: "lower_nlink env w1 lo = lower_nlink env w lo - 1"
    using assms(6) by (auto simp: w1_def lower_nlink_set) (simp add: lower_nlink_def)
  define w4 where "w4 = copy_parent_attrs env dir lo (upd_ns (set_lower_dentry r d None)
    (upd_ns (upd_inode r (\<lambda>i. i\<lparr>si_nlink_observed := si_nlink_observed i - 1,
                        si_pin_state := (if si_nlink_observed i - 1 \<le> 1 \<and> si_pin_state i = PIN_HARDLINK then PIN_NONE else si_pin_state i),
                        si_nlink := si_nlink i - 1\<rparr>))
       (upd_ns (oid_wb_forget (ig_dino (ne_ig env)) (ig_dino (ne_ig env) lo) (lower_nlink env w1 lo)) w1)))"
  have u: "unlink_inner env dir r d w = (Done, if map_option si_nlink (ns_ino r w4) = Some 0 then forget_placement env r False w4 else w4)"
    unfolding unlink_inner_def w4_def by (simp only: b rm option.case prod.case sum.case Let_def)
  have i4: "\<exists>si4. ns_ino r w4 = Some si4 \<and> si_nlink si4 = si_nlink si - 1 \<and> si_rel_path si4 = si_rel_path si
      \<and> si_lower_path si4 = si_lower_path si \<and> si_path_hashed si4 = si_path_hashed si"
    using assms(1,8) by (simp add: w4_def copy_parent_attrs_frame set_lower_dentry_def w1_def)
  then obtain si4 where si4: "ns_ino r w4 = Some si4" "si_nlink si4 = si_nlink si - 1" "si_rel_path si4 = si_rel_path si"
      "si_lower_path si4 = si_lower_path si" "si_path_hashed si4 = si_path_hashed si" by blast
  have w4: "n_tree w4 = (n_tree w)(m := (n_tree w m)(s := None))" "n_at w4 = n_at w" "same_pool (n_sbi w) (n_sbi w4)"
      "sbi_path_map (n_sbi w4) = sbi_path_map (n_sbi w)" "n_nlink w4 = n_nlink w1"
    by (simp_all add: w4_def copy_parent_attrs_frame set_lower_dentry_def w1_def) (simp add: cut_name_def)
  have n4: "lower_nlink env w4 lo = lower_nlink env w lo - 1"
    using n1 w4(5) by (simp add: lower_nlink_def split: option.splits)
  define w5 where "w5 = forget_placement env r False w4"
  have del: "sbi_path_map (path_map_del r (n_sbi w4)) = sbi_path_map (path_map_del r (n_sbi w))"
    using si4 assms(1) w4(3,4) by (auto simp: path_map_del_def Let_def same_pool_def split: option.split)
  have w5: "n_tree w5 = n_tree w4" "n_at w5 = n_at w4" "n_nlink w5 = n_nlink w4" "same_pool (n_sbi w) (n_sbi w5)"
      "sbi_path_map (n_sbi w5) = (if si_rel_path si = None then sbi_path_map (n_sbi w4) else sbi_path_map (path_map_del r (n_sbi w)))"
      "map_option si_lower_path (ns_ino r w5) = Some (si_lower_path si)"
    using si4 del w4(3) by (auto simp: w5_def forget_placement_def Let_def path_map_del_inode split: option.splits)
  have n5: "lower_nlink env w5 lo = lower_nlink env w4 lo" using w5(3) by (simp add: lower_nlink_def split: option.splits)
  show thesis
  proof (cases "si_nlink si \<le> 1")
    case True
    then have "unlink_inner env dir r d w = (Done, w5)" using u si4 by (simp add: w5_def)
    then show thesis using that [of w5] w5 w4 n4 n5 True by simp
  next
    case False
    then have "unlink_inner env dir r d w = (Done, w4)" using u si4 by simp
    then show thesis using that [of w4] w4 n4 si4 False by simp
  qed
qed

lemma lookup_missing:
  assumes "\<forall>m. n_tree w m s = None" "s \<noteq> []" "answers env s" "ne_alloc env" "pool_wf (n_sbi w)"
    and "sbi_path_map (n_sbi w) s = None" "join_path (snd (n_at w (p_dentry parent))) name = s"
  shows "fst (lookup_inner env parent d name (Some s) w) = Ok None"
proof (cases "sbi_cache_mode (n_sbi w)")
  case True
  have "sbi_ntiers (n_sbi w) - 1 < sbi_ntiers (n_sbi w)"
    using assms(5) by (simp add: pool_wf_def word_less_nat_alt unat_sub_if_size word_le_nat_alt)
  then show ?thesis using on_tier_missing [of w "sbi_ntiers (n_sbi w) - 1" s env] assms(1-3) True
    by (auto simp: lookup_inner_def Let_def)
next
  case False
  have "ns_child env w parent name = Ok None" using assms by (simp add: ns_child_def answers_def)
  moreover have "live_replayed env w s = None" using assms(6) by (simp add: live_replayed_def lookup_rel_path_def)
  moreover have "fst (lookup_rel_across_tiers env x (Some s) w) = Err ENOENT" for x
    unfolding lookup_rel_across_tiers_def by (rule across_missing [OF assms(1,2)])
  from this [of "word_of_nat MAX_TIERS"] have "fst (lookup_negative env t d s w) = Ok None" if "live_replayed env w s = None" for t
    using that by (cases "lookup_rel_across_tiers env (word_of_nat MAX_TIERS) (Some s) w") (simp add: lookup_negative_def)
  ultimately show ?thesis using False assms(4) by (simp add: lookup_inner_def)
qed

text \<open>
  C11. A file that is unlinked by its last name is gone: the unlink succeeds, and a lookup of the
  name afterwards finds nothing, neither on a tier nor through the table of relative paths, as
  long as no other tier had an entry of that name.
\<close>

theorem unlink_then_lookup:
  assumes "ns_ino r w = Some si" "alias_lower d si = Some lo" "n_at w lo = (m, s)" "n_tree w m s = Some lo"
    and "lower_nlink env w lo \<noteq> 0" "ne_unlink env lo = Ok u" "si_nlink si = 1" "dir \<noteq> r"
    and "\<forall>m'. m' \<noteq> m \<longrightarrow> n_tree w m' s = None" "s \<noteq> []" "answers env s" "ne_alloc env"
    and "pool_wf (n_sbi w)" "path_index_ok (n_sbi w)" "sbi_path_map_ready (n_sbi w)" "si_rel_path si = Some s"
    and "sbi_path_map (n_sbi w) s = Some r" "join_path (snd (n_at w (p_dentry parent))) name = s"
  shows "fst (unlink_inner env dir r d w) = Done
    \<and> fst (lookup_inner env parent d' name (Some s) (snd (unlink_inner env dir r d w))) = Ok None"
proof -
  have f: "ne_fault env m s = None" using assms(11) by (simp add: answers_def)
  obtain w' where w': "unlink_inner env dir r d w = (Done, w')" "n_tree w' = (n_tree w)(m := (n_tree w m)(s := None))"
    "n_at w' = n_at w" "same_pool (n_sbi w) (n_sbi w')"
    "sbi_path_map (n_sbi w') = (if si_nlink si \<le> 1 \<and> si_rel_path si \<noteq> None then sbi_path_map (path_map_del r (n_sbi w)) else sbi_path_map (n_sbi w))"
    using unlink_effect [OF assms(1-4) f assms(5,6,8)] by blast
  have "sbi_path_map (n_sbi w') s = None"
    using w'(5) path_map_del_gone [OF assms(14,1), of s] assms(7,15-17) by simp
  moreover have "pool_wf (n_sbi w')" using assms(13) w'(4) by (simp add: pool_wf_def same_pool_def)
  ultimately show ?thesis using lookup_missing [of w' s env parent name] w' assms(9-12,18) by simp
qed

text \<open>
  One of several names of a file is not removed by its unlink: the inode keeps its relative path when the name it was placed
  under is unlinked, and the lookup takes the entry of the path table because the lower inode
  still has a link. The removed name comes back.
\<close>

theorem unlinked_hardlink_resurrected:
  assumes "ns_ino r w = Some si" "alias_lower d si = Some lo" "n_at w lo = (m, s)" "n_tree w m s = Some lo"
    and "1 < lower_nlink env w lo" "ne_unlink env lo = Ok u" "1 < si_nlink si" "dir \<noteq> r"
    and "si_lower_path si = Some \<lparr>p_mnt = m, p_dentry = lo\<rparr>" "answers env s" "ne_alloc env" "io_grab (ne_io env) r"
    and "\<not> sbi_cache_mode (n_sbi w)" "sbi_path_map_ready (n_sbi w)" "sbi_path_map (n_sbi w) s = Some r"
    and "p_mnt parent = m" "join_path (snd (n_at w (p_dentry parent))) name = s"
  shows "fst (unlink_inner env dir r d w) = Done
    \<and> fst (lookup_inner env parent d' name (Some s) (snd (unlink_inner env dir r d w))) = Ok (Some r)"
proof -
  have f: "ne_fault env m s = None" "lower_nlink env w lo \<noteq> 0" using assms(5,10) by (simp_all add: answers_def)
  obtain w' where w': "unlink_inner env dir r d w = (Done, w')" "n_tree w' = (n_tree w)(m := (n_tree w m)(s := None))"
    "n_at w' = n_at w" "lower_nlink env w' lo = lower_nlink env w lo - 1" "same_pool (n_sbi w) (n_sbi w')"
    "sbi_path_map (n_sbi w') = (if si_nlink si \<le> 1 \<and> si_rel_path si \<noteq> None then sbi_path_map (path_map_del r (n_sbi w)) else sbi_path_map (n_sbi w))"
    "map_option si_lower_path (ns_ino r w') = Some (si_lower_path si)"
    by (rule unlink_effect [OF assms(1-4) f assms(6,8)])
  have "ns_child env w' parent name = Ok None" using w' f(1) assms(16,17) by (simp add: ns_child_def)
  moreover have "live_replayed env w' s = Some (r, \<lparr>p_mnt = m, p_dentry = lo\<rparr>)"
    using w' assms(5,7,9,14,15) by (auto simp: live_replayed_def lookup_rel_path_def same_pool_def)
  ultimately show ?thesis using w'(1,5) assms(11-13) by (simp add: lookup_inner_def lookup_negative_def same_pool_def)
qed

text \<open>
  A copy of the file on another tier, as a truncate that rehomed the file leaves it until its
  drain: the unlink removes only the copy the inode uses, and the next lookup finds the other.
\<close>

lemma skip_frame:
  "metadata_tier_active (note_metadata_tier_skip sbi) t = metadata_tier_active sbi t"
  "on_tier env (upd_ns note_metadata_tier_skip w) t s = on_tier env w t s"
  by (simp_all add: metadata_tier_active_def note_metadata_tier_skip_def on_tier_def resolve_rel_path_on_tier_def ns_walk_def
      cong: option.case_cong)

lemma across_found:
  assumes "t \<in> set ts" "t \<noteq> x" "s \<noteq> []" "metadata_tier_active (n_sbi w) t" "on_tier env w t s = Ok p"
  shows "\<exists>q u w'. across_loop env x (Some s) ts w = (Ok (q, u), w')"
  using assms
proof (induction ts arbitrary: w)
  case (Cons a ts)
  have skip: "metadata_tier_active (n_sbi (upd_ns note_metadata_tier_skip w)) t" "on_tier env (upd_ns note_metadata_tier_skip w) t s = Ok p"
    using Cons.prems(4,5) by (simp_all add: skip_frame)
  show ?case
  proof (cases "a = t")
    case True
    then show ?thesis using Cons.prems by simp
  next
    case False
    then have t: "t \<in> set ts" using Cons.prems(1) by simp
    have here: "\<exists>q u w'. across_loop env x (Some s) ts w = (Ok (q, u), w')" using Cons.IH [OF t] Cons.prems(2-5) by blast
    have there: "\<exists>q u w'. across_loop env x (Some s) ts (upd_ns note_metadata_tier_skip w) = (Ok (q, u), w')"
      using Cons.IH [OF t] Cons.prems(2,3) skip by blast
    show ?thesis using here there by (auto split: sum.splits)
  qed
qed simp

lemma stale_copy_resurrected:
  assumes "ns_ino r w = Some si" "alias_lower d si = Some lo" "n_at w lo = (m, s)" "n_tree w m s = Some lo"
    and "lower_nlink env w lo \<noteq> 0" "ne_unlink env lo = Ok u" "dir \<noteq> r" "s \<noteq> []" "answers env s" "ne_alloc env"
    and "\<not> sbi_cache_mode (n_sbi w)" "pool_wf (n_sbi w)" "metadata_tier_active (n_sbi w) t"
    and "p_mnt (t_lower_path (tier_at (n_sbi w) t)) = m'" "m' \<noteq> m" "n_tree w m' s = Some old"
  shows "fst (unlink_inner env dir r d w) = Done
    \<and> fst (lookup_inner env parent d' name (Some s) (snd (unlink_inner env dir r d w))) \<noteq> Ok None"
proof -
  have f: "ne_fault env m s = None" using assms(9) by (simp add: answers_def)
  obtain w' where w': "unlink_inner env dir r d w = (Done, w')" "n_tree w' = (n_tree w)(m := (n_tree w m)(s := None))"
    "same_pool (n_sbi w) (n_sbi w')"
    using unlink_effect [OF assms(1-4) f assms(5-7)] by blast
  have t: "t < sbi_ntiers (n_sbi w)" using assms(13) by (auto simp: metadata_tier_active_def split: if_splits)
  have ot: "on_tier env w' t s = Ok \<lparr>p_mnt = m', p_dentry = old\<rparr>"
    using w' assms(8,9,14-16) t by (simp add: on_tier_def resolve_rel_path_on_tier_def ns_walk_def answers_def same_pool_def)
  have tm: "unat t < MAX_TIERS" "t \<in> set (tier_ids (n_sbi w'))"
    using t assms(12) w'(3) set_tier_ids [of "n_sbi w'"] by (auto simp: pool_wf_def word_less_nat_alt same_pool_def)
  then have "t \<noteq> word_of_nat MAX_TIERS" by (auto simp: MAX_TIERS_def)
  moreover have "metadata_tier_active (n_sbi w') t = metadata_tier_active (n_sbi w) t"
    using w'(3) by (simp add: metadata_tier_active_def same_pool_def)
  then have "metadata_tier_active (n_sbi w') t" using assms(13) by simp
  ultimately obtain q a w2 where "lookup_rel_across_tiers env (word_of_nat MAX_TIERS) (Some s) w' = (Ok (q, a), w2)"
    using across_found [OF tm(2) _ assms(8) _ ot, of "word_of_nat MAX_TIERS"] w'(3) assms(11) by (auto simp: lookup_rel_across_tiers_def same_pool_def)
  then have "fst (lookup_negative env b d' s w') \<noteq> Ok None" for b
    by (auto simp: lookup_negative_def Let_def split: option.splits prod.splits sum.splits)
  then show ?thesis using w'(1,3) assms(10,11)
    by (auto simp: lookup_inner_def same_pool_def split: option.splits prod.splits sum.splits)
qed

section \<open>Draining rehomed files\<close>

lemma on_tier_place:
  assumes "tree_ok w" "on_tier env w t s = Ok p"
  shows "t < sbi_ntiers (n_sbi w) \<and> p_mnt p = p_mnt (t_lower_path (tier_at (n_sbi w) t)) \<and> n_at w (p_dentry p) = (p_mnt p, s)"
  using assms
  by (auto simp: on_tier_def resolve_rel_path_on_tier_def ns_walk_def tree_ok_def split: if_splits option.splits)

lemma unlink_rel_frame:
  "n_sbi (snd (unlink_rel_path_on_tier env t s w)) = n_sbi w"
  by (simp add: unlink_rel_path_on_tier_def lower_unlink_def split: prod.splits sum.splits option.splits)

lemma unlink_rel_effect:
  assumes "tree_ok w" "hd s \<noteq> CHR ''/''" "unlink_rel_path_on_tier env t s w = (Done, w')"
  shows "n_tree w' = (n_tree w)(p_mnt (t_lower_path (tier_at (n_sbi w) t)) :=
           (n_tree w (p_mnt (t_lower_path (tier_at (n_sbi w) t))))(s := None))"
proof -
  let ?m = "p_mnt (t_lower_path (tier_at (n_sbi w) t))"
  obtain ps name where sp: "split_rel s = (ps, name)" by fastforce
  obtain parent where par: "on_tier env w t ps = Ok parent" and s: "s \<noteq> []"
    using assms(3) sp by (auto simp: unlink_rel_path_on_tier_def split: if_splits sum.splits)
  have at: "p_mnt parent = ?m" "snd (n_at w (p_dentry parent)) = ps" using on_tier_place [OF assms(1) par] by simp_all
  have j: "join_path ps name = s" by (rule split_rel_join [OF sp assms(2) s])
  have ch: "ns_child env w parent name = Ok (n_tree w ?m s)"
    using assms(3) sp par at j by (auto simp: unlink_rel_path_on_tier_def ns_child_def split: if_splits sum.splits option.splits)
  show ?thesis
  proof (cases "n_tree w ?m s")
    case None
    then have "w' = w" using assms(3) sp par ch by (auto simp: unlink_rel_path_on_tier_def split: if_splits)
    then show ?thesis using None by (auto simp: fun_upd_idem)
  next
    case (Some l)
    then have "w' = set_nlink env l (\<lambda>n. n - 1) (cut_name ?m s w)"
      using assms(1,3) sp par ch tree_okD [OF assms(1) Some]
      by (auto simp: unlink_rel_path_on_tier_def lower_unlink_def split: if_splits sum.splits)
    then show ?thesis by (simp add: cut_name_def)
  qed
qed

lemma rehome_drained_inode:
  "sbi_inodes (rehome_drained env r sbi) = (sbi_inodes sbi)(r := map_option (\<lambda>i. i\<lparr>si_write_staged := False, si_write_staged_drain_tier := 8\<rparr>) (sbi_inodes sbi r))"
  "sbi_inode_list (rehome_drained env r sbi) = sbi_inode_list sbi"
  by (auto simp: rehome_drained_def Let_def upd_staging_def upd_inode_def MAX_TIERS_def)

lemma drain_one_rehome_done:
  assumes "ns_ino r w = Some si" "si_write_staged si" "drain_tier_active (n_sbi w) (si_write_staged_drain_tier si)"
    and "drain_one_rehome env r w = (Done, w')"
  obtains s w1 where "si_rel_path si = Some s" "unlink_rel_path_on_tier env (si_write_staged_drain_tier si) s w = (Done, w1)"
    and "w' = upd_ns (rehome_drained env r) w1"
  using assms by (auto simp: drain_one_rehome_def Let_def split: option.splits if_splits prod.splits sum.splits)

text \<open>
  Draining a rehomed file removes its old copy and nothing else: the entry of the file's path
  on the tier it left is gone, every other name of every tier is as before, the live copy
  included, and the inode is marked as drained.
\<close>

theorem drain_one_rehome_removes_old_copy:
  assumes "tree_ok w" "ns_ino r w = Some si" "si_write_staged si" "si_write_staged_drain_tier si = t"
    and "drain_tier_active (n_sbi w) t" "si_rel_path si = Some s" "hd s \<noteq> CHR ''/''"
    and "drain_one_rehome env r w = (Done, w')"
  shows "n_tree w' (p_mnt (t_lower_path (tier_at (n_sbi w) t))) s = None
    \<and> (\<forall>m s'. (m, s') \<noteq> (p_mnt (t_lower_path (tier_at (n_sbi w) t)), s) \<longrightarrow> n_tree w' m s' = n_tree w m s')
    \<and> sbi_inodes (n_sbi w') = (sbi_inodes (n_sbi w))(r \<mapsto> si\<lparr>si_write_staged := False, si_write_staged_drain_tier := 8\<rparr>)"
proof -
  obtain w1 where u: "unlink_rel_path_on_tier env t s w = (Done, w1)" "w' = upd_ns (rehome_drained env r) w1"
    using drain_one_rehome_done [OF assms(2,3) _ assms(8)] assms(4-6) by auto
  have "n_sbi w1 = n_sbi w" using unlink_rel_frame [of env t s w] u(1) by simp
  then show ?thesis
    using unlink_rel_effect [OF assms(1,7) u(1)] u(2) assms(2) by (auto simp: rehome_drained_inode)
qed

definition rehomed_here :: "ns_world \<Rightarrow> iref \<Rightarrow> bool" where
  "rehomed_here w r \<longleftrightarrow> (case ns_ino r w of None \<Rightarrow> False | Some si \<Rightarrow> si_write_staged si)"

lemma drain_rehomes_ends:
  "\<exists>res w'. drain_rehomes env w = Some (res, w') \<and> (res = Done \<longrightarrow> find_drainable_rehome env (n_sbi w') = None)"
proof (induction "length (filter (rehomed_here w) (sbi_inode_list (n_sbi w)))" arbitrary: w rule: less_induct)
  case less
  show ?case
  proof (cases "find_drainable_rehome env (n_sbi w)")
    case None
    then show ?thesis by (subst drain_rehomes.simps) simp
  next
    case (Some r)
    then obtain si where r: "r \<in> set (sbi_inode_list (n_sbi w))" "ns_ino r w = Some si" "si_write_staged si"
        "drain_tier_active (n_sbi w) (si_write_staged_drain_tier si)"
      by (auto simp: find_drainable_rehome_def find_Some_iff split: option.splits)
    obtain x w' where d: "drain_one_rehome env r w = (x, w')" by fastforce
    show ?thesis
    proof (cases x)
      case (Inl e)
      then show ?thesis using Some d by (subst drain_rehomes.simps) simp
    next
      case (Inr u)
      have d': "drain_one_rehome env r w = (Done, w')" using d Inr by simp
      obtain s w1 where u: "unlink_rel_path_on_tier env (si_write_staged_drain_tier si) s w = (Done, w1)"
          "w' = upd_ns (rehome_drained env r) w1"
        by (rule drain_one_rehome_done [OF r(2-4) d'])
      have "n_sbi w1 = n_sbi w" using unlink_rel_frame [of env "si_write_staged_drain_tier si" s w] u(1) by simp
      then have i: "sbi_inodes (n_sbi w') = (sbi_inodes (n_sbi w))(r \<mapsto> si\<lparr>si_write_staged := False, si_write_staged_drain_tier := 8\<rparr>)"
          "sbi_inode_list (n_sbi w') = sbi_inode_list (n_sbi w)"
        using u(2) r(2) by (simp_all add: rehome_drained_inode)
      have "length (filter (rehomed_here w') (sbi_inode_list (n_sbi w'))) < length (filter (rehomed_here w) (sbi_inode_list (n_sbi w)))"
        unfolding i(2) using r(2,3) by (intro filter_length_less [OF r(1)]) (auto simp: rehomed_here_def i split: if_splits)
      then show ?thesis using less.hyps [of w'] Some d Inr by (subst drain_rehomes.simps) simp
    qed
  qed
qed

text \<open>
  The loop that drains every rehomed file returns, whatever the lower filesystems answer: each
  turn either fails and stops or takes one inode off the set of rehomed ones. If it succeeds, no
  rehomed file with an active old tier is left.
\<close>

theorem drain_rehomes_returns:
  "(\<exists>w'. drain_rehomes env w = Some (Done, w') \<and> find_drainable_rehome env (n_sbi w') = None)
    \<or> (\<exists>e w'. drain_rehomes env w = Some (Err e, w'))"
proof -
  obtain res w' where d: "drain_rehomes env w = Some (res, w')" "res = Done \<longrightarrow> find_drainable_rehome env (n_sbi w') = None"
    using drain_rehomes_ends by blast
  then show ?thesis by (cases res) auto
qed

section \<open>Frames of the inode lookup\<close>

text \<open>A step that adds inodes and changes neither the existing ones nor the path table.\<close>

definition grows :: "sb_info \<Rightarrow> sb_info \<Rightarrow> bool" where
  "grows s s' \<longleftrightarrow> same_pool s s' \<and> sbi_path_map s' = sbi_path_map s \<and> sbi_inodes s \<subseteq>\<^sub>m sbi_inodes s'"

lemma growsI:
  "same_pool s s' \<Longrightarrow> sbi_path_map s' = sbi_path_map s \<Longrightarrow> sbi_inodes s' = sbi_inodes s \<Longrightarrow> grows s s'"
  by (simp add: grows_def)

lemma same_pool_trans [trans]: "same_pool a b \<Longrightarrow> same_pool b c \<Longrightarrow> same_pool a c"
  by (simp add: same_pool_def)

lemma grows_trans [trans]: "grows a b \<Longrightarrow> grows b c \<Longrightarrow> grows a c"
  by (auto simp: grows_def intro: same_pool_trans map_le_trans)

lemma grows_refl [simp]: "grows a a"
  by (rule growsI) simp_all

lemma grows_ino: "grows s s' \<Longrightarrow> sbi_inodes s r = Some si \<Longrightarrow> sbi_inodes s' r = Some si"
  by (auto simp: grows_def map_le_def dom_def)

lemma grows_cached: "grows s (snd (iget_cached env p s))"
  by (rule growsI) (simp_all add: iget_cached_def Let_def lower_ino_map_remove_def same_pool_def split: option.split)

lemma grows_known_oid: "grows s (fst (snd (iget_known_oid env p n s xs)))"
  by (rule growsI)
    (simp_all add: iget_known_oid_def oid_wb_drain_def oid_wb_worker_def oid_wb_take_def same_pool_def split: sum.split option.split)

lemma grows_tables:
  "grows s (snd (alloc_oid be now rnd s))" "grows s (fst (snd (snd (oid_wb_queue alloc dino xerr p oid s xs))))"
  "grows s (snd (oid_map_insert oid r s))" "grows s (snd (lower_ino_map_insert alloc t i r s))"
  by (auto intro!: growsI simp: alloc_oid_def Let_def oid_wb_queue_def oid_wb_add_def oid_map_insert_def rht_insert_def
      lower_ino_map_insert_def same_pool_def split: option.split prod.split)

lemma grows_mint: "grows s (fst (snd (iget_mint env p s xs)))"
proof -
  obtain oid s1 where a: "alloc_oid (ig_be env) (ig_now env) (ig_rand env) s = (oid, s1)" by fastforce
  obtain x k s2 xs' where q: "oid_wb_queue (ig_alloc_wb env) (ig_dino env) (ig_xerr env) p oid s1 xs = (x, k, s2, xs')"
    by (metis prod_cases4)
  have "grows s s1" using grows_tables(1) [of s] a by (metis snd_conv)
  also have "grows s1 s2" using grows_tables(2) [of s1 "ig_alloc_wb env" "ig_dino env" "ig_xerr env" p oid xs] q by simp
  finally show ?thesis using a q by (cases x) (simp_all add: iget_mint_def)
qed

lemma grows_finish: "grows s (snd (iget_finish env p root t n oid gen s))"
proof (cases "sbi_inodes s n = None \<and> ig_alloc env")
  case False
  then show ?thesis by (auto simp: iget_finish_def iget_new_def split: option.split)
next
  case True
  define si where "si = copy_attrs env (p_dentry p) ((alloc_inode (ig_stale env) n)\<lparr>si_oid := oid, si_gen := gen, si_lower_path := Some p,
                        si_current_tier := (if root then 0 else word_of_nat t), si_intended_tier := (if root then 0 else word_of_nat t)\<rparr>)"
  define s1 where "s1 = s\<lparr>sbi_inodes := (sbi_inodes s)(n \<mapsto> si), sbi_inode_list := n # sbi_inode_list s\<rparr>"
  have "grows s s1" using True by (auto simp: s1_def grows_def same_pool_def map_le_def)
  also have "grows s1 (snd (oid_map_insert oid n s1))" by (rule grows_tables)
  finally have g: "grows s (snd (oid_map_insert oid n s1))" .
  show ?thesis
    using True g grows_trans [OF g grows_tables(4) [of _ "ig_alloc_map env" "word_of_nat t" "ig_lino env (p_dentry p)" n]]
    by (cases root) (simp_all add: iget_finish_def iget_new_def Let_def s1_def si_def)
qed

lemma grows_iget: "grows s (fst (snd (iget env p root fresh s xs)))"
proof (cases root)
  case True
  then show ?thesis using grows_finish [of s env p True MAX_TIERS 1 zero_oid 0]
    by (auto simp: iget_def split: prod.split)
next
  case False
  obtain c s1 where c: "iget_cached env p s = (c, s1)" by fastforce
  have g1: "grows s s1" using grows_cached [of s env p] c by simp
  show ?thesis
  proof (cases "c = None \<and> ig_dino env (p_dentry p) \<noteq> None")
    case False
    then show ?thesis using c g1 \<open>\<not> root\<close> by (auto simp: iget_def split: option.splits)
  next
    case True
    then obtain n where n: "ig_dino env (p_dentry p) = Some n" by auto
    define k where "k = (if fresh then (Err ENODATA, s1, xs) else iget_known_oid env p n s1 xs)"
    obtain ko s2 xs2 where ko: "k = (ko, s2, xs2)" by (cases k) auto
    have g2: "grows s s2"
      using g1 grows_known_oid [of s1 env p n xs] ko by (auto simp: k_def intro: grows_trans split: if_splits)
    obtain mo s3 xs3 where mo: "iget_mint env p s2 xs2 = (mo, s3, xs3)" by (metis prod_cases3)
    have g3: "grows s s3" using grows_trans [OF g2] grows_mint [of s2 env p xs2] mo by simp
    show ?thesis
      using c True n g2 g3 \<open>\<not> root\<close> grows_trans [OF g2 grows_finish] grows_trans [OF g3 grows_finish]
      unfolding iget_def by (auto simp: Let_def k_def [symmetric] ko mo split: sum.split prod.split) (metis snd_conv)+
  qed
qed

text \<open>The bookkeeping of a placement: the lower trees stay, and only the inode's own record and path change.\<close>

definition keeps :: "iref \<Rightarrow> ns_world \<Rightarrow> ns_world \<Rightarrow> bool" where
  "keeps r w w' \<longleftrightarrow> n_tree w' = n_tree w \<and> n_at w' = n_at w \<and> n_nlink w' = n_nlink w \<and> same_pool (n_sbi w) (n_sbi w')
     \<and> (\<forall>q. q \<noteq> r \<longrightarrow> ns_ino q w' = ns_ino q w) \<and> (ns_ino r w \<noteq> None \<longrightarrow> ns_ino r w' \<noteq> None)"

lemma keeps_refl [simp]: "keeps r w w"
  by (simp add: keeps_def)

lemma placement_record_frame:
  "same_pool s (snd (snd (placement_record a now oid ms c i sync s)))"
  "sbi_inodes (snd (snd (placement_record a now oid ms c i sync s))) = sbi_inodes s"
  "sbi_path_map (snd (snd (placement_record a now oid ms c i sync s))) = sbi_path_map s"
  by (simp_all add: placement_record_def placement_wb_add_def Let_def same_pool_def)

lemma same_pool_path: "same_pool s (s'\<lparr>sbi_path_map := m\<rparr>) = same_pool s s'"
  by (simp add: same_pool_def)

lemma path_map_add_frame:
  "same_pool s (path_map_add r s') = same_pool s s'" "q \<noteq> r \<Longrightarrow> sbi_inodes (path_map_add r s') q = sbi_inodes s' q"
  "sbi_inodes (path_map_add r s') r = None \<longleftrightarrow> sbi_inodes s' r = None"
  by (simp_all add: path_map_add_def rht_insert_def same_pool_path split: option.split sum.split)

lemma path_map_del_frame':
  "q \<noteq> r \<Longrightarrow> sbi_inodes (path_map_del r s') q = sbi_inodes s' q"
  by (simp add: path_map_del_def Let_def split: option.split)

lemma set_rel_path_frame:
  "same_pool s (set_rel_path r rel s') = same_pool s s'"
  "q \<noteq> r \<Longrightarrow> sbi_inodes (set_rel_path r rel s') q = sbi_inodes s' q"
  "sbi_inodes (set_rel_path r rel s') r = None \<longleftrightarrow> sbi_inodes s' r = None"
  by (simp_all add: set_rel_path_def path_map_add_frame path_map_del_frame' path_map_del_inode)

lemma ensure_oid_frame:
  "\<exists>xs. snd (ensure_oid_persisted env si w) = w\<lparr>n_xs := xs\<rparr>"
proof -
  have "\<exists>xs. w = w\<lparr>n_xs := xs\<rparr>" by (rule exI [of _ "n_xs w"]) simp
  then show ?thesis unfolding ensure_oid_persisted_def by (auto split: option.split sum.split prod.split)
qed

lemma placement_record_done: "fst (placement_record a now oid ms c i sync s) = Done"
  by (simp add: placement_record_def Let_def)

lemma track_placed_done:
  assumes "ns_ino r w = Some si" "si_lower_path si = Some p" "ig_dino (ne_ig env) (p_dentry p) = Some n"
    and "ig_rerr (ne_ig env) n = None" "ig_xerr (ne_ig env) n = None" "n_xs w n = None" "ne_alloc env"
  shows "\<exists>w'. track_placed env r rel t pin rec w = (Done, w')"
proof -
  define s1 where "s1 = upd_inode r (\<lambda>i. i\<lparr>si_current_tier := t, si_intended_tier := t, si_movement_state := MS_PLACED,
                                    si_transaction_seq := 0\<rparr>) (set_rel_path r rel (n_sbi w))"
  obtain h where "sbi_inodes (set_rel_path r rel (n_sbi w)) = (sbi_inodes (n_sbi w))(r \<mapsto> si\<lparr>si_rel_path := rel, si_path_hashed := h\<rparr>)"
    using set_rel_path_inode [OF assms(1)] by blast
  then obtain sj where sj: "sbi_inodes s1 r = Some sj" "si_lower_path sj = Some p" using assms(2) by (simp add: s1_def)
  have e: "ensure_oid_persisted env sj (w\<lparr>n_sbi := s1\<rparr>) = (Done, w\<lparr>n_sbi := s1, n_xs := (n_xs w)(n \<mapsto> si_oid sj)\<rparr>)"
    using sj(2) assms(3-6) by (simp add: ensure_oid_persisted_def read_oid_xattr_def write_oid_xattr_def setxattr_create_def)
  obtain y b s3 where pr: "placement_record (ne_alloc env) (io_now (ne_io env)) (si_oid sj) MS_PLACED t t False s1 = (y, b, s3)"
    by (metis prod_cases3)
  then have "y = Done" using placement_record_done [of "ne_alloc env" "io_now (ne_io env)" "si_oid sj" MS_PLACED t t False s1] by simp
  then show ?thesis using assms(7) sj(1) e pr unfolding track_placed_def set_inode_placement_def
    by (cases "rec") (simp_all add: s1_def [symmetric] Let_def)
qed

lemma track_placed_keeps: "keeps r w (snd (track_placed env r rel t pin rec w))"
proof (cases "rel \<noteq> None \<and> \<not> ne_alloc env")
  case True
  then show ?thesis by (simp add: track_placed_def set_inode_placement_def keeps_def)
next
  case False
  define s1 where "s1 = upd_inode r (\<lambda>i. i\<lparr>si_current_tier := t, si_intended_tier := t, si_movement_state := MS_PLACED,
                                    si_transaction_seq := 0\<rparr>) (set_rel_path r rel (n_sbi w))"
  define w1 where "w1 = w\<lparr>n_sbi := s1\<rparr>"
  have k1: "keeps r w w1" by (simp add: keeps_def w1_def s1_def set_rel_path_frame)
  define l where "l = (if rec then case ns_ino r w1 of None \<Rightarrow> (Err ENOENT, w1)
                    | Some si \<Rightarrow> (case ensure_oid_persisted env si w1 of (Err e, w2) \<Rightarrow> (Err e, w2)
                        | (Ok _, w2) \<Rightarrow> (case placement_record (ne_alloc env) (io_now (ne_io env)) (si_oid si) MS_PLACED t t False (n_sbi w2) of
                              (x, _, sbi3) \<Rightarrow> (x, w2\<lparr>n_sbi := sbi3\<rparr>))) else (Done, w1))"
  have k2: "keeps r w (snd l)"
  proof (cases "rec \<and> ns_ino r w1 \<noteq> None")
    case False
    then show ?thesis using k1 by (auto simp: l_def)
  next
    case True
    then obtain si where si: "ns_ino r w1 = Some si" by auto
    obtain x w2 where e: "ensure_oid_persisted env si w1 = (x, w2)" by fastforce
    then obtain xs where w2: "w2 = w1\<lparr>n_xs := xs\<rparr>" using ensure_oid_frame [of env si w1] by auto
    have k: "keeps r w w2" using k1 w2 by (simp add: keeps_def)
    obtain y b s3 where pr: "placement_record (ne_alloc env) (io_now (ne_io env)) (si_oid si) MS_PLACED t t False (n_sbi w2) = (y, b, s3)"
      by (metis prod_cases3)
    have "same_pool (n_sbi w2) s3" "sbi_inodes s3 = sbi_inodes (n_sbi w2)"
      using placement_record_frame(1,2) [where s = "n_sbi w2" and a = "ne_alloc env" and now = "io_now (ne_io env)" and oid = "si_oid si"
        and ms = MS_PLACED and c = t and i = t and sync = False] pr by simp_all
    then have "keeps r w (w2\<lparr>n_sbi := s3\<rparr>)" using k by (auto simp: keeps_def intro: same_pool_trans)
    then show ?thesis using True si e pr k by (cases x) (simp_all add: l_def)
  qed
  obtain x w2 where lx: "l = (x, w2)" by fastforce
  have k3: "keeps r w (upd_ns (upd_inode r (\<lambda>i. i\<lparr>si_replay_pinned := True\<rparr>)) w2)" using k2 lx by (auto simp: keeps_def)
  show ?thesis
    using False k2 k3 lx unfolding track_placed_def set_inode_placement_def
    by (cases x) (simp_all add: s1_def [symmetric] w1_def [symmetric] l_def [symmetric])
qed

section \<open>Materialised parents\<close>

text \<open>Everything in a tree is below directories of the tree.\<close>

definition tree_closed :: "ns_world \<Rightarrow> bool" where
  "tree_closed w \<longleftrightarrow> (\<forall>m s x. s \<noteq> [] \<longrightarrow> n_tree w m (s @ ''/'' @ x) \<noteq> None \<longrightarrow> n_tree w m s \<noteq> None)"

definition unused :: "dentry \<Rightarrow> ns_world \<Rightarrow> bool" where
  "unused d w \<longleftrightarrow> (\<forall>m s. n_tree w m s \<noteq> Some d)
     \<and> (\<forall>t < sbi_ntiers (n_sbi w). p_dentry (t_lower_path (tier_at (n_sbi w) t)) \<noteq> d)"

text \<open>
  A directory made by the lower filesystem is a new object: its number is above that of its
  parent, and it is not one of the dentries in use. After the first of a chain of directories
  only those below the newest matter.
\<close>

definition new_dirs :: "ns_env \<Rightarrow> ns_world \<Rightarrow> bool" where
  "new_dirs env w \<longleftrightarrow> (\<forall>p c d. ne_mkdir env p c = Ok d \<longrightarrow> p_dentry p < d \<and> unused d w)"

definition new_below :: "ns_env \<Rightarrow> path \<Rightarrow> ns_world \<Rightarrow> bool" where
  "new_below env cur w \<longleftrightarrow> new_dirs env w \<or>
     (\<forall>p c d. p_dentry cur \<le> p_dentry p \<longrightarrow> ne_mkdir env p c = Ok d \<longrightarrow> p_dentry p < d \<and> unused d w)
     \<and> (\<forall>x. n_tree w (p_mnt cur) (snd (n_at w (p_dentry cur)) @ ''/'' @ x) = None)
     \<and> snd (n_at w (p_dentry cur)) \<noteq> []"

definition extends :: "vfsmount \<Rightarrow> nat \<Rightarrow> ns_world \<Rightarrow> ns_world \<Rightarrow> bool" where
  "extends m k w w' \<longleftrightarrow> tree_ok w' \<and> tree_closed w' \<and> same_pool (n_sbi w) (n_sbi w')
     \<and> (\<forall>m' s d. n_tree w m' s = Some d \<longrightarrow> n_tree w' m' s = Some d)
     \<and> (\<forall>m' s. n_tree w' m' s \<noteq> n_tree w m' s \<longrightarrow> m' = m \<and> length s \<le> k)
     \<and> dom (sbi_inodes (n_sbi w)) \<subseteq> dom (sbi_inodes (n_sbi w'))"

lemma extends_refl: "tree_ok w \<Longrightarrow> tree_closed w \<Longrightarrow> extends m k w w"
  by (simp add: extends_def)

lemma extends_trans:
  assumes a: "extends m j w w1" and b: "extends m k w1 w2" and "j \<le> k"
  shows "extends m k w w2"
proof -
  have "m' = m \<and> length s \<le> k" if "n_tree w2 m' s \<noteq> n_tree w m' s" for m' s
  proof (cases "n_tree w1 m' s = n_tree w m' s")
    case True
    then show ?thesis using b that unfolding extends_def by metis
  next
    case False
    then have "m' = m \<and> length s \<le> j" using a unfolding extends_def by metis
    then show ?thesis using assms(3) by simp
  qed
  moreover have "same_pool (n_sbi w) (n_sbi w2)" using a b by (auto simp: extends_def intro: same_pool_trans)
  moreover have "dom (sbi_inodes (n_sbi w)) \<subseteq> dom (sbi_inodes (n_sbi w2))" using a b unfolding extends_def by (meson subset_trans)
  moreover have "n_tree w2 m' s = Some d" if "n_tree w m' s = Some d" for m' s d using a b that by (simp add: extends_def)
  ultimately show ?thesis using b by (simp add: extends_def)
qed

lemma join_path_length: "length p \<le> length (join_path p c)"
  by (simp add: join_path_def)

lemma foldl_join_length: "length p \<le> length (foldl join_path p cs)"
  by (induction cs arbitrary: p) (auto intro: order.trans [OF join_path_length])

lemma tree_ok_same:
  "n_tree w' = n_tree w \<Longrightarrow> n_at w' = n_at w \<Longrightarrow> same_pool (n_sbi w) (n_sbi w') \<Longrightarrow> tree_ok w' = tree_ok w"
  "n_tree w' = n_tree w \<Longrightarrow> tree_closed w' = tree_closed w"
  "n_tree w' = n_tree w \<Longrightarrow> same_pool (n_sbi w) (n_sbi w') \<Longrightarrow> unused d w' = unused d w"
  by (simp_all add: tree_ok_def tree_closed_def unused_def same_pool_def)

text \<open>The effect of one new directory in the tree.\<close>

lemma put_dir_effect:
  assumes "tree_ok w" "tree_closed w" "n_at w (p_dentry cur) = (p_mnt cur, place)" "new_below env cur w"
    and "ne_mkdir env cur c = Ok d" "place \<noteq> [] \<longrightarrow> n_tree w (p_mnt cur) place \<noteq> None" "c \<noteq> []" "CHR ''/'' \<notin> set c"
    and "n_tree w (p_mnt cur) (join_path place c) = None"
    and "w1 = set_nlink env d f (put_name (p_mnt cur) (join_path place c) d w)"
  shows "extends (p_mnt cur) (length (join_path place c)) w w1" "n_at w1 d = (p_mnt cur, join_path place c)"
    and "n_tree w1 (p_mnt cur) (join_path place c) = Some d" "new_below env \<lparr>p_mnt = p_mnt cur, p_dentry = d\<rparr> w1"
proof -
  let ?m = "p_mnt cur" and ?s = "join_path place c"
  have u: "unused d w" "p_dentry cur < d" using assms(4,5) by (auto simp: new_below_def new_dirs_def)
  have w1: "n_tree w1 = (n_tree w)(?m := (n_tree w ?m)(?s \<mapsto> d))" "n_at w1 = (n_at w)(d := (?m, ?s))" "n_sbi w1 = n_sbi w"
    by (simp_all add: assms(10) put_name_def)
  have s: "?s \<noteq> []" using assms(7) by (simp add: join_path_def)
  show "n_at w1 d = (?m, ?s)" "n_tree w1 ?m ?s = Some d" using w1 by simp_all
  have ok: "tree_ok w1" using assms(1) u(1) w1 s by (auto simp: tree_ok_def unused_def)
  have cl: "tree_closed w1" unfolding tree_closed_def
  proof (intro allI impI)
    fix m s' x assume s': "s' \<noteq> []" and t: "n_tree w1 m (s' @ ''/'' @ x) \<noteq> None"
    show "n_tree w1 m s' \<noteq> None"
    proof (cases "m = ?m \<and> s' @ ''/'' @ x = ?s")
      case True
      have "CHR ''/'' \<in> set ?s" using arg_cong [OF conjunct2 [OF True], of set] by auto
      then have p: "place \<noteq> []" using assms(8) by (auto simp: join_path_def split: if_splits)
      have "s' @ ''/'' @ x = place @ ''/'' @ c" using True p by (simp add: join_path_def)
      then have "s' = place \<or> (\<exists>y. place = s' @ ''/'' @ y)"
        using assms(8) by (auto simp: append_eq_append_conv2 Cons_eq_append_conv append_eq_Cons_conv)
      then have "n_tree w ?m s' \<noteq> None" using assms(2,6) p s' unfolding tree_closed_def by blast
      then show ?thesis using True w1 by auto
    next
      case False
      then have "n_tree w m (s' @ ''/'' @ x) \<noteq> None" using t w1(1) by (auto split: if_splits)
      then have "n_tree w m s' \<noteq> None" using assms(2) s' unfolding tree_closed_def by blast
      then show ?thesis using w1(1) by auto
    qed
  qed
  show "extends ?m (length ?s) w w1"
    unfolding extends_def using ok cl w1 assms(9) by (auto split: if_splits)
  have none: "n_tree w ?m (?s @ ''/'' @ x) = None" for x
    using assms(2,9) s unfolding tree_closed_def by blast
  have "unused d' w1 \<and> p_dentry p < d'" if "d \<le> p_dentry p" "ne_mkdir env p c' = Ok d'" for p c' d'
  proof -
    have "p_dentry p < d' \<and> unused d' w" using assms(4) that u(2) unfolding new_below_def new_dirs_def by (meson order.trans order.strict_implies_order)
    then show ?thesis using that(1) w1 by (auto simp: unused_def)
  qed
  then show "new_below env \<lparr>p_mnt = ?m, p_dentry = d\<rparr> w1"
    unfolding new_below_def using none w1 s by auto
qed

lemma same_world:
  assumes "n_tree w' = n_tree w" "n_at w' = n_at w" "same_pool (n_sbi w) (n_sbi w')"
  shows "new_below env cur w' = new_below env cur w"
    and "tree_ok w \<Longrightarrow> tree_closed w \<Longrightarrow> dom (sbi_inodes (n_sbi w)) \<subseteq> dom (sbi_inodes (n_sbi w')) \<Longrightarrow> extends m k w w'"
  using assms tree_ok_same [OF assms(1)] by (simp_all add: new_below_def new_dirs_def extends_def)

lemma ns_iget_frame:
  assumes "ns_iget env p fresh w = (x, w')"
  shows "n_tree w' = n_tree w" "n_at w' = n_at w" "n_nlink w' = n_nlink w" "grows (n_sbi w) (n_sbi w')"
  using assms grows_iget [of "n_sbi w" "ig_at env w" p False fresh "n_xs w"]
  by (auto simp: ns_iget_def split: prod.splits)

lemma keepsD:
  assumes "keeps r w w'"
  shows "n_tree w' = n_tree w" "n_at w' = n_at w" "same_pool (n_sbi w) (n_sbi w')" "dom (sbi_inodes (n_sbi w)) \<subseteq> dom (sbi_inodes (n_sbi w'))"
  using assms by (auto simp: keeps_def dom_def)

lemma materialize_loop_sound:
  assumes "materialize_loop env t cs built cur w = (Ok p, w')" "tree_ok w" "tree_closed w"
    and "n_at w (p_dentry cur) = (p_mnt cur, place)" "place \<noteq> [] \<longrightarrow> n_tree w (p_mnt cur) place = Some (p_dentry cur)"
    and "new_below env cur w" "\<forall>c \<in> set cs. c \<noteq> [] \<and> CHR ''/'' \<notin> set c"
  shows "extends (p_mnt cur) (length (foldl join_path place cs)) w w' \<and> p_mnt p = p_mnt cur
    \<and> n_at w' (p_dentry p) = (p_mnt cur, foldl join_path place cs)"
  using assms
proof (induction cs arbitrary: built cur place w)
  case Nil
  then show ?case by (simp add: extends_refl)
next
  case (Cons c cs)
  let ?s = "join_path place c"
  have al: "ne_alloc env" using Cons.prems(1) by (auto split: if_splits)
  have ch: "ns_child env w cur c = Ok (n_tree w (p_mnt cur) ?s)"
    using Cons.prems(1,4) al by (auto simp: ns_child_def Let_def split: option.splits)
  show ?case
  proof (cases "n_tree w (p_mnt cur) ?s")
    case (Some d)
    have loop: "materialize_loop env t cs (join_path built c) \<lparr>p_mnt = p_mnt cur, p_dentry = d\<rparr> w = (Ok p, w')"
      using Cons.prems(1) al ch Some by (auto simp: Let_def split: if_splits)
    have "new_dirs env w" using Cons.prems(4,6) Some by (auto simp: new_below_def join_path_def)
    then have "new_below env \<lparr>p_mnt = p_mnt cur, p_dentry = d\<rparr> w" by (simp add: new_below_def)
    then show ?thesis using Cons.IH [OF loop Cons.prems(2,3), of ?s] Cons.prems(7) tree_okD [OF Cons.prems(2) Some] Some by simp
  next
    case None
    obtain d where mk: "ne_mkdir env cur c = Ok d"
      using Cons.prems(1) al ch None by (cases "ne_mkdir env cur c") (auto simp: Let_def)
    define q where "q = \<lparr>p_mnt = p_mnt cur, p_dentry = d\<rparr>"
    define w1 where "w1 = set_nlink env d (\<lambda>n. 2) (put_name (p_mnt cur) ?s d w)"
    have c: "c \<noteq> []" "CHR ''/'' \<notin> set c" "place \<noteq> [] \<longrightarrow> n_tree w (p_mnt cur) place \<noteq> None" using Cons.prems(5,7) by auto
    note put = put_dir_effect [OF Cons.prems(2-4,6) mk c(3,1,2) None w1_def, folded q_def]
    obtain x w2 where ig: "ns_iget env q True w1 = (x, w2)" by fastforce
    obtain r where r: "x = Ok r"
      using Cons.prems(1,4) al ch None mk ig by (cases x) (auto simp: Let_def q_def w1_def split: if_splits)
    obtain y w3 where tp: "track_placed env r (Some (join_path built c)) t True True w2 = (y, w3)" by fastforce
    obtain u where y: "y = Ok u"
      using Cons.prems(1,4) al ch None mk ig r tp by (cases y) (auto simp: Let_def q_def w1_def split: if_splits)
    have loop: "materialize_loop env t cs (join_path built c) q w3 = (Ok p, w')"
      using Cons.prems(1,4) al ch None mk ig r tp y by (auto simp: Let_def q_def w1_def split: if_splits)
    note k = keepsD [OF track_placed_keeps [of r w2 env "Some (join_path built c)" t True True, unfolded tp snd_conv]]
    note g = ns_iget_frame [OF ig]
    have same: "n_tree w3 = n_tree w1" "n_at w3 = n_at w1" "same_pool (n_sbi w1) (n_sbi w3)"
      using k g by (auto simp: grows_def intro: same_pool_trans)
    have dm: "dom (sbi_inodes (n_sbi w1)) \<subseteq> dom (sbi_inodes (n_sbi w3))"
      by (rule subset_trans [OF map_le_implies_dom_le k(4)]) (use g(4) in \<open>simp add: grows_def\<close>)
    have w1ok: "tree_ok w1" "tree_closed w1" using put(1) by (simp_all add: extends_def)
    have e3: "extends (p_mnt cur) (length ?s) w w3"
      by (rule extends_trans [OF put(1) same_world(2) [OF same(1-3) w1ok dm]]) simp
    have ok3: "tree_ok w3" "tree_closed w3" "new_below env q w3" using e3 put(4) same_world(1) [OF same(1-3)] by (simp_all add: extends_def)
    have "extends (p_mnt q) (length (foldl join_path ?s cs)) w3 w' \<and> p_mnt p = p_mnt q \<and> n_at w' (p_dentry p) = (p_mnt q, foldl join_path ?s cs)"
      using Cons.IH [OF loop ok3(1,2) _ _ ok3(3), of ?s] put(2,3) same(1,2) Cons.prems(7) by (simp add: q_def)
    then show ?thesis using extends_trans [OF e3 _ foldl_join_length] by (simp add: q_def)
  qed
qed

lemma split_slash_parts:
  "CHR ''/'' \<notin> set acc \<Longrightarrow> \<forall>c \<in> set (split_slash acc s). c \<noteq> [] \<and> CHR ''/'' \<notin> set c"
  by (induction acc s rule: split_slash.induct) auto

text \<open>A relative path without empty components is put together from its components again.\<close>

definition normal_rel :: "string \<Rightarrow> bool" where
  "normal_rel s \<longleftrightarrow> foldl join_path [] (split_slash [] s) = s"

lemma materialize_extends:
  assumes "materialize_parent_on_tier env t (Some s) w = (Ok p, w')" "tree_ok w" "tree_closed w" "new_dirs env w"
    and "t < sbi_ntiers (n_sbi w)" "normal_rel s" "m = p_mnt (t_lower_path (tier_at (n_sbi w) t))"
  shows "p_mnt p = m \<and> n_at w' (p_dentry p) = (m, s) \<and> extends m (length s) w w'"
proof -
  let ?root = "t_lower_path (tier_at (n_sbi w) t)"
  have root: "n_at w (p_dentry ?root) = (p_mnt ?root, [])" using assms(2,5) by (simp add: tree_ok_def)
  show ?thesis
  proof (cases "s = []")
    case True
    then show ?thesis using assms(1-3,7) root by (auto simp: materialize_parent_on_tier_def Let_def extends_refl)
  next
    case False
    have loop: "materialize_loop env t (split_slash [] s) [] ?root w = (Ok p, w')"
      using assms(1) False by (auto simp: materialize_parent_on_tier_def Let_def split: if_splits)
    have "new_below env ?root w" using assms(4) by (simp add: new_below_def)
    then show ?thesis
      using materialize_loop_sound [OF loop assms(2,3) root] split_slash_parts [of "[]" s] assms(6,7)
      unfolding normal_rel_def by auto
  qed
qed

text \<open>
  Materialising a parent directory on a tier gives the directory at that path of that tier:
  every entry of every tier that existed is still there, and what was added are directories of
  this tier no deeper than the path.
\<close>

theorem materialize_parent_sound:
  assumes "materialize_parent_on_tier env t (Some s) w = (Ok p, w')" "tree_ok w" "tree_closed w" "new_dirs env w"
    and "t < sbi_ntiers (n_sbi w)" "normal_rel s" "m = p_mnt (t_lower_path (tier_at (n_sbi w) t))"
  shows "p_mnt p = m \<and> n_at w' (p_dentry p) = (m, s) \<and> tree_ok w' \<and> tree_closed w' \<and> same_pool (n_sbi w) (n_sbi w')
    \<and> (\<forall>m' x d. n_tree w m' x = Some d \<longrightarrow> n_tree w' m' x = Some d)
    \<and> (\<forall>m' x. n_tree w' m' x \<noteq> n_tree w m' x \<longrightarrow> m' = m \<and> length x \<le> length s)
    \<and> dom (sbi_inodes (n_sbi w)) \<subseteq> dom (sbi_inodes (n_sbi w'))"
  using materialize_extends [OF assms] unfolding extends_def by blast

section \<open>Renaming a file\<close>

lemma lower_parent_place:
  assumes "tree_ok w" "pool_wf (n_sbi w)" "n_at w lo = (m, s)" "lower_parent lo w = Some p"
  shows "p_mnt p = m \<and> n_at w (p_dentry p) = (m, fst (split_rel s))"
proof (cases "fst (split_rel s) = []")
  case False
  then show ?thesis using assms tree_okD [OF assms(1)] by (auto simp: lower_parent_def)
next
  case True
  then obtain t where t: "find (\<lambda>t. p_mnt (t_lower_path t) = m) (sbi_tiers (n_sbi w)) = Some t" "p = t_lower_path t"
    using assms(3,4) by (auto simp: lower_parent_def)
  then obtain i where i: "i < ntiers (n_sbi w)" "t = sbi_tiers (n_sbi w) ! i" "p_mnt (t_lower_path t) = m"
    using assms(2) by (auto simp: find_Some_iff pool_wf_def)
  have "ntiers (n_sbi w) < 2 ^ LENGTH(8)" by (rule unsigned_less)
  then have "unat (word_of_nat i :: u8) = i" using i(1) by (simp add: unat_of_nat take_bit_nat_eq_self)
  then have "word_of_nat i < sbi_ntiers (n_sbi w)" "tier_at (n_sbi w) (word_of_nat i) = t" using i by (simp_all add: word_less_nat_alt)
  then show ?thesis using assms(1) t(2) i(3) True unfolding tree_ok_def by (metis)
qed

lemma drop_new_lower_frame:
  "n_tree (drop_new_lower a w) = n_tree w" "n_at (drop_new_lower a w) = n_at w"
  "same_pool s (n_sbi (drop_new_lower a w)) = same_pool s (n_sbi w)"
  "ns_ino r (drop_new_lower a w) = None \<longleftrightarrow> ns_ino r w = None"
  "(\<exists>y. ns_ino r (drop_new_lower a w) = Some y) \<longleftrightarrow> (\<exists>y. ns_ino r w = Some y)"
  by (auto simp: drop_new_lower_def set_lower_dentry_def split: option.split)

lemma rename_place_sound:
  assumes "rename_place env f a lo op ln w = (Ok (parent, target, stale), w1)" "tree_ok w" "tree_closed w" "new_dirs env w"
    and "n_tree w m s = Some lo" "ns_kind env lo \<noteq> IK_DIR" "p_mnt op = m" "n_at w (p_dentry op) = (m, fst (split_rel s))"
    and "n_at w (p_dentry (ra_new_parent a)) = (p_mnt (ra_new_parent a), ps)" "ra_parent_rel a = Some ps" "normal_rel ps"
    and "ra_same_dir a \<longrightarrow> fst (split_rel s) = ps"
  shows "snd (n_at w1 (p_dentry parent)) = ps \<and> n_tree w1 m s = Some lo \<and> n_at w1 lo = (m, s) \<and> tree_ok w1
    \<and> (ns_ino r w \<noteq> None \<longrightarrow> ns_ino r w1 \<noteq> None) \<and> (stale = None \<or> stale = ln)"
proof -
  note at = tree_okD [OF assms(2,5)]
  have ok: "tree_ok (drop_new_lower a v) = tree_ok v" for v
    by (rule tree_ok_same(1)) (simp_all add: drop_new_lower_frame)
  consider (same) "ra_same_dir a" | (other) "\<not> ra_same_dir a" "m \<noteq> p_mnt (ra_new_parent a)"
    | (here) "\<not> ra_same_dir a" "m = p_mnt (ra_new_parent a)" by blast
  then show ?thesis
  proof cases
    case same
    then show ?thesis using assms(1,2,5,7,8,12) at ok
      by (auto simp: rename_place_def rename_same_dir_def drop_new_lower_frame split: option.splits if_splits)
  next
    case here
    then show ?thesis using assms(1,2,5,7,9) at by (auto simp: rename_place_def split: option.splits if_splits)
  next
    case other
    then have o: "rename_other_tier env f a False op ln w = (Ok (parent, target, stale), w1)"
      using assms(1,6,7) by (simp add: rename_place_def)
    then obtain src where src: "find (\<lambda>t. p_mnt (t_lower_path (tier_at (n_sbi w) t)) = m) (tier_ids (n_sbi w)) = Some src"
      using assms(7) by (auto simp: rename_other_tier_def split: if_splits option.splits)
    then have t: "src < sbi_ntiers (n_sbi w)" "m = p_mnt (t_lower_path (tier_at (n_sbi w) src))"
      using set_tier_ids [of "n_sbi w"] by (auto simp: find_Some_iff dest!: nth_mem)
    obtain x w2 where mt: "materialize_parent_on_tier env src (Some ps) w = (x, w2)" by fastforce
    have x: "x = Ok parent" "w1 = drop_new_lower a w2" "stale = ln"
      using o src mt assms(7,10) by (auto simp: rename_other_tier_def split: if_splits sum.splits)
    have e: "n_at w2 (p_dentry parent) = (m, ps)" "extends m (length ps) w w2"
      using materialize_extends [OF mt [unfolded x] assms(2-4) t(1) assms(11) t(2)] by simp_all
    then have tr: "n_tree w2 m s = Some lo" "tree_ok w2" using assms(5) by (simp_all add: extends_def)
    have "ns_ino r w \<noteq> None \<longrightarrow> ns_ino r w2 \<noteq> None" using e(2) by (auto simp: extends_def dom_def)
    then show ?thesis using x(2,3) e(1) tr tree_okD [OF tr(2,1)] ok by (simp add: drop_new_lower_frame)
  qed
qed

lemma moved_path_cases:
  "moved_path new old s = Some src \<longleftrightarrow> s = new \<and> src = old \<or> (\<exists>y. s = new @ ''/'' @ y \<and> src = old @ ''/'' @ y)"
proof -
  have "take (length new + 1) s = new @ ''/'' \<longleftrightarrow> (\<exists>y. s = new @ ''/'' @ y)"
  proof
    assume "take (length new + 1) s = new @ ''/''"
    then have "s = (new @ ''/'') @ drop (length new + 1) s" by (metis append_take_drop_id)
    then show "\<exists>y. s = new @ ''/'' @ y" by auto
  qed auto
  then show ?thesis by (auto simp: moved_path_def)
qed

lemma moved_path_back: "moved_path new old s = Some src \<Longrightarrow> moved_path old new src = Some s"
  unfolding moved_path_cases by blast

lemma lower_rename_effect:
  assumes "lower_rename env False lo p name w = (Done, w')" "tree_ok w" "n_at w lo = (m, s)" "n_tree w m s = Some lo"
    and "new = join_path (snd (n_at w (p_dentry p))) name" "new \<noteq> s" "moved_path new s s = None" "new \<noteq> []"
  shows "n_tree w' m new = Some lo \<and> n_tree w' m s = None \<and> tree_ok w' \<and> n_sbi w' = n_sbi w"
proof -
  define w1 where "w1 = (case n_tree w m new of Some v \<Rightarrow> (if False then w else set_nlink env v (\<lambda>n. n - 1) w) | None \<Rightarrow> w)"
  have w1: "n_tree w1 = n_tree w" "n_at w1 = n_at w" "n_sbi w1 = n_sbi w"
    by (simp_all add: w1_def split: option.split)
  have w': "w' = w1\<lparr>n_tree := (n_tree w1)(m := rename_tree s new (n_tree w1 m)), n_at := moved_at False m s new w1\<rparr>"
    using assms(1,6) unfolding lower_rename_def Let_def assms(3) fst_conv snd_conv assms(5) [symmetric] w1_def [symmetric]
    by (cases "ne_rename env lo p name") simp_all
  have tr: "n_tree w' = (n_tree w)(m := rename_tree s new (n_tree w m))" "n_at w' = moved_at False m s new w"
    using w' w1 by (simp_all add: moved_at_def fun_eq_iff)
  have self: "moved_path x y x = Some y" for x y by (simp add: moved_path_def)
  have "n_tree w' m new = Some lo" "n_tree w' m s = None"
    using tr(1) assms(4,7) by (simp_all add: rename_tree_def self)
  moreover have "tree_ok w'" unfolding tree_ok_def
  proof (intro conjI allI impI)
    fix m' s' d assume d: "n_tree w' m' s' = Some d"
    have "n_at w' d = (m', s') \<and> s' \<noteq> []"
    proof (cases "m' = m")
      case False
      then have "n_at w d = (m', s')" "s' \<noteq> []" using d tr(1) assms(2) by (simp_all add: tree_ok_def)
      then show ?thesis using False tr(2) by (simp add: moved_at_def)
    next
      case True
      show ?thesis
      proof (cases "moved_path new s s'")
        case (Some src)
        then have f: "n_tree w m src = Some d" using d tr(1) True by (simp add: rename_tree_def)
        have "s' \<noteq> []" using Some assms(8) by (auto simp: moved_path_def split: if_splits)
        then show ?thesis using tree_okD [OF assms(2) f] f tr(2) moved_path_back [OF Some] True by (simp add: moved_at_def)
      next
        case None
        then have f: "n_tree w m s' = Some d" "moved_path s new s' = None" using d tr(1) True by (auto simp: rename_tree_def split: if_splits)
        have "s' \<noteq> []" using f(1) assms(2) by (auto simp: tree_ok_def)
        then show ?thesis using tree_okD [OF assms(2) f(1)] f tr(2) True by (simp add: moved_at_def)
      qed
    qed
    then show "n_at w' d = (m', s')" "s' \<noteq> []" by simp_all
  next
    fix t assume t: "t < sbi_ntiers (n_sbi w')"
    let ?r = "t_lower_path (tier_at (n_sbi w) t)"
    have "n_at w (p_dentry ?r) = (p_mnt ?r, [])" using assms(2) t w' w1 by (simp add: tree_ok_def)
    moreover have "n_tree w x [] = None" for x using assms(2) by (auto simp: tree_ok_def) (metis not_Some_eq)
    ultimately show "n_at w' (p_dentry (t_lower_path (tier_at (n_sbi w') t))) = (p_mnt (t_lower_path (tier_at (n_sbi w') t)), [])"
      using tr(2) w' w1 by (simp add: moved_at_def)
  qed
  ultimately show ?thesis using w' w1 by simp
qed

lemma remove_lower_keeps:
  assumes "tree_ok w" "n_tree w m s = Some lo" "ig_dino (ne_ig env) l \<noteq> ig_dino (ne_ig env) lo"
  shows "n_tree (snd (remove_lower env l w)) m s = Some lo" "n_tree w m' s' = None \<Longrightarrow> n_tree (snd (remove_lower env l w)) m' s' = None"
    and "n_sbi (snd (remove_lower env l w)) = n_sbi w"
proof -
  have "n_at w g \<noteq> (m, s)" if st: "start_removing env l w = Ok g" for g
  proof -
    obtain a b where "n_tree w a b = Some g" "ig_dino (ne_ig env) g = ig_dino (ne_ig env) l"
      using st by (cases "n_at w l") (auto simp: start_removing_def split: option.splits if_splits)
    then show ?thesis using assms tree_okD [OF assms(1)] by auto
  qed
  then show "n_tree (snd (remove_lower env l w)) m s = Some lo"
    using assms(2) by (auto simp: remove_lower_def lower_unlink_def prod_eq_iff split: sum.splits)
  show "n_tree w m' s' = None \<Longrightarrow> n_tree (snd (remove_lower env l w)) m' s' = None"
    by (simp add: remove_lower_def lower_unlink_def split: sum.split)
  show "n_sbi (snd (remove_lower env l w)) = n_sbi w"
    by (simp add: remove_lower_def lower_unlink_def split: sum.split)
qed

lemma forget_other_inode:
  assumes "q \<noteq> r"
  shows "n_tree (forget_placement env q False w) = n_tree w" "ns_ino r (forget_placement env q False w) = ns_ino r w"
proof -
  have "sbi_inodes (path_map_del q sbi) r = sbi_inodes sbi r" for sbi using assms by (simp add: path_map_del_frame')
  then show "n_tree (forget_placement env q False w) = n_tree w" "ns_ino r (forget_placement env q False w) = ns_ino r w"
    using assms by (auto simp: forget_placement_def Let_def split: option.split)
qed

lemma rename_finish_sound:
  assumes "tree_ok w" "n_tree w m n = Some lo" "n_tree w m s = None" "ns_ino (ra_inode a) w \<noteq> None" "ns_kind env lo \<noteq> IK_DIR"
    and "ra_target a \<noteq> Some (ra_inode a)" "ra_new_rel a = Some n" "\<forall>l. stale = Some l \<longrightarrow> ig_dino (ne_ig env) l \<noteq> ig_dino (ne_ig env) lo"
    and "w' = rename_finish env a lo op np stale w"
  shows "n_tree w' m n = Some lo \<and> n_tree w' m s = None \<and> map_option si_rel_path (ns_ino (ra_inode a) w') = Some (Some n)"
proof -
  define w2 where "w2 = ns_copy_attrs env (ra_new_dir a) (p_dentry np) (ns_copy_attrs env (ra_old_dir a) (p_dentry op)
    (drop_new_lower a (upd_ns (set_lower_dentry (ra_inode a) (ra_old a) (Some lo)) w)))"
  define w3 where "w3 = upd_ns (set_rel_path (ra_inode a) (Some n)) w2"
  have w2: "n_tree w2 = n_tree w" "n_at w2 = n_at w" "same_pool (n_sbi w) (n_sbi w2)" "ns_ino (ra_inode a) w2 \<noteq> None"
    using assms(4) by (auto simp: w2_def ns_copy_attrs_def drop_new_lower_frame set_lower_dentry_def)
  then obtain si where si: "sbi_inodes (n_sbi w2) (ra_inode a) = Some si" by auto
  obtain h where "sbi_inodes (set_rel_path (ra_inode a) (Some n) (n_sbi w2)) = (sbi_inodes (n_sbi w2))(ra_inode a \<mapsto> si\<lparr>si_rel_path := Some n, si_path_hashed := h\<rparr>)"
    using set_rel_path_inode [OF si] by blast
  then have rel: "map_option si_rel_path (ns_ino (ra_inode a) w3) = Some (Some n)" by (simp add: w3_def)
  have w3: "n_tree w3 = n_tree w" "tree_ok w3"
    using w2 assms(1) tree_ok_same(1) [of w3 w] by (simp_all add: w3_def set_rel_path_frame)
  have fin: "w' = (case stale of None \<Rightarrow> w3 | Some l \<Rightarrow> drop_stale_rename_target env l (ra_target a) w3)"
    unfolding assms(9) rename_finish_def Let_def w3_def w2_def using assms(5,7) by (simp split: option.split)
  show ?thesis
  proof (cases stale)
    case None
    then show ?thesis using fin w3 rel assms(2,3) by simp
  next
    case (Some l)
    note rm = remove_lower_keeps [OF w3(2), of m n lo env l]
    have t: "n_tree w3 m n = Some lo" "n_tree w3 m s = None" using w3(1) assms(2,3) by simp_all
    have d: "ig_dino (ne_ig env) l \<noteq> ig_dino (ne_ig env) lo" using assms(8) Some by simp
    show ?thesis
      using fin Some rm(1) [OF t(1) d] rm(2) [OF t(1) d t(2)] rm(3) [OF t(1) d] rel assms(6)
      by (cases "ra_target a") (auto simp: drop_stale_rename_target_def Let_def forget_other_inode)
  qed
qed


text \<open>
  A rename over a file of another tier forgets the lower dentry of the target before the lower
  rename is tried. When that fails the target is still there but can no longer be unlinked.
\<close>

lemma alias_lower_cleared:
  "alias_lower d (si\<lparr>si_aliases := map (\<lambda>(u, l). if u = d then (u, None) else (u, l)) al\<rparr>) = None"
proof (induction al)
  case (Cons p al)
  then show ?case by (cases p; cases "fst p = d") (simp_all add: alias_lower_def)
qed (simp add: alias_lower_def)

lemma failed_rename_strands_target:
  assumes "ns_ino (ra_inode a) w = Some si" "alias_lower (ra_old a) si = Some lo" "lower_parent lo w = Some op" "ra_same_dir a"
    and "ra_target a = Some q" "ns_ino q w = Some sq" "alias_lower (ra_new a) sq = Some ln" "fst (n_at w ln) \<noteq> p_mnt op"
    and "ns_kind env ln \<noteq> IK_DIR" "\<not> rf_exchange f" "\<not> rf_whiteout f" "\<not> rf_noreplace f" "ne_rename env lo op (ra_name a) = Err e"
  shows "fst (rename_inner env f a w) \<noteq> Done \<and> n_tree (snd (rename_inner env f a w)) = n_tree w
    \<and> fst (unlink_inner env dir q (ra_new a) (snd (rename_inner env f a w))) = Err ENOENT"
proof -
  have pl: "rename_place env f a lo op (Some ln) w = (Ok (op, None, Some ln), drop_new_lower a w)"
    using assms(4,8-12) by (simp add: rename_place_def rename_same_dir_def)
  have "fst (rename_inner env f a w) \<noteq> Done \<and> snd (rename_inner env f a w) = drop_new_lower a w"
    using assms(1-3,5-7,13) pl by (simp add: rename_inner_def lower_rename_def split: sum.split)
  then show ?thesis using assms(5,6)
    by (simp add: unlink_inner_def drop_new_lower_frame) (simp add: drop_new_lower_def set_lower_dentry_def alias_lower_cleared)
qed

section \<open>Concrete instances\<close>

definition ex_ns_env :: ns_env where
  "ex_ns_env = \<lparr>ne_ig = ex_iget_env\<lparr>ig_kind := \<lambda>d. if 1000 \<le> d then IK_DIR else IK_REG\<rparr>, ne_io = ex_io_env, ne_alloc = True,
     ne_missing = \<lambda>m s. ENOENT, ne_fault = \<lambda>m s. None, ne_create = \<lambda>p n. Ok 900, ne_mkdir = \<lambda>p n. Ok (p_dentry p + 1000),
     ne_mknod = \<lambda>p n. Ok 900, ne_symlink = \<lambda>p n. Ok 900, ne_link = \<lambda>d p n. Ok 900, ne_unlink = \<lambda>d. Done, ne_rmdir = \<lambda>d. Done,
     ne_rename = \<lambda>d p n. Done, ne_notify = \<lambda>d. Done, ne_write_gen = \<lambda>d. Done\<rparr>"

definition ex_ns_world :: ns_world where
  "ex_ns_world = \<lparr>n_sbi = ex_pool\<lparr>sbi_inodes := [77 \<mapsto> ex_inode\<lparr>si_path_hashed := True\<rparr>], sbi_path_map := [''f'' \<mapsto> 77]\<rparr>,
     n_xs = Map.empty, n_tree = (\<lambda>m. if m = 1 then [''f'' \<mapsto> 105] else Map.empty),
     n_at = (\<lambda>d. if d = 105 then (1, ''f'') else (d div 100, [])), n_nlink = (\<lambda>n. 1)\<rparr>"

lemma ex_ns_ok:
  "pool_wf (n_sbi ex_ns_world)" "path_index_ok (n_sbi ex_ns_world)" "answers ex_ns_env s"
  "tree_closed ex_ns_world" "new_dirs ex_ns_env ex_ns_world" "tree_ok ex_ns_world"
proof -
  have t: "t = 0 \<or> t = 1" if "t < (2 :: u8)" for t using that by (auto simp: word_less_nat_alt unat_eq_0) unat_arith
  show "pool_wf (n_sbi ex_ns_world)" using ex_pool_wf by (simp add: ex_ns_world_def pool_wf_def)
  show "path_index_ok (n_sbi ex_ns_world)" by (simp add: ex_ns_world_def path_index_ok_def ex_inode_def)
  show "answers ex_ns_env s" by (simp add: answers_def ex_ns_env_def)
  show "tree_closed ex_ns_world" by (auto simp: tree_closed_def ex_ns_world_def append_eq_Cons_conv split: if_splits)
  show "new_dirs ex_ns_env ex_ns_world"
    using t by (auto simp: new_dirs_def unused_def ex_ns_env_def ex_ns_world_def ex_pool_def ex_tier_def split: if_splits dest!: t)
  show "tree_ok ex_ns_world"
    using t by (auto simp: tree_ok_def ex_ns_world_def ex_pool_def ex_tier_def split: if_splits dest!: t)
qed

abbreviation ex_named :: inode_info where
  "ex_named \<equiv> ex_inode\<lparr>si_path_hashed := True\<rparr>"

lemma ex_ns_sel:
  "ns_ino 77 ex_ns_world = Some ex_named" "n_tree ex_ns_world m s = (if m = 1 \<and> s = ''f'' then Some 105 else None)"
  "n_at ex_ns_world d = (if d = 105 then (1, ''f'') else (d div 100, []))" "lower_nlink ex_ns_env ex_ns_world d = 1"
  "sbi_path_map_ready (n_sbi ex_ns_world)" "sbi_path_map (n_sbi ex_ns_world) ''f'' = Some 77" "ne_unlink ex_ns_env d = Done" "ne_alloc ex_ns_env"
  "alias_lower 5 ex_named = Some 105" "si_nlink ex_named = 1" "si_rel_path ex_named = Some ''f''"
  by (simp_all add: ex_ns_world_def ex_ns_env_def ex_pool_def ex_inode_def alias_lower_def lower_nlink_def ex_iget_env_def)

theorem unlink_then_lookup_witness:
  "fst (unlink_inner ex_ns_env 1 77 5 ex_ns_world) = Done
    \<and> fst (lookup_inner ex_ns_env \<lparr>p_mnt = 1, p_dentry = 100\<rparr> 6 ''f'' (Some ''f'') (snd (unlink_inner ex_ns_env 1 77 5 ex_ns_world))) = Ok None"
  by (rule unlink_then_lookup [where si = ex_named and lo = 105 and m = 1 and u = "()"])
    (simp_all add: ex_ns_ok ex_ns_sel join_path_def del: One_nat_def)

text \<open>The same file after a rehome that left a copy on tier 1 behind.\<close>

definition ex_rehomed :: inode_info where
  "ex_rehomed = ex_inode\<lparr>si_write_staged := True, si_write_staged_drain_tier := 1\<rparr>"

definition ex_rehome_world :: ns_world where
  "ex_rehome_world = ex_ns_world\<lparr>n_sbi := ex_pool\<lparr>sbi_inodes := [77 \<mapsto> ex_rehomed]\<rparr>\<rparr>"

lemma ex_rehome_ok:
  "tree_ok ex_rehome_world" "ns_ino 77 ex_rehome_world = Some ex_rehomed" "drain_tier_active (n_sbi ex_rehome_world) 1"
  "p_mnt (t_lower_path (tier_at (n_sbi ex_rehome_world) 1)) = 1" "\<exists>w'. drain_one_rehome ex_ns_env 77 ex_rehome_world = (Done, w')"
proof -
  show "tree_ok ex_rehome_world" using ex_ns_ok(6) by (simp add: tree_ok_def ex_rehome_world_def ex_ns_world_def)
  show "ns_ino 77 ex_rehome_world = Some ex_rehomed" by (simp add: ex_rehome_world_def)
  show act: "drain_tier_active (n_sbi ex_rehome_world) 1"
    by (simp add: drain_tier_active_def ex_rehome_world_def ex_pool_def ex_staging_def BIT_def word_le_nat_alt)
  show "p_mnt (t_lower_path (tier_at (n_sbi ex_rehome_world) 1)) = 1"
    by (simp add: ex_rehome_world_def ex_pool_def ex_tier_def)
  show "\<exists>w'. drain_one_rehome ex_ns_env 77 ex_rehome_world = (Done, w')"
    using act by (simp add: word_le_nat_alt drain_one_rehome_def ex_rehome_world_def ex_rehomed_def ex_inode_def unlink_rel_path_on_tier_def split_rel_def
        split_last_slash_def on_tier_def resolve_rel_path_on_tier_def ns_child_def ns_kind_def lower_unlink_def ex_ns_env_def
        ex_ns_world_def ex_pool_def ex_tier_def join_path_def ex_iget_env_def)
qed

theorem drain_one_rehome_removes_old_copy_witness:
  "\<exists>w'. drain_one_rehome ex_ns_env 77 ex_rehome_world = (Done, w') \<and> n_tree w' 1 ''f'' = None
     \<and> sbi_inodes (n_sbi w') = (sbi_inodes (n_sbi ex_rehome_world))(77 \<mapsto> ex_rehomed\<lparr>si_write_staged := False, si_write_staged_drain_tier := 8\<rparr>)"
proof -
  obtain w' where d: "drain_one_rehome ex_ns_env 77 ex_rehome_world = (Done, w')" using ex_rehome_ok(5) by blast
  have si: "si_write_staged ex_rehomed" "si_write_staged_drain_tier ex_rehomed = 1" "si_rel_path ex_rehomed = Some ''f''"
    by (simp_all add: ex_rehomed_def ex_inode_def)
  show ?thesis
    using drain_one_rehome_removes_old_copy [OF ex_rehome_ok(1,2) si(1,2) ex_rehome_ok(3) si(3) _ d] d ex_rehome_ok(4) by simp
qed

lemma ex_materialize: "\<exists>p w'. materialize_parent_on_tier ex_ns_env 0 (Some ''d'') ex_ns_world = (Ok p, w')"
proof -
  define q :: path where "q = \<lparr>p_mnt = 0, p_dentry = 1000\<rparr>"
  define w1 where "w1 = set_nlink ex_ns_env 1000 (\<lambda>n. 2) (put_name 0 ''d'' 1000 ex_ns_world)"
  have t: "tier_of (n_sbi w1) 0 = 0"
    using ex_tier_of(1) by (simp add: w1_def put_name_def ex_ns_world_def tier_of_def)
  have "iget_healthy (ig_at ex_ns_env w1)" by (simp add: iget_healthy_def ex_ns_env_def ex_iget_env_def)
  moreover have "iget_fresh_lower (ig_at ex_ns_env w1) q 1000 (n_sbi w1) (n_xs w1)"
    using t by (simp add: iget_fresh_lower_def q_def MAX_TIERS_def ex_ns_env_def ex_iget_env_def)
      (simp add: w1_def put_name_def ex_ns_world_def ex_pool_def set_nlink_def split: option.split)
  moreover have "sbi_inodes (n_sbi w1) (inode_no_from_oid (ig_xxh64 (ig_at ex_ns_env w1)) (minted (ig_at ex_ns_env w1) (n_sbi w1))) = None"
    by (simp add: w1_def put_name_def ex_ns_world_def inode_no_from_oid_def ex_ns_env_def ex_iget_env_def)
  ultimately obtain r s1 si where ig: "iget (ig_at ex_ns_env w1) q False True (n_sbi w1) (n_xs w1) = (Ok r, s1, n_xs w1)"
      and si: "sbi_inodes s1 r = Some si" "si_lower_path si = Some q"
    by (rule iget_fresh_result) blast
  define w2 where "w2 = w1\<lparr>n_sbi := s1, n_xs := n_xs w1\<rparr>"
  have i: "ns_iget ex_ns_env q True w1 = (Ok r, w2)" by (simp add: ns_iget_def ig w2_def)
  have "ns_ino r w2 = Some si" using si(1) by (simp add: w2_def)
  moreover have "ig_dino (ne_ig ex_ns_env) (p_dentry q) = Some 1000" "ig_rerr (ne_ig ex_ns_env) 1000 = None"
      "ig_xerr (ne_ig ex_ns_env) 1000 = None" "n_xs w2 1000 = None"
    by (simp_all add: q_def ex_ns_env_def ex_iget_env_def w2_def w1_def put_name_def ex_ns_world_def)
  ultimately obtain w3 where "track_placed ex_ns_env r (Some ''d'') 0 True True w2 = (Done, w3)"
    using track_placed_done [OF _ si(2)] ex_ns_sel(8) by blast
  moreover have "t_lower_path (tier_at (n_sbi ex_ns_world) 0) = \<lparr>p_mnt = 0, p_dentry = 0\<rparr>" "join_path [] ''d'' = ''d''"
      "ns_child ex_ns_env ex_ns_world \<lparr>p_mnt = 0, p_dentry = 0\<rparr> ''d'' = Ok None" "snd (n_at ex_ns_world 0) = []"
      "ne_mkdir ex_ns_env \<lparr>p_mnt = 0, p_dentry = 0\<rparr> ''d'' = Ok 1000" "ns_kind ex_ns_env 1000 = IK_DIR"
    by (simp_all add: ex_ns_env_def ex_ns_world_def ex_pool_def ex_tier_def ns_child_def join_path_def ns_kind_def)
  ultimately show ?thesis using i ex_ns_sel(8)
    by (simp add: materialize_parent_on_tier_def Let_def w1_def [symmetric] q_def)
qed

theorem materialize_parent_sound_witness:
  "\<exists>p w'. materialize_parent_on_tier ex_ns_env 0 (Some ''d'') ex_ns_world = (Ok p, w') \<and> n_at w' (p_dentry p) = (0, ''d'')
     \<and> n_tree w' 1 ''f'' = Some 105"
proof -
  obtain p w' where m: "materialize_parent_on_tier ex_ns_env 0 (Some ''d'') ex_ns_world = (Ok p, w')" using ex_materialize by blast
  have "0 < sbi_ntiers (n_sbi ex_ns_world)" "normal_rel ''d''" "0 = p_mnt (t_lower_path (tier_at (n_sbi ex_ns_world) 0))"
    by (simp_all add: ex_ns_world_def ex_pool_def ex_tier_def normal_rel_def join_path_def)
  from materialize_parent_sound [OF m ex_ns_ok(6,4,5) this] show ?thesis using m by (auto simp: ex_ns_sel)
qed

text \<open>Renaming the file within its directory.\<close>

definition ex_rename :: rename_args where
  "ex_rename = \<lparr>ra_old_dir = 1, ra_new_dir = 1, ra_inode = 77, ra_old = 5, ra_new = 6, ra_target = None, ra_same_dir = True,
     ra_new_parent = \<lparr>p_mnt = 1, p_dentry = 100\<rparr>, ra_name = ''g'', ra_parent_rel = Some [], ra_old_rel = Some ''f'', ra_new_rel = Some ''g''\<rparr>"

definition ex_flags :: rename_flags where
  "ex_flags = \<lparr>rf_noreplace = False, rf_exchange = False, rf_whiteout = False\<rparr>"

lemma ex_rename_done: "\<exists>w'. rename_inner ex_ns_env ex_flags ex_rename ex_ns_world = (Done, w')"
proof -
  have "lower_parent 105 ex_ns_world = Some \<lparr>p_mnt = 1, p_dentry = 100\<rparr>"
    by (simp add: lower_parent_def split_rel_def split_last_slash_def ex_ns_world_def ex_pool_def ex_tier_def)
  moreover have "start_rename ex_ns_env ex_flags 105 p n None ex_ns_world = Done" for p n
    by (simp add: start_rename_def ns_child_def ex_flags_def ex_ns_sel(2,3) ex_ns_env_def)
  moreover have "\<exists>w'. lower_rename ex_ns_env x d p n w = (Done, w')" for x d p n w
    by (simp add: lower_rename_def Let_def ex_ns_env_def)
  ultimately show ?thesis
    using ex_ns_sel(1,9) by (auto simp: rename_inner_def ex_rename_def rename_place_def rename_same_dir_def split: prod.splits sum.splits) (metis Pair_inject sum.distinct(1))
qed


text \<open>The file with a second link.\<close>

definition ex_linked_world :: ns_world where
  "ex_linked_world = ex_ns_world\<lparr>n_sbi := (n_sbi ex_ns_world)\<lparr>sbi_inodes := [77 \<mapsto> ex_named\<lparr>si_nlink := 2\<rparr>]\<rparr>, n_nlink := \<lambda>n. 2\<rparr>"

theorem unlinked_hardlink_resurrected_witness:
  "fst (unlink_inner ex_ns_env 1 77 5 ex_linked_world) = Done
    \<and> fst (lookup_inner ex_ns_env \<lparr>p_mnt = 1, p_dentry = 100\<rparr> 6 ''f'' (Some ''f'') (snd (unlink_inner ex_ns_env 1 77 5 ex_linked_world))) = Ok (Some 77)"
  by (rule unlinked_hardlink_resurrected [where si = "ex_named\<lparr>si_nlink := 2\<rparr>" and lo = 105 and m = 1 and u = "()"])
    (simp_all add: ex_linked_world_def ex_ns_sel ex_ns_ok alias_lower_def ex_inode_def join_path_def lower_nlink_def ex_ns_env_def
      ex_ns_world_def ex_pool_def ex_iget_env_def ex_io_env_def answers_def)

end
