(* ===== verification/Path_Index.thy ===== *)
theory Path_Index
  imports Tier_Paths
begin

text \<open>
  Recovery at mount (\<open>src/src/smoothfs/placement.c\<close>): the scan of the tiers, the path index that
  makes the next mount independent of it, the recovery index that the replayed log and the path
  index are merged into, and the resolution of an object id through it when the object is first
  needed. The directory reads, the opened files, the allocations and the mount-namespace lookup
  of a rendered path are arguments.
\<close>

record px_env =
  px_ig :: iget_env
  px_alloc :: bool
  px_kread :: kread
  px_kwrite :: kwrite
  px_now :: u64
  px_kern_path :: "u8 \<Rightarrow> string \<Rightarrow> path res"
  px_open_dir :: "path \<Rightarrow> unit res"
  px_iterate :: "path \<Rightarrow> string list res"
  px_child :: "path \<Rightarrow> string \<Rightarrow> dentry option res"
  px_stop :: "string \<Rightarrow> bool"
  px_open_index :: "unit res"
  px_index :: "bytes res"
  px_fsync :: "unit res"

section \<open>Scanning a tier\<close>

text \<open>The actor collects every name but the dots; an allocation that fails ends the walk.\<close>

definition scan_actor :: "bool \<Rightarrow> string list \<Rightarrow> string list option" where
  "scan_actor alloc names =
    (let ns = filter (\<lambda>n. n \<noteq> ''.'' \<and> n \<noteq> ''..'') names in if ns \<noteq> [] \<and> \<not> alloc then None else Some ns)"

definition scan_dir_entries :: "px_env \<Rightarrow> path \<Rightarrow> string list res" where
  "scan_dir_entries env dir =
    (case px_open_dir env dir of
       Err e \<Rightarrow> Err e
     | Ok _ \<Rightarrow>
        (case px_iterate env dir of
           Err e \<Rightarrow> Err e
         | Ok names \<Rightarrow> (case scan_actor (px_alloc env) names of None \<Rightarrow> Err ENOMEM | Some ns \<Rightarrow> Ok ns)))"

record scan_state =
  sc_sbi :: sb_info
  sc_xs :: xattrs
  sc_recs :: "replay_record list"

text \<open>What a node found on a tier adds to the record of its object.\<close>

definition scan_record :: "bool \<Rightarrow> u8 \<Rightarrow> string \<Rightarrow> u32 \<Rightarrow> replay_record \<Rightarrow> unit res \<times> replay_record" where
  "scan_record alloc t rel gen r =
    (let r1 = (if rr_seq r = 0 \<and> rr_chosen_rel_path r = None
               then replay_normalize (r\<lparr>rr_movement_state := ms_byte MS_PLACED, rr_current_tier := t, rr_intended_tier := t,
                      rr_pin_state := pin_byte PIN_NONE, rr_gen := gen\<rparr>)
               else r)
     in if rr_fallback_rel_path r1 = None \<and> \<not> alloc then (Err ENOMEM, r1)
        else let r2 = (if rr_fallback_rel_path r1 = None
                       then r1\<lparr>rr_fallback_rel_path := Some rel, rr_fallback_tier := t, rr_fallback_gen := gen\<rparr> else r1)
          in if t = rr_authoritative_tier r2 \<and> rr_chosen_rel_path r2 = None
             then if \<not> alloc then (Err ENOMEM, r2)
               else (Done, r2\<lparr>rr_chosen_rel_path := Some rel, rr_chosen_tier := t, rr_chosen_gen := gen\<rparr>)
             else (Done, r2))"

text \<open>The id of a scanned node: stored, or minted and written; a node whose id cannot be read is passed over.\<close>

definition scan_oid :: "px_env \<Rightarrow> nat \<Rightarrow> scan_state \<Rightarrow> bytes option res \<times> scan_state" where
  "scan_oid env n st =
    (case read_oid_xattr (ig_rerr (px_ig env)) n (sc_xs st) of
       Ok oid \<Rightarrow> (Ok (Some oid), st)
     | Err e \<Rightarrow>
        (if e \<noteq> ENODATA then (Ok None, st)
         else case alloc_oid (ig_be (px_ig env)) (ig_now (px_ig env)) (ig_rand (px_ig env)) (sc_sbi st) of
             (oid, sbi) \<Rightarrow>
               (case write_oid_xattr (ig_xerr (px_ig env)) n oid (sc_xs st) of
                  (x, xs) \<Rightarrow>
                    (let st1 = st\<lparr>sc_sbi := sbi, sc_xs := xs\<rparr>
                     in case x of
                         Ok _ \<Rightarrow> (Ok (Some oid), st1)
                       | Err e' \<Rightarrow>
                          (if e' = EEXIST
                           then case read_oid_xattr (ig_rerr (px_ig env)) n xs of Ok o' \<Rightarrow> (Ok (Some o'), st1) | Err e'' \<Rightarrow> (Err e'', st1)
                           else (Err e', st1))))))"

definition scan_node :: "px_env \<Rightarrow> u8 \<Rightarrow> string \<Rightarrow> dentry \<Rightarrow> scan_state \<Rightarrow> unit res \<times> scan_state" where
  "scan_node env t rel d st =
    (if ig_kind (px_ig env) d \<noteq> IK_REG \<and> ig_kind (px_ig env) d \<noteq> IK_DIR then (Done, st)
     else case ig_dino (px_ig env) d of
         None \<Rightarrow> (Done, st)
       | Some n \<Rightarrow>
          (case scan_oid env n st of
             (Err e, st1) \<Rightarrow> (Err e, st1)
           | (Ok None, st1) \<Rightarrow> (Done, st1)
           | (Ok (Some oid), st1) \<Rightarrow>
              (let gen = (case read_gen_xattr (ig_gen (px_ig env) d) of Ok g \<Rightarrow> g | Err _ \<Rightarrow> 0)
               in case replay_get_or_create (px_alloc env) oid (sc_recs st1) of
                   None \<Rightarrow> (Err ENOMEM, st1)
                 | Some recs \<Rightarrow>
                    (let x = (case replay_find_oid oid recs of None \<Rightarrow> Done | Some r \<Rightarrow> fst (scan_record (px_alloc env) t rel gen r))
                     in (x, st1\<lparr>sc_recs := replay_update oid (\<lambda>r. snd (scan_record (px_alloc env) t rel gen r)) recs\<rparr>)))))"

text \<open>The loop over the names of a directory; \<open>None\<close> is a walk that did not return.\<close>

fun scan_loop ::
  "(string \<Rightarrow> scan_state \<Rightarrow> (unit res \<times> scan_state) option) \<Rightarrow> string list \<Rightarrow> scan_state \<Rightarrow> (unit res \<times> scan_state) option" where
  "scan_loop f [] st = Some (Done, st)"
| "scan_loop f (n # ns) st =
    (case f n st of
       None \<Rightarrow> None
     | Some (Err e, st1) \<Rightarrow> Some (Err e, st1)
     | Some (Ok _, st1) \<Rightarrow> scan_loop f ns st1)"

definition PLACEMENT_DIR :: string where
  "PLACEMENT_DIR = ''.smoothfs''"

text \<open>
  \<open>smoothfs_scan_tree\<close>, with the depth of the walk as fuel. The pool's own directory is not
  entered, and a stop request ends the walk.
\<close>

fun scan_tree :: "nat \<Rightarrow> px_env \<Rightarrow> path \<Rightarrow> u8 \<Rightarrow> string \<Rightarrow> scan_state \<Rightarrow> (unit res \<times> scan_state) option" where
  "scan_tree 0 env dir t prefix st = None"
| "scan_tree (Suc k) env dir t prefix st =
    (if px_stop env prefix then Some (Err ECANCELED, st)
     else case scan_dir_entries env dir of
         Err e \<Rightarrow> Some (Err e, st)
       | Ok names \<Rightarrow>
          scan_loop (\<lambda>name st.
            if \<not> px_alloc env then Some (Err ENOMEM, st)
            else let rel = join_path prefix name
              in case px_child env dir name of
                  Err e \<Rightarrow> Some (Err e, st)
                | Ok None \<Rightarrow> Some (Done, st)
                | Ok (Some d) \<Rightarrow>
                   (case (if ig_kind (px_ig env) d = IK_DIR
                          then if rel = PLACEMENT_DIR then Some (Done, st)
                            else case scan_node env t rel d st of
                                (Err e, st1) \<Rightarrow> Some (Err e, st1)
                              | (Ok _, st1) \<Rightarrow> scan_tree k env \<lparr>p_mnt = p_mnt dir, p_dentry = d\<rparr> t rel st1
                          else Some (scan_node env t rel d st)) of
                      None \<Rightarrow> None
                    | Some (Err e, st2) \<Rightarrow> Some (Err e, st2)
                    | Some (Ok _, st2) \<Rightarrow> Some (if px_stop env rel then Err ECANCELED else Done, st2))) names st)"

section \<open>The path index file\<close>

definition PATH_INDEX_MAGIC :: u64 where
  "PATH_INDEX_MAGIC = 0x534D46504944580A"

definition PATH_INDEX_HDR_SZ :: nat where
  "PATH_INDEX_HDR_SZ = 48"

definition PATH_INDEX_ENTRY_HDR :: nat where
  "PATH_INDEX_ENTRY_HDR = 20"

definition PATH_MAX :: nat where
  "PATH_MAX = 4096"

definition pix_write :: "px_env \<Rightarrow> bytes \<Rightarrow> bytes \<Rightarrow> int \<Rightarrow> unit res \<times> bytes \<times> int" where
  "pix_write env buf f pos =
    (case px_kwrite env f pos buf of
       (Err e, f') \<Rightarrow> (Err e, f', pos)
     | (Ok n, f') \<Rightarrow> (if n \<noteq> length buf then Err EIO else Done, f', pos + int n))"

definition pix_read :: "px_env \<Rightarrow> bytes \<Rightarrow> int \<Rightarrow> nat \<Rightarrow> (bytes \<times> int) res" where
  "pix_read env f pos n =
    (case px_kread env f pos n of
       Err e \<Rightarrow> Err e
     | Ok bs \<Rightarrow> (if length bs \<noteq> n then (if bs = [] then Err ENODATA else Err EIO) else Ok (bs, pos + int n)))"

text \<open>C strings: a path with its terminating zero, and the string a buffer holds.\<close>

definition cstr_bytes :: "string \<Rightarrow> bytes" where
  "cstr_bytes s = map (\<lambda>c. word_of_nat (of_char c)) s @ [0]"

definition cstr_of :: "bytes \<Rightarrow> string" where
  "cstr_of b = map (\<lambda>w. char_of (unat w)) (takeWhile (\<lambda>w. w \<noteq> 0) b)"

definition index_header :: "sb_info \<Rightarrow> nat \<Rightarrow> bytes" where
  "index_header sbi count =
    (let b0 = buf_put 0 (cpu_to_le64 PATH_INDEX_MAGIC) (replicate PATH_INDEX_HDR_SZ 0);
         b1 = buf_put 8 (sbi_pool_uuid sbi) b0;
         b2 = buf_put 24 (cpu_to_le64 (word_of_nat count)) b1
     in buf_put 32 (cpu_to_le64 (ucast (sbi_ntiers sbi))) b2)"

definition index_entry_hdr :: "replay_record \<Rightarrow> string \<Rightarrow> bytes" where
  "index_entry_hdr r s =
    (let b0 = buf_put 0 (rr_oid r) (replicate PATH_INDEX_ENTRY_HDR 0);
         b1 = buf_put 16 [rr_chosen_tier r] b0;
         b2 = buf_put 17 [0] b1
     in buf_put 18 (cpu_to_le16 (word_of_nat (length s + 1))) b2)"

fun index_write_loop :: "px_env \<Rightarrow> replay_record list \<Rightarrow> bytes \<Rightarrow> int \<Rightarrow> unit res \<times> bytes \<times> int" where
  "index_write_loop env [] f pos = (Done, f, pos)"
| "index_write_loop env (r # rs) f pos =
    (case rr_chosen_rel_path r of
       None \<Rightarrow> index_write_loop env rs f pos
     | Some s \<Rightarrow>
        (if 65535 < length s + 1 then index_write_loop env rs f pos
         else case pix_write env (index_entry_hdr r s) f pos of
             (Err e, f1, p1) \<Rightarrow> (Err e, f1, p1)
           | (Ok _, f1, p1) \<Rightarrow>
              (case pix_write env (cstr_bytes s) f1 p1 of
                 (Err e, f2, p2) \<Rightarrow> (Err e, f2, p2)
               | (Ok _, f2, p2) \<Rightarrow> index_write_loop env rs f2 p2)))"

text \<open>The file is truncated when it is opened; the result is what it holds afterwards.\<close>

definition path_index_write :: "px_env \<Rightarrow> sb_info \<Rightarrow> replay_record list \<Rightarrow> unit res \<times> bytes" where
  "path_index_write env sbi recs =
    (case px_open_index env of
       Err e \<Rightarrow> (Err e, [])
     | Ok _ \<Rightarrow>
        (case pix_write env (index_header sbi (length (filter (\<lambda>r. rr_chosen_rel_path r \<noteq> None) recs))) [] 0 of
           (Err e, f1, _) \<Rightarrow> (Err e, f1)
         | (Ok _, f1, p1) \<Rightarrow>
            (case index_write_loop env recs f1 p1 of
               (Err e, f2, _) \<Rightarrow> (Err e, f2)
             | (Ok _, f2, p2) \<Rightarrow>
                (case pix_write env (cpu_to_le64 PATH_INDEX_MAGIC) f2 p2 of
                   (Err e, f3, _) \<Rightarrow> (Err e, f3)
                 | (Ok _, f3, _) \<Rightarrow> (px_fsync env, f3)))))"

text \<open>What an index entry adds to the record of its object.\<close>

definition index_record :: "bool \<Rightarrow> u8 \<Rightarrow> string \<Rightarrow> replay_record \<Rightarrow> unit res \<times> replay_record" where
  "index_record alloc t s r =
    (let pick = (rr_chosen_rel_path r = None \<and> (rr_authoritative_tier r = 255 \<or> t = rr_authoritative_tier r))
     in if pick \<and> \<not> alloc then (Err ENOMEM, r)
        else let r1 = (if pick then r\<lparr>rr_chosen_rel_path := Some s, rr_chosen_tier := t\<rparr> else r)
          in (Done, if rr_fallback_rel_path r1 = None then r1\<lparr>rr_fallback_rel_path := Some s, rr_fallback_tier := t\<rparr> else r1))"

fun index_read_loop ::
  "px_env \<Rightarrow> sb_info \<Rightarrow> bytes \<Rightarrow> nat \<Rightarrow> int \<Rightarrow> replay_record list \<Rightarrow> int res \<times> replay_record list" where
  "index_read_loop env sbi f 0 pos recs = (Ok pos, recs)"
| "index_read_loop env sbi f (Suc n) pos recs =
    (case pix_read env f pos PATH_INDEX_ENTRY_HDR of
       Err e \<Rightarrow> (Err e, recs)
     | Ok (eh, p1) \<Rightarrow>
        (let t = eh ! 16; plen = unat (le16_to_cpu (buf_get 18 2 eh)); oid = buf_get 0 OID_LEN eh
         in if plen = 0 \<or> PATH_MAX < plen then (Err EINVAL, recs)
            else if \<not> px_alloc env then (Err ENOMEM, recs)
            else case pix_read env f p1 plen of
                Err e \<Rightarrow> (Err e, recs)
              | Ok (pb, p2) \<Rightarrow>
                 (let s = cstr_of (pb[plen - 1 := 0])
                  in if sbi_ntiers sbi \<le> t then index_read_loop env sbi f n p2 recs
                     else case replay_get_or_create (px_alloc env) oid recs of
                         None \<Rightarrow> (Err ENOMEM, recs)
                       | Some recs1 \<Rightarrow>
                          (let recs2 = replay_update oid (\<lambda>r. snd (index_record (px_alloc env) t s r)) recs1
                           in case (case replay_find_oid oid recs1 of None \<Rightarrow> Done | Some r \<Rightarrow> fst (index_record (px_alloc env) t s r)) of
                               Err e \<Rightarrow> (Err e, recs2)
                             | Ok _ \<Rightarrow> index_read_loop env sbi f n p2 recs2))))"

definition path_index_read :: "px_env \<Rightarrow> sb_info \<Rightarrow> replay_record list \<Rightarrow> unit res \<times> replay_record list" where
  "path_index_read env sbi recs =
    (case px_index env of
       Err e \<Rightarrow> (Err e, recs)
     | Ok f \<Rightarrow>
        (case pix_read env f 0 PATH_INDEX_HDR_SZ of
           Err e \<Rightarrow> (Err e, recs)
         | Ok (h, p1) \<Rightarrow>
            (let magic = le64_to_cpu (buf_get 0 8 h); count = le64_to_cpu (buf_get 24 8 h); nt = le64_to_cpu (buf_get 32 8 h)
             in if magic \<noteq> PATH_INDEX_MAGIC \<or> buf_get 8 16 h \<noteq> sbi_pool_uuid sbi \<or> nt \<noteq> ucast (sbi_ntiers sbi) \<or> 50000000 < count
                then (Err EINVAL, recs)
                else case index_read_loop env sbi f (unat count) p1 recs of
                    (Err e, recs1) \<Rightarrow> (Err e, recs1)
                  | (Ok p2, recs1) \<Rightarrow>
                     (case pix_read env f p2 8 of
                        Err _ \<Rightarrow> (Err EINVAL, recs1)
                      | Ok (b, _) \<Rightarrow> (if le64_to_cpu b \<noteq> PATH_INDEX_MAGIC then Err EINVAL else Done, recs1)))))"

section \<open>The recovery index\<close>

definition recovery_populate :: "replay_record list \<Rightarrow> sb_info \<Rightarrow> sb_info" where
  "recovery_populate recs sbi = sbi\<lparr>sbi_recovery_records := sbi_recovery_records sbi @ recs, sbi_recovery_ready := True\<rparr>"

definition recovery_destroy :: "sb_info \<Rightarrow> sb_info" where
  "recovery_destroy sbi = sbi\<lparr>sbi_recovery_records := [], sbi_recovery_ready := False\<rparr>"

text \<open>The record with its path settled: the fallback counts when the authoritative tier had none.\<close>

definition settle_choice :: "replay_record \<Rightarrow> replay_record" where
  "settle_choice r =
    (if rr_chosen_rel_path r = None \<and> rr_fallback_rel_path r \<noteq> None
     then r\<lparr>rr_chosen_rel_path := rr_fallback_rel_path r, rr_fallback_rel_path := None, rr_chosen_tier := rr_fallback_tier r,
            rr_chosen_gen := rr_fallback_gen r\<rparr>
     else r)"

definition replay_instantiate_one ::
  "px_env \<Rightarrow> replay_record \<Rightarrow> sb_info \<Rightarrow> xattrs \<Rightarrow> iref option \<times> sb_info \<times> xattrs" where
  "replay_instantiate_one env rec0 sbi xs =
    (let r = settle_choice rec0;
         s0 = sbi\<lparr>sbi_recovery_records := replay_update (rr_oid r) (\<lambda>_. r) (sbi_recovery_records sbi)\<rparr>
     in case rr_chosen_rel_path r of
         None \<Rightarrow> (None, s0, xs)
       | Some rel \<Rightarrow>
          (if sbi_ntiers sbi \<le> rr_chosen_tier r then (None, s0, xs)
           else let t = (if sbi_cache_mode sbi then sbi_ntiers sbi - 1 else rr_chosen_tier r)
             in case px_kern_path env t rel of
                 Err _ \<Rightarrow> (None, s0, xs)
               | Ok p \<Rightarrow>
                  (case iget (px_ig env) p False False s0 xs of
                     (Err _, s1, xs1) \<Rightarrow> (None, s1, xs1)
                   | (Ok q, s1, xs1) \<Rightarrow>
                      (if \<not> px_alloc env then (None, s1, xs1)
                       else let s2 = set_rel_path q (Some rel) s1;
                                s3 = upd_inode q (\<lambda>i. i\<lparr>si_current_tier := t,
                                       si_intended_tier := (if rr_normalized r \<or> sbi_cache_mode sbi then t else rr_intended_tier r),
                                       si_movement_state := (if sbi_cache_mode sbi then MS_PLACED else ms_of_byte (rr_normalized_state r)),
                                       si_pin_state := pin_of_byte (rr_pin_state r), si_gen := rr_chosen_gen r,
                                       si_transaction_seq := (if rr_normalized r then 0 else si_transaction_seq i),
                                       si_replay_pinned := True\<rparr>) s2;
                                s4 = (if rr_normalized r
                                      then snd (snd (placement_record (px_alloc env) (px_now env) (rr_oid r) MS_PLACED t t True s3)) else s3)
                         in (Some q, s4, xs1)))))"

definition recovery_resolve_oid :: "px_env \<Rightarrow> bytes \<Rightarrow> sb_info \<Rightarrow> xattrs \<Rightarrow> iref option \<times> sb_info \<times> xattrs" where
  "recovery_resolve_oid env oid sbi xs =
    (if \<not> sbi_recovery_ready sbi then (None, sbi, xs)
     else case lookup_oid oid sbi of
         Some r \<Rightarrow> (Some r, sbi, xs)
       | None \<Rightarrow>
          (case replay_find_oid oid (sbi_recovery_records sbi) of
             None \<Rightarrow> (None, sbi, xs)
           | Some rec0 \<Rightarrow> replay_instantiate_one env rec0 sbi xs))"

text \<open>
  \<open>smoothfs_placement_replay\<close> at mount: the log, then the path index; the last component says
  whether a background rebuild of the index is due.
\<close>

definition placement_replay ::
  "px_env \<Rightarrow> (nat \<Rightarrow> errno option) \<Rightarrow> (nat \<Rightarrow> bool) \<Rightarrow> sb_info \<Rightarrow> unit res \<times> sb_info \<times> bool" where
  "placement_replay env io_err alloc sbi =
    (case sbi_placement_log sbi of
       None \<Rightarrow> (Err ENODEV, sbi, False)
     | Some log \<Rightarrow>
        (if \<not> px_alloc env then (Err ENOMEM, sbi, False)
         else case replay_load_log io_err alloc log 0 [] of
             (Err e, _) \<Rightarrow> (Err e, sbi, False)
           | (Ok _, recs) \<Rightarrow>
              (case path_index_read env sbi recs of
                 (x, recs1) \<Rightarrow> (Done, recovery_populate recs1 sbi, x \<noteq> Done))))"

text \<open>The tiers a rebuild walks; in cache mode a recovery reads the base tier only.\<close>

fun scan_tiers :: "nat \<Rightarrow> px_env \<Rightarrow> u8 list \<Rightarrow> scan_state \<Rightarrow> (unit res \<times> scan_state) option" where
  "scan_tiers k env [] st = Some (Done, st)"
| "scan_tiers k env (t # ts) st =
    (case scan_tree k env (t_lower_path (tier_at (sc_sbi st) t)) t [] st of
       None \<Rightarrow> None
     | Some (Err e, st1) \<Rightarrow> Some (Err e, st1)
     | Some (Ok _, st1) \<Rightarrow> scan_tiers k env ts st1)"

text \<open>\<open>smoothfs_path_index_rebuild\<close>: the pool, the xattrs and the new index file, if it was written.\<close>

definition path_index_rebuild ::
  "nat \<Rightarrow> px_env \<Rightarrow> append \<Rightarrow> (nat \<Rightarrow> errno option) \<Rightarrow> (nat \<Rightarrow> bool) \<Rightarrow> bool \<Rightarrow> sb_info \<Rightarrow> xattrs
    \<Rightarrow> (unit res \<times> sb_info \<times> xattrs \<times> bytes option) option" where
  "path_index_rebuild k env aw io_err alloc recover sbi xs =
    (if sbi_placement_log sbi = None then Some (Err ENODEV, sbi, xs, None)
     else if \<not> px_alloc env then Some (Err ENOMEM, sbi, xs, None)
     else let s1 = placement_wb_drain aw sbi
       in case sbi_placement_log s1 of
           None \<Rightarrow> Some (Err ENODEV, s1, xs, None)
         | Some log \<Rightarrow>
            (case replay_load_log io_err alloc log 0 [] of
               (Err e, _) \<Rightarrow> Some (Err e, s1, xs, None)
             | (Ok _, recs) \<Rightarrow>
                (case scan_tiers k env (if recover \<and> sbi_cache_mode s1 then [sbi_ntiers s1 - 1] else tier_ids s1)
                        \<lparr>sc_sbi = s1, sc_xs = xs, sc_recs = recs\<rparr> of
                   None \<Rightarrow> None
                 | Some (Err e, st) \<Rightarrow> Some (Err e, sc_sbi st, sc_xs st, None)
                 | Some (Ok _, st) \<Rightarrow>
                    (case path_index_write env (sc_sbi st) (sc_recs st) of
                       (Err e, f) \<Rightarrow> Some (Err e, sc_sbi st, sc_xs st, Some f)
                     | (Ok _, f) \<Rightarrow>
                        Some (Done, if recover then recovery_populate (sc_recs st) (recovery_destroy (sc_sbi st)) else sc_sbi st,
                              sc_xs st, Some f)))))"

section \<open>The background rebuild\<close>

record index_work =
  iw_ready :: bool
  iw_stop :: bool
  iw_queued :: bool

definition path_index_async_init :: "index_work \<Rightarrow> index_work" where
  "path_index_async_init iw = iw\<lparr>iw_stop := False, iw_ready := True\<rparr>"

definition path_index_async_schedule :: "index_work \<Rightarrow> index_work" where
  "path_index_async_schedule iw = (if \<not> iw_ready iw \<or> iw_stop iw then iw else iw\<lparr>iw_queued := True\<rparr>)"

definition path_index_async_destroy :: "index_work \<Rightarrow> index_work" where
  "path_index_async_destroy iw = (if \<not> iw_ready iw then iw else iw\<lparr>iw_ready := False, iw_stop := True, iw_queued := False\<rparr>)"

text \<open>Whether the queued work does a rebuild when it runs.\<close>

definition path_index_workfn :: "index_work \<Rightarrow> bool \<times> index_work" where
  "path_index_workfn iw = (iw_ready iw \<and> \<not> iw_stop iw, iw\<lparr>iw_queued := False\<rparr>)"

definition recovery_rebuild_for_staging ::
  "nat \<Rightarrow> px_env \<Rightarrow> append \<Rightarrow> (nat \<Rightarrow> errno option) \<Rightarrow> (nat \<Rightarrow> bool) \<Rightarrow> index_work \<Rightarrow> sb_info \<Rightarrow> xattrs
    \<Rightarrow> (unit res \<times> sb_info \<times> xattrs \<times> bytes option) option \<times> index_work" where
  "recovery_rebuild_for_staging k env aw io_err alloc iw sbi xs =
     (path_index_rebuild k env aw io_err alloc True sbi xs, iw\<lparr>iw_queued := False\<rparr>)"

section \<open>Reading back a written index\<close>

lemma of_char_byte: "unat (word_of_nat (of_char c) :: u8) = of_char c"
proof -
  have "of_char c = (of_char c :: nat) mod 256" by (metis char_of_char of_char_of)
  then have "of_char c < (256 :: nat)" by (metis mod_less_divisor zero_less_numeral)
  then show ?thesis by (simp add: unat_of_nat take_bit_nat_eq_self)
qed

lemma byte_of_char_0: "(word_of_nat (of_char c) :: u8) = 0 \<longleftrightarrow> c = char_of (0 :: nat)"
proof
  assume "(word_of_nat (of_char c) :: u8) = 0"
  then have "of_char c = (0 :: nat)" using of_char_byte [of c] by simp
  then show "c = char_of (0 :: nat)" by (metis char_of_char)
next
  assume "c = char_of (0 :: nat)"
  then show "(word_of_nat (of_char c) :: u8) = 0" by simp
qed

lemma cstr_roundtrip:
  assumes "char_of (0 :: nat) \<notin> set s"
  shows "cstr_of ((cstr_bytes s)[length s := 0]) = s"
proof -
  have e: "(cstr_bytes s)[length s := 0] = map (\<lambda>c. word_of_nat (of_char c)) s @ [0]" by (simp add: cstr_bytes_def list_update_append)
  have "takeWhile (\<lambda>w. w \<noteq> 0) (map (\<lambda>c. word_of_nat (of_char c) :: u8) s @ [0]) = map (\<lambda>c. word_of_nat (of_char c)) s"
    using assms by (subst takeWhile_append2) (auto simp: byte_of_char_0)
  then show ?thesis unfolding cstr_of_def e by (simp add: of_char_byte comp_def)
qed

lemma pix_write_done:
  assumes "kwrite_ok (px_kwrite env)" "pix_write env buf f (int (length f)) = (Done, f', p)"
  shows "f' = f @ buf \<and> p = int (length f')"
proof -
  obtain n where "px_kwrite env f (int (length f)) buf = (Ok n, f')" "n = length buf" "p = int (length f) + int n"
    using assms(2) by (auto simp: pix_write_def split: prod.splits sum.splits if_splits)
  then have "f' = file_put f (int (length f)) (take n buf)" using assms(1) unfolding kwrite_ok_def by (metis of_nat_0_le_iff)
  then show ?thesis using \<open>n = length buf\<close> \<open>p = int (length f) + int n\<close> by (simp add: file_put_at_end)
qed

text \<open>The entry of a record that has a path.\<close>

definition index_entry :: "replay_record \<Rightarrow> bytes" where
  "index_entry r = (case rr_chosen_rel_path r of None \<Rightarrow> [] | Some s \<Rightarrow> index_entry_hdr r s @ cstr_bytes s)"

definition index_file :: "sb_info \<Rightarrow> replay_record list \<Rightarrow> bytes" where
  "index_file sbi recs = index_header sbi (length (filter (\<lambda>r. rr_chosen_rel_path r \<noteq> None) recs))
     @ concat (map index_entry recs) @ cpu_to_le64 PATH_INDEX_MAGIC"

definition index_rec_valid :: "sb_info \<Rightarrow> replay_record \<Rightarrow> bool" where
  "index_rec_valid sbi r \<longleftrightarrow> length (rr_oid r) = OID_LEN \<and>
     (case rr_chosen_rel_path r of None \<Rightarrow> True
      | Some s \<Rightarrow> length s < PATH_MAX \<and> char_of (0 :: nat) \<notin> set s \<and> rr_chosen_tier r < sbi_ntiers sbi)"

lemma index_write_loop_done:
  assumes "kwrite_ok (px_kwrite env)" "\<forall>r \<in> set recs. index_rec_valid sbi r"
    and "index_write_loop env recs f (int (length f)) = (Done, f', p)"
  shows "f' = f @ concat (map index_entry recs) \<and> p = int (length f')"
  using assms(2,3)
proof (induction recs arbitrary: f)
  case (Cons r rs)
  show ?case
  proof (cases "rr_chosen_rel_path r")
    case None
    then show ?thesis using Cons by (simp add: index_entry_def)
  next
    case (Some s)
    then have l: "\<not> 65535 < length s + 1" using Cons.prems(1) by (simp add: index_rec_valid_def PATH_MAX_def)
    obtain x f1 p1 where w1: "pix_write env (index_entry_hdr r s) f (int (length f)) = (x, f1, p1)" by (metis prod_cases3)
    then have x: "x = Done" using Cons.prems(2) Some l by (cases x) auto
    note f1 = pix_write_done [OF assms(1) w1 [unfolded x]]
    obtain y f2 p2 where w2: "pix_write env (cstr_bytes s) f1 (int (length f1)) = (y, f2, p2)" by (metis prod_cases3)
    then have y: "y = Done" using Cons.prems(2) Some l w1 x f1 by (cases y) auto
    note f2 = pix_write_done [OF assms(1) w2 [unfolded y]]
    have "index_write_loop env rs f2 (int (length f2)) = (Done, f', p)"
      using Cons.prems(2) Some l w1 x f1 w2 y f2 by simp
    then show ?thesis using Cons.IH [of f2] Cons.prems(1) f1 f2 Some by (simp add: index_entry_def)
  qed
qed simp

lemma path_index_write_done:
  assumes "kwrite_ok (px_kwrite env)" "\<forall>r \<in> set recs. index_rec_valid sbi r" "path_index_write env sbi recs = (Done, f)"
  shows "f = index_file sbi recs"
proof -
  let ?h = "index_header sbi (length (filter (\<lambda>r. rr_chosen_rel_path r \<noteq> None) recs))"
  obtain u where o: "px_open_index env = Ok u" using assms(3) by (cases "px_open_index env") (auto simp: path_index_write_def)
  obtain x f1 p1 where w1: "pix_write env ?h [] 0 = (x, f1, p1)" by (metis prod_cases3)
  then have x: "x = Done" using assms(3) o by (cases x) (auto simp: path_index_write_def)
  have f1: "f1 = ?h" "p1 = int (length f1)" using pix_write_done [OF assms(1), of ?h "[]" f1 p1] w1 x by simp_all
  obtain y f2 p2 where w2: "index_write_loop env recs f1 p1 = (y, f2, p2)" by (metis prod_cases3)
  then have y: "y = Done" using assms(3) o w1 x by (cases y) (auto simp: path_index_write_def)
  have f2: "f2 = f1 @ concat (map index_entry recs)" "p2 = int (length f2)"
    using index_write_loop_done [OF assms(1,2) w2 [unfolded f1(2) y]] by simp_all
  obtain z f3 p3 where w3: "pix_write env (cpu_to_le64 PATH_INDEX_MAGIC) f2 p2 = (z, f3, p3)" by (metis prod_cases3)
  then have z: "z = Done" using assms(3) o w1 x w2 y by (cases z) (auto simp: path_index_write_def)
  have "f3 = f2 @ cpu_to_le64 PATH_INDEX_MAGIC" using pix_write_done [OF assms(1) w3 [unfolded f2(2) z]] by simp
  then show ?thesis using assms(3) o w1 x w2 y w3 z f1 f2 by (simp add: path_index_write_def index_file_def del: le_bytes.simps)
qed

lemma pix_read_full:
  "kread_full (px_kread env) \<Longrightarrow> pix_read env f (int p) n =
    (if p + n \<le> length f \<or> n = 0 then Ok (take n (drop p f), int p + int n)
     else if length f \<le> p then Err ENODATA else Err EIO)"
  by (auto simp: pix_read_def kread_full_def file_get_def)

lemma index_entry_hdr_fields:
  assumes "length (rr_oid r) = OID_LEN" "length s < 65535"
  shows "length (index_entry_hdr r s) = PATH_INDEX_ENTRY_HDR" "index_entry_hdr r s ! 16 = rr_chosen_tier r"
    and "buf_get 0 OID_LEN (index_entry_hdr r s) = rr_oid r" "unat (le16_to_cpu (buf_get 18 2 (index_entry_hdr r s))) = length s + 1"
proof -
  have l: "length (buf_put 0 (rr_oid r) (replicate 20 0)) = 20" using assms(1) by (simp add: OID_LEN_def)
  show "length (index_entry_hdr r s) = PATH_INDEX_ENTRY_HDR" "index_entry_hdr r s ! 16 = rr_chosen_tier r"
      "buf_get 0 OID_LEN (index_entry_hdr r s) = rr_oid r"
    using assms(1) l by (simp_all add: index_entry_hdr_def Let_def PATH_INDEX_ENTRY_HDR_def OID_LEN_def nth_buf_put buf_get_put_other buf_get_put_same
        del: le_bytes.simps)
  have "le16_to_cpu (buf_get 18 2 (index_entry_hdr r s)) = word_of_nat (length s + 1)"
    using assms(1) l by (simp add: index_entry_hdr_def Let_def PATH_INDEX_ENTRY_HDR_def OID_LEN_def buf_get_put_same del: le_bytes.simps of_nat_Suc)
  moreover have "unat (word_of_nat (length s + 1) :: u16) = length s + 1"
    using assms(2) by (simp only: unat_of_nat take_bit_nat_eq_self_iff) (simp add: take_bit_nat_eq_self)
  ultimately show "unat (le16_to_cpu (buf_get 18 2 (index_entry_hdr r s))) = length s + 1" by simp
qed

lemma index_header_fields:
  assumes "length (sbi_pool_uuid sbi) = 16"
  shows "length (index_header sbi n) = PATH_INDEX_HDR_SZ" "le64_to_cpu (buf_get 0 8 (index_header sbi n)) = PATH_INDEX_MAGIC"
    and "buf_get 8 16 (index_header sbi n) = sbi_pool_uuid sbi" "le64_to_cpu (buf_get 24 8 (index_header sbi n)) = word_of_nat n"
    and "le64_to_cpu (buf_get 32 8 (index_header sbi n)) = ucast (sbi_ntiers sbi)"
  using assms by (simp_all add: index_header_def Let_def PATH_INDEX_HDR_SZ_def buf_get_put_other buf_get_put_same del: le_bytes.simps)

text \<open>What reading back an entry does to the record of its object.\<close>

definition indexed :: "replay_record \<Rightarrow> replay_record \<Rightarrow> replay_record" where
  "indexed r b = snd (index_record True (rr_chosen_tier r) (the (rr_chosen_rel_path r)) b)"

lemma index_record_done: "fst (index_record True t s r) = Done"
  by (simp add: index_record_def Let_def)

lemma keeps_oid_indexed: "keeps_oid (indexed r)"
  by (simp add: keeps_oid_def indexed_def index_record_def Let_def)

lemma index_read_step:
  assumes "kread_full (px_kread env)" "px_alloc env" "index_rec_valid sbi r" "rr_chosen_rel_path r = Some s"
    and "take (length (index_entry r)) (drop p f) = index_entry r"
  shows "index_read_loop env sbi f (Suc n) (int p) recs
    = index_read_loop env sbi f n (int (p + length (index_entry r))) (replay_upsert (rr_oid r) (indexed r) recs)"
proof -
  have v: "length (rr_oid r) = OID_LEN" "length s < PATH_MAX" "char_of (0 :: nat) \<notin> set s" "rr_chosen_tier r < sbi_ntiers sbi" "length s < 65535"
    using assms(3,4) by (simp_all add: index_rec_valid_def PATH_MAX_def)
  note h = index_entry_hdr_fields [OF v(1,5)]
  have e: "index_entry r = index_entry_hdr r s @ cstr_bytes s" using assms(4) by (simp add: index_entry_def)
  have cl: "length (cstr_bytes s) = length s + 1" by (simp add: cstr_bytes_def)
  have le: "length (index_entry r) = PATH_INDEX_ENTRY_HDR + (length s + 1)" using e h(1) cl by simp
  have fit: "p + length (index_entry r) \<le> length f"
    using arg_cong [OF assms(5), of length] le by (simp add: PATH_INDEX_ENTRY_HDR_def)
  have t1: "take PATH_INDEX_ENTRY_HDR (drop p f) = index_entry_hdr r s"
    using arg_cong [OF assms(5), of "take PATH_INDEX_ENTRY_HDR"] le e h(1) by (simp add: min_def)
  have t2: "take (length s + 1) (drop (p + PATH_INDEX_ENTRY_HDR) f) = cstr_bytes s"
    using arg_cong [OF assms(5), of "drop PATH_INDEX_ENTRY_HDR"] le e h(1) by (simp add: drop_take add.commute)
  have r1: "pix_read env f (int p) PATH_INDEX_ENTRY_HDR = Ok (index_entry_hdr r s, int (p + PATH_INDEX_ENTRY_HDR))"
    using fit le t1 by (simp add: pix_read_full [OF assms(1)])
  have r2: "pix_read env f (int (p + PATH_INDEX_ENTRY_HDR)) (length s + 1) = Ok (cstr_bytes s, int (p + length (index_entry r)))"
    using fit le t2 pix_read_full [OF assms(1), of f "p + PATH_INDEX_ENTRY_HDR" "length s + 1"] by simp
  obtain recs1 where goc: "replay_get_or_create True (rr_oid r) recs = Some recs1"
    by (cases "replay_find_oid (rr_oid r) recs") (auto simp: replay_get_or_create_def)
  have ix: "(\<lambda>b. snd (index_record True (rr_chosen_tier r) s b)) = indexed r" using assms(4) by (simp add: indexed_def fun_eq_iff)
  have ok: "(case x of None \<Rightarrow> Done | Some b \<Rightarrow> fst (index_record True (rr_chosen_tier r) s b)) = Done" for x
    by (simp add: index_record_done split: option.split)
  have "\<not> PATH_MAX < length s + 1" "\<not> sbi_ntiers sbi \<le> rr_chosen_tier r" using v(2,4) by simp_all
  then show ?thesis
    by (subst index_read_loop.simps)
      (simp only: r1 r2 sum.case prod.case Let_def h(2-4) assms(2) simp_thms add_is_0 one_neq_zero if_False if_True add_diff_cancel_right'
        cstr_roundtrip [OF v(3)] goc option.case ok ix replay_upsert_def option.sel)
qed

abbreviation has_path :: "replay_record \<Rightarrow> bool" where
  "has_path r \<equiv> rr_chosen_rel_path r \<noteq> None"

abbreviation index_ops :: "replay_record list \<Rightarrow> (bytes \<times> (replay_record \<Rightarrow> replay_record)) list" where
  "index_ops recs \<equiv> map (\<lambda>r. (rr_oid r, indexed r)) (filter has_path recs)"

lemma index_read_loop_file:
  assumes "kread_full (px_kread env)" "px_alloc env" "\<forall>r \<in> set recs. index_rec_valid sbi r"
    and "f = pre @ concat (map index_entry recs) @ post"
  shows "index_read_loop env sbi f (length (filter has_path recs)) (int (length pre)) base
    = (Ok (int (length pre + length (concat (map index_entry recs)))), replay_index.upsert_all (index_ops recs) base)"
  using assms(3,4)
proof (induction recs arbitrary: pre base)
  case Nil
  then show ?case by (simp add: replay_index.upsert_all_def)
next
  case (Cons r rs)
  show ?case
  proof (cases "rr_chosen_rel_path r")
    case None
    then show ?thesis using Cons by (simp add: index_entry_def)
  next
    case (Some s)
    have "take (length (index_entry r)) (drop (length pre) f) = index_entry r" using Cons.prems(2) by simp
    from index_read_step [OF assms(1,2) _ Some this] Cons.prems(1)
    have "index_read_loop env sbi f (length (filter has_path (r # rs))) (int (length pre)) base
        = index_read_loop env sbi f (length (filter has_path rs)) (int (length (pre @ index_entry r))) (replay_upsert (rr_oid r) (indexed r) base)"
      using Some by simp
    also have "\<dots> = (Ok (int (length (pre @ index_entry r) + length (concat (map index_entry rs)))),
        replay_index.upsert_all (index_ops rs) (replay_upsert (rr_oid r) (indexed r) base))"
      using Cons.prems by (intro Cons.IH) simp_all
    finally show ?thesis using Some by (simp add: replay_index.upsert_all_def)
  qed
qed

lemma path_index_read_file:
  assumes "kread_full (px_kread env)" "px_alloc env" "\<forall>r \<in> set recs. index_rec_valid sbi r" "length (sbi_pool_uuid sbi) = 16"
    and "length (filter has_path recs) \<le> 50000000" "px_index env = Ok (index_file sbi recs)"
  shows "path_index_read env sbi base = (Done, replay_index.upsert_all (index_ops recs) base)"
proof -
  let ?n = "length (filter has_path recs)"
  let ?f = "index_file sbi recs" and ?h = "index_header sbi ?n" and ?b = "concat (map index_entry recs)"
  note h = index_header_fields [OF assms(4), of ?n]
  have f: "?f = ?h @ ?b @ cpu_to_le64 PATH_INDEX_MAGIC" by (simp add: index_file_def)
  have r1: "pix_read env ?f 0 PATH_INDEX_HDR_SZ = Ok (?h, int (length ?h))"
    using pix_read_full [OF assms(1), of ?f 0 PATH_INDEX_HDR_SZ] h(1) by (simp add: f del: le_bytes.simps)
  have u: "unat (word_of_nat ?n :: u64) = ?n"
    using assms(5) by (simp only: unat_of_nat) (simp add: take_bit_nat_eq_self)
  have c: "\<not> 50000000 < (word_of_nat ?n :: u64)" using assms(5) u by (simp add: word_less_nat_alt)
  have r2: "index_read_loop env sbi ?f ?n (int (length ?h)) base = (Ok (int (length ?h + length ?b)), replay_index.upsert_all (index_ops recs) base)"
    by (rule index_read_loop_file [OF assms(1-3) f])
  have r3: "pix_read env ?f (int (length ?h + length ?b)) 8 = Ok (cpu_to_le64 PATH_INDEX_MAGIC, int (length ?h + length ?b) + int 8)"
    by (subst pix_read_full [OF assms(1)]) (simp add: f del: le_bytes.simps)
  show ?thesis
    unfolding path_index_read_def assms(6)
    by (simp only: sum.case prod.case r1 Let_def h(2-5) u c r2 r3 simp_thms if_False le64_roundtrip)
qed

text \<open>A reader of a prefix of the file does what the reader of the file does, until it runs out of bytes.\<close>

lemma pix_read_prefix:
  "kread_full (px_kread env) \<Longrightarrow> pix_read env (take k f) (int p) n = Ok (b, q) \<Longrightarrow>
    pix_read env f (int p) n = Ok (b, q) \<and> q = int (p + n) \<and> (n = 0 \<or> p + n \<le> k)"
  by (auto simp: pix_read_full take_drop min_def split: if_splits)

lemma index_read_prefix:
  "kread_full (px_kread env) \<Longrightarrow> index_read_loop env sbi (take k f) n (int p) recs = (Ok q, recs')
    \<Longrightarrow> index_read_loop env sbi f n (int p) recs = (Ok q, recs') \<and> 0 \<le> q"
proof (induction n arbitrary: p recs)
  case 0
  then show ?case by simp
next
  case (Suc n)
  obtain eh p1 where r1: "pix_read env (take k f) (int p) PATH_INDEX_ENTRY_HDR = Ok (eh, p1)"
    using Suc.prems(2) by (auto split: sum.splits)
  note q1 = pix_read_prefix [OF Suc.prems(1) r1]
  define plen where "plen = unat (le16_to_cpu (buf_get 18 2 eh))"
  obtain pb p2 where r2: "pix_read env (take k f) p1 plen = Ok (pb, p2)"
    using Suc.prems(2) r1 by (auto simp: Let_def plen_def split: if_splits sum.splits)
  have r2': "pix_read env (take k f) (int (p + PATH_INDEX_ENTRY_HDR)) plen = Ok (pb, p2)" using r2 q1 by simp
  note q2 = pix_read_prefix [OF Suc.prems(1) r2']
  show ?case
    using Suc.prems r1 r2 q1 q2 Suc.IH [of "p + PATH_INDEX_ENTRY_HDR + plen"]
    by (auto simp: Let_def plen_def [symmetric] split: if_splits option.splits sum.splits)
qed

lemma find_indexed:
  assumes "distinct (map rr_oid recs)" "r \<in> set recs" "has_path r"
  shows "replay_find_oid (rr_oid r) (replay_index.upsert_all (index_ops recs) base)
    = Some (indexed r (case replay_find_oid (rr_oid r) base of None \<Rightarrow> replay_new (rr_oid r) | Some b \<Rightarrow> b))"
proof -
  let ?g = "\<lambda>(k', f) v. if rr_oid r = k' then Some (f (case v of None \<Rightarrow> replay_new (rr_oid r) | Some x \<Rightarrow> x)) else v"
  have other: "fold ?g (index_ops rs) v = v" if "rr_oid r \<notin> rr_oid ` set rs" for rs v
    using that by (induction rs arbitrary: v) auto
  obtain xs ys where recs: "recs = xs @ r # ys" using assms(2) by (meson split_list)
  have "rr_oid r \<notin> rr_oid ` set xs" "rr_oid r \<notin> rr_oid ` set ys" using assms(1) by (auto simp: recs)
  then have "fold ?g (index_ops recs) v = Some (indexed r (case v of None \<Rightarrow> replay_new (rr_oid r) | Some x \<Rightarrow> x))" for v
    using other [of xs] other [of ys] assms(3) by (simp add: recs)
  moreover have "\<forall>(k', f) \<in> set (index_ops recs). keeps_oid f" using keeps_oid_indexed by auto
  ultimately show ?thesis using replay_index.get_upsert_all [of "index_ops recs" "rr_oid r" base] by simp
qed

text \<open>
  C19. The path index survives a remount: an index that was written without an error is accepted by
  the next mount, and every object that had a path gets it back, on its tier, unless the log
  has placed the object on another tier since.
\<close>

theorem path_index_roundtrip:
  assumes "kwrite_ok (px_kwrite env)" "path_index_write env sbi recs = (Done, f)"
    and "\<forall>r \<in> set recs. index_rec_valid sbi r" "distinct (map rr_oid recs)" "length (sbi_pool_uuid sbi) = 16"
    and "length (filter has_path recs) \<le> 50000000" "kread_full (px_kread env')" "px_alloc env'" "px_index env' = Ok f"
  shows "\<exists>recs'. path_index_read env' sbi base = (Done, recs')
    \<and> (\<forall>r \<in> set recs. has_path r \<longrightarrow> (\<exists>r'. replay_find_oid (rr_oid r) recs' = Some r'
        \<and> ((case replay_find_oid (rr_oid r) base of None \<Rightarrow> True
            | Some b \<Rightarrow> rr_chosen_rel_path b = None \<and> rr_authoritative_tier b = rr_chosen_tier r)
          \<longrightarrow> rr_chosen_rel_path r' = rr_chosen_rel_path r \<and> rr_chosen_tier r' = rr_chosen_tier r)))"
proof -
  have "px_index env' = Ok (index_file sbi recs)" using path_index_write_done [OF assms(1,3,2)] assms(9) by simp
  note rd = path_index_read_file [OF assms(7,8,3,5,6) this, of base]
  have "\<exists>r'. replay_find_oid (rr_oid r) (replay_index.upsert_all (index_ops recs) base) = Some r'
        \<and> ((case replay_find_oid (rr_oid r) base of None \<Rightarrow> True
            | Some b \<Rightarrow> rr_chosen_rel_path b = None \<and> rr_authoritative_tier b = rr_chosen_tier r)
          \<longrightarrow> rr_chosen_rel_path r' = rr_chosen_rel_path r \<and> rr_chosen_tier r' = rr_chosen_tier r)"
    if "r \<in> set recs" "has_path r" for r
    using that(2) by (subst find_indexed [OF assms(4) that])
      (auto simp: indexed_def index_record_def replay_new_def Let_def split: option.split)
  then show ?thesis using rd by blast
qed

text \<open>
  C20. A torn index is never taken for a whole one: whatever part of the file reached the disk before
  a crash, short of all of it, the next mount refuses it and falls back to the scan.
\<close>

theorem path_index_torn_rejected:
  assumes "kwrite_ok (px_kwrite env)" "path_index_write env sbi recs = (Done, f)" "\<forall>r \<in> set recs. index_rec_valid sbi r"
    and "length (sbi_pool_uuid sbi) = 16" "length (filter has_path recs) \<le> 50000000"
    and "kread_full (px_kread env')" "px_alloc env'" "px_index env' = Ok (take k f)" "k < length f"
  shows "fst (path_index_read env' sbi base) \<noteq> Done"
proof
  assume acc: "fst (path_index_read env' sbi base) = Done"
  let ?n = "length (filter has_path recs)"
  have f: "f = index_file sbi recs" by (rule path_index_write_done [OF assms(1,3,2)])
  note h = index_header_fields [OF assms(4), of ?n]
  have ff: "f = index_header sbi ?n @ concat (map index_entry recs) @ cpu_to_le64 PATH_INDEX_MAGIC" by (simp add: f index_file_def)
  have "\<exists>hh p1 q recs1 b p3. pix_read env' (take k f) (int 0) PATH_INDEX_HDR_SZ = Ok (hh, p1)
      \<and> index_read_loop env' sbi (take k f) (unat (le64_to_cpu (buf_get 24 8 hh))) p1 base = (Ok q, recs1)
      \<and> pix_read env' (take k f) q 8 = Ok (b, p3)"
    using acc assms(8) by (auto simp: path_index_read_def Let_def split: sum.splits if_splits prod.splits)
  then obtain hh p1 q recs1 b p3 where r1: "pix_read env' (take k f) (int 0) PATH_INDEX_HDR_SZ = Ok (hh, p1)"
      and r2: "index_read_loop env' sbi (take k f) (unat (le64_to_cpu (buf_get 24 8 hh))) p1 base = (Ok q, recs1)"
      and r3: "pix_read env' (take k f) q 8 = Ok (b, p3)" by blast
  note q1 = pix_read_prefix [OF assms(6) r1]
  have hh: "hh = index_header sbi ?n" "p1 = int (length (index_header sbi ?n))"
    using q1 h(1) pix_read_full [OF assms(6), of f 0 PATH_INDEX_HDR_SZ] by (simp_all add: ff del: le_bytes.simps split: if_splits)
  have u: "unat (word_of_nat ?n :: u64) = ?n"
    using assms(5) by (simp only: unat_of_nat) (simp add: take_bit_nat_eq_self)
  have r2': "index_read_loop env' sbi (take k f) ?n (int (length (index_header sbi ?n))) base = (Ok q, recs1)"
    using r2 unfolding hh h(4) u .
  have q: "q = int (length (index_header sbi ?n) + length (concat (map index_entry recs)))"
    using index_read_prefix [OF assms(6) r2'] index_read_loop_file [OF assms(6,7,3) ff, of base] by simp
  have "length (index_header sbi ?n) + length (concat (map index_entry recs)) + 8 \<le> k"
    using pix_read_prefix [OF assms(6) r3 [unfolded q]] by simp
  then show False using assms(9) by (simp add: ff)
qed

section \<open>Recovering an object\<close>

text \<open>The index, whatever it holds, leaves what the log says of an object alone, and gives it a path only on its own tier.\<close>

definition logged :: "replay_record \<Rightarrow> replay_record \<Rightarrow> bool" where
  "logged r r' \<longleftrightarrow> rr_oid r' = rr_oid r \<and> rr_authoritative_tier r' = rr_authoritative_tier r \<and> rr_normalized r' = rr_normalized r
     \<and> rr_normalized_state r' = rr_normalized_state r
     \<and> (rr_chosen_rel_path r' = rr_chosen_rel_path r \<and> rr_chosen_tier r' = rr_chosen_tier r
        \<or> rr_authoritative_tier r = 255 \<or> rr_chosen_tier r' = rr_authoritative_tier r)"

lemma logged_refl [simp]: "logged r r"
  by (simp add: logged_def)

lemma logged_trans: "logged a b \<Longrightarrow> logged b c \<Longrightarrow> logged a c"
  by (auto simp: logged_def)

lemma logged_index_record: "logged r (snd (index_record alloc t s r))"
  by (auto simp: logged_def index_record_def Let_def)

definition logged_in :: "replay_record list \<Rightarrow> replay_record list \<Rightarrow> bool" where
  "logged_in recs recs' \<longleftrightarrow> (\<forall>oid r. replay_find_oid oid recs = Some r \<longrightarrow> (\<exists>r'. replay_find_oid oid recs' = Some r' \<and> logged r r'))"

lemma logged_in_refl [simp]: "logged_in a a"
  by (simp add: logged_in_def)

lemma logged_in_trans: "logged_in a b \<Longrightarrow> logged_in b c \<Longrightarrow> logged_in a c"
  unfolding logged_in_def by (meson logged_trans)

lemma logged_in_update:
  assumes "replay_get_or_create alloc oid recs = Some recs1" "\<And>r. logged r (f r)"
  shows "logged_in recs (replay_update oid f recs1)"
proof -
  have k: "keeps_oid f" using assms(2) by (simp add: keeps_oid_def logged_def)
  have "replay_find_oid q recs = Some r \<Longrightarrow> replay_find_oid q recs1 = Some r" for q r
    using assms(1) by (auto simp: replay_get_or_create_def replay_find_append split: option.splits if_splits)
  then show ?thesis unfolding logged_in_def replay_find_update [OF k] using assms(2) by fastforce
qed

lemma logged_in_loop: "logged_in recs (snd (index_read_loop env sbi f n pos recs))"
proof (induction n arbitrary: pos recs)
  case 0
  then show ?case by simp
next
  case (Suc n)
  have step: "logged_in recs (replay_update oid (\<lambda>r. snd (index_record a t s r)) recs1)"
    if "replay_get_or_create a oid recs = Some recs1" for oid a t s recs1
    by (rule logged_in_update [OF that logged_index_record])
  have next_step: "logged_in recs (snd (index_read_loop env sbi f n p (replay_update oid (\<lambda>r. snd (index_record a t s r)) recs1)))"
    if "replay_get_or_create a oid recs = Some recs1" for p oid a t s recs1
    by (rule logged_in_trans [OF step [OF that] Suc])
  show ?case using Suc step next_step by (auto simp: Let_def split: sum.splits prod.splits option.splits)
qed

lemma logged_in_index: "logged_in recs (snd (path_index_read env sbi recs))"
  using logged_in_loop by (auto simp: path_index_read_def Let_def split: sum.splits prod.splits) (metis snd_conv)+

lemma iget_ok_inode: "iget env p False fresh s xs = (Ok q, s', xs') \<Longrightarrow> \<exists>si. sbi_inodes s' q = Some si"
proof -
  assume i: "iget env p False fresh s xs = (Ok q, s', xs')"
  have new: "\<exists>si. sbi_inodes s2 q = Some si" if "iget_finish env p False t q' oid gen s1 = (Ok q, s2)" for t q' oid gen s1 s2
    using that by (auto simp: iget_finish_def iget_new_def Let_def oid_map_insert_def rht_insert_def lower_ino_map_insert_def
        split: option.splits if_splits)
  have cached: "\<exists>si. sbi_inodes s1 q = Some si" if "iget_cached env p s = (Some q, s1)" for s1
    using that by (auto simp: iget_cached_def Let_def split: option.splits if_splits)
  show ?thesis using i new cached
    by (auto simp: iget_def Let_def split: prod.splits option.splits sum.splits if_splits)
qed

lemma log_loaded:
  assumes "\<forall>l \<in> set ls. log_rec_valid l" "latest oid ls = Some l"
  obtains recs where "replay_load_log (\<lambda>_. None) (\<lambda>_. True) (concat (map log_rec_bytes ls)) 0 [] = (Done, recs)"
    and "replay_find_oid oid recs = Some (replayed l)"
  using replay_load_log_fold [of "\<lambda>_. None" "\<lambda>_. True" ls "[]" "[]"] assms find_upsert_all_latest [of oid ls] by simp

lemma placement_replay_logged:
  assumes "\<forall>l \<in> set ls. log_rec_valid l" "sbi_placement_log sbi = Some (concat (map log_rec_bytes ls))" "sbi_recovery_records sbi = []"
    and "placement_replay env (\<lambda>_. None) (\<lambda>_. True) sbi = (Done, s1, b)" "latest oid ls = Some l"
  obtains rec where "replay_find_oid oid (sbi_recovery_records s1) = Some rec" "logged (replayed l) rec" "sbi_recovery_ready s1"
    and "sbi_ntiers s1 = sbi_ntiers sbi" "sbi_cache_mode s1 = sbi_cache_mode sbi"
proof -
  obtain recs where recs: "replay_load_log (\<lambda>_. None) (\<lambda>_. True) (concat (map log_rec_bytes ls)) 0 [] = (Done, recs)"
      "replay_find_oid oid recs = Some (replayed l)"
    by (rule log_loaded [OF assms(1,5)])
  have "s1 = recovery_populate (snd (path_index_read env sbi recs)) sbi"
    using assms(2,4) recs(1) by (auto simp: placement_replay_def split: if_splits prod.splits)
  moreover obtain r' where "replay_find_oid oid (snd (path_index_read env sbi recs)) = Some r'" "logged (replayed l) r'"
    using logged_in_index [of recs env sbi] recs(2) unfolding logged_in_def by blast
  ultimately show thesis using that assms(3) by (simp add: recovery_populate_def)
qed

lemma latest_oid: "latest oid ls = Some l \<Longrightarrow> lr_oid l = oid"
proof -
  have "fold (\<lambda>l acc. if lr_oid l = oid then newer l acc else acc) ls acc = Some l \<Longrightarrow> (\<And>a. acc = Some a \<Longrightarrow> lr_oid a = oid) \<Longrightarrow> lr_oid l = oid" for acc
  proof (induction ls arbitrary: acc)
    case (Cons x ls)
    show ?case using Cons.prems by (intro Cons.IH [of "if lr_oid x = oid then newer x acc else acc"])
      (auto simp: newer_def split: option.splits if_splits)
  qed simp
  from this [of None] show "latest oid ls = Some l \<Longrightarrow> lr_oid l = oid" by (simp add: latest_def)
qed


text \<open>
  The resolution goes by the recorded path alone. When another object is at that path by now, as
  after a rename the index has not seen, the id of the first resolves to the inode of the second.
\<close>

lemma recovery_resolves_other_object:
  assumes "sbi_recovery_ready sbi" "lookup_oid oid sbi = None" "replay_find_oid oid (sbi_recovery_records sbi) = Some rec"
    and "rr_oid rec = oid" "rr_chosen_rel_path rec = Some rel" "rr_chosen_tier rec < sbi_ntiers sbi" "\<not> sbi_cache_mode sbi" "px_alloc env"
    and "px_kern_path env (rr_chosen_tier rec) rel = Ok p" "iget_healthy (px_ig env)" "ig_dino (px_ig env) (p_dentry p) = Some n"
    and "tier_of sbi (p_mnt p) < MAX_TIERS" "sbi_oid_wb_ready sbi" "sbi_lower_ino_map_ready sbi"
    and "sbi_lower_ino_map sbi (lower_key (word_of_nat (tier_of sbi (p_mnt p))) (ig_lino (px_ig env) (p_dentry p))) = None"
    and "xs n = Some other" "length other = OID_LEN" "other \<noteq> oid"
    and "sbi_inodes sbi (inode_no_from_oid (ig_xxh64 (px_ig env)) other) = None"
  shows "\<exists>q s2 xs2 si. recovery_resolve_oid env oid sbi xs = (Some q, s2, xs2) \<and> sbi_inodes s2 q = Some si \<and> si_oid si \<noteq> oid"
proof -
  let ?q = "inode_no_from_oid (ig_xxh64 (px_ig env)) other"
  define s0 where "s0 = sbi\<lparr>sbi_recovery_records := replay_update oid (\<lambda>_. rec) (sbi_recovery_records sbi)\<rparr>"
  have "tier_of s0 (p_mnt p) = tier_of sbi (p_mnt p)" by (simp add: tier_of_def s0_def)
  then have "\<exists>s' si. iget (px_ig env) p False False s0 xs = (Ok ?q, s', xs) \<and> sbi_inodes s' ?q = Some si \<and> si_oid si = other"
    using assms(12-19) by (intro iget_settled_result [OF assms(10,11)]) (simp_all add: s0_def settled_oid_def)
  then obtain s' si where ig: "iget (px_ig env) p False False s0 xs = (Ok ?q, s', xs)" "sbi_inodes s' ?q = Some si" "si_oid si = other" by blast
  obtain h where h: "sbi_inodes (set_rel_path ?q (Some rel) s') = (sbi_inodes s')(?q \<mapsto> si\<lparr>si_rel_path := Some rel, si_path_hashed := h\<rparr>)"
    using set_rel_path_inode [OF ig(2)] by blast
  have pr: "sbi_inodes (snd (snd (placement_record a now i ms c t y s))) = sbi_inodes s" for a now i ms c t y s
    by (simp add: placement_record_def placement_wb_add_def Let_def)
  have "settle_choice rec = rec" using assms(5) by (simp add: settle_choice_def)
  then have "fst (recovery_resolve_oid env oid sbi xs) = Some ?q
      \<and> map_option si_oid (sbi_inodes (fst (snd (recovery_resolve_oid env oid sbi xs))) ?q) = Some other"
    using assms(1-9) ig(1,3) h pr by (simp add: recovery_resolve_oid_def replay_instantiate_one_def Let_def s0_def [symmetric])
  then show ?thesis using assms(18) by (cases "recovery_resolve_oid env oid sbi xs") auto
qed

section \<open>Concrete instances\<close>

definition ex_px_env :: px_env where
  "ex_px_env = \<lparr>px_ig = ex_iget_env, px_alloc = True, px_kread = disk_read, px_kwrite = disk_write, px_now = 0,
     px_kern_path = \<lambda>t s. Ok \<lparr>p_mnt = unat t, p_dentry = 105\<rparr>, px_open_dir = \<lambda>p. Done, px_iterate = \<lambda>p. Ok [], px_child = \<lambda>p n. Ok None,
     px_stop = \<lambda>s. False, px_open_index = Done, px_index = Err ENOENT, px_fsync = Done\<rparr>"

definition ex_rec :: replay_record where
  "ex_rec = (replay_new ex_oid)\<lparr>rr_chosen_rel_path := Some ''f'', rr_chosen_tier := 1\<rparr>"

lemma pix_write_disk: "px_kwrite env = disk_write \<Longrightarrow> pix_write env buf f pos = (Done, file_put f pos buf, pos + int (length buf))"
  by (simp add: pix_write_def disk_write_def)

lemma ex_index_write: "\<exists>f. path_index_write ex_px_env ex_pool [ex_rec] = (Done, f)"
  by (simp add: path_index_write_def pix_write_disk ex_px_env_def ex_rec_def)

lemma ex_rec_valid: "index_rec_valid ex_pool ex_rec" "length (sbi_pool_uuid ex_pool) = 16" "has_path ex_rec" "rr_oid ex_rec = ex_oid"
  by (simp_all add: index_rec_valid_def ex_rec_def replay_new_def ex_oid_def OID_LEN_def PATH_MAX_def ex_pool_def char_of_def)

theorem path_index_roundtrip_witness:
  "\<exists>f recs' r'. path_index_write ex_px_env ex_pool [ex_rec] = (Done, f)
     \<and> path_index_read (ex_px_env\<lparr>px_index := Ok f\<rparr>) ex_pool [] = (Done, recs')
     \<and> replay_find_oid ex_oid recs' = Some r' \<and> rr_chosen_rel_path r' = Some ''f''"
proof -
  obtain f where f: "path_index_write ex_px_env ex_pool [ex_rec] = (Done, f)" using ex_index_write by blast
  have k: "kwrite_ok (px_kwrite ex_px_env)" "kread_full (px_kread (ex_px_env\<lparr>px_index := Ok f\<rparr>))"
      "px_alloc (ex_px_env\<lparr>px_index := Ok f\<rparr>)" "px_index (ex_px_env\<lparr>px_index := Ok f\<rparr>) = Ok f"
    by (simp_all add: ex_px_env_def disk_write_ok disk_read_full)
  have v: "\<forall>r \<in> set [ex_rec]. index_rec_valid ex_pool r" "distinct (map rr_oid [ex_rec])" "length (filter has_path [ex_rec]) \<le> 50000000"
    using ex_rec_valid by simp_all
  from path_index_roundtrip [OF k(1) f v(1,2) ex_rec_valid(2) v(3) k(2-4), of "[]"]
  show ?thesis using f ex_rec_valid(3,4) by (auto simp: replay_find_oid_def ex_rec_def)
qed

theorem path_index_torn_rejected_witness:
  "\<exists>f. path_index_write ex_px_env ex_pool [ex_rec] = (Done, f) \<and> 0 < length f
     \<and> fst (path_index_read (ex_px_env\<lparr>px_index := Ok (take (length f - 1) f)\<rparr>) ex_pool []) \<noteq> Done"
proof -
  obtain f where f: "path_index_write ex_px_env ex_pool [ex_rec] = (Done, f)" using ex_index_write by blast
  let ?e = "ex_px_env\<lparr>px_index := Ok (take (length f - 1) f)\<rparr>"
  have k: "kwrite_ok (px_kwrite ex_px_env)" "kread_full (px_kread ?e)" "px_alloc ?e" "px_index ?e = Ok (take (length f - 1) f)"
    by (simp_all add: ex_px_env_def disk_write_ok disk_read_full)
  have v: "\<forall>r \<in> set [ex_rec]. index_rec_valid ex_pool r" "length (filter has_path [ex_rec]) \<le> 50000000"
    using ex_rec_valid by simp_all
  have "0 < length f" using path_index_write_done [OF k(1) v(1) f] by (simp add: index_file_def)
  then show ?thesis using f path_index_torn_rejected [OF k(1) f v(1) ex_rec_valid(2) v(2) k(2-4), of "[]"] by auto
qed

text \<open>A pool whose log ends in a cutover of the object to tier 1, where the index has it.\<close>

definition ex_crashed :: sb_info where
  "ex_crashed = ex_pool\<lparr>sbi_placement_log := Some (concat (map log_rec_bytes [ex_log_rec])), sbi_oid_map := Map.empty,
     sbi_inodes := Map.empty, sbi_inode_list := []\<rparr>"

definition ex_crash_env :: px_env where
  "ex_crash_env = ex_px_env\<lparr>px_index := Ok (index_file ex_crashed [ex_rec])\<rparr>"

lemma ex_log_valid: "\<forall>l \<in> set [ex_log_rec]. log_rec_valid l" "latest ex_oid [ex_log_rec] = Some ex_log_rec"
  by (simp_all add: log_rec_valid_def ex_log_rec_def ex_oid_def OID_LEN_def latest_def newer_def)

lemma ex_crash_replay:
  obtains s1 rec where "placement_replay ex_crash_env (\<lambda>_. None) (\<lambda>_. True) ex_crashed = (Done, s1, False)"
    "replay_find_oid ex_oid (sbi_recovery_records s1) = Some rec" "rr_chosen_rel_path rec = Some ''f''" "rr_chosen_tier rec = 1"
    "rr_oid rec = ex_oid" "s1 = ex_crashed\<lparr>sbi_recovery_records := sbi_recovery_records s1, sbi_recovery_ready := True\<rparr>"
proof -
  obtain recs where recs: "replay_load_log (\<lambda>_. None) (\<lambda>_. True) (concat (map log_rec_bytes [ex_log_rec])) 0 [] = (Done, recs)"
      "replay_find_oid ex_oid recs = Some (replayed ex_log_rec)"
    by (rule log_loaded [OF ex_log_valid])
  let ?recs = "replay_index.upsert_all (index_ops [ex_rec]) recs"
  have v: "\<forall>r \<in> set [ex_rec]. index_rec_valid ex_crashed r" "length (sbi_pool_uuid ex_crashed) = 16" "distinct (map rr_oid [ex_rec])"
    using ex_rec_valid by (auto simp: index_rec_valid_def ex_crashed_def)
  have k: "kread_full (px_kread ex_crash_env)" "px_alloc ex_crash_env" "px_index ex_crash_env = Ok (index_file ex_crashed [ex_rec])"
    by (simp_all add: ex_crash_env_def ex_px_env_def disk_read_full)
  have rd: "path_index_read ex_crash_env ex_crashed recs = (Done, ?recs)"
    by (rule path_index_read_file [OF k(1,2) v(1,2) _ k(3)]) simp
  have "replay_find_oid ex_oid ?recs = Some (indexed ex_rec (replayed ex_log_rec))"
    using find_indexed [OF v(3), of ex_rec recs] ex_rec_valid(3,4) recs(2) by simp
  moreover have "placement_replay ex_crash_env (\<lambda>_. None) (\<lambda>_. True) ex_crashed = (Done, recovery_populate ?recs ex_crashed, False)"
    using recs(1) rd k(2) by (simp add: placement_replay_def ex_crashed_def)
  ultimately show thesis
    by (intro that [of "recovery_populate ?recs ex_crashed" "indexed ex_rec (replayed ex_log_rec)"])
      (simp_all add: recovery_populate_def ex_crashed_def ex_pool_def indexed_def index_record_def Let_def ex_rec_def replayed_def
        replay_apply_def replay_normalize_def replay_new_def ex_log_rec_def ms_precutover_def ms_roll_forward_def ms_of_byte_def)
qed


end
