(* ===== verification/Export.thy ===== *)
theory Export
  imports Path_Index Namespace Movement_Protocol
begin

text \<open>
  File handles for network exports (\<open>src/src/smoothfs/export.c\<close>): the two wire formats, the
  resolution of a handle through the object id table and the recovery index, and the parent of a
  disconnected dentry. \<open>igrab\<close>, \<open>d_obtain_alias\<close>, \<open>dget_parent\<close> and the root dentry are
  arguments.
\<close>

section \<open>Wire formats\<close>

definition FILEID_SMOOTHFS_OID :: u8 where
  "FILEID_SMOOTHFS_OID = 0x53"

definition FILEID_SMOOTHFS_OID_CONNECTABLE :: u8 where
  "FILEID_SMOOTHFS_OID_CONNECTABLE = 0x54"

definition FILEID_INVALID :: u8 where
  "FILEID_INVALID = 0xff"

definition FH_DWORDS :: int where
  "FH_DWORDS = 24 div 4"

definition FH_CONNECTABLE_DWORDS :: int where
  "FH_CONNECTABLE_DWORDS = 40 div 4"

text \<open>A word as \<open>memcpy\<close> finds it in memory, and back; \<open>be\<close> is the byte order of the machine.\<close>

definition host_u32 :: "bool \<Rightarrow> u32 \<Rightarrow> bytes" where
  "host_u32 be w = (if be then rev (le_bytes 4 w) else le_bytes 4 w)"

definition u32_host :: "bool \<Rightarrow> bytes \<Rightarrow> u32" where
  "u32_host be b = le_word (if be then rev b else b)"

text \<open>
  \<open>*max_len\<close> is an \<open>int\<close> and is compared with a \<open>size_t\<close>: the comparison is unsigned, and a
  negative length is never too small.
\<close>

definition fh_too_small :: "int \<Rightarrow> int \<Rightarrow> bool" where
  "fh_too_small max_len need \<longleftrightarrow> 0 \<le> max_len \<and> max_len < need"

text \<open>The handle type, the length in words, and the buffer; the generation is always zero.\<close>

definition encode_fh ::
  "bool \<Rightarrow> sb_info \<Rightarrow> inode_info \<Rightarrow> inode_info option \<Rightarrow> int \<Rightarrow> bytes \<Rightarrow> u8 \<times> int \<times> bytes" where
  "encode_fh be sbi si parent max_len fh =
    (case parent of
       Some psi \<Rightarrow>
        (if fh_too_small max_len FH_CONNECTABLE_DWORDS then (FILEID_INVALID, FH_CONNECTABLE_DWORDS, fh)
         else let b0 = buf_put 0 (host_u32 be (sbi_fsid sbi)) fh;
                  b1 = buf_put (4 * 1) (si_oid si) b0;
                  b2 = buf_put (4 * 5) (host_u32 be 0) b1;
                  b3 = buf_put (4 * 6) (si_oid psi) b2
           in (FILEID_SMOOTHFS_OID_CONNECTABLE, FH_CONNECTABLE_DWORDS, b3))
     | None \<Rightarrow>
        (if fh_too_small max_len FH_DWORDS then (FILEID_INVALID, FH_DWORDS, fh)
         else let b0 = buf_put 0 (host_u32 be (sbi_fsid sbi)) fh;
                  b1 = buf_put (4 * 1) (si_oid si) b0;
                  b2 = buf_put (4 * 5) (host_u32 be 0) b1
           in (FILEID_SMOOTHFS_OID, FH_DWORDS, b2)))"

section \<open>Resolving a handle\<close>

record exp_env =
  xp_px :: px_env
  xp_be :: bool
  xp_has_root :: bool
  xp_root :: dentry
  xp_grab :: "iref \<Rightarrow> bool"
  xp_obtain :: "iref \<Rightarrow> dentry res"
  xp_dparent :: "dentry \<Rightarrow> dentry"

text \<open>\<open>d_obtain_alias\<close>: an alias of the inode, or a new anonymous dentry with no lower dentry.\<close>

definition obtain_alias :: "exp_env \<Rightarrow> iref \<Rightarrow> sb_info \<Rightarrow> dentry res \<times> sb_info" where
  "obtain_alias env r sbi =
    (case xp_obtain env r of
       Err e \<Rightarrow> (Err e, sbi)
     | Ok d \<Rightarrow> (Ok d, upd_inode r (\<lambda>i. if d \<in> fst ` set (si_aliases i) then i
                                     else i\<lparr>si_aliases := si_aliases i @ [(d, None)]\<rparr>) sbi))"

definition fill_fsdata :: "iref \<Rightarrow> dentry \<Rightarrow> sb_info \<Rightarrow> sb_info" where
  "fill_fsdata r d sbi =
    (case sbi_inodes sbi r of
       None \<Rightarrow> sbi
     | Some si \<Rightarrow>
        (case (alias_lower d si, si_lower_path si) of
           (None, Some p) \<Rightarrow> set_lower_dentry r d (Some (p_dentry p)) sbi
         | _ \<Rightarrow> sbi))"

definition dentry_of :: "exp_env \<Rightarrow> iref \<Rightarrow> sb_info \<Rightarrow> xattrs \<Rightarrow> dentry res \<times> sb_info \<times> xattrs" where
  "dentry_of env r sbi xs =
    (case obtain_alias env r sbi of
       (Err e, s) \<Rightarrow> (Err e, s, xs)
     | (Ok d, s) \<Rightarrow> (Ok d, fill_fsdata r d s, xs))"

abbreviation grabbed :: "exp_env \<Rightarrow> iref option \<Rightarrow> iref option" where
  "grabbed env q \<equiv> Option.bind q (\<lambda>r. if xp_grab env r then Some r else None)"

definition resolve_oid :: "exp_env \<Rightarrow> bytes \<Rightarrow> sb_info \<Rightarrow> xattrs \<Rightarrow> dentry res \<times> sb_info \<times> xattrs" where
  "resolve_oid env oid sbi xs =
    (if oid = zero_oid then (if \<not> xp_has_root env then Err ESTALE else Ok (xp_root env), sbi, xs)
     else case grabbed env (lookup_oid oid sbi) of
         Some r \<Rightarrow> dentry_of env r sbi xs
       | None \<Rightarrow>
          (case recovery_resolve_oid (xp_px env) oid sbi xs of
             (q, s1, xs1) \<Rightarrow>
               (case grabbed env q of None \<Rightarrow> (Err ESTALE, s1, xs1) | Some r \<Rightarrow> dentry_of env r s1 xs1)))"

definition fh_to_dentry :: "exp_env \<Rightarrow> bytes \<Rightarrow> int \<Rightarrow> u8 \<Rightarrow> sb_info \<Rightarrow> xattrs \<Rightarrow> dentry res \<times> sb_info \<times> xattrs" where
  "fh_to_dentry env raw fh_len fh_type sbi xs =
    (if fh_type \<noteq> FILEID_SMOOTHFS_OID \<and> fh_type \<noteq> FILEID_SMOOTHFS_OID_CONNECTABLE then (Err EINVAL, sbi, xs)
     else let required = (if fh_type = FILEID_SMOOTHFS_OID then FH_DWORDS else FH_CONNECTABLE_DWORDS)
       in if fh_len < required then (Err ESTALE, sbi, xs)
          else let fsid = u32_host (xp_be env) (buf_get 0 4 raw); oid = buf_get (4 * 1) OID_LEN raw
            in if fsid \<noteq> sbi_fsid sbi then (Err ESTALE, sbi, xs) else resolve_oid env oid sbi xs)"

definition fh_to_parent :: "exp_env \<Rightarrow> bytes \<Rightarrow> int \<Rightarrow> u8 \<Rightarrow> sb_info \<Rightarrow> xattrs \<Rightarrow> dentry res \<times> sb_info \<times> xattrs" where
  "fh_to_parent env raw fh_len fh_type sbi xs =
    (if fh_type \<noteq> FILEID_SMOOTHFS_OID_CONNECTABLE then (Err EINVAL, sbi, xs)
     else if fh_len < FH_CONNECTABLE_DWORDS then (Err ESTALE, sbi, xs)
     else let fsid = u32_host (xp_be env) (buf_get 0 4 raw); parent_oid = buf_get (4 * 6) OID_LEN raw
       in if fsid \<noteq> sbi_fsid sbi then (Err ESTALE, sbi, xs) else resolve_oid env parent_oid sbi xs)"

text \<open>
  The parent of a dentry \<open>d\<close> of the inode \<open>r\<close>. The root inode has number 1. A dentry with a lower
  dentry belongs to an inode with a lower path.
\<close>

definition get_parent :: "exp_env \<Rightarrow> iref \<Rightarrow> dentry \<Rightarrow> sb_info \<Rightarrow> xattrs \<Rightarrow> dentry res \<times> sb_info \<times> xattrs" where
  "get_parent env r d sbi xs =
    (case Option.bind (sbi_inodes sbi r) (alias_lower d) of
       None \<Rightarrow> (Err ESTALE, sbi, xs)
     | Some lower \<Rightarrow>
        (let lp = xp_dparent env lower
         in if ig_dino (px_ig (xp_px env)) lp = None then (Err ESTALE, sbi, xs)
            else if map_option p_dentry (Option.bind (sbi_inodes sbi 1) si_lower_path) = Some lp then (Ok (xp_root env), sbi, xs)
            else case Option.bind (sbi_inodes sbi r) si_lower_path of
                None \<Rightarrow> (Err ESTALE, sbi, xs)
              | Some p \<Rightarrow>
                 (case iget (px_ig (xp_px env)) \<lparr>p_mnt = p_mnt p, p_dentry = lp\<rparr> False False sbi xs of
                    (Err e, s1, xs1) \<Rightarrow> (Err e, s1, xs1)
                  | (Ok q, s1, xs1) \<Rightarrow> dentry_of env q s1 xs1)))"

section \<open>Encoding and decoding\<close>

lemma u32_host_host [simp]: "u32_host be (host_u32 be w) = w"
  by (simp add: u32_host_def host_u32_def)

lemma length_host_u32 [simp]: "length (host_u32 be w) = 4"
  by (simp add: host_u32_def)

lemmas fh_consts = FILEID_SMOOTHFS_OID_def FILEID_SMOOTHFS_OID_CONNECTABLE_def FILEID_INVALID_def FH_DWORDS_def FH_CONNECTABLE_DWORDS_def

text \<open>What a handle holds: the pool, the object and, when it is connectable, the parent.\<close>

lemma encoded_fields:
  assumes "encode_fh be sbi si parent max_len fh = (ty, len, fh')" "ty \<noteq> FILEID_INVALID" "nat (4 * len) \<le> length fh"
    and "length (si_oid si) = OID_LEN" "\<forall>psi. parent = Some psi \<longrightarrow> length (si_oid psi) = OID_LEN"
  shows "u32_host be (buf_get 0 4 fh') = sbi_fsid sbi \<and> buf_get (4 * 1) OID_LEN fh' = si_oid si
    \<and> (case parent of
         None \<Rightarrow> ty = FILEID_SMOOTHFS_OID \<and> len = FH_DWORDS
       | Some psi \<Rightarrow> ty = FILEID_SMOOTHFS_OID_CONNECTABLE \<and> len = FH_CONNECTABLE_DWORDS \<and> buf_get (4 * 6) OID_LEN fh' = si_oid psi)"
  using assms
  by (cases parent; cases "fh_too_small max_len (if parent = None then FH_DWORDS else FH_CONNECTABLE_DWORDS)")
    (auto simp: encode_fh_def Let_def fh_consts OID_LEN_def buf_get_put_same buf_get_put_other)

text \<open>A cached object: its dentry has a lower dentry afterwards, and the inode is the same.\<close>

lemma map_of_set_lower:
  "d \<in> fst ` set as \<Longrightarrow> Option.bind (map_of (map (\<lambda>(u, l). if u = d then (u, lo) else (u, l)) as) d) (\<lambda>x. x) = lo"
  by (induction as) auto

lemma dentry_of_cached:
  assumes "sbi_inodes sbi r = Some si" "xp_obtain env r = Ok d" "si_lower_path si = Some p"
  shows "\<exists>s' si'. dentry_of env r sbi xs = (Ok d, s', xs) \<and> sbi_inodes s' = (sbi_inodes sbi)(r \<mapsto> si')
    \<and> si' = si\<lparr>si_aliases := si_aliases si'\<rparr>
    \<and> alias_lower d si' = (case alias_lower d si of None \<Rightarrow> Some (p_dentry p) | Some lo \<Rightarrow> Some lo)"
proof -
  let ?add = "\<lambda>i. if d \<in> fst ` set (si_aliases i) then i else i\<lparr>si_aliases := si_aliases i @ [(d, None)]\<rparr>"
  define s where "s = upd_inode r ?add sbi"
  have o: "obtain_alias env r sbi = (Ok d, s)" using assms(2) by (simp add: obtain_alias_def s_def)
  have s: "sbi_inodes s r = Some (?add si)" using assms(1) by (simp add: s_def)
  have al: "alias_lower d (?add si) = alias_lower d si"
    using map_of_eq_None_iff [of "si_aliases si" d] by (auto simp: alias_lower_def map_add_def split: option.splits)
  have nm: "d \<in> fst ` set (si_aliases (?add si))" by simp
  show ?thesis
  proof (cases "alias_lower d si")
    case None
    then have "fill_fsdata r d s = set_lower_dentry r d (Some (p_dentry p)) s" using s al assms(3) by (auto simp: fill_fsdata_def)
    then show ?thesis using None s o nm assms(1,3) map_of_set_lower [OF nm, of "Some (p_dentry p)"]
      by (intro exI [of _ "fill_fsdata r d s"]
            exI [of _ "(?add si)\<lparr>si_aliases := map (\<lambda>(u, l). if u = d then (u, Some (p_dentry p)) else (u, l)) (si_aliases (?add si))\<rparr>"])
        (auto simp: dentry_of_def set_lower_dentry_def alias_lower_def upd_inode_def s_def)
  next
    case (Some lo)
    then have "fill_fsdata r d s = s" using s al by (auto simp: fill_fsdata_def)
    then show ?thesis using Some s o al assms(1,3)
      by (intro exI [of _ s] exI [of _ "?add si"]) (auto simp: dentry_of_def upd_inode_def s_def)
  qed
qed


lemma resolve_oid_cached:
  assumes "sbi_inodes sbi r = Some si" "lookup_oid oid sbi = Some r" "oid \<noteq> zero_oid" "xp_grab env r"
  shows "resolve_oid env oid sbi xs = dentry_of env r sbi xs"
  using assms by (simp add: resolve_oid_def)

text \<open>
  C28. A file handle leads back to the object it was made for. Whatever kind of handle is asked
  for, decoding it gives a dentry of the same inode, and that dentry has a lower dentry; a
  connectable handle also leads to the parent, the pool's root included. Handles of another pool
  and handles cut short are refused and change nothing.
\<close>

theorem fh_roundtrip:
  assumes "encode_fh (xp_be env) sbi si parent max_len fh = (ty, len, fh')" "ty \<noteq> FILEID_INVALID" "nat (4 * len) \<le> length fh"
    and "sbi_inodes sbi r = Some si" "lookup_oid (si_oid si) sbi = Some r" "si_oid si \<noteq> zero_oid" "length (si_oid si) = OID_LEN"
    and "xp_grab env r" "xp_obtain env r = Ok d" "si_lower_path si = Some p"
    and "\<forall>psi. parent = Some psi \<longrightarrow> length (si_oid psi) = OID_LEN"
  shows "(\<exists>s' si' lo. fh_to_dentry env fh' len ty sbi xs = (Ok d, s', xs) \<and> sbi_inodes s' = (sbi_inodes sbi)(r \<mapsto> si')
      \<and> si_oid si' = si_oid si \<and> si_lower_path si' = si_lower_path si \<and> alias_lower d si' = Some lo)
    \<and> (\<forall>psi. parent = Some psi \<longrightarrow> fh_to_parent env fh' len ty sbi xs = resolve_oid env (si_oid psi) sbi xs)
    \<and> (\<forall>n < len. fh_to_dentry env fh' n ty sbi xs = (Err ESTALE, sbi, xs))
    \<and> (\<forall>other. sbi_fsid other \<noteq> sbi_fsid sbi \<longrightarrow> fh_to_dentry env fh' len ty other xs = (Err ESTALE, other, xs))"
proof -
  note enc = encoded_fields [OF assms(1-3,7,11)]
  have ty: "ty = FILEID_SMOOTHFS_OID \<and> len = FH_DWORDS \<or> ty = FILEID_SMOOTHFS_OID_CONNECTABLE \<and> len = FH_CONNECTABLE_DWORDS"
    using enc by (cases parent) auto
  have step: "fh_to_dentry env fh' len ty s xs = (if sbi_fsid sbi \<noteq> sbi_fsid s then (Err ESTALE, s, xs) else resolve_oid env (si_oid si) s xs)" for s
    using ty enc by (auto simp: fh_to_dentry_def fh_consts Let_def)
  obtain s' si' where d: "dentry_of env r sbi xs = (Ok d, s', xs)" "sbi_inodes s' = (sbi_inodes sbi)(r \<mapsto> si')"
      "si' = si\<lparr>si_aliases := si_aliases si'\<rparr>" "alias_lower d si' = (case alias_lower d si of None \<Rightarrow> Some (p_dentry p) | Some lo \<Rightarrow> Some lo)"
    using dentry_of_cached [OF assms(4,9,10)] by blast
  have "si_oid si' = si_oid si" "si_lower_path si' = si_lower_path si" by (subst d(3), simp)+
  then have "\<exists>s' si' lo. fh_to_dentry env fh' len ty sbi xs = (Ok d, s', xs) \<and> sbi_inodes s' = (sbi_inodes sbi)(r \<mapsto> si')
      \<and> si_oid si' = si_oid si \<and> si_lower_path si' = si_lower_path si \<and> alias_lower d si' = Some lo"
    using step [of sbi] resolve_oid_cached [OF assms(4,5,6,8)] d(1,2,4) by (auto split: option.splits)
  moreover have "fh_to_parent env fh' len ty sbi xs = resolve_oid env (si_oid psi) sbi xs" if "parent = Some psi" for psi
    using that enc by (simp add: fh_to_parent_def Let_def)
  moreover have "fh_to_dentry env fh' n ty sbi xs = (Err ESTALE, sbi, xs)" if "n < len" for n
    using that ty by (auto simp: fh_to_dentry_def fh_consts Let_def)
  ultimately show ?thesis using step by simp
qed

section \<open>Handles and moves\<close>

text \<open>What the resolution of a handle reads of the pool, apart from the inodes.\<close>

definition same_index :: "sb_info \<Rightarrow> sb_info \<Rightarrow> bool" where
  "same_index s s' \<longleftrightarrow> sbi_fsid s' = sbi_fsid s \<and> sbi_oid_map s' = sbi_oid_map s \<and> sbi_oid_map_ready s' = sbi_oid_map_ready s"

lemma same_index_refl [simp]: "same_index s s"
  by (simp add: same_index_def)

lemma same_index_trans: "same_index s s1 \<Longrightarrow> same_index s1 s2 \<Longrightarrow> same_index s s2"
  by (simp add: same_index_def)

lemma same_index_upd_inode [simp]: "same_index s (upd_inode r f s') = same_index s s'"
  by (simp add: same_index_def upd_inode_def)

lemma same_index_log_move [simp]: "same_index s (snd (log_move env oid m c i b s')) = same_index s s'"
  by (simp add: same_index_def log_move_def placement_record_def placement_wb_add_def Let_def)

lemma same_index_set_rel_path [simp]: "same_index s (set_rel_path r p s') = same_index s s'"
  by (simp add: same_index_def set_rel_path_def path_map_add_def path_map_del_def upd_inode_def rht_insert_def Let_def split: option.splits)

lemma same_index_lower_map [simp]:
  "same_index s (lower_ino_map_remove t i s') = same_index s s'"
  "same_index s (snd (lower_ino_map_insert al t i n s')) = same_index s s'"
  by (simp_all add: same_index_def lower_ino_map_remove_def lower_ino_map_insert_def rht_insert_def Let_def split: option.splits)


lemma cutover_begin_index:
  assumes "\<And>s. mv_resolve env oid s = (Some r, s)" "cutover_begin env oid seq s = (x, s0, fx)"
  shows "same_index s s0"
  using assms by (auto simp: cutover_begin_def Let_def split: option.splits if_splits prod.splits)

lemma cutover_swap_index [simp]: "same_index s (cutover_swap env r si src dest rel s') = same_index s s'"
  by (simp add: cutover_swap_def Let_def split: option.split)

lemma cutover_finish_index: "cutover_finish env oid seq expected check r s = (x, s', fx) \<Longrightarrow> same_index s s'"
  by (auto simp: cutover_finish_def cutover_fail_def cutover_back_off_def Let_def split: option.splits if_splits prod.splits sum.splits)

lemma cutover_index:
  assumes "undisturbed env oid r" "\<And>s. same_index s (mv_others env s)" "movement_cutover env oid seq expected check s = (x, s', fx)"
  shows "same_index s s'"
proof -
  obtain b s0 fx0 where b: "cutover_begin env oid seq s = (b, s0, fx0)" by (metis prod_cases3)
  have i0: "same_index s s0" using cutover_begin_index b assms(1) unfolding undisturbed_def by blast
  have i1: "same_index s (mv_others env s0)" using same_index_trans i0 assms(2) by blast
  show ?thesis
  proof (cases b)
    case (Inl e)
    then show ?thesis using b i0 assms(3) by (auto simp: movement_cutover_def)
  next
    case (Inr q)
    have fin: "same_index s (fst (snd (cutover_finish env oid seq expected check q (mv_others env s0))))"
      using same_index_trans [OF i1] cutover_finish_index by (metis prod.collapse)
    then show ?thesis using b i1 assms(3) Inr
      by (auto simp: movement_cutover_def cutover_back_off_def Let_def case_prod_beta split: option.splits if_splits sum.splits)
  qed
qed

text \<open>
  A handle outlives a move. A handle that was given out before the cutover of its object
  leads, after it, to the same object, which is on the planned tier then, and the dentry it
  resolves to is served by the new lower file.
\<close>

theorem handle_survives_cutover:
  assumes "encode_fh (xp_be env) s si parent max_len fh = (ty, len, fh')" "ty \<noteq> FILEID_INVALID" "nat (4 * len) \<le> length fh"
    and "\<forall>psi. parent = Some psi \<longrightarrow> length (si_oid psi) = OID_LEN" "length (si_oid si) = OID_LEN" "si_oid si \<noteq> zero_oid"
    and "sbi_inodes s r = Some si" "lookup_oid (si_oid si) s = Some r"
    and "undisturbed mv (si_oid si) r" "\<And>s. same_index s (mv_others mv s)"
    and "movement_cutover mv (si_oid si) seq expected check s = (Done, s1, fx)"
    and "xp_grab env r" "xp_obtain env r = Ok d"
  shows "\<exists>s2 si' dest. fh_to_dentry env fh' len ty s1 xs = (Ok d, s2, xs) \<and> sbi_inodes s2 r = Some si' \<and> si_oid si' = si_oid si
    \<and> si_current_tier si' = si_intended_tier si \<and> si_lower_path si' = Some dest \<and> alias_lower d si' = Some (p_dentry dest)"
proof -
  obtain dest si1 where sw: "sbi_inodes s1 r = Some si1" "switched mv (si\<lparr>si_movement_state := MS_CUTOVER_IN_PROGRESS\<rparr>) dest si1"
    using cutover_done_inode [OF assms(9,7,11)] by blast
  have si1: "si_oid si1 = si_oid si" "si_lower_path si1 = Some dest" "si_current_tier si1 = si_intended_tier si"
    using sw(2) by (simp_all add: switched_def)
  have ix: "same_index s s1" by (rule cutover_index [OF assms(9,10,11)])
  note enc = encoded_fields [OF assms(1-3,5,4)]
  have "ty = FILEID_SMOOTHFS_OID \<and> len = FH_DWORDS \<or> ty = FILEID_SMOOTHFS_OID_CONNECTABLE \<and> len = FH_CONNECTABLE_DWORDS"
    using enc by (cases parent) auto
  then have "fh_to_dentry env fh' len ty s1 xs = resolve_oid env (si_oid si) s1 xs"
    using enc ix by (auto simp: fh_to_dentry_def fh_consts Let_def same_index_def)
  also have "\<dots> = dentry_of env r s1 xs"
    using ix assms(6,8,12) by (intro resolve_oid_cached [OF sw(1)]) (auto simp: same_index_def lookup_oid_def split: if_splits)
  finally have fh: "fh_to_dentry env fh' len ty s1 xs = dentry_of env r s1 xs" .
  obtain s2 si2 where d: "dentry_of env r s1 xs = (Ok d, s2, xs)" "sbi_inodes s2 = (sbi_inodes s1)(r \<mapsto> si2)" "si2 = si1\<lparr>si_aliases := si_aliases si2\<rparr>"
      "alias_lower d si2 = (case alias_lower d si1 of None \<Rightarrow> Some (p_dentry dest) | Some lo \<Rightarrow> Some lo)"
    using dentry_of_cached [OF sw(1) assms(13) si1(2)] by blast
  have "lo = p_dentry dest" if "alias_lower d si1 = Some lo" for lo
    using that sw(2) map_of_SomeD [of "si_aliases si1" d] by (auto simp: alias_lower_def switched_def bind_eq_Some_conv)
  then have "alias_lower d si2 = Some (p_dentry dest)" using d(4) by (auto split: option.splits)
  moreover have "si_oid si2 = si_oid si" "si_current_tier si2 = si_intended_tier si" "si_lower_path si2 = Some dest"
    using si1 by (subst d(3), simp)+
  ultimately show ?thesis using fh d(1,2) by auto
qed


section \<open>The parent of a file on another tier\<close>

text \<open>
  The parent is compared with the lower directory of the pool's root on one tier only. The parent
  of a file in the root directory of another tier is an inode of its own, not the pool's root.
\<close>

lemma inode_no_not_root: "inode_no_from_oid h oid \<noteq> 1"
proof
  assume "inode_no_from_oid h oid = 1"
  then have "bit (inode_no_from_oid h oid) 63 = bit (1 :: u64) 63" by simp
  then show False by (simp add: inode_no_from_oid_def bit_or_iff bit_push_bit_iff)
qed

lemma get_parent_misses_pool_root:
  assumes "Option.bind (sbi_inodes sbi r) (alias_lower d) = Some lower" "Option.bind (sbi_inodes sbi r) si_lower_path = Some p"
    and "p_mnt p = p_mnt (t_lower_path (tier_at sbi t))" "xp_dparent env lower = p_dentry (t_lower_path (tier_at sbi t))"
    and "map_option p_dentry (Option.bind (sbi_inodes sbi 1) si_lower_path) \<noteq> Some (p_dentry (t_lower_path (tier_at sbi t)))"
    and "iget_healthy (px_ig (xp_px env))" "ig_dino (px_ig (xp_px env)) (p_dentry (t_lower_path (tier_at sbi t))) = Some n"
    and "tier_of sbi (p_mnt p) < MAX_TIERS" "sbi_oid_wb_ready sbi" "sbi_lower_ino_map_ready sbi" "sbi_lower_ino_map sbi = Map.empty"
    and "xs n = Some oid" "length oid = OID_LEN" "sbi_inodes sbi (inode_no_from_oid (ig_xxh64 (px_ig (xp_px env))) oid) = None"
    and "\<And>q. xp_obtain env q = Ok (q' q)"
  shows "\<exists>q. q \<noteq> 1 \<and> fst (get_parent env r d sbi xs) = Ok (q' q)"
proof -
  let ?lp = "t_lower_path (tier_at sbi t)" and ?q = "inode_no_from_oid (ig_xxh64 (px_ig (xp_px env))) oid"
  have eq: "\<lparr>p_mnt = p_mnt p, p_dentry = p_dentry ?lp\<rparr> = ?lp" using assms(3) by simp
  obtain s1 where ig: "iget (px_ig (xp_px env)) ?lp False False sbi xs = (Ok ?q, s1, xs)"
    using iget_settled_result [OF assms(6), of ?lp n sbi xs oid] assms(3,7-14) by (auto simp: settled_oid_def)
  have "get_parent env r d sbi xs = dentry_of env ?q s1 xs"
    using assms(1,2,4,5,7) ig by (auto simp: get_parent_def Let_def eq)
  moreover have "fst (dentry_of env ?q s1 xs) = Ok (q' ?q)" using assms(15) by (simp add: dentry_of_def obtain_alias_def)
  ultimately show ?thesis using inode_no_not_root by (intro exI [of _ ?q]) simp
qed

section \<open>Concrete instances\<close>

definition ex_exp_env :: exp_env where
  "ex_exp_env = \<lparr>xp_px = ex_px_env, xp_be = False, xp_has_root = True, xp_root = 1, xp_grab = \<lambda>_. True,
     xp_obtain = \<lambda>_. Ok 5, xp_dparent = \<lambda>d. 100\<rparr>"

definition ex_fh :: bytes where
  "ex_fh = snd (snd (encode_fh False ex_pool ex_inode None 6 (replicate 24 0)))"

lemma ex_encode: "encode_fh (xp_be ex_exp_env) ex_pool ex_inode None 6 (replicate 24 0) = (FILEID_SMOOTHFS_OID, FH_DWORDS, ex_fh)"
  by (simp add: encode_fh_def ex_fh_def ex_exp_env_def fh_too_small_def fh_consts Let_def)

lemma ex_fh_facts:
  "FILEID_SMOOTHFS_OID \<noteq> FILEID_INVALID" "nat (4 * FH_DWORDS) \<le> length (replicate 24 (0 :: u8))" "sbi_inodes ex_pool 77 = Some ex_inode"
  "lookup_oid (si_oid ex_inode) ex_pool = Some 77" "si_oid ex_inode \<noteq> zero_oid" "length (si_oid ex_inode) = OID_LEN"
  "xp_grab ex_exp_env 77" "xp_obtain ex_exp_env 77 = Ok 5" "si_lower_path ex_inode = Some \<lparr>p_mnt = 1, p_dentry = 105\<rparr>"
  by (simp_all add: fh_consts ex_defs ex_oid_def lookup_oid_def zero_oid_def OID_LEN_def ex_exp_env_def)

theorem fh_roundtrip_witness:
  "\<exists>s' si'. fh_to_dentry ex_exp_env ex_fh FH_DWORDS FILEID_SMOOTHFS_OID ex_pool Map.empty = (Ok 5, s', Map.empty)
     \<and> sbi_inodes s' = (sbi_inodes ex_pool)(77 \<mapsto> si') \<and> si_oid si' = ex_oid"
  using fh_roundtrip [OF ex_encode ex_fh_facts, of Map.empty] by (auto simp: ex_inode_def)

theorem handle_survives_cutover_witness:
  "\<exists>s1 s2 si'. fst (movement_cutover ex_env77 ex_oid 9 0 True ex_moving) = Done
     \<and> fh_to_dentry ex_exp_env ex_fh FH_DWORDS FILEID_SMOOTHFS_OID s1 Map.empty = (Ok 5, s2, Map.empty)
     \<and> sbi_inodes s2 77 = Some si' \<and> si_current_tier si' = 0"
proof -
  let ?si = "ex_inode\<lparr>si_intended_tier := 0, si_movement_state := MS_COPY_VERIFIED, si_transaction_seq := 9\<rparr>"
  have oid: "si_oid ?si = ex_oid" by (simp add: ex_inode_def)
  have enc: "encode_fh (xp_be ex_exp_env) ex_moving ?si None 6 (replicate 24 0) = (FILEID_SMOOTHFS_OID, FH_DWORDS, ex_fh)"
    by (simp add: encode_fh_def ex_fh_def ex_exp_env_def fh_too_small_def fh_consts Let_def ex_moving_def upd_inode_def)
  have m: "sbi_inodes ex_moving 77 = Some ?si" "lookup_oid (si_oid ?si) ex_moving = Some 77"
    by (simp_all add: ex_moving_def ex_pool_def lookup_oid_def ex_inode_def upd_inode_def)
  have cut: "fst (movement_cutover ex_env77 ex_oid 9 0 True ex_moving) = Done"
    by (simp add: movement_cutover_def cutover_begin_def drain_writers_def cutover_finish_def ex_env77_def ex_move_defs
        current_rel_path_def resolve_cutover_dest_def cutover_parent_def split_last_slash_def persist_identity_def write_identity_def Let_def)
  then obtain s1 fx where c: "movement_cutover ex_env77 (si_oid ?si) 9 0 True ex_moving = (Done, s1, fx)"
    unfolding oid by (metis prod.collapse)
  have ix: "same_index s (mv_others ex_env77 s)" for s by (simp add: ex_env77_def ex_move_env_def)
  have "undisturbed ex_env77 (si_oid ?si) 77" using ex_undisturbed oid by simp
  from handle_survives_cutover [OF enc ex_fh_facts(1,2) _ _ _ m this ix c ex_fh_facts(7,8), of Map.empty] ex_fh_facts(5,6)
  show ?thesis using cut by (auto simp: ex_inode_def)
qed

end
