(* ===== verification/Control.thy ===== *)
theory Control
  imports Movement_Protocol Heat Path_Index
begin

text \<open>
  The control channel (\<open>src/src/smoothfs/netlink.c\<close>, \<open>uapi_smoothfs.h\<close>): the registry of mounted
  pools, the generic-netlink commands with their permissions and attribute policy, and the events
  the module sends. A message is a list of attributes, each a number and a payload. The message
  buffers, the rendering of paths and the multicast itself are arguments.
\<close>

section \<open>Commands, events and attributes\<close>

definition CMD_REGISTER_POOL :: u8 where "CMD_REGISTER_POOL = 1"
definition CMD_POLICY_PUSH :: u8 where "CMD_POLICY_PUSH = 2"
definition CMD_MOVE_PLAN :: u8 where "CMD_MOVE_PLAN = 3"
definition CMD_TIER_DOWN :: u8 where "CMD_TIER_DOWN = 4"
definition CMD_RECONCILE :: u8 where "CMD_RECONCILE = 5"
definition CMD_QUIESCE :: u8 where "CMD_QUIESCE = 6"
definition CMD_INSPECT :: u8 where "CMD_INSPECT = 7"
definition CMD_REPROBE :: u8 where "CMD_REPROBE = 8"
definition EVENT_MOUNT_READY :: u8 where "EVENT_MOUNT_READY = 9"
definition EVENT_HEAT_SAMPLE :: u8 where "EVENT_HEAT_SAMPLE = 10"
definition EVENT_MOVE_STATE :: u8 where "EVENT_MOVE_STATE = 11"
definition EVENT_TIER_FAULT :: u8 where "EVENT_TIER_FAULT = 12"
definition CMD_MOVE_CUTOVER :: u8 where "CMD_MOVE_CUTOVER = 13"
definition CMD_REVOKE_MAPPINGS :: u8 where "CMD_REVOKE_MAPPINGS = 14"
definition EVENT_SPILL :: u8 where "EVENT_SPILL = 15"
definition CMD_MOVE_COMPLETE :: u8 where "CMD_MOVE_COMPLETE = 16"
definition CMD_MOVE_ROLLBACK :: u8 where "CMD_MOVE_ROLLBACK = 17"

definition ATTR_POOL_UUID :: nat where "ATTR_POOL_UUID = 1"
definition ATTR_POOL_NAME :: nat where "ATTR_POOL_NAME = 2"
definition ATTR_FSID :: nat where "ATTR_FSID = 3"
definition ATTR_TIER_RANK :: nat where "ATTR_TIER_RANK = 4"
definition ATTR_TIER_CAPS :: nat where "ATTR_TIER_CAPS = 5"
definition ATTR_TIER_PATH :: nat where "ATTR_TIER_PATH = 6"
definition ATTR_TIER_ID :: nat where "ATTR_TIER_ID = 7"
definition ATTR_OBJECT_ID :: nat where "ATTR_OBJECT_ID = 8"
definition ATTR_GENERATION :: nat where "ATTR_GENERATION = 9"
definition ATTR_MOVEMENT_STATE :: nat where "ATTR_MOVEMENT_STATE = 10"
definition ATTR_CURRENT_TIER :: nat where "ATTR_CURRENT_TIER = 11"
definition ATTR_INTENDED_TIER :: nat where "ATTR_INTENDED_TIER = 12"
definition ATTR_TRANSACTION_SEQ :: nat where "ATTR_TRANSACTION_SEQ = 13"
definition ATTR_PIN_STATE :: nat where "ATTR_PIN_STATE = 14"
definition ATTR_HEAT_SAMPLE_BLOB :: nat where "ATTR_HEAT_SAMPLE_BLOB = 15"
definition ATTR_CHECKPOINT_SEQ :: nat where "ATTR_CHECKPOINT_SEQ = 16"
definition ATTR_RECONCILE_REASON :: nat where "ATTR_RECONCILE_REASON = 17"
definition ATTR_TIERS :: nat where "ATTR_TIERS = 18"
definition ATTR_REL_PATH :: nat where "ATTR_REL_PATH = 19"
definition ATTR_FORCE :: nat where "ATTR_FORCE = 20"
definition ATTR_SIZE_BYTES :: nat where "ATTR_SIZE_BYTES = 21"
definition ATTR_ANY_SPILL_SINCE_MOUNT :: nat where "ATTR_ANY_SPILL_SINCE_MOUNT = 22"
definition ATTR_WRITE_SEQ :: nat where "ATTR_WRITE_SEQ = 23"
definition ATTR_RANGE_STAGED :: nat where "ATTR_RANGE_STAGED = 24"

lemmas cmd_defs = CMD_REGISTER_POOL_def CMD_POLICY_PUSH_def CMD_MOVE_PLAN_def CMD_TIER_DOWN_def CMD_RECONCILE_def CMD_QUIESCE_def
  CMD_INSPECT_def CMD_REPROBE_def EVENT_MOUNT_READY_def EVENT_HEAT_SAMPLE_def EVENT_MOVE_STATE_def EVENT_TIER_FAULT_def
  CMD_MOVE_CUTOVER_def CMD_REVOKE_MAPPINGS_def EVENT_SPILL_def CMD_MOVE_COMPLETE_def CMD_MOVE_ROLLBACK_def

lemmas attr_defs = ATTR_TIER_ID_def ATTR_CHECKPOINT_SEQ_def ATTR_RECONCILE_REASON_def ATTR_POOL_UUID_def ATTR_POOL_NAME_def ATTR_FSID_def ATTR_TIER_RANK_def ATTR_TIER_CAPS_def ATTR_TIER_PATH_def
  ATTR_OBJECT_ID_def ATTR_GENERATION_def ATTR_MOVEMENT_STATE_def ATTR_CURRENT_TIER_def ATTR_INTENDED_TIER_def ATTR_TRANSACTION_SEQ_def
  ATTR_PIN_STATE_def ATTR_HEAT_SAMPLE_BLOB_def ATTR_TIERS_def ATTR_REL_PATH_def ATTR_FORCE_def ATTR_SIZE_BYTES_def
  ATTR_ANY_SPILL_SINCE_MOUNT_def ATTR_WRITE_SEQ_def ATTR_RANGE_STAGED_def

type_synonym nla = "nat \<times> bytes"

record genl_msg =
  gm_cmd :: u8
  gm_attrs :: "nla list"

section \<open>The registry of pools\<close>

text \<open>
  The registered pools in list order, the pool behind each of them, and the state of its
  heat work.
\<close>

record nl_world =
  nw_list :: "nat list"
  nw_sb :: "nat \<Rightarrow> sb_info"
  nw_heat :: "nat \<Rightarrow> heat_work"

definition sb_register :: "bool \<Rightarrow> nat \<Rightarrow> nl_world \<Rightarrow> unit res \<times> nl_world" where
  "sb_register alloc b w = (if \<not> alloc then (Err ENOMEM, w) else (Done, w\<lparr>nw_list := b # nw_list w\<rparr>))"

definition sb_unregister :: "nat \<Rightarrow> nl_world \<Rightarrow> nl_world" where
  "sb_unregister b w = w\<lparr>nw_list := remove1 b (nw_list w)\<rparr>"

definition sb_find :: "bytes \<Rightarrow> nl_world \<Rightarrow> nat option" where
  "sb_find uuid w = find (\<lambda>b. sbi_pool_uuid (nw_sb w b) = uuid) (nw_list w)"

section \<open>Messages\<close>

text \<open>
  \<open>nl_room\<close> is the room for attributes in a message of the default size, \<open>nl_marshal\<close> lays out the
  attributes of a nest, \<open>nl_dpath\<close> renders a path.
\<close>

record nl_env =
  nl_be :: bool
  nl_alloc :: bool
  nl_hdr :: bool
  nl_room :: nat
  nl_marshal :: "nla list \<Rightarrow> bytes"
  nl_dpath :: "path \<Rightarrow> string option"
  nl_send :: "unit res"
  nl_reply :: "unit res"

definition host_bytes :: "bool \<Rightarrow> nat \<Rightarrow> 'a::len word \<Rightarrow> bytes" where
  "host_bytes be n w = (if be then rev (le_bytes n w) else le_bytes n w)"

text \<open>The length of an attribute in the message: a header of four bytes, padded to four.\<close>

definition nla_total_size :: "bytes \<Rightarrow> nat" where
  "nla_total_size b = 4 * ((4 + length b + 3) div 4)"

text \<open>The attributes put one after the other; the first that does not fit cancels the message.\<close>

definition put_attrs :: "nat \<Rightarrow> nla list \<Rightarrow> nla list option" where
  "put_attrs room as = (if sum_list (map (nla_total_size \<circ> snd) as) \<le> room then Some as else None)"

abbreviation ESRCH :: errno where
  "ESRCH \<equiv> EOTHER 3"

definition multicast_send :: "nl_env \<Rightarrow> unit res" where
  "multicast_send env = (case nl_send env of Err e \<Rightarrow> (if e = ESRCH then Done else Err e) | Ok _ \<Rightarrow> Done)"

text \<open>The frame of every event: allocate, fill, send; the second component is the message that was sent.\<close>

definition send_event :: "nl_env \<Rightarrow> nat \<Rightarrow> u8 \<Rightarrow> nla list option \<Rightarrow> unit res \<times> genl_msg option" where
  "send_event env room cmd attrs =
    (if \<not> nl_alloc env then (Err ENOMEM, None)
     else if \<not> nl_hdr env then (Err EMSGSIZE, None)
     else case Option.bind attrs (put_attrs room) of
         None \<Rightarrow> (Err EMSGSIZE, None)
       | Some as \<Rightarrow> (multicast_send env, Some \<lparr>gm_cmd = cmd, gm_attrs = as\<rparr>))"

definition NLA_F_NESTED :: nat where
  "NLA_F_NESTED = 0x8000"

definition pool_attrs :: "nl_env \<Rightarrow> sb_info \<Rightarrow> nla list" where
  "pool_attrs env sbi =
    [(ATTR_POOL_UUID, sbi_pool_uuid sbi), (ATTR_POOL_NAME, cstr_bytes (sbi_pool_name sbi)),
     (ATTR_FSID, host_bytes (nl_be env) 4 (sbi_fsid sbi)),
     (ATTR_ANY_SPILL_SINCE_MOUNT, [if sp_any_since_mount (sbi_spill sbi) then 1 else 0])]"

definition tier_attrs :: "nl_env \<Rightarrow> tier \<Rightarrow> nla list option" where
  "tier_attrs env t =
    map_option (\<lambda>p. [(ATTR_TIER_RANK, [t_rank t]), (ATTR_TIER_CAPS, host_bytes (nl_be env) 4 (t_caps t)), (ATTR_TIER_PATH, cstr_bytes p)])
      (nl_dpath env (t_lower_path t))"

text \<open>The nest of the tiers: one nested attribute per tier, numbered from one.\<close>

fun tier_nest :: "nl_env \<Rightarrow> nat \<Rightarrow> tier list \<Rightarrow> nla list option" where
  "tier_nest env i [] = Some []"
| "tier_nest env i (t # ts) =
    (case tier_attrs env t of
       None \<Rightarrow> None
     | Some as \<Rightarrow> map_option (\<lambda>r. (i + 1 + NLA_F_NESTED, nl_marshal env as) # r) (tier_nest env (i + 1) ts))"

definition emit_pool_event :: "nl_env \<Rightarrow> sb_info \<Rightarrow> u8 \<Rightarrow> u8 \<Rightarrow> bool \<Rightarrow> unit res \<times> genl_msg option" where
  "emit_pool_event env sbi cmd fault_tier include_fault_tier =
    (let fault = (if include_fault_tier then [(ATTR_TIER_RANK, [fault_tier])] else []);
         attrs = (if cmd = EVENT_MOUNT_READY
                  then map_option (\<lambda>ns. pool_attrs env sbi @ [(ATTR_TIERS + NLA_F_NESTED, nl_marshal env ns)] @ fault)
                         (tier_nest env 0 (take (ntiers sbi) (sbi_tiers sbi)))
                  else Some (pool_attrs env sbi @ fault))
     in send_event env (nl_room env) cmd attrs)"

definition emit_mount_ready :: "nl_env \<Rightarrow> sb_info \<Rightarrow> unit res \<times> genl_msg option" where
  "emit_mount_ready env sbi = emit_pool_event env sbi EVENT_MOUNT_READY 0 False"

definition emit_tier_fault :: "nl_env \<Rightarrow> sb_info \<Rightarrow> u8 \<Rightarrow> unit res \<times> genl_msg option" where
  "emit_tier_fault env sbi t = emit_pool_event env sbi EVENT_TIER_FAULT t True"

definition emit_move_state :: "nl_env \<Rightarrow> sb_info \<Rightarrow> bytes \<Rightarrow> movement_state \<Rightarrow> u64 \<Rightarrow> unit res \<times> genl_msg option" where
  "emit_move_state env sbi oid st seq =
     send_event env (nl_room env) EVENT_MOVE_STATE
       (Some [(ATTR_POOL_UUID, sbi_pool_uuid sbi), (ATTR_OBJECT_ID, oid), (ATTR_MOVEMENT_STATE, [ms_byte st]),
              (ATTR_TRANSACTION_SEQ, host_bytes (nl_be env) 8 seq)])"

text \<open>A heat sample as it lies in memory: 56 bytes, the fields in the byte order of the machine.\<close>

definition heat_record_bytes :: "bool \<Rightarrow> heat_sample \<Rightarrow> bytes" where
  "heat_record_bytes be h =
     hs_oid h @ host_bytes be 4 (hs_open_count_delta h) @ host_bytes be 4 (hs_reserved h) @ host_bytes be 8 (hs_read_bytes_delta h)
     @ host_bytes be 8 (hs_write_bytes_delta h) @ host_bytes be 8 (hs_last_access_ns h) @ host_bytes be 8 (hs_sample_window_ns h)"

definition emit_heat_samples :: "nl_env \<Rightarrow> sb_info \<Rightarrow> bytes \<Rightarrow> unit res \<times> genl_msg option" where
  "emit_heat_samples env sbi blob =
    (if blob = [] then (Done, None)
     else send_event env (min (nl_room env + length blob) (64 * 1024)) EVENT_HEAT_SAMPLE
            (Some [(ATTR_POOL_UUID, sbi_pool_uuid sbi), (ATTR_HEAT_SAMPLE_BLOB, blob)]))"

definition emit_spill :: "nl_env \<Rightarrow> sb_info \<Rightarrow> bytes \<Rightarrow> u8 \<Rightarrow> u8 \<Rightarrow> u64 \<Rightarrow> unit res \<times> genl_msg option" where
  "emit_spill env sbi oid source dest sz =
     send_event env (nl_room env) EVENT_SPILL
       (Some [(ATTR_POOL_UUID, sbi_pool_uuid sbi), (ATTR_ANY_SPILL_SINCE_MOUNT, [1]), (ATTR_OBJECT_ID, oid),
              (ATTR_CURRENT_TIER, [source]), (ATTR_INTENDED_TIER, [dest]), (ATTR_SIZE_BYTES, host_bytes (nl_be env) 8 sz)])"

section \<open>Inbound commands\<close>

text \<open>
  The request of a caller: its payloads, and for each what lies behind it in the message buffer.
  \<open>nla_data\<close> is only a pointer, so reading \<open>n\<close> bytes from it may run into what follows.
\<close>

record genl_info =
  gi_admin :: bool
  gi_cmd :: u8
  gi_attrs :: "nat \<rightharpoonup> bytes"
  gi_behind :: "nat \<Rightarrow> bytes"

definition nla_read :: "genl_info \<Rightarrow> nat \<Rightarrow> nat \<Rightarrow> bytes option" where
  "nla_read info a n = map_option (\<lambda>b. take n (b @ gi_behind info a)) (gi_attrs info a)"

definition nla_get_u8 :: "genl_info \<Rightarrow> nat \<Rightarrow> u8 option" where
  "nla_get_u8 info a = map_option hd (nla_read info a 1)"

definition nla_get_u64 :: "bool \<Rightarrow> genl_info \<Rightarrow> nat \<Rightarrow> u64 option" where
  "nla_get_u64 be info a = map_option (\<lambda>b. le_word (if be then rev b else b)) (nla_read info a 8)"

text \<open>
  The policy of the family, and the strict validation the netlink core makes by it: a number has
  exactly its width, a binary value and a string have a largest length, a string ends within it.
  A limit of zero is none.
\<close>

datatype nla_policy = NLA_BINARY nat | NLA_NUL_STRING nat | NLA_U8 | NLA_U32 | NLA_U64 | NLA_NESTED

definition genl_policy :: "nat \<rightharpoonup> nla_policy" where
  "genl_policy =
    [ATTR_POOL_UUID \<mapsto> NLA_BINARY 16, ATTR_POOL_NAME \<mapsto> NLA_NUL_STRING 63, ATTR_FSID \<mapsto> NLA_U32, ATTR_TIER_RANK \<mapsto> NLA_U8,
     ATTR_TIER_CAPS \<mapsto> NLA_U32, ATTR_TIER_PATH \<mapsto> NLA_NUL_STRING 4095, ATTR_TIER_ID \<mapsto> NLA_NUL_STRING 64,
     ATTR_OBJECT_ID \<mapsto> NLA_BINARY OID_LEN, ATTR_GENERATION \<mapsto> NLA_U32, ATTR_MOVEMENT_STATE \<mapsto> NLA_U8, ATTR_CURRENT_TIER \<mapsto> NLA_U8,
     ATTR_INTENDED_TIER \<mapsto> NLA_U8, ATTR_TRANSACTION_SEQ \<mapsto> NLA_U64, ATTR_PIN_STATE \<mapsto> NLA_U8, ATTR_HEAT_SAMPLE_BLOB \<mapsto> NLA_BINARY 0,
     ATTR_CHECKPOINT_SEQ \<mapsto> NLA_U64, ATTR_RECONCILE_REASON \<mapsto> NLA_NUL_STRING 255, ATTR_TIERS \<mapsto> NLA_NESTED,
     ATTR_REL_PATH \<mapsto> NLA_NUL_STRING 4095, ATTR_FORCE \<mapsto> NLA_U8, ATTR_SIZE_BYTES \<mapsto> NLA_U64, ATTR_ANY_SPILL_SINCE_MOUNT \<mapsto> NLA_U8,
     ATTR_WRITE_SEQ \<mapsto> NLA_U64, ATTR_RANGE_STAGED \<mapsto> NLA_U8]"

fun nla_valid :: "nla_policy \<Rightarrow> bytes \<Rightarrow> bool" where
  "nla_valid (NLA_BINARY n) d \<longleftrightarrow> n = 0 \<or> length d \<le> n"
| "nla_valid (NLA_NUL_STRING n) d \<longleftrightarrow> 0 \<in> set (take (n + 1) d) \<and> length d \<le> n + (if last d = 0 then 1 else 0)"
| "nla_valid NLA_U8 d \<longleftrightarrow> length d = 1"
| "nla_valid NLA_U32 d \<longleftrightarrow> length d = 4"
| "nla_valid NLA_U64 d \<longleftrightarrow> length d = 8"
| "nla_valid NLA_NESTED d \<longleftrightarrow> True"

definition attr_ok :: "nat \<Rightarrow> bytes \<Rightarrow> bool" where
  "attr_ok a d \<longleftrightarrow> (case genl_policy a of None \<Rightarrow> False | Some p \<Rightarrow> nla_valid p d)"

definition policy_ok :: "genl_info \<Rightarrow> bool" where
  "policy_ok info \<longleftrightarrow> (\<forall>a \<in> set [1..<25]. case gi_attrs info a of None \<Rightarrow> True | Some d \<Rightarrow> attr_ok a d)"

definition resolve_pool :: "genl_info \<Rightarrow> nl_world \<Rightarrow> nat res" where
  "resolve_pool info w =
    (case gi_attrs info ATTR_POOL_UUID of
       None \<Rightarrow> Err EINVAL
     | Some b \<Rightarrow>
        (if length b \<noteq> 16 then Err EINVAL
         else case sb_find b w of None \<Rightarrow> Err ENODEV | Some p \<Rightarrow> Ok p))"

text \<open>A command on one pool: its new state, and the result.\<close>

type_synonym doit_result = "unit res \<times> genl_msg option \<times> nl_world"

definition on_pool :: "nat \<Rightarrow> nl_world \<Rightarrow> unit res \<times> sb_info \<times> 'x \<Rightarrow> doit_result" where
  "on_pool b w r = (case r of (e, s, _) \<Rightarrow> (e, None, w\<lparr>nw_sb := (nw_sb w)(b := s)\<rparr>))"

record ctl_env =
  ce_nl :: nl_env
  ce_mv :: "nat \<Rightarrow> move_env"

definition doit_register_pool :: "nl_world \<Rightarrow> doit_result" where
  "doit_register_pool w = (Done, None, w)"

definition doit_move_plan :: "ctl_env \<Rightarrow> genl_info \<Rightarrow> nl_world \<Rightarrow> doit_result" where
  "doit_move_plan env info w =
    (case resolve_pool info w of
       Err e \<Rightarrow> (Err e, None, w)
     | Ok b \<Rightarrow>
        (case (nla_read info ATTR_OBJECT_ID OID_LEN, nla_get_u8 info ATTR_INTENDED_TIER,
               nla_get_u64 (nl_be (ce_nl env)) info ATTR_TRANSACTION_SEQ) of
           (Some oid, Some dest, Some seq) \<Rightarrow>
             (let force = (case nla_get_u8 info ATTR_FORCE of None \<Rightarrow> False | Some f \<Rightarrow> f \<noteq> 0)
              in on_pool b w (movement_plan (ce_mv env b) oid dest seq force (nw_sb w b)))
         | _ \<Rightarrow> (Err EINVAL, None, w)))"

definition doit_move_cutover :: "ctl_env \<Rightarrow> genl_info \<Rightarrow> nl_world \<Rightarrow> doit_result" where
  "doit_move_cutover env info w =
    (case resolve_pool info w of
       Err e \<Rightarrow> (Err e, None, w)
     | Ok b \<Rightarrow>
        (case (nla_read info ATTR_OBJECT_ID OID_LEN, nla_get_u64 (nl_be (ce_nl env)) info ATTR_TRANSACTION_SEQ) of
           (Some oid, Some seq) \<Rightarrow>
             (case nla_get_u64 (nl_be (ce_nl env)) info ATTR_WRITE_SEQ of
                None \<Rightarrow> on_pool b w (movement_cutover (ce_mv env b) oid seq 0 False (nw_sb w b))
              | Some ws \<Rightarrow> on_pool b w (movement_cutover (ce_mv env b) oid seq ws True (nw_sb w b)))
         | _ \<Rightarrow> (Err EINVAL, None, w)))"

definition doit_move_complete :: "ctl_env \<Rightarrow> genl_info \<Rightarrow> nl_world \<Rightarrow> doit_result" where
  "doit_move_complete env info w =
    (case resolve_pool info w of
       Err e \<Rightarrow> (Err e, None, w)
     | Ok b \<Rightarrow>
        (case (nla_read info ATTR_OBJECT_ID OID_LEN, nla_get_u64 (nl_be (ce_nl env)) info ATTR_TRANSACTION_SEQ) of
           (Some oid, Some seq) \<Rightarrow> on_pool b w (movement_complete (ce_mv env b) oid seq (nw_sb w b))
         | _ \<Rightarrow> (Err EINVAL, None, w)))"

definition doit_move_rollback :: "ctl_env \<Rightarrow> genl_info \<Rightarrow> nl_world \<Rightarrow> doit_result" where
  "doit_move_rollback env info w =
    (case resolve_pool info w of
       Err e \<Rightarrow> (Err e, None, w)
     | Ok b \<Rightarrow>
        (case (nla_read info ATTR_OBJECT_ID OID_LEN, nla_get_u64 (nl_be (ce_nl env)) info ATTR_TRANSACTION_SEQ) of
           (Some oid, Some seq) \<Rightarrow> on_pool b w (movement_rollback (ce_mv env b) oid seq (nw_sb w b))
         | _ \<Rightarrow> (Err EINVAL, None, w)))"

text \<open>The path of an inode below the pool's root, by its first alias or by its placement.\<close>

definition inode_rel_path :: "ctl_env \<Rightarrow> nat \<Rightarrow> iref \<Rightarrow> inode_info \<Rightarrow> string option" where
  "inode_rel_path env b r si =
    (case mv_alias_path (ce_mv env b) r of
       None \<Rightarrow> si_rel_path si
     | Some (Err _) \<Rightarrow> None
     | Some (Ok p) \<Rightarrow> Some (case p of [] \<Rightarrow> [] | c # cs \<Rightarrow> (if c = CHR ''/'' then cs else p)))"

definition inspect_attrs :: "ctl_env \<Rightarrow> nat \<Rightarrow> iref \<Rightarrow> inode_info \<Rightarrow> sb_info \<Rightarrow> nla list" where
  "inspect_attrs env b r si sbi =
    (let be = nl_be (ce_nl env)
     in [(ATTR_OBJECT_ID, si_oid si), (ATTR_CURRENT_TIER, [si_current_tier si]), (ATTR_INTENDED_TIER, [si_intended_tier si]),
         (ATTR_MOVEMENT_STATE, [ms_byte (si_movement_state si)]), (ATTR_PIN_STATE, [pin_byte (si_pin_state si)]),
         (ATTR_GENERATION, host_bytes be 4 (si_cutover_gen si)), (ATTR_TRANSACTION_SEQ, host_bytes be 8 (si_transaction_seq si)),
         (ATTR_WRITE_SEQ, host_bytes be 8 (si_write_seq si)), (ATTR_RANGE_STAGED, [if rs_range_staged (si_rs si) then 1 else 0])]
        @ (case inode_rel_path env b r si of None \<Rightarrow> [] | Some p \<Rightarrow> [(ATTR_REL_PATH, cstr_bytes p)])
        @ (case nl_dpath (ce_nl env) (t_lower_path (tier_at sbi (si_current_tier si))) of
             None \<Rightarrow> [] | Some p \<Rightarrow> [(ATTR_TIER_PATH, cstr_bytes p)]))"

definition doit_inspect :: "ctl_env \<Rightarrow> genl_info \<Rightarrow> nl_world \<Rightarrow> doit_result" where
  "doit_inspect env info w =
    (case resolve_pool info w of
       Err e \<Rightarrow> (Err e, None, w)
     | Ok b \<Rightarrow>
        (case nla_read info ATTR_OBJECT_ID OID_LEN of
           None \<Rightarrow> (Err EINVAL, None, w)
         | Some oid \<Rightarrow>
            (case mv_resolve (ce_mv env b) oid (nw_sb w b) of
               (q, s) \<Rightarrow>
                 (let w1 = w\<lparr>nw_sb := (nw_sb w)(b := s)\<rparr>
                  in case Option.bind q (\<lambda>r. map_option (Pair r) (sbi_inodes s r)) of
                      None \<Rightarrow> (Err ENOENT, None, w1)
                    | Some (r, si) \<Rightarrow>
                       (if \<not> nl_alloc (ce_nl env) then (Err ENOMEM, None, w1)
                        else if \<not> nl_hdr (ce_nl env) then (Err EMSGSIZE, None, w1)
                        else case put_attrs (nl_room (ce_nl env)) (inspect_attrs env b r si s) of
                            None \<Rightarrow> (Err EMSGSIZE, None, w1)
                          | Some as \<Rightarrow> (nl_reply (ce_nl env), Some \<lparr>gm_cmd = CMD_INSPECT, gm_attrs = as\<rparr>, w1))))))"

definition doit_quiesce :: "genl_info \<Rightarrow> nl_world \<Rightarrow> doit_result" where
  "doit_quiesce info w =
    (case resolve_pool info w of
       Err e \<Rightarrow> (Err e, None, w)
     | Ok b \<Rightarrow> (Done, None, w\<lparr>nw_sb := (nw_sb w)(b := (nw_sb w b)\<lparr>sbi_quiesced := True\<rparr>)\<rparr>))"

definition doit_reconcile :: "genl_info \<Rightarrow> nl_world \<Rightarrow> doit_result" where
  "doit_reconcile info w =
    (case resolve_pool info w of
       Err e \<Rightarrow> (Err e, None, w)
     | Ok b \<Rightarrow>
        (Done, None, w\<lparr>nw_sb := (nw_sb w)(b := clear_pool_mapping_quiesce ((nw_sb w b)\<lparr>sbi_quiesced := False\<rparr>)),
                       nw_heat := (nw_heat w)(b := heat_kick_drain (nw_heat w b))\<rparr>))"

definition doit_tier_down :: "nl_world \<Rightarrow> doit_result" where
  "doit_tier_down w = (Done, None, w)"

definition doit_revoke_mappings :: "ctl_env \<Rightarrow> genl_info \<Rightarrow> nl_world \<Rightarrow> doit_result" where
  "doit_revoke_mappings env info w =
    (case resolve_pool info w of
       Err e \<Rightarrow> (Err e, None, w)
     | Ok b \<Rightarrow>
        (case nla_read info ATTR_OBJECT_ID OID_LEN of
           None \<Rightarrow> (Err EINVAL, None, w)
         | Some oid \<Rightarrow> on_pool b w (revoke_mappings (ce_mv env b) oid (nw_sb w b))))"

definition doit_unimpl :: "nl_world \<Rightarrow> doit_result" where
  "doit_unimpl w = (Err ENOSYS, None, w)"

text \<open>
  The table of operations: whether the caller needs the administrator's capability, and the
  handler. A message goes through the table, the permission, the policy and the handler.
\<close>

definition genl_ops :: "ctl_env \<Rightarrow> u8 \<Rightarrow> (bool \<times> (genl_info \<Rightarrow> nl_world \<Rightarrow> doit_result)) option" where
  "genl_ops env c =
    map_of [(CMD_MOVE_ROLLBACK, (True, doit_move_rollback env)), (CMD_MOVE_COMPLETE, (True, doit_move_complete env)),
      (CMD_REGISTER_POOL, (True, \<lambda>_. doit_register_pool)), (CMD_POLICY_PUSH, (True, \<lambda>_. doit_unimpl)),
      (CMD_MOVE_PLAN, (True, doit_move_plan env)), (CMD_TIER_DOWN, (True, \<lambda>_. doit_tier_down)),
      (CMD_RECONCILE, (True, doit_reconcile)), (CMD_QUIESCE, (True, doit_quiesce)), (CMD_INSPECT, (False, doit_inspect env)),
      (CMD_REPROBE, (True, \<lambda>_. doit_unimpl)), (CMD_MOVE_CUTOVER, (True, doit_move_cutover env)),
      (CMD_REVOKE_MAPPINGS, (True, doit_revoke_mappings env))] c"

definition genl_rcv :: "ctl_env \<Rightarrow> genl_info \<Rightarrow> nl_world \<Rightarrow> doit_result" where
  "genl_rcv env info w =
    (case genl_ops env (gi_cmd info) of
       None \<Rightarrow> (Err EOPNOTSUPP, None, w)
     | Some (admin, doit) \<Rightarrow>
        (if admin \<and> \<not> gi_admin info then (Err EPERM, None, w)
         else if \<not> policy_ok info then (Err EINVAL, None, w)
         else doit info w))"


section \<open>What a command can do\<close>

inductive ctl_step :: "move_env \<Rightarrow> sb_info \<Rightarrow> sb_info \<Rightarrow> bool" where
  plan: "ctl_step env s (fst (snd (movement_plan env oid t seq force s)))"
| cutover: "ctl_step env s (fst (snd (movement_cutover env oid seq expected check s)))"
| complete: "ctl_step env s (fst (snd (movement_complete env oid seq s)))"
| rollback: "ctl_step env s (fst (snd (movement_rollback env oid seq s)))"
| resolve: "ctl_step env s (snd (mv_resolve env oid s))"
| quiesce: "ctl_step env s (s\<lparr>sbi_quiesced := True\<rparr>)"
| reconcile: "ctl_step env s (clear_pool_mapping_quiesce (s\<lparr>sbi_quiesced := False\<rparr>))"
| revoke: "ctl_step env s (fst (snd (revoke_mappings env oid s)))"

lemma moving_part_keeps:
  assumes "mv_ok s" "at_rest s" "sbi_ntiers s' = sbi_ntiers s"
    and "\<And>r. map_option moving_part (sbi_inodes s' r) = map_option moving_part (sbi_inodes s r)"
  shows "mv_ok s' \<and> at_rest s'"
proof -
  have "inode_ok (sbi_ntiers s') si \<and> si_movement_state si \<noteq> MS_CUTOVER_IN_PROGRESS" if "sbi_inodes s' r = Some si" for r si
  proof -
    have "map_option moving_part (sbi_inodes s r) = Some (moving_part si)" using assms(4) [of r] that by simp
    then obtain si0 where "sbi_inodes s r = Some si0" "moving_part si0 = moving_part si" unfolding map_option_eq_Some by blast
    moreover from this(1) have "inode_ok (sbi_ntiers s) si0 \<and> si_movement_state si0 \<noteq> MS_CUTOVER_IN_PROGRESS"
      using assms(1,2) by (simp add: mv_ok_def at_rest_def)
    ultimately show ?thesis using assms(3) by (simp add: inode_ok_def moving_part_def)
  qed
  then show ?thesis by (auto simp: mv_ok_def at_rest_def)
qed

lemma clear_quiesce_frame:
  "sbi_ntiers (clear_pool_mapping_quiesce s) = sbi_ntiers s"
  "map_option moving_part (sbi_inodes (clear_pool_mapping_quiesce s) r) = map_option moving_part (sbi_inodes s r)"
proof -
  let ?f = "\<lambda>r. upd_inode r (\<lambda>i. i\<lparr>si_mappings_quiesced := False\<rparr>)"
  have "sbi_ntiers (fold ?f rs s) = sbi_ntiers s
      \<and> map_option moving_part (sbi_inodes (fold ?f rs s) r) = map_option moving_part (sbi_inodes s r)" for rs
    by (induction rs arbitrary: s) (auto simp: option.map_comp comp_def moving_part_def [abs_def])
  then show "sbi_ntiers (clear_pool_mapping_quiesce s) = sbi_ntiers s"
    "map_option moving_part (sbi_inodes (clear_pool_mapping_quiesce s) r) = map_option moving_part (sbi_inodes s r)"
    by (simp_all add: clear_pool_mapping_quiesce_def)
qed

lemma ctl_step_keeps:
  assumes "ctl_step env s s'" "calm env" "mv_ok s" "at_rest s"
  shows "mv_ok s' \<and> at_rest s'"
  using assms
proof (cases rule: ctl_step.cases)
  case (plan oid t seq force)
  then show ?thesis using mv_step_keeps [OF mv_step.plan] assms by blast
next
  case (cutover oid seq expected check)
  then show ?thesis using mv_step_keeps [OF mv_step.cutover] assms by blast
next
  case (complete oid seq)
  then show ?thesis using mv_step_keeps [OF mv_step.complete] assms by blast
next
  case (rollback oid seq)
  then show ?thesis using mv_step_keeps [OF mv_step.rollback] assms by blast
next
  case (resolve oid)
  then show ?thesis using assms by (auto simp: calm_def)
next
  case quiesce
  then show ?thesis using assms(3,4) by (intro moving_part_keeps [of s]) simp_all
next
  case reconcile
  then show ?thesis using assms(3,4) by (intro moving_part_keeps [of s]) (simp_all add: clear_quiesce_frame)
next
  case (revoke oid)
  obtain q s1 where q: "mv_resolve env oid s = (q, s1)" by fastforce
  have s1: "mv_ok s1" "at_rest s1" using calm_resolve [OF assms(2-4) q] by auto
  show ?thesis
  proof (cases q)
    case None
    then show ?thesis using revoke q s1 by (simp add: revoke_mappings_def)
  next
    case (Some r)
    then have "s' = upd_inode r (\<lambda>i. i\<lparr>si_mappings_quiesced := True\<rparr>) s1" using revoke q by (simp add: revoke_mappings_def)
    then show ?thesis using s1
      by (intro moving_part_keeps [of s1]) (simp_all add: option.map_comp comp_def moving_part_def [abs_def])
  qed
qed

text \<open>Every handler leaves the world alone or takes one step of the pool it resolved.\<close>

definition confined :: "ctl_env \<Rightarrow> bool \<Rightarrow> genl_info \<Rightarrow> nl_world \<Rightarrow> nl_world \<Rightarrow> bool" where
  "confined env adm info w w' \<longleftrightarrow> w' = w
    \<or> (\<exists>b s h. resolve_pool info w = Ok b \<and> w' = w\<lparr>nw_sb := (nw_sb w)(b := s), nw_heat := (nw_heat w)(b := h)\<rparr>
        \<and> ctl_step (ce_mv env b) (nw_sb w b) s \<and> (adm \<or> (\<exists>oid. s = snd (mv_resolve (ce_mv env b) oid (nw_sb w b)))))"

lemma confined_same [intro, simp]: "confined env adm info w w"
  by (simp add: confined_def)

lemma confined_pool:
  assumes "resolve_pool info w = Ok b" "ctl_step (ce_mv env b) (nw_sb w b) s" "adm \<or> (\<exists>oid. s = snd (mv_resolve (ce_mv env b) oid (nw_sb w b)))"
  shows "confined env adm info w (w\<lparr>nw_sb := (nw_sb w)(b := s)\<rparr>)"
proof -
  have "w\<lparr>nw_sb := (nw_sb w)(b := s)\<rparr> = w\<lparr>nw_sb := (nw_sb w)(b := s), nw_heat := (nw_heat w)(b := nw_heat w b)\<rparr>" by simp
  then show ?thesis using assms unfolding confined_def by metis
qed

lemma on_pool_confined:
  assumes "resolve_pool info w = Ok b" "ctl_step (ce_mv env b) (nw_sb w b) (fst (snd r))"
  shows "confined env True info w (snd (snd (on_pool b w r)))"
  using confined_pool [OF assms, of True] by (simp add: on_pool_def case_prod_beta)

lemma move_handlers_confined:
  "confined env True info w (snd (snd (doit_move_plan env info w)))"
  "confined env True info w (snd (snd (doit_move_cutover env info w)))"
  "confined env True info w (snd (snd (doit_move_complete env info w)))"
  "confined env True info w (snd (snd (doit_move_rollback env info w)))"
  "confined env True info w (snd (snd (doit_revoke_mappings env info w)))"
  by (auto simp: doit_move_plan_def doit_move_cutover_def doit_move_complete_def doit_move_rollback_def doit_revoke_mappings_def Let_def
      split: sum.split option.split intro!: on_pool_confined ctl_step.intros)

lemma flag_handlers_confined:
  "confined env True info w (snd (snd (doit_quiesce info w)))"
  "confined env True info w (snd (snd (doit_reconcile info w)))"
proof -
  show "confined env True info w (snd (snd (doit_quiesce info w)))"
    by (auto simp: doit_quiesce_def split: sum.split intro!: confined_pool ctl_step.intros)
  show "confined env True info w (snd (snd (doit_reconcile info w)))"
    using ctl_step.reconcile unfolding confined_def by (auto simp: doit_reconcile_def split: sum.split)
qed

lemma doit_inspect_confined: "confined env False info w (snd (snd (doit_inspect env info w)))"
proof -
  have "snd (snd (doit_inspect env info w)) = w
      \<or> (\<exists>b oid. resolve_pool info w = Ok b \<and> snd (snd (doit_inspect env info w)) = w\<lparr>nw_sb := (nw_sb w)(b := snd (mv_resolve (ce_mv env b) oid (nw_sb w b)))\<rparr>)"
    by (auto simp: doit_inspect_def Let_def case_prod_beta split: sum.split option.split)
  then show ?thesis using confined_pool [where adm = False] ctl_step.resolve by (metis confined_same)
qed

lemma handler_confined:
  assumes "genl_ops env c = Some (adm, doit)"
  shows "confined env adm info w (snd (snd (doit info w)))"
  using assms move_handlers_confined [of env info w] flag_handlers_confined [of env info w] doit_inspect_confined [of env info w]
  by (auto simp: genl_ops_def doit_register_pool_def doit_tier_down_def doit_unimpl_def split: if_splits)



text \<open>
  The policy has no smallest length for the object id, and the handlers read sixteen bytes: an id
  sent short is completed with whatever follows it in the message.
\<close>

lemma short_object_id_reads_behind:
  assumes "gi_attrs info ATTR_OBJECT_ID = Some b" "length b < OID_LEN"
  shows "nla_read info ATTR_OBJECT_ID OID_LEN = Some (b @ take (OID_LEN - length b) (gi_behind info ATTR_OBJECT_ID))
    \<and> attr_ok ATTR_OBJECT_ID b"
  using assms by (simp add: nla_read_def attr_ok_def genl_policy_def attr_defs)

section \<open>Concrete instances\<close>

definition ex_nl_env :: nl_env where
  "ex_nl_env = \<lparr>nl_be = False, nl_alloc = True, nl_hdr = True, nl_room = 3776, nl_marshal = concat \<circ> map snd,
     nl_dpath = \<lambda>p. Some ''/mnt/tier'', nl_send = Done, nl_reply = Done\<rparr>"

definition ex_ctl_env :: ctl_env where
  "ex_ctl_env = \<lparr>ce_nl = ex_nl_env, ce_mv = \<lambda>_. ex_move_env\<rparr>"

definition ex_nl_world :: nl_world where
  "ex_nl_world = \<lparr>nw_list = [0], nw_sb = \<lambda>_. ex_pool, nw_heat = \<lambda>_. heat_init\<rparr>"

definition ex_quiesce :: "bool \<Rightarrow> genl_info" where
  "ex_quiesce admin = \<lparr>gi_admin = admin, gi_cmd = CMD_QUIESCE, gi_attrs = [ATTR_POOL_UUID \<mapsto> replicate 16 1], gi_behind = \<lambda>_. []\<rparr>"

lemma ex_rcv:
  "genl_rcv ex_ctl_env (ex_quiesce True) ex_nl_world
    = (Done, None, ex_nl_world\<lparr>nw_sb := (\<lambda>_. ex_pool)(0 := ex_pool\<lparr>sbi_quiesced := True\<rparr>)\<rparr>)"
  by (simp add: genl_rcv_def genl_ops_def cmd_defs ex_quiesce_def policy_ok_def attr_ok_def attr_defs genl_policy_def doit_quiesce_def resolve_pool_def
      sb_find_def ex_nl_world_def ex_pool_def)


end
