(* ===== verification/Client.thy ===== *)
theory Client
  imports Control
begin

text \<open>
  The userspace side of the control channel (\<open>src/uapi.go\<close>, \<open>src/events.go\<close>, \<open>src/client.go\<close>): the
  decoders of events and of the reply to an inspection, and the attribute lists of the requests.
  The netlink package that splits a payload into attributes is an argument, \<open>unm\<close>; it reports the
  type of an attribute as it is on the wire.
\<close>

text \<open>A Go function that returns a value and an error has a sum as its result.\<close>

type_synonym 'a go = "string + 'a"

section \<open>States\<close>

definition state_from_kernel :: "u8 \<Rightarrow> string" where
  "state_from_kernel b =
    (if b = 0 then ''placed'' else if b = 1 then ''plan_accepted'' else if b = 2 then ''destination_reserved''
     else if b = 3 then ''copy_in_progress'' else if b = 4 then ''copy_complete'' else if b = 5 then ''copy_verified''
     else if b = 6 then ''cutover_in_progress'' else if b = 7 then ''switched'' else if b = 8 then ''cleanup_in_progress''
     else if b = 9 then ''cleanup_complete'' else if b = 10 then ''failed'' else if b = 11 then ''stale'' else ''failed'')"

definition pin_from_kernel :: "u8 \<Rightarrow> string" where
  "pin_from_kernel b =
    (if b = 0 then ''none'' else if b = 1 then ''pin_hot'' else if b = 2 then ''pin_cold'' else if b = 3 then ''pin_hardlink''
     else if b = 4 then ''pin_lease'' else if b = 5 then ''pin_lun'' else ''none'')"

definition null_term_string :: "bytes \<Rightarrow> string" where
  "null_term_string b = map (\<lambda>c. char_of (unat c)) (takeWhile (\<lambda>c. c \<noteq> 0) b)"

section \<open>Heat samples\<close>

definition HeatSampleRecordSize :: nat where
  "HeatSampleRecordSize = 56"

definition heat_record_read :: "bytes \<Rightarrow> heat_sample" where
  "heat_record_read b =
     \<lparr>hs_oid = buf_get 0 16 b, hs_open_count_delta = le_word (buf_get 16 4 b), hs_reserved = 0,
      hs_read_bytes_delta = le_word (buf_get 24 8 b), hs_write_bytes_delta = le_word (buf_get 32 8 b),
      hs_last_access_ns = le_word (buf_get 40 8 b), hs_sample_window_ns = le_word (buf_get 48 8 b)\<rparr>"

definition parse_heat_blob :: "bytes \<Rightarrow> heat_sample list go" where
  "parse_heat_blob data =
    (if length data mod HeatSampleRecordSize \<noteq> 0 then Inl ''heat blob length''
     else Inr (map (\<lambda>i. heat_record_read (take HeatSampleRecordSize (drop (HeatSampleRecordSize * i) data)))
                [0..<length data div HeatSampleRecordSize]))"

section \<open>Events\<close>

record mounted_tier =
  mt_rank :: u8
  mt_path :: string
  mt_caps :: u32

record move_state_event =
  me_oid :: bytes
  me_new_state :: string
  me_transaction_seq :: u64

record spill_event =
  se_oid :: bytes
  se_source_tier :: u8
  se_dest_tier :: u8
  se_size_bytes :: u64

record event =
  ev_pool_uuid :: bytes
  ev_type :: u8
  ev_pool_name :: string
  ev_any_spill :: bool
  ev_heat_samples :: "heat_sample list"
  ev_tiers :: "mounted_tier list"
  ev_move :: "move_state_event option"
  ev_tier :: "u8 option"
  ev_spill :: "spill_event option"

text \<open>Zero values, as a pointer field has them when it is first allocated.\<close>

definition move_of :: "event \<Rightarrow> move_state_event" where
  "move_of ev = (case ev_move ev of Some m \<Rightarrow> m | None \<Rightarrow> \<lparr>me_oid = replicate 16 0, me_new_state = [], me_transaction_seq = 0\<rparr>)"

definition spill_of :: "event \<Rightarrow> spill_event" where
  "spill_of ev = (case ev_spill ev of Some s \<Rightarrow> s
     | None \<Rightarrow> \<lparr>se_oid = replicate 16 0, se_source_tier = 0, se_dest_tier = 0, se_size_bytes = 0\<rparr>)"

definition tier_of_attr :: "nla \<Rightarrow> mounted_tier \<Rightarrow> mounted_tier" where
  "tier_of_attr a t =
    (case a of (ty, d) \<Rightarrow>
       if ty = ATTR_TIER_RANK then (if 1 \<le> length d then t\<lparr>mt_rank := hd d\<rparr> else t)
       else if ty = ATTR_TIER_PATH then t\<lparr>mt_path := null_term_string d\<rparr>
       else if ty = ATTR_TIER_CAPS then (if 4 \<le> length d then t\<lparr>mt_caps := le_word (take 4 d)\<rparr> else t)
       else t)"

fun parse_entries :: "(bytes \<Rightarrow> nla list option) \<Rightarrow> nla list \<Rightarrow> mounted_tier list go" where
  "parse_entries unm [] = Inr []"
| "parse_entries unm ((_, d) # es) =
    (case unm d of
       None \<Rightarrow> Inl ''unmarshal tier entry''
     | Some as \<Rightarrow>
        (case parse_entries unm es of
           Inl e \<Rightarrow> Inl e
         | Inr ts \<Rightarrow> Inr (fold tier_of_attr as \<lparr>mt_rank = 0, mt_path = [], mt_caps = 0\<rparr> # ts)))"

definition parse_tiers :: "(bytes \<Rightarrow> nla list option) \<Rightarrow> bytes \<Rightarrow> mounted_tier list go" where
  "parse_tiers unm d = (case unm d of None \<Rightarrow> Inl ''unmarshal tier list'' | Some es \<Rightarrow> parse_entries unm es)"

definition decode_attr :: "(bytes \<Rightarrow> nla list option) \<Rightarrow> u8 \<Rightarrow> nla \<Rightarrow> event \<Rightarrow> event go" where
  "decode_attr unm cmd a ev =
    (case a of (ty, d) \<Rightarrow>
       if ty = ATTR_POOL_UUID then Inr (if length d = 16 then ev\<lparr>ev_pool_uuid := d\<rparr> else ev)
       else if ty = ATTR_POOL_NAME then Inr (ev\<lparr>ev_pool_name := null_term_string d\<rparr>)
       else if ty = ATTR_ANY_SPILL_SINCE_MOUNT then Inr (ev\<lparr>ev_any_spill := 1 \<le> length d \<and> hd d \<noteq> 0\<rparr>)
       else if ty = ATTR_HEAT_SAMPLE_BLOB then map_sum (\<lambda>e. e) (\<lambda>rs. ev\<lparr>ev_heat_samples := rs\<rparr>) (parse_heat_blob d)
       else if ty = ATTR_TIERS then map_sum (\<lambda>e. e) (\<lambda>ts. ev\<lparr>ev_tiers := ts\<rparr>) (parse_tiers unm d)
       else if ty = ATTR_OBJECT_ID
       then if cmd = EVENT_SPILL
            then Inr (ev\<lparr>ev_spill := Some (if length d = OID_LEN then (spill_of ev)\<lparr>se_oid := d\<rparr> else spill_of ev)\<rparr>)
            else Inr (ev\<lparr>ev_move := Some (if length d = OID_LEN then (move_of ev)\<lparr>me_oid := d\<rparr> else move_of ev)\<rparr>)
       else if ty = ATTR_MOVEMENT_STATE
       then Inr (ev\<lparr>ev_move := Some (if 1 \<le> length d then (move_of ev)\<lparr>me_new_state := state_from_kernel (hd d)\<rparr> else move_of ev)\<rparr>)
       else if ty = ATTR_TRANSACTION_SEQ
       then Inr (ev\<lparr>ev_move := Some (if 8 \<le> length d then (move_of ev)\<lparr>me_transaction_seq := le_word (take 8 d)\<rparr> else move_of ev)\<rparr>)
       else if ty = ATTR_TIER_RANK
       then Inr (ev\<lparr>ev_tier := Some (if 1 \<le> length d then hd d else (case ev_tier ev of Some t \<Rightarrow> t | None \<Rightarrow> 0))\<rparr>)
       else if ty = ATTR_CURRENT_TIER
       then Inr (ev\<lparr>ev_spill := Some (if 1 \<le> length d then (spill_of ev)\<lparr>se_source_tier := hd d\<rparr> else spill_of ev)\<rparr>)
       else if ty = ATTR_INTENDED_TIER
       then Inr (ev\<lparr>ev_spill := Some (if 1 \<le> length d then (spill_of ev)\<lparr>se_dest_tier := hd d\<rparr> else spill_of ev)\<rparr>)
       else if ty = ATTR_SIZE_BYTES
       then Inr (ev\<lparr>ev_spill := Some (if 8 \<le> length d then (spill_of ev)\<lparr>se_size_bytes := le_word (take 8 d)\<rparr> else spill_of ev)\<rparr>)
       else Inr ev)"

fun decode_attrs :: "(bytes \<Rightarrow> nla list option) \<Rightarrow> u8 \<Rightarrow> nla list \<Rightarrow> event \<Rightarrow> event go" where
  "decode_attrs unm cmd [] ev = Inr ev"
| "decode_attrs unm cmd (a # as) ev = (case decode_attr unm cmd a ev of Inl e \<Rightarrow> Inl e | Inr ev' \<Rightarrow> decode_attrs unm cmd as ev')"

definition event_new :: "u8 \<Rightarrow> event" where
  "event_new cmd = \<lparr>ev_pool_uuid = replicate 16 0, ev_type = cmd, ev_pool_name = [], ev_any_spill = False, ev_heat_samples = [],
     ev_tiers = [], ev_move = None, ev_tier = None, ev_spill = None\<rparr>"

text \<open>\<open>DecodeEvent\<close>: a message that is no event gives no event and no error.\<close>

definition decode_event :: "(bytes \<Rightarrow> nla list option) \<Rightarrow> genl_msg \<Rightarrow> event option go" where
  "decode_event unm msg =
    (if gm_cmd msg \<notin> {EVENT_MOUNT_READY, EVENT_HEAT_SAMPLE, EVENT_MOVE_STATE, EVENT_TIER_FAULT, EVENT_SPILL} then Inr None
     else map_sum (\<lambda>e. e) Some (decode_attrs unm (gm_cmd msg) (gm_attrs msg) (event_new (gm_cmd msg))))"

section \<open>The reply to an inspection\<close>

record inspect_result =
  ir_oid :: bytes
  ir_current_tier :: u8
  ir_intended_tier :: u8
  ir_movement_state :: string
  ir_pin_state :: string
  ir_generation :: u32
  ir_write_seq :: u64
  ir_has_write_seq :: bool
  ir_range_staged :: bool
  ir_transaction_seq :: u64
  ir_rel_path :: string
  ir_current_tier_path :: string

definition inspect_attr :: "nla \<Rightarrow> inspect_result \<Rightarrow> inspect_result" where
  "inspect_attr a r =
    (case a of (ty, d) \<Rightarrow>
       if ty = ATTR_OBJECT_ID then (if length d = OID_LEN then r\<lparr>ir_oid := d\<rparr> else r)
       else if ty = ATTR_CURRENT_TIER then (if 1 \<le> length d then r\<lparr>ir_current_tier := hd d\<rparr> else r)
       else if ty = ATTR_INTENDED_TIER then (if 1 \<le> length d then r\<lparr>ir_intended_tier := hd d\<rparr> else r)
       else if ty = ATTR_MOVEMENT_STATE then (if 1 \<le> length d then r\<lparr>ir_movement_state := state_from_kernel (hd d)\<rparr> else r)
       else if ty = ATTR_PIN_STATE then (if 1 \<le> length d then r\<lparr>ir_pin_state := pin_from_kernel (hd d)\<rparr> else r)
       else if ty = ATTR_GENERATION then (if 4 \<le> length d then r\<lparr>ir_generation := le_word (take 4 d)\<rparr> else r)
       else if ty = ATTR_WRITE_SEQ then (if 8 \<le> length d then r\<lparr>ir_write_seq := le_word (take 8 d), ir_has_write_seq := True\<rparr> else r)
       else if ty = ATTR_RANGE_STAGED then r\<lparr>ir_range_staged := 1 \<le> length d \<and> hd d \<noteq> 0\<rparr>
       else if ty = ATTR_TRANSACTION_SEQ then (if 8 \<le> length d then r\<lparr>ir_transaction_seq := le_word (take 8 d)\<rparr> else r)
       else if ty = ATTR_REL_PATH then r\<lparr>ir_rel_path := null_term_string d\<rparr>
       else if ty = ATTR_TIER_PATH then r\<lparr>ir_current_tier_path := null_term_string d\<rparr>
       else r)"

definition inspect_decode :: "nla list \<Rightarrow> inspect_result" where
  "inspect_decode as =
     fold inspect_attr as \<lparr>ir_oid = replicate 16 0, ir_current_tier = 0, ir_intended_tier = 0, ir_movement_state = [], ir_pin_state = [],
       ir_generation = 0, ir_write_seq = 0, ir_has_write_seq = False, ir_range_staged = False, ir_transaction_seq = 0,
       ir_rel_path = [], ir_current_tier_path = []\<rparr>"

section \<open>Requests\<close>

definition move_plan_attrs :: "bytes \<Rightarrow> bytes \<Rightarrow> u8 \<Rightarrow> u64 \<Rightarrow> bool \<Rightarrow> nla list" where
  "move_plan_attrs pool oid dest seq force =
     [(ATTR_POOL_UUID, pool), (ATTR_OBJECT_ID, oid), (ATTR_INTENDED_TIER, [dest]), (ATTR_TRANSACTION_SEQ, le_bytes 8 seq)]
     @ (if force then [(ATTR_FORCE, [1])] else [])"

definition cutover_attrs :: "bytes \<Rightarrow> bytes \<Rightarrow> u64 \<Rightarrow> u64 option \<Rightarrow> nla list" where
  "cutover_attrs pool oid seq write_seq =
     [(ATTR_POOL_UUID, pool), (ATTR_OBJECT_ID, oid), (ATTR_TRANSACTION_SEQ, le_bytes 8 seq)]
     @ (case write_seq of None \<Rightarrow> [] | Some s \<Rightarrow> [(ATTR_WRITE_SEQ, le_bytes 8 s)])"

definition quiesce_attrs :: "bytes \<Rightarrow> nla list" where
  "quiesce_attrs pool = [(ATTR_POOL_UUID, pool)]"

definition revoke_attrs :: "bytes \<Rightarrow> bytes \<Rightarrow> nla list" where
  "revoke_attrs pool oid = [(ATTR_POOL_UUID, pool), (ATTR_OBJECT_ID, oid)]"

definition reconcile_attrs :: "bytes \<Rightarrow> string \<Rightarrow> nla list" where
  "reconcile_attrs pool reason =
     [(ATTR_POOL_UUID, pool)] @ (if reason \<noteq> [] then [(ATTR_RECONCILE_REASON, cstr_bytes reason)] else [])"

definition inspect_request_attrs :: "bytes \<Rightarrow> bytes \<Rightarrow> nla list" where
  "inspect_request_attrs pool oid = [(ATTR_POOL_UUID, pool), (ATTR_OBJECT_ID, oid)]"

text \<open>A request as the module receives it from an administrator.\<close>

definition request :: "u8 \<Rightarrow> nla list \<Rightarrow> (nat \<Rightarrow> bytes) \<Rightarrow> genl_info" where
  "request cmd as behind = \<lparr>gi_admin = True, gi_cmd = cmd, gi_attrs = map_of as, gi_behind = behind\<rparr>"


section \<open>What the client reads is what the module wrote\<close>

definition heat_valid :: "heat_sample \<Rightarrow> bool" where
  "heat_valid h \<longleftrightarrow> length (hs_oid h) = 16 \<and> hs_reserved h = 0"

lemma host_bytes_le [simp]: "host_bytes False n w = le_bytes n w"
  by (simp add: host_bytes_def)

lemma length_heat_record: "length (hs_oid h) = 16 \<Longrightarrow> length (heat_record_bytes False h) = 56"
  by (simp add: heat_record_bytes_def)

lemma buf_get_append:
  "buf_get off n (as @ bs) = (if off + n \<le> length as then buf_get off n as else take n (drop off as) @ take (n - (length as - off)) (drop (off - length as) bs))"
  by (auto simp: buf_get_def)

lemma heat_record_roundtrip:
  assumes "heat_valid h"
  shows "heat_record_read (heat_record_bytes False h) = h"
proof -
  have l: "length (hs_oid h) = 16" "hs_reserved h = 0" using assms by (auto simp: heat_valid_def)
  then have "buf_get 0 16 (heat_record_bytes False h) = hs_oid h" "buf_get 16 4 (heat_record_bytes False h) = le_bytes 4 (hs_open_count_delta h)"
    "buf_get 24 8 (heat_record_bytes False h) = le_bytes 8 (hs_read_bytes_delta h)"
    "buf_get 32 8 (heat_record_bytes False h) = le_bytes 8 (hs_write_bytes_delta h)"
    "buf_get 40 8 (heat_record_bytes False h) = le_bytes 8 (hs_last_access_ns h)"
    "buf_get 48 8 (heat_record_bytes False h) = le_bytes 8 (hs_sample_window_ns h)"
    by (simp_all add: heat_record_bytes_def buf_get_def del: le_bytes.simps)
  then show ?thesis using l(2) by (simp add: heat_record_read_def le_word_le_bytes del: le_bytes.simps)
qed

interpretation heat_codec: fixed_codec "heat_record_bytes False" "\<lambda>b. Some (heat_record_read b)" 56 heat_valid
  by unfold_locales (simp_all add: heat_record_roundtrip length_heat_record heat_valid_def)

lemma parse_heat_blob_records:
  assumes "\<forall>h \<in> set hs. heat_valid h"
  shows "parse_heat_blob (concat (map (heat_record_bytes False) hs)) = Inr hs"
proof -
  let ?blob = "concat (map (heat_record_bytes False) hs)"
  have len: "length ?blob = 56 * length hs" by (rule heat_codec.length_concat_enc [OF assms])
  have "heat_record_read (take 56 (drop (56 * i) ?blob)) = hs ! i" if "i < length hs" for i
    using heat_codec.decode_at [OF assms that] by simp
  then have "map (\<lambda>i. heat_record_read (take 56 (drop (56 * i) ?blob))) [0..<length hs] = hs" by (intro nth_equalityI) simp_all
  then show ?thesis by (simp add: parse_heat_blob_def HeatSampleRecordSize_def len)
qed

lemma send_event_message: "send_event env room cmd attrs = (r, Some m) \<Longrightarrow> \<exists>as. attrs = Some as \<and> m = \<lparr>gm_cmd = cmd, gm_attrs = as\<rparr>"
  by (auto simp: send_event_def put_attrs_def split: if_splits option.splits bind_splits)

lemmas decode_defs = decode_event_def decode_attr_def event_new_def move_of_def spill_of_def cmd_defs attr_defs

text \<open>
  C30. The events of the module mean to the control plane what the module meant. On a little-endian
  machine every event about a moved or a spilled object, a faulty tier or a batch of heat samples
  that is sent decodes, and the decoded event has the pool, the object, the state, the
  numbers and the samples the module sent.
\<close>

theorem events_roundtrip:
  assumes "\<not> nl_be env" "length (sbi_pool_uuid sbi) = 16" "length oid = OID_LEN" "\<forall>h \<in> set hs. heat_valid h"
  shows "(emit_move_state env sbi oid st seq = (r1, Some m1) \<longrightarrow>
      (\<exists>ev. decode_event unm m1 = Inr (Some ev) \<and> ev_pool_uuid ev = sbi_pool_uuid sbi
         \<and> ev_move ev = Some \<lparr>me_oid = oid, me_new_state = state_from_kernel (ms_byte st), me_transaction_seq = seq\<rparr>))
    \<and> (emit_spill env sbi oid src dst sz = (r2, Some m2) \<longrightarrow>
      (\<exists>ev. decode_event unm m2 = Inr (Some ev) \<and> ev_pool_uuid ev = sbi_pool_uuid sbi \<and> ev_any_spill ev
         \<and> ev_spill ev = Some \<lparr>se_oid = oid, se_source_tier = src, se_dest_tier = dst, se_size_bytes = sz\<rparr>))
    \<and> (emit_tier_fault env sbi t = (r3, Some m3) \<longrightarrow>
      (\<exists>ev. decode_event unm m3 = Inr (Some ev) \<and> ev_pool_uuid ev = sbi_pool_uuid sbi \<and> ev_tier ev = Some t))
    \<and> (emit_heat_samples env sbi (concat (map (heat_record_bytes False) hs)) = (r4, Some m4) \<longrightarrow>
      (\<exists>ev. decode_event unm m4 = Inr (Some ev) \<and> ev_pool_uuid ev = sbi_pool_uuid sbi \<and> ev_heat_samples ev = hs))"
proof (intro conjI impI)
  assume "emit_move_state env sbi oid st seq = (r1, Some m1)"
  then show "\<exists>ev. decode_event unm m1 = Inr (Some ev) \<and> ev_pool_uuid ev = sbi_pool_uuid sbi
      \<and> ev_move ev = Some \<lparr>me_oid = oid, me_new_state = state_from_kernel (ms_byte st), me_transaction_seq = seq\<rparr>"
    using assms(1-3) by (auto simp: emit_move_state_def decode_defs le_word_le_bytes dest!: send_event_message simp del: le_bytes.simps)
next
  assume "emit_spill env sbi oid src dst sz = (r2, Some m2)"
  then show "\<exists>ev. decode_event unm m2 = Inr (Some ev) \<and> ev_pool_uuid ev = sbi_pool_uuid sbi \<and> ev_any_spill ev
      \<and> ev_spill ev = Some \<lparr>se_oid = oid, se_source_tier = src, se_dest_tier = dst, se_size_bytes = sz\<rparr>"
    using assms(1-3) by (auto simp: emit_spill_def decode_defs le_word_le_bytes dest!: send_event_message simp del: le_bytes.simps)
next
  assume "emit_tier_fault env sbi t = (r3, Some m3)"
  then show "\<exists>ev. decode_event unm m3 = Inr (Some ev) \<and> ev_pool_uuid ev = sbi_pool_uuid sbi \<and> ev_tier ev = Some t"
    using assms(2) by (auto simp: emit_tier_fault_def emit_pool_event_def pool_attrs_def decode_defs dest!: send_event_message simp del: le_bytes.simps)
next
  assume "emit_heat_samples env sbi (concat (map (heat_record_bytes False) hs)) = (r4, Some m4)"
  then show "\<exists>ev. decode_event unm m4 = Inr (Some ev) \<and> ev_pool_uuid ev = sbi_pool_uuid sbi \<and> ev_heat_samples ev = hs"
    using assms(2) parse_heat_blob_records [OF assms(4)]
    by (auto simp: emit_heat_samples_def decode_defs dest!: send_event_message split: if_splits simp del: le_bytes.simps)
qed

text \<open>
  The tiers of a mount event are in a nest, and \<open>nla_nest_start\<close> marks its type with a flag. The
  decoder compares the type with the bare number: the tiers of the event stay empty.
\<close>

lemma mount_ready_tiers_lost:
  assumes "emit_mount_ready env sbi = (r, Some m)"
  shows "\<exists>ev. decode_event unm m = Inr (Some ev) \<and> ev_tiers ev = []"
proof -
  obtain ns where "m = \<lparr>gm_cmd = EVENT_MOUNT_READY, gm_attrs = pool_attrs env sbi @ [(ATTR_TIERS + NLA_F_NESTED, nl_marshal env ns)]\<rparr>"
    using assms by (auto simp: emit_mount_ready_def emit_pool_event_def dest!: send_event_message)
  then show ?thesis by (auto simp: pool_attrs_def decode_defs NLA_F_NESTED_def simp del: le_bytes.simps)
qed


lemma null_term_cstr: "char_of (0 :: nat) \<notin> set s \<Longrightarrow> null_term_string (cstr_bytes s) = s"
  using cstr_roundtrip [of s] by (simp add: null_term_string_def cstr_of_def cstr_bytes_def list_update_append)

lemma inspect_decode_attrs:
  assumes "\<not> nl_be (ce_nl env)" "length (si_oid si) = OID_LEN"
    and "inode_rel_path env b r si = Some rel" "char_of (0 :: nat) \<notin> set rel"
    and "nl_dpath (ce_nl env) (t_lower_path (tier_at sbi (si_current_tier si))) = Some dir" "char_of (0 :: nat) \<notin> set dir"
  shows "inspect_decode (inspect_attrs env b r si sbi) =
    \<lparr>ir_oid = si_oid si, ir_current_tier = si_current_tier si, ir_intended_tier = si_intended_tier si,
     ir_movement_state = state_from_kernel (ms_byte (si_movement_state si)), ir_pin_state = pin_from_kernel (pin_byte (si_pin_state si)),
     ir_generation = si_cutover_gen si, ir_write_seq = si_write_seq si, ir_has_write_seq = True,
     ir_range_staged = rs_range_staged (si_rs si), ir_transaction_seq = si_transaction_seq si, ir_rel_path = rel, ir_current_tier_path = dir\<rparr>"
  using assms by (simp add: inspect_decode_def inspect_attrs_def Let_def inspect_attr_def attr_defs null_term_cstr le_word_le_bytes del: le_bytes.simps)

lemma attr_ok_sent [simp]:
  "attr_ok ATTR_POOL_UUID d \<longleftrightarrow> length d \<le> 16" "attr_ok ATTR_OBJECT_ID d \<longleftrightarrow> length d \<le> OID_LEN"
  "attr_ok ATTR_INTENDED_TIER d \<longleftrightarrow> length d = 1" "attr_ok ATTR_FORCE d \<longleftrightarrow> length d = 1"
  "attr_ok ATTR_TRANSACTION_SEQ d \<longleftrightarrow> length d = 8" "attr_ok ATTR_WRITE_SEQ d \<longleftrightarrow> length d = 8"
  "attr_ok ATTR_RECONCILE_REASON d \<longleftrightarrow> nla_valid (NLA_NUL_STRING 255) d"
  by (simp_all add: attr_ok_def genl_policy_def attr_defs OID_LEN_def)

lemma reason_valid: "length s \<le> 255 \<Longrightarrow> nla_valid (NLA_NUL_STRING 255) (cstr_bytes s)"
  by (simp add: cstr_bytes_def)

lemma policy_ok_request: "\<forall>(a, d) \<in> set as. attr_ok a d \<Longrightarrow> policy_ok (request c as bh)"
  by (force simp: policy_ok_def request_def dest: map_of_SomeD split: option.splits)

lemma request_dispatched:
  assumes "genl_ops env c = Some (adm, doit)" "\<forall>(a, d) \<in> set as. attr_ok a d"
  shows "genl_rcv env (request c as bh) w = doit (request c as bh) w"
  using policy_ok_request [OF assms(2), of c bh] assms(1) by (simp add: genl_rcv_def request_def)

lemma genl_ops_sent:
  "genl_ops env CMD_MOVE_PLAN = Some (True, doit_move_plan env)" "genl_ops env CMD_MOVE_CUTOVER = Some (True, doit_move_cutover env)"
  "genl_ops env CMD_MOVE_COMPLETE = Some (True, doit_move_complete env)" "genl_ops env CMD_MOVE_ROLLBACK = Some (True, doit_move_rollback env)"
  "genl_ops env CMD_INSPECT = Some (False, doit_inspect env)" "genl_ops env CMD_QUIESCE = Some (True, doit_quiesce)"
  "genl_ops env CMD_RECONCILE = Some (True, doit_reconcile)" "genl_ops env CMD_REVOKE_MAPPINGS = Some (True, doit_revoke_mappings env)"
  by (simp_all add: genl_ops_def cmd_defs)

text \<open>
  C31. The commands of the client reach the module as they were given. A plan, a cutover with or
  without a write sequence, a completion, a rollback and a revocation for a registered pool run
  exactly that command on the pool with the object, the tier and the numbers of the call; a
  quiesce and, with a reason of at most 255 characters, a reconcile set and clear the quiesced
  state; and an inspection answers with the state, the pin, the sequence numbers and the path of
  the object.
\<close>

theorem requests_reach_commands:
  assumes "\<not> nl_be (ce_nl env)" "length pool = 16" "length oid = OID_LEN" "sb_find pool w = Some b"
  shows "genl_rcv env (request CMD_MOVE_PLAN (move_plan_attrs pool oid dest seq force) bh) w
      = on_pool b w (movement_plan (ce_mv env b) oid dest seq force (nw_sb w b))
    \<and> genl_rcv env (request CMD_MOVE_CUTOVER (cutover_attrs pool oid seq ws) bh) w
      = on_pool b w (movement_cutover (ce_mv env b) oid seq (case ws of None \<Rightarrow> 0 | Some x \<Rightarrow> x) (ws \<noteq> None) (nw_sb w b))
    \<and> genl_rcv env (request CMD_MOVE_COMPLETE (cutover_attrs pool oid seq None) bh) w = on_pool b w (movement_complete (ce_mv env b) oid seq (nw_sb w b))
    \<and> genl_rcv env (request CMD_MOVE_ROLLBACK (cutover_attrs pool oid seq None) bh) w = on_pool b w (movement_rollback (ce_mv env b) oid seq (nw_sb w b))
    \<and> genl_rcv env (request CMD_REVOKE_MAPPINGS (revoke_attrs pool oid) bh) w = on_pool b w (revoke_mappings (ce_mv env b) oid (nw_sb w b))
    \<and> genl_rcv env (request CMD_QUIESCE (quiesce_attrs pool) bh) w
      = (Done, None, w\<lparr>nw_sb := (nw_sb w)(b := (nw_sb w b)\<lparr>sbi_quiesced := True\<rparr>)\<rparr>)
    \<and> (length reason \<le> 255 \<longrightarrow> (\<exists>w'. genl_rcv env (request CMD_RECONCILE (reconcile_attrs pool reason) bh) w = (Done, None, w')
        \<and> nw_sb w' b = clear_pool_mapping_quiesce ((nw_sb w b)\<lparr>sbi_quiesced := False\<rparr>)))
    \<and> (\<forall>r si s1 rel dir m w'. mv_resolve (ce_mv env b) oid (nw_sb w b) = (Some r, s1) \<and> sbi_inodes s1 r = Some si \<and> length (si_oid si) = OID_LEN
        \<and> inode_rel_path env b r si = Some rel \<and> char_of (0 :: nat) \<notin> set rel
        \<and> nl_dpath (ce_nl env) (t_lower_path (tier_at s1 (si_current_tier si))) = Some dir \<and> char_of (0 :: nat) \<notin> set dir
        \<and> genl_rcv env (request CMD_INSPECT (inspect_request_attrs pool oid) bh) w = (Done, Some m, w')
        \<longrightarrow> inspect_decode (gm_attrs m) =
            \<lparr>ir_oid = si_oid si, ir_current_tier = si_current_tier si, ir_intended_tier = si_intended_tier si,
             ir_movement_state = state_from_kernel (ms_byte (si_movement_state si)), ir_pin_state = pin_from_kernel (pin_byte (si_pin_state si)),
             ir_generation = si_cutover_gen si, ir_write_seq = si_write_seq si, ir_has_write_seq = True,
             ir_range_staged = rs_range_staged (si_rs si), ir_transaction_seq = si_transaction_seq si, ir_rel_path = rel,
             ir_current_tier_path = dir\<rparr>)"
proof -
  have be: "nl_be (ce_nl env) = False" using assms(1) by simp
  have len8: "le_word (take 8 (le_bytes 8 v @ x)) = v" for v :: u64 and x by (simp add: le_word_le_bytes del: le_bytes.simps)
  note go = resolve_pool_def request_def nla_read_def nla_get_u8_def nla_get_u64_def be len8 assms(2-4) attr_defs attr_ok_sent [unfolded attr_defs One_nat_def]
  have rcv: "genl_rcv env (request c as bh) w = doit (request c as bh) w"
    if "genl_ops env c = Some (adm, doit)" "\<forall>(a, d) \<in> set as. attr_ok a d" for c as adm doit
    by (rule request_dispatched [OF that])
  have "genl_rcv env (request CMD_MOVE_PLAN (move_plan_attrs pool oid dest seq force) bh) w
      = on_pool b w (movement_plan (ce_mv env b) oid dest seq force (nw_sb w b))"
    by (subst rcv [OF genl_ops_sent(1)]) (simp_all add: move_plan_attrs_def assms(2,3) doit_move_plan_def go del: le_bytes.simps)
  moreover have "genl_rcv env (request CMD_MOVE_CUTOVER (cutover_attrs pool oid seq ws) bh) w
      = on_pool b w (movement_cutover (ce_mv env b) oid seq (case ws of None \<Rightarrow> 0 | Some x \<Rightarrow> x) (ws \<noteq> None) (nw_sb w b))"
    by (subst rcv [OF genl_ops_sent(2)]; cases ws) (simp_all add: cutover_attrs_def assms(2,3) doit_move_cutover_def go del: le_bytes.simps)
  moreover have "genl_rcv env (request CMD_MOVE_COMPLETE (cutover_attrs pool oid seq None) bh) w
      = on_pool b w (movement_complete (ce_mv env b) oid seq (nw_sb w b))"
    by (subst rcv [OF genl_ops_sent(3)]) (simp_all add: cutover_attrs_def assms(2,3) doit_move_complete_def go del: le_bytes.simps)
  moreover have "genl_rcv env (request CMD_MOVE_ROLLBACK (cutover_attrs pool oid seq None) bh) w
      = on_pool b w (movement_rollback (ce_mv env b) oid seq (nw_sb w b))"
    by (subst rcv [OF genl_ops_sent(4)]) (simp_all add: cutover_attrs_def assms(2,3) doit_move_rollback_def go del: le_bytes.simps)
  moreover have "genl_rcv env (request CMD_REVOKE_MAPPINGS (revoke_attrs pool oid) bh) w = on_pool b w (revoke_mappings (ce_mv env b) oid (nw_sb w b))"
    by (subst rcv [OF genl_ops_sent(8)]) (simp_all add: revoke_attrs_def assms(2,3) doit_revoke_mappings_def go)
  moreover have "genl_rcv env (request CMD_QUIESCE (quiesce_attrs pool) bh) w
      = (Done, None, w\<lparr>nw_sb := (nw_sb w)(b := (nw_sb w b)\<lparr>sbi_quiesced := True\<rparr>)\<rparr>)"
    by (subst rcv [OF genl_ops_sent(6)]) (simp_all add: quiesce_attrs_def assms(2) doit_quiesce_def go)
  moreover have "\<exists>w'. genl_rcv env (request CMD_RECONCILE (reconcile_attrs pool reason) bh) w = (Done, None, w')
      \<and> nw_sb w' b = clear_pool_mapping_quiesce ((nw_sb w b)\<lparr>sbi_quiesced := False\<rparr>)" if "length reason \<le> 255"
    by (subst rcv [OF genl_ops_sent(7)])
      (use reason_valid [OF that] in \<open>simp_all add: reconcile_attrs_def assms(2) doit_reconcile_def go del: nla_valid.simps\<close>)
  moreover have "gm_attrs m = inspect_attrs env b r si s1"
    if "mv_resolve (ce_mv env b) oid (nw_sb w b) = (Some r, s1)" "sbi_inodes s1 r = Some si"
      "genl_rcv env (request CMD_INSPECT (inspect_request_attrs pool oid) bh) w = (Done, Some m, w')" for r s1 si m w'
  proof -
    have "genl_rcv env (request CMD_INSPECT (inspect_request_attrs pool oid) bh) w = doit_inspect env (request CMD_INSPECT (inspect_request_attrs pool oid) bh) w"
      by (rule rcv [OF genl_ops_sent(5)]) (simp add: inspect_request_attrs_def assms(2,3))
    moreover have "nla_read (request CMD_INSPECT (inspect_request_attrs pool oid) bh) ATTR_OBJECT_ID OID_LEN = Some oid"
        "resolve_pool (request CMD_INSPECT (inspect_request_attrs pool oid) bh) w = Ok b" by (simp_all add: inspect_request_attrs_def go)
    ultimately show ?thesis using that by (auto simp: doit_inspect_def Let_def put_attrs_def split: if_splits)
  qed
  ultimately show ?thesis using inspect_decode_attrs [OF assms(1)] by auto
qed

theorem events_roundtrip_witness:
  "\<exists>r m ev. emit_move_state ex_nl_env ex_pool ex_oid MS_SWITCHED 9 = (r, Some m) \<and> decode_event (\<lambda>_. None) m = Inr (Some ev)
     \<and> ev_move ev = Some \<lparr>me_oid = ex_oid, me_new_state = ''switched'', me_transaction_seq = 9\<rparr>"
proof -
  obtain r m where e: "emit_move_state ex_nl_env ex_pool ex_oid MS_SWITCHED 9 = (r, Some m)"
    by (simp add: emit_move_state_def send_event_def put_attrs_def multicast_send_def nla_total_size_def ex_nl_env_def ex_pool_def ex_oid_def)
  have "\<exists>ev. decode_event (\<lambda>_. None) m = Inr (Some ev) \<and> ev_pool_uuid ev = sbi_pool_uuid ex_pool
      \<and> ev_move ev = Some \<lparr>me_oid = ex_oid, me_new_state = state_from_kernel (ms_byte MS_SWITCHED), me_transaction_seq = 9\<rparr>"
    using events_roundtrip [of ex_nl_env ex_pool ex_oid "[]" MS_SWITCHED 9 r m] e by (simp add: ex_nl_env_def ex_pool_def ex_oid_def OID_LEN_def)
  with e show ?thesis by (auto simp: state_from_kernel_def)
qed

definition ex_ctl_env77 :: ctl_env where
  "ex_ctl_env77 = \<lparr>ce_nl = ex_nl_env, ce_mv = \<lambda>_. ex_env77\<rparr>"

theorem requests_reach_commands_witness:
  "fst (genl_rcv ex_ctl_env77 (request CMD_MOVE_PLAN (move_plan_attrs (replicate 16 1) ex_oid 0 9 False) (\<lambda>_. [])) ex_nl_world) = Done"
proof -
  have "genl_rcv ex_ctl_env77 (request CMD_MOVE_PLAN (move_plan_attrs (replicate 16 1) ex_oid 0 9 False) (\<lambda>_. [])) ex_nl_world
      = on_pool 0 ex_nl_world (movement_plan (ce_mv ex_ctl_env77 0) ex_oid 0 9 False (nw_sb ex_nl_world 0))"
    by (rule requests_reach_commands [THEN conjunct1])
      (simp_all add: ex_ctl_env77_def ex_nl_env_def ex_nl_world_def sb_find_def ex_pool_def ex_oid_def OID_LEN_def)
  then show ?thesis using ex_plan by (simp add: on_pool_def ex_ctl_env77_def ex_nl_world_def case_prod_beta)
qed

end
