(* ===== verification/Xattr.thy ===== *)
theory Xattr
  imports Namespace Movement_Protocol "HOL-Library.AList"
begin

text \<open>
  Extended attributes, access control lists, locks and leases (\<open>xattr.c\<close>, \<open>acl.c\<close>, \<open>lock.c\<close> and
  \<open>smoothfs_setlease\<close> of \<open>file.c\<close>). The attributes of a lower inode are an association list. The
  names \<open>trusted.smoothfs.oid\<close>, \<open>gen\<close>, \<open>fileid\<close>, \<open>lease\<close> and \<open>lun\<close> are answered from the inode, and
  \<open>lease\<close> and \<open>lun\<close> set the pin that keeps an object from being moved.
\<close>

section \<open>The attributes of the lower files\<close>

type_synonym lxattrs = "nat \<Rightarrow> (string \<times> bytes) list"

record xa_env =
  xv_inode :: "dentry \<Rightarrow> nat"
  xv_get_err :: "nat \<Rightarrow> string \<Rightarrow> errno option"
  xv_set_err :: "nat \<Rightarrow> string \<Rightarrow> errno option"
  xv_capable :: bool

definition XATTR_NAME_MAX :: nat where
  "XATTR_NAME_MAX = 255"

definition XATTR_CREATE :: u32 where "XATTR_CREATE = 1"
definition XATTR_REPLACE :: u32 where "XATTR_REPLACE = 2"

text \<open>
  A value given to a caller: without a buffer its length, with one the value, if the buffer is
  large enough. The result is the return value and what is in the buffer.
\<close>

definition xattr_serve :: "bytes \<Rightarrow> nat option \<Rightarrow> nat res \<times> bytes option" where
  "xattr_serve v buffer =
    (case buffer of
       None \<Rightarrow> (Ok (length v), None)
     | Some n \<Rightarrow> (if n < length v then (Err ERANGE, None) else (Ok (length v), Some v)))"

text \<open>The kernel's calls on a lower file, with the flags of \<open>setxattr\<close>.\<close>

definition vfs_getxattr :: "xa_env \<Rightarrow> dentry \<Rightarrow> string \<Rightarrow> nat option \<Rightarrow> lxattrs \<Rightarrow> nat res \<times> bytes option" where
  "vfs_getxattr env lower name buffer xs =
    (case xv_get_err env (xv_inode env lower) name of
       Some e \<Rightarrow> (Err e, None)
     | None \<Rightarrow>
        (case map_of (xs (xv_inode env lower)) name of
           None \<Rightarrow> (Err ENODATA, None)
         | Some v \<Rightarrow> xattr_serve v buffer))"

definition vfs_setxattr :: "xa_env \<Rightarrow> dentry \<Rightarrow> string \<Rightarrow> bytes \<Rightarrow> u32 \<Rightarrow> lxattrs \<Rightarrow> unit res \<times> lxattrs" where
  "vfs_setxattr env lower name v flags xs =
    (let n = xv_inode env lower; old = map_of (xs n) name
     in case xv_set_err env n name of
         Some e \<Rightarrow> (Err e, xs)
       | None \<Rightarrow>
          (if flags = XATTR_CREATE \<and> old \<noteq> None then (Err EEXIST, xs)
           else if flags = XATTR_REPLACE \<and> old = None then (Err ENODATA, xs)
           else (Done, xs(n := AList.update name v (xs n)))))"

definition vfs_removexattr :: "xa_env \<Rightarrow> dentry \<Rightarrow> string \<Rightarrow> lxattrs \<Rightarrow> unit res \<times> lxattrs" where
  "vfs_removexattr env lower name xs =
    (let n = xv_inode env lower
     in case xv_set_err env n name of
         Some e \<Rightarrow> (Err e, xs)
       | None \<Rightarrow> (if map_of (xs n) name = None then (Err ENODATA, xs) else (Done, xs(n := AList.delete name (xs n)))))"

section \<open>Handlers\<close>

text \<open>
  The lower dentry of a name, or of the inode when the name is gone. An inode without either has
  been torn down; the call on the null dentry faults.
\<close>

definition xattr_lower :: "dentry \<Rightarrow> inode_info \<Rightarrow> dentry option" where
  "xattr_lower d si =
    (case alias_lower d si of Some l \<Rightarrow> Some l | None \<Rightarrow> map_option p_dentry (si_lower_path si))"

datatype xattr_handler = XH_USER | XH_TRUSTED | XH_SECURITY

fun xh_prefix :: "xattr_handler \<Rightarrow> string" where
  "xh_prefix XH_USER = ''user.''"
| "xh_prefix XH_TRUSTED = ''trusted.''"
| "xh_prefix XH_SECURITY = ''security.''"

definition generic_xattr_get ::
  "xa_env \<Rightarrow> xattr_handler \<Rightarrow> dentry \<Rightarrow> inode_info \<Rightarrow> string \<Rightarrow> nat option \<Rightarrow> lxattrs \<Rightarrow> nat res \<times> bytes option" where
  "generic_xattr_get env h d si name buffer xs =
    (if XATTR_NAME_MAX + 1 \<le> length (xh_prefix h @ name) then (Err ENAMETOOLONG, None)
     else case xattr_lower d si of
         None \<Rightarrow> (Err EFAULT, None)
       | Some lower \<Rightarrow> vfs_getxattr env lower (xh_prefix h @ name) buffer xs)"

definition generic_xattr_set ::
  "xa_env \<Rightarrow> xattr_handler \<Rightarrow> dentry \<Rightarrow> inode_info \<Rightarrow> string \<Rightarrow> bytes option \<Rightarrow> u32 \<Rightarrow> lxattrs \<Rightarrow> unit res \<times> lxattrs" where
  "generic_xattr_set env h d si name val flags xs =
    (if XATTR_NAME_MAX + 1 \<le> length (xh_prefix h @ name) then (Err ENAMETOOLONG, xs)
     else case xattr_lower d si of
         None \<Rightarrow> (Err EFAULT, xs)
       | Some lower \<Rightarrow>
          (case val of
             None \<Rightarrow> vfs_removexattr env lower (xh_prefix h @ name) xs
           | Some v \<Rightarrow> vfs_setxattr env lower (xh_prefix h @ name) v flags xs))"

definition fileid_bytes :: "inode_info \<Rightarrow> bytes" where
  "fileid_bytes si = cpu_to_le64 (si_ino si) @ cpu_to_le32 (si_gen si)"

definition trusted_xattr_get ::
  "xa_env \<Rightarrow> dentry \<Rightarrow> inode_info \<Rightarrow> string \<Rightarrow> nat option \<Rightarrow> lxattrs \<Rightarrow> nat res \<times> bytes option" where
  "trusted_xattr_get env d si name buffer xs =
    (if name = ''smoothfs.oid'' \<and> si_oid si \<noteq> zero_oid then xattr_serve (si_oid si) buffer
     else if name = ''smoothfs.gen'' then xattr_serve (cpu_to_le32 (si_gen si)) buffer
     else if name = ''smoothfs.fileid'' then xattr_serve (fileid_bytes si) buffer
     else if name = ''smoothfs.lease'' then xattr_serve [if si_pin_state si = PIN_LEASE then 1 else 0] buffer
     else if name = ''smoothfs.lun'' then xattr_serve [if si_pin_state si = PIN_LUN then 1 else 0] buffer
     else generic_xattr_get env XH_TRUSTED d si name buffer xs)"

text \<open>
  The switch of a pin: one byte, zero or one, or a removal. A pin of another kind is left alone:
  setting is refused, clearing does nothing.
\<close>

definition pin_want :: "bytes option \<Rightarrow> bool res" where
  "pin_want val =
    (case val of
       None \<Rightarrow> Ok False
     | Some v \<Rightarrow> (if length v \<noteq> 1 then Err EINVAL else if hd v \<noteq> 0 \<and> hd v \<noteq> 1 then Err EINVAL else Ok (hd v = 1)))"

definition pin_switch :: "pin_state \<Rightarrow> bytes option \<Rightarrow> inode_info \<Rightarrow> unit res \<times> inode_info" where
  "pin_switch pin val si =
    (case pin_want val of
       Err e \<Rightarrow> (Err e, si)
     | Ok want \<Rightarrow>
        (if want
         then if si_pin_state si = PIN_NONE then (Done, si\<lparr>si_pin_state := pin\<rparr>)
              else if si_pin_state si \<noteq> pin then (Err EBUSY, si) else (Done, si)
         else if si_pin_state si = pin then (Done, si\<lparr>si_pin_state := PIN_NONE\<rparr>) else (Done, si)))"

definition trusted_xattr_set ::
  "xa_env \<Rightarrow> dentry \<Rightarrow> string \<Rightarrow> bytes option \<Rightarrow> u32 \<Rightarrow> inode_info \<Rightarrow> lxattrs \<Rightarrow> unit res \<times> inode_info \<times> lxattrs" where
  "trusted_xattr_set env d name val flags si xs =
    (if take 9 name = ''smoothfs.'' \<and> \<not> xv_capable env then (Err EPERM, si, xs)
     else if name = ''smoothfs.fileid'' then (Err EPERM, si, xs)
     else if name = ''smoothfs.lease'' then (case pin_switch PIN_LEASE val si of (e, si1) \<Rightarrow> (e, si1, xs))
     else if name = ''smoothfs.lun'' then (case pin_switch PIN_LUN val si of (e, si1) \<Rightarrow> (e, si1, xs))
     else case generic_xattr_set env XH_TRUSTED d si name val flags xs of (e, xs1) \<Rightarrow> (e, si, xs1))"

text \<open>The handler of a full name: the first whose prefix it has, and the rest of the name.\<close>

definition smoothfs_xattr_handlers :: "xattr_handler list" where
  "smoothfs_xattr_handlers = [XH_USER, XH_TRUSTED, XH_SECURITY]"

definition xattr_resolve_name :: "string \<Rightarrow> (xattr_handler \<times> string) res" where
  "xattr_resolve_name name =
    (case find (\<lambda>h. take (length (xh_prefix h)) name = xh_prefix h) smoothfs_xattr_handlers of
       None \<Rightarrow> Err EOPNOTSUPP
     | Some h \<Rightarrow> (case drop (length (xh_prefix h)) name of [] \<Rightarrow> Err EINVAL | rest \<Rightarrow> Ok (h, rest)))"

definition getxattr :: "xa_env \<Rightarrow> dentry \<Rightarrow> inode_info \<Rightarrow> string \<Rightarrow> nat option \<Rightarrow> lxattrs \<Rightarrow> nat res \<times> bytes option" where
  "getxattr env d si name buffer xs =
    (case xattr_resolve_name name of
       Err e \<Rightarrow> (Err e, None)
     | Ok (XH_TRUSTED, n) \<Rightarrow> trusted_xattr_get env d si n buffer xs
     | Ok (h, n) \<Rightarrow> generic_xattr_get env h d si n buffer xs)"

definition setxattr ::
  "xa_env \<Rightarrow> dentry \<Rightarrow> string \<Rightarrow> bytes option \<Rightarrow> u32 \<Rightarrow> inode_info \<Rightarrow> lxattrs \<Rightarrow> unit res \<times> inode_info \<times> lxattrs" where
  "setxattr env d name val flags si xs =
    (case xattr_resolve_name name of
       Err e \<Rightarrow> (Err e, si, xs)
     | Ok (XH_TRUSTED, n) \<Rightarrow> trusted_xattr_set env d n val flags si xs
     | Ok (h, n) \<Rightarrow> (case generic_xattr_set env h d si n val flags xs of (e, xs1) \<Rightarrow> (e, si, xs1)))"

definition listxattr :: "xa_env \<Rightarrow> dentry \<Rightarrow> inode_info \<Rightarrow> lxattrs \<Rightarrow> string list res" where
  "listxattr env d si xs =
    (case xattr_lower d si of None \<Rightarrow> Err EINVAL | Some lower \<Rightarrow> Ok (map fst (xs (xv_inode env lower))))"

section \<open>Access control lists\<close>

text \<open>
  The list of a lower inode, by kind. \<open>ae_cached\<close> answers in a path walk that must not block, and
  \<open>ae_set\<close> is the kernel's \<open>vfs_set_acl\<close> on the lower file.
\<close>

datatype acl_type = ACL_TYPE_ACCESS | ACL_TYPE_DEFAULT

record acl_env =
  ae_posixacl :: "dentry \<Rightarrow> bool"
  ae_cached :: "dentry \<Rightarrow> acl_type \<Rightarrow> bytes option res"
  ae_get :: "dentry \<Rightarrow> acl_type \<Rightarrow> bytes option res"
  ae_set :: "dentry \<Rightarrow> acl_type \<Rightarrow> bytes option \<Rightarrow> unit res"

definition get_inode_acl :: "acl_env \<Rightarrow> path \<Rightarrow> acl_type \<Rightarrow> bool \<Rightarrow> bytes option res" where
  "get_inode_acl env lower ty rcu =
    (if \<not> ae_posixacl env (p_dentry lower) then Ok None
     else if rcu then ae_cached env (p_dentry lower) ty
     else ae_get env (p_dentry lower) ty)"

definition set_acl ::
  "acl_env \<Rightarrow> iget_env \<Rightarrow> dentry \<Rightarrow> bytes option \<Rightarrow> acl_type \<Rightarrow> inode_info \<Rightarrow> unit res \<times> inode_info" where
  "set_acl env ig d acl ty si =
    (case xattr_lower d si of
       None \<Rightarrow> (Err ESTALE, si)
     | Some lower \<Rightarrow>
        (case ae_set env lower ty acl of
           Err e \<Rightarrow> (Err e, si)
         | Ok _ \<Rightarrow> (Done, copy_attrs ig lower si)))"

section \<open>Locks and leases\<close>

text \<open>
  A lock taken through \<open>smoothfs_flock\<close> goes to the lower file if that implements locks, else it is
  kept on the file itself. \<open>lk_lower\<close> is the lower file's operation, if it has one, and \<open>lk_self\<close>
  is \<open>locks_lock_file_wait\<close>. A descriptor whose lower file is missing faults.
\<close>

record lock_env =
  lk_lower :: "open_file \<Rightarrow> (nat \<Rightarrow> unit res) option"
  lk_self :: "nat \<Rightarrow> unit res"

definition flock :: "lock_env \<Rightarrow> lower_env \<Rightarrow> nat \<Rightarrow> file_info option \<Rightarrow> inode_info \<Rightarrow> unit res \<times> file_info option \<times> inode_info" where
  "flock env lenv cmd fio si =
    (case lower_file lenv fio si of
       (Err e, fs) \<Rightarrow> (Err e, fs)
     | (Ok None, fs) \<Rightarrow> (Err EFAULT, fs)
     | (Ok (Some lf), fs) \<Rightarrow> (case lk_lower env lf of Some f \<Rightarrow> (f cmd, fs) | None \<Rightarrow> (lk_self env cmd, fs)))"

datatype lease_arg = F_RDLCK | F_WRLCK | F_UNLCK

text \<open>Delegations and layouts are refused: only a lease proper may be set. \<open>lease\<close> is its flag \<open>FL_LEASE\<close>.\<close>

definition setlease :: "(lease_arg \<Rightarrow> unit res) \<Rightarrow> lease_arg \<Rightarrow> bool option \<Rightarrow> unit res" where
  "setlease generic_setlease arg lease =
    (if arg \<noteq> F_UNLCK \<and> lease \<noteq> Some True then Err EINVAL else generic_setlease arg)"

section \<open>What the attributes of an inode can do\<close>

record xattr_call =
  xc_env :: xa_env
  xc_dentry :: dentry
  xc_name :: string
  xc_val :: "bytes option"
  xc_flags :: u32

definition xattr_step :: "xattr_call \<Rightarrow> inode_info \<times> lxattrs \<Rightarrow> inode_info \<times> lxattrs" where
  "xattr_step c = (\<lambda>(si, xs). snd (setxattr (xc_env c) (xc_dentry c) (xc_name c) (xc_val c) (xc_flags c) si xs))"

abbreviation xattr_run :: "xattr_call list \<Rightarrow> inode_info \<times> lxattrs \<Rightarrow> inode_info \<times> lxattrs" where
  "xattr_run \<equiv> fold xattr_step"

abbreviation lease_name :: string where "lease_name \<equiv> ''trusted.smoothfs.lease''"
abbreviation lun_name :: string where "lun_name \<equiv> ''trusted.smoothfs.lun''"
abbreviation fileid_name :: string where "fileid_name \<equiv> ''trusted.smoothfs.fileid''"

lemma resolve_trusted [simp]: "n \<noteq> [] \<Longrightarrow> xattr_resolve_name (''trusted.'' @ n) = Ok (XH_TRUSTED, n)"
  by (cases n) (simp_all add: xattr_resolve_name_def smoothfs_xattr_handlers_def)

lemmas resolve_reserved [simp] =
  resolve_trusted [of "''smoothfs.lease''", simplified] resolve_trusted [of "''smoothfs.lun''", simplified]
  resolve_trusted [of "''smoothfs.fileid''", simplified] resolve_trusted [of "''smoothfs.oid''", simplified]

lemma resolve_trustedD:
  assumes "xattr_resolve_name name = Ok (XH_TRUSTED, n)"
  shows "name = ''trusted.'' @ n"
proof -
  from assms have f: "find (\<lambda>h. take (length (xh_prefix h)) name = xh_prefix h) smoothfs_xattr_handlers = Some XH_TRUSTED"
      "drop (length (xh_prefix XH_TRUSTED)) name = n"
    unfolding xattr_resolve_name_def by (auto split: option.splits list.splits)
  then have "take (length (xh_prefix XH_TRUSTED)) name = xh_prefix XH_TRUSTED" by (auto simp only: find_Some_iff)
  with f(2) show ?thesis by (metis append_take_drop_id xh_prefix.simps(2))
qed

lemma setxattr_reserved:
  "xv_capable env \<Longrightarrow> setxattr env d lease_name val flags si xs = (case pin_switch PIN_LEASE val si of (e, s) \<Rightarrow> (e, s, xs))"
  "xv_capable env \<Longrightarrow> setxattr env d lun_name val flags si xs = (case pin_switch PIN_LUN val si of (e, s) \<Rightarrow> (e, s, xs))"
  by (simp_all add: setxattr_def trusted_xattr_set_def)

text \<open>A call changes no field of the inode but the pin, and the pin only between unset and the named one.\<close>

lemma pin_switch_pin:
  assumes "pin_switch pin val si = (e, si')"
  shows "si' = si\<lparr>si_pin_state := si_pin_state si'\<rparr>
    \<and> (si_pin_state si' = si_pin_state si
       \<or> e = Done \<and> pin_want val = Ok True \<and> si_pin_state si = PIN_NONE \<and> si_pin_state si' = pin
       \<or> e = Done \<and> pin_want val = Ok False \<and> si_pin_state si = pin \<and> si_pin_state si' = PIN_NONE)"
  using assms by (auto simp: pin_switch_def split: sum.splits if_splits)

lemma setxattr_pin:
  assumes "setxattr env d name val flags si xs = (e, si', xs')"
  shows "si' = si\<lparr>si_pin_state := si_pin_state si'\<rparr>
    \<and> (si_pin_state si' = si_pin_state si
       \<or> e = Done \<and> xs' = xs \<and> xv_capable env
         \<and> (\<exists>pin. (pin = PIN_LEASE \<and> name = lease_name \<or> pin = PIN_LUN \<and> name = lun_name)
              \<and> (pin_want val = Ok True \<and> si_pin_state si = PIN_NONE \<and> si_pin_state si' = pin
                 \<or> pin_want val = Ok False \<and> si_pin_state si = pin \<and> si_pin_state si' = PIN_NONE)))"
proof (cases "xattr_resolve_name name")
  case (Inr hn)
  then obtain h n where r: "xattr_resolve_name name = Ok (h, n)" by (cases hn) simp
  show ?thesis
  proof (cases h)
    case XH_TRUSTED
    with r have n: "name = ''trusted.'' @ n" using resolve_trustedD by simp
    from assms r XH_TRUSTED have "trusted_xattr_set env d n val flags si xs = (e, si', xs')" by (simp add: setxattr_def)
    then show ?thesis
      using n by (auto simp: trusted_xattr_set_def split: if_splits prod.splits dest!: pin_switch_pin)
  qed (use assms r in \<open>auto simp: setxattr_def split: prod.splits\<close>)
qed (use assms in \<open>simp add: setxattr_def\<close>)

definition pin_name :: "pin_state \<Rightarrow> string \<Rightarrow> bool" where
  "pin_name pin nm \<longleftrightarrow> pin = PIN_LUN \<and> nm = lun_name \<or> pin = PIN_LEASE \<and> nm = lease_name"

definition clears :: "string \<Rightarrow> xattr_call \<Rightarrow> bool" where
  "clears nm c \<longleftrightarrow> xc_name c = nm \<and> pin_want (xc_val c) = Ok False"

lemma xattr_step_keeps:
  assumes "xattr_step c (si, xs) = (si', xs')"
  shows "si' = si\<lparr>si_pin_state := si_pin_state si'\<rparr>"
    and "pin_name pin nm \<Longrightarrow> si_pin_state si = pin \<Longrightarrow> \<not> clears nm c \<Longrightarrow> si_pin_state si' = pin"
proof -
  obtain e where "setxattr (xc_env c) (xc_dentry c) (xc_name c) (xc_val c) (xc_flags c) si xs = (e, si', xs')"
    using assms by (cases "setxattr (xc_env c) (xc_dentry c) (xc_name c) (xc_val c) (xc_flags c) si xs") (simp add: xattr_step_def)
  note p = setxattr_pin [OF this]
  show "si' = si\<lparr>si_pin_state := si_pin_state si'\<rparr>" using p by blast
  show "pin_name pin nm \<Longrightarrow> si_pin_state si = pin \<Longrightarrow> \<not> clears nm c \<Longrightarrow> si_pin_state si' = pin"
    using p by (auto simp: pin_name_def clears_def)
qed

lemma xattr_run_keeps: "xattr_run cs (si, xs) = (si', xs') \<Longrightarrow> si' = si\<lparr>si_pin_state := si_pin_state si'\<rparr>"
proof (induction cs arbitrary: si xs)
  case (Cons c cs)
  obtain s1 x1 where st: "xattr_step c (si, xs) = (s1, x1)" by fastforce
  have 1: "si' = s1\<lparr>si_pin_state := si_pin_state si'\<rparr>" using Cons.IH [of s1 x1] Cons.prems st by simp
  show ?case by (subst 1, subst xattr_step_keeps(1) [OF st]) simp
qed simp

lemma xattr_run_keeps_pin:
  "xattr_run cs (si, xs) = (si', xs') \<Longrightarrow> pin_name pin nm \<Longrightarrow> si_pin_state si = pin \<Longrightarrow> \<forall>c \<in> set cs. \<not> clears nm c
    \<Longrightarrow> si_pin_state si' = pin"
proof (induction cs arbitrary: si xs)
  case (Cons c cs)
  obtain s1 x1 where st: "xattr_step c (si, xs) = (s1, x1)" by fastforce
  then have "si_pin_state s1 = pin" using xattr_step_keeps(2) [OF st] Cons.prems by simp
  then show ?case using Cons.IH [of s1 x1] Cons.prems st by simp
qed simp

lemma pinned_not_planned:
  assumes "mv_resolve env oid s = (Some r, s1)" "sbi_inodes s1 r = Some si" "si_pin_state si \<noteq> PIN_NONE"
    "\<not> (force \<and> si_pin_state si = PIN_LEASE)"
  shows "\<exists>e s'. movement_plan env oid dest seq force s = (Err e, s', []) \<and> (s' = s \<or> s' = s1)"
  using assms by (auto simp: movement_plan_def can_move_def)

text \<open>
  C32. A pin set through an attribute holds until the same attribute clears it. After
  \<open>trusted.smoothfs.lun\<close> has been set to 1, and whatever attributes are set or removed after that
  without switching it off, the object cannot be planned for a move, forced or not; the same holds
  for \<open>trusted.smoothfs.lease\<close> and a plan that is not forced. Nothing else of the inode changes, so
  its object id and its file id read as before.
\<close>

theorem xattr_pin_refuses_moves:
  assumes "pin_name pin nm"
    "setxattr xe d nm (Some [1]) flags si xs = (Done, si1, xs1)" "xattr_run cs (si1, xs1) = (si2, xs2)"
    "\<forall>c \<in> set cs. \<not> clears nm c"
    "mv_resolve env oid s = (Some r, s1)" "sbi_inodes s1 r = Some si2"
  shows "(\<not> (force \<and> pin = PIN_LEASE) \<longrightarrow>
        (\<exists>e s'. movement_plan env oid dest seq force s = (Err e, s', []) \<and> (s' = s \<or> s' = s1)))
    \<and> getxattr xe d si2 nm (Some 1) xs2 = (Ok 1, Some [1])
    \<and> getxattr xe d si2 fileid_name (Some 12) xs2 = (Ok 12, Some (fileid_bytes si))
    \<and> si2 = si\<lparr>si_pin_state := pin\<rparr>"
proof -
  have nm: "nm = lun_name \<and> pin = PIN_LUN \<or> nm = lease_name \<and> pin = PIN_LEASE" using assms(1) by (auto simp: pin_name_def)
  then have cap: "xv_capable xe" using assms(2) by (auto simp: setxattr_def trusted_xattr_set_def split: if_splits)
  then have p1: "si1 = si\<lparr>si_pin_state := pin\<rparr>"
    using nm assms(2) by (auto simp: setxattr_reserved pin_switch_def pin_want_def split: if_splits prod.splits)
  then have p2: "si_pin_state si2 = pin" using xattr_run_keeps_pin [OF assms(3,1) _ assms(4)] by simp
  have si2: "si2 = si\<lparr>si_pin_state := pin\<rparr>" by (subst xattr_run_keeps [OF assms(3)], subst p1) (simp add: p2)
  have "\<exists>e s'. movement_plan env oid dest seq force s = (Err e, s', []) \<and> (s' = s \<or> s' = s1)"
    if "\<not> (force \<and> pin = PIN_LEASE)"
    using pinned_not_planned [OF assms(5,6)] p2 that nm by auto
  moreover have "getxattr xe d si2 nm (Some 1) xs2 = (Ok 1, Some [1])"
    using nm p2 by (auto simp: getxattr_def trusted_xattr_get_def xattr_serve_def)
  moreover have "getxattr xe d si2 fileid_name (Some 12) xs2 = (Ok 12, Some (fileid_bytes si))"
    unfolding si2 by (simp add: getxattr_def trusted_xattr_get_def xattr_serve_def fileid_bytes_def)
  ultimately show ?thesis using si2 by blast
qed

section \<open>Concrete instances\<close>

definition ex_xa_env :: xa_env where
  "ex_xa_env = \<lparr>xv_inode = \<lambda>d. d, xv_get_err = \<lambda>_ _. None, xv_set_err = \<lambda>_ _. None, xv_capable = True\<rparr>"

definition ex_xattr_calls :: "xattr_call list" where
  "ex_xattr_calls = [\<lparr>xc_env = ex_xa_env, xc_dentry = 3, xc_name = lease_name, xc_val = None, xc_flags = 0\<rparr>]"

lemma ex_set_lun: "setxattr ex_xa_env d lun_name (Some [1]) 0 ex_inode xs = (Done, ex_inode\<lparr>si_pin_state := PIN_LUN\<rparr>, xs)"
  by (simp add: setxattr_reserved ex_xa_env_def pin_switch_def pin_want_def ex_inode_def)

theorem xattr_pin_refuses_moves_witness:
  "\<exists>e s'. movement_plan ex_move_env ex_oid 0 9 True (ex_pool\<lparr>sbi_inodes := [77 \<mapsto> ex_inode\<lparr>si_pin_state := PIN_LUN\<rparr>]\<rparr>) = (Err e, s', [])"
proof -
  let ?i = "ex_inode\<lparr>si_pin_state := PIN_LUN\<rparr>"
  let ?s = "ex_pool\<lparr>sbi_inodes := [77 \<mapsto> ?i]\<rparr>"
  have "xattr_run ex_xattr_calls (?i, \<lambda>_. []) = (?i, \<lambda>_. [])"
    by (simp add: ex_xattr_calls_def xattr_step_def setxattr_reserved ex_xa_env_def pin_switch_def pin_want_def)
  moreover have "\<forall>c \<in> set ex_xattr_calls. \<not> clears lun_name c" by (simp add: ex_xattr_calls_def clears_def)
  moreover have "mv_resolve ex_move_env ex_oid ?s = (Some 77, ?s)" "sbi_inodes ?s 77 = Some ?i"
    by (simp_all add: ex_move_env_def lookup_oid_def ex_pool_def)
  moreover have "pin_name PIN_LUN lun_name" by (simp add: pin_name_def)
  ultimately show ?thesis
    using xattr_pin_refuses_moves [of PIN_LUN lun_name ex_xa_env 3 0 ex_inode "\<lambda>_. []" ?i "\<lambda>_. []" ex_xattr_calls ?i "\<lambda>_. []"
        ex_move_env ex_oid ?s 77 ?s True 0 9] ex_set_lun by blast
qed

text \<open>
  The pin is looked at when a move is planned and not again: a LUN pin set on an object whose move
  is planned already does not stop the cutover.
\<close>

lemma pin_after_plan_ignored:
  assumes "movement_plan ex_env77 ex_oid 0 9 False ex_pool = (Done, s1, fx1)"
  shows "\<exists>si si'. sbi_inodes s1 77 = Some si \<and> setxattr ex_xa_env 3 lun_name (Some [1]) 0 si (\<lambda>_. []) = (Done, si', \<lambda>_. [])
    \<and> si_pin_state si' = PIN_LUN \<and> fst (movement_cutover ex_env77 ex_oid 9 0 True (upd_inode 77 (\<lambda>_. si') s1)) = Done"
proof -
  have s1: "s1 = snd (log_move ex_env77 ex_oid MS_PLAN_ACCEPTED 1 0 False
      (upd_inode 77 (\<lambda>i. i\<lparr>si_mappings_quiesced := False, si_intended_tier := 0, si_movement_state := MS_PLAN_ACCEPTED,
         si_transaction_seq := 9\<rparr>) ex_pool))"
    using assms by (simp add: movement_plan_def ex_env77_def ex_move_env_def ex_defs can_move_def Let_def)
  define si where "si = ex_inode\<lparr>si_mappings_quiesced := False, si_intended_tier := 0, si_movement_state := MS_PLAN_ACCEPTED,
         si_transaction_seq := 9\<rparr>"
  with s1 have si: "sbi_inodes s1 77 = Some si" "si_pin_state si = PIN_NONE"
    by (simp_all add: ex_pool_def ex_inode_def upd_inode_def)
  have "setxattr ex_xa_env 3 lun_name (Some [1]) 0 si (\<lambda>_. []) = (Done, si\<lparr>si_pin_state := PIN_LUN\<rparr>, \<lambda>_. [])"
    using si(2) by (simp add: setxattr_reserved ex_xa_env_def pin_switch_def pin_want_def)
  moreover have "fst (movement_cutover ex_env77 ex_oid 9 0 True (upd_inode 77 (\<lambda>_. si\<lparr>si_pin_state := PIN_LUN\<rparr>) s1)) = Done"
    by (simp add: s1 si_def movement_cutover_def cutover_begin_def drain_writers_def cutover_finish_def ex_env77_def ex_move_env_def
        ex_defs current_rel_path_def resolve_cutover_dest_def cutover_parent_def ms_precutover_def
        split_last_slash_def persist_identity_def write_identity_def Let_def)
  ultimately show ?thesis using si(1) by simp
qed

end
