(* ===== verification/Samba.thy ===== *)
theory Samba
  imports Xattr
begin

text \<open>
  The Samba module (\<open>samba-vfs/vfs_smoothfs.c\<close>). It keeps, per connection, whether the share is on
  smoothfs, the descriptor of its fanotify watcher and a list from inode numbers to generations.
  Its attribute calls on a share of the pool run the handlers of theory Xattr. What the rest of
  Samba and the C library answer is in \<open>smb_env\<close>: the next module of the stack, the configuration,
  the fanotify and event calls.
\<close>

section \<open>State\<close>

text \<open>\<open>struct file_id\<close>, and the fields of a stat buffer the module reads.\<close>

record file_id =
  fid_dev :: u64
  fid_ino :: u64
  fid_extid :: u64

record stat_ex =
  st_dev :: u64
  st_ino :: u64
  st_reg :: bool

record connect_data =
  cd_is_smoothfs :: bool
  cd_fan_fd :: int
  cd_fan_fde :: bool
  cd_fileids :: "(u64 \<times> u32) list"
  cd_stable_fileid :: bool

text \<open>An open file of the server: the file id it was opened with, its oplock and its lease.\<close>

record fsp =
  fs_id :: nat
  fs_fid :: file_id
  fs_dentry :: dentry
  fs_inode :: iref
  fs_oplock :: bool
  fs_lease :: bool

record fan_event =
  fe_fd :: int
  fe_pid :: int

text \<open>
  The world of one server process: its open files in the order they are found, the breaks it
  posted, its descriptors, and the inodes of the pool with the attributes of the lower files.
\<close>

record smb_world =
  sw_fsps :: "fsp list"
  sw_breaks :: "nat list"
  sw_fds :: "int list"
  sw_inodes :: "iref \<rightharpoonup> inode_info"
  sw_xs :: lxattrs

record smb_env =
  sm_xa :: xa_env
  sm_pid :: int
  sm_path :: "string option"
  sm_probe :: "string \<Rightarrow> nat res"
  sm_parm :: "string \<Rightarrow> bool"
  sm_alloc :: bool
  sm_set_data :: bool
  sm_next_connect :: "unit res"
  sm_next_setlease :: "fsp \<Rightarrow> lease_arg \<Rightarrow> unit res"
  sm_next_fstat :: "fsp \<Rightarrow> stat_ex res"
  sm_next_file_id :: "stat_ex \<Rightarrow> file_id"
  sm_fanotify_init :: "int res"
  sm_getfl :: "unit res"
  sm_setfl :: "unit res"
  sm_mark :: "string \<Rightarrow> unit res"
  sm_tevent_add_fd :: bool
  sm_fstat :: "int \<Rightarrow> stat_ex res"
  sm_readlink :: "int \<Rightarrow> bool"
  sm_event_file :: "int \<Rightarrow> dentry \<times> iref"
  sm_read :: "fan_event list res"

definition SMOOTHFS_LEASE_XATTR :: string where
  "SMOOTHFS_LEASE_XATTR = ''trusted.smoothfs.lease''"

definition SMOOTHFS_FILEID_XATTR :: string where
  "SMOOTHFS_FILEID_XATTR = ''trusted.smoothfs.fileid''"

definition SMOOTHFS_FILEID_XATTR_LEN :: nat where
  "SMOOTHFS_FILEID_XATTR_LEN = 12"

text \<open>An attribute of a file of the share, set or removed through the kernel.\<close>

definition kernel_setxattr :: "smb_env \<Rightarrow> dentry \<Rightarrow> iref \<Rightarrow> string \<Rightarrow> bytes option \<Rightarrow> smb_world \<Rightarrow> unit res \<times> smb_world" where
  "kernel_setxattr env d r name val w =
    (case sw_inodes w r of
       None \<Rightarrow> (Err ENOENT, w)
     | Some si \<Rightarrow>
        (case setxattr (sm_xa env) d name val 0 si (sw_xs w) of
           (e, si1, xs1) \<Rightarrow> (e, w\<lparr>sw_inodes := (sw_inodes w)(r \<mapsto> si1), sw_xs := xs1\<rparr>)))"

section \<open>Connecting\<close>

definition probe_lower :: "smb_env \<Rightarrow> bool" where
  "probe_lower env =
    (case sm_path env of
       None \<Rightarrow> False
     | Some p \<Rightarrow> (if p = [] then False else case sm_probe env p of Ok _ \<Rightarrow> True | Err _ \<Rightarrow> False))"

definition setup_fanotify :: "smb_env \<Rightarrow> connect_data \<Rightarrow> smb_world \<Rightarrow> connect_data \<times> smb_world" where
  "setup_fanotify env d w =
    (let d0 = d\<lparr>cd_fan_fd := -1, cd_fan_fde := False\<rparr>
     in if \<not> cd_is_smoothfs d then (d0, w)
        else case sm_path env of
            None \<Rightarrow> (d0, w)
          | Some p \<Rightarrow>
             (if p = [] then (d0, w)
              else case sm_fanotify_init env of
                  Err _ \<Rightarrow> (d0, w)
                | Ok fd \<Rightarrow>
                   (let w1 = w\<lparr>sw_fds := fd # sw_fds w\<rparr>; closed = w1\<lparr>sw_fds := remove1 fd (sw_fds w1)\<rparr>
                    in if sm_getfl env \<noteq> Done \<or> sm_setfl env \<noteq> Done then (d0, closed)
                       else if sm_mark env p \<noteq> Done then (d0, closed)
                       else if \<not> sm_tevent_add_fd env then (d0, closed)
                       else (d0\<lparr>cd_fan_fd := fd, cd_fan_fde := True\<rparr>, w1))))"

definition connect_data_destructor :: "connect_data \<Rightarrow> smb_world \<Rightarrow> smb_world" where
  "connect_data_destructor d w = (if 0 \<le> cd_fan_fd d then w\<lparr>sw_fds := remove1 (cd_fan_fd d) (sw_fds w)\<rparr> else w)"

text \<open>
  The memory of a connection is zeroed, so its descriptor is 0 until the watcher is set up; when
  the data cannot be attached to the handle it stays so.
\<close>

definition connect :: "smb_env \<Rightarrow> smb_world \<Rightarrow> unit res \<times> connect_data option \<times> smb_world" where
  "connect env w =
    (case sm_next_connect env of
       Err e \<Rightarrow> (Err e, None, w)
     | Ok _ \<Rightarrow>
        (if \<not> sm_alloc env then (Err ENOMEM, None, w)
         else let d = \<lparr>cd_is_smoothfs = probe_lower env, cd_fan_fd = 0, cd_fan_fde = False, cd_fileids = [],
                       cd_stable_fileid = sm_parm env ''stable fileid''\<rparr>
           in if \<not> sm_set_data env then (Err EOPNOTSUPP, Some d, w)
              else if sm_parm env ''lease watcher''
              then case setup_fanotify env d w of (d1, w1) \<Rightarrow> (Done, Some d1, w1)
              else (Done, Some (d\<lparr>cd_fan_fd := -1\<rparr>), w)))"

section \<open>File ids\<close>

fun fileid_update :: "u64 \<Rightarrow> u32 \<Rightarrow> (u64 \<times> u32) list \<Rightarrow> (u64 \<times> u32) list option" where
  "fileid_update i g [] = None"
| "fileid_update i g ((i', g') # es) =
    (if i' = i then Some ((i', g) # es) else map_option ((#) (i', g')) (fileid_update i g es))"

definition cache_fileid :: "bool \<Rightarrow> bytes \<Rightarrow> connect_data \<Rightarrow> connect_data" where
  "cache_fileid alloc blob d =
    (let i = le64_to_cpu (take 8 blob); g = le32_to_cpu (take 4 (drop 8 blob))
     in case fileid_update i g (cd_fileids d) of
         Some es \<Rightarrow> d\<lparr>cd_fileids := es\<rparr>
       | None \<Rightarrow> (if \<not> alloc then d else d\<lparr>cd_fileids := (i, g) # cd_fileids d\<rparr>))"

definition smb_fstat :: "smb_env \<Rightarrow> connect_data \<Rightarrow> fsp \<Rightarrow> smb_world \<Rightarrow> stat_ex res \<times> connect_data" where
  "smb_fstat env d f w =
    (case sm_next_fstat env f of
       Err e \<Rightarrow> (Err e, d)
     | Ok st \<Rightarrow>
        (if \<not> cd_is_smoothfs d \<or> \<not> cd_stable_fileid d then (Ok st, d)
         else case sw_inodes w (fs_inode f) of
             None \<Rightarrow> (Ok st, d)
           | Some si \<Rightarrow>
              (case getxattr (sm_xa env) (fs_dentry f) si SMOOTHFS_FILEID_XATTR (Some SMOOTHFS_FILEID_XATTR_LEN) (sw_xs w) of
                 (Ok n, Some blob) \<Rightarrow> (Ok st, if n = SMOOTHFS_FILEID_XATTR_LEN then cache_fileid (sm_alloc env) blob d else d)
               | _ \<Rightarrow> (Ok st, d))))"

definition file_id_create :: "smb_env \<Rightarrow> connect_data \<Rightarrow> stat_ex \<Rightarrow> file_id" where
  "file_id_create env d st =
    (let key = sm_next_file_id env st
     in if \<not> cd_is_smoothfs d \<or> \<not> cd_stable_fileid d then key
        else case find (\<lambda>e. fst e = st_ino st) (cd_fileids d) of
            None \<Rightarrow> key
          | Some e \<Rightarrow> key\<lparr>fid_extid := ucast (snd e)\<rparr>)"

section \<open>Leases\<close>

definition linux_setlease :: "smb_env \<Rightarrow> connect_data \<Rightarrow> fsp \<Rightarrow> lease_arg \<Rightarrow> smb_world \<Rightarrow> unit res \<times> smb_world" where
  "linux_setlease env d f ty w =
    (case sm_next_setlease env f ty of
       Err e \<Rightarrow> (Err e, w)
     | Ok _ \<Rightarrow>
        (if \<not> cd_is_smoothfs d then (Done, w)
         else if ty = F_UNLCK then (Done, snd (kernel_setxattr env (fs_dentry f) (fs_inode f) SMOOTHFS_LEASE_XATTR None w))
         else (Done, snd (kernel_setxattr env (fs_dentry f) (fs_inode f) SMOOTHFS_LEASE_XATTR (Some [1]) w))))"

text \<open>
  One event of the watcher. The files of the process with the event's file id that hold an oplock
  or a lease get a break, and the lease pin is dropped.
\<close>

definition fanotify_event :: "smb_env \<Rightarrow> connect_data \<Rightarrow> fan_event \<Rightarrow> smb_world \<Rightarrow> smb_world" where
  "fanotify_event env d ev w =
    (if fe_fd ev < 0 then w
     else if fe_pid ev = sm_pid env then w
     else case sm_fstat env (fe_fd ev) of
         Err _ \<Rightarrow> w
       | Ok st \<Rightarrow>
          (if \<not> st_reg st then w
           else let fid = file_id_create env d st;
                    w1 = w\<lparr>sw_breaks := sw_breaks w
                             @ map fs_id (filter (\<lambda>f. fs_fid f = fid \<and> (fs_oplock f \<or> fs_lease f)) (sw_fsps w))\<rparr>
             in if \<not> sm_readlink env (fe_fd ev) then w1
                else case sm_event_file env (fe_fd ev) of
                    (de, r) \<Rightarrow> snd (kernel_setxattr env de r SMOOTHFS_LEASE_XATTR None w1)))"

text \<open>The handler closes the descriptor of every event it has read.\<close>

fun fanotify_events :: "smb_env \<Rightarrow> connect_data \<Rightarrow> fan_event list \<Rightarrow> smb_world \<Rightarrow> smb_world" where
  "fanotify_events env d [] w = w"
| "fanotify_events env d (ev # evs) w =
    (let w1 = fanotify_event env d ev w;
         w2 = (if 0 \<le> fe_fd ev then w1\<lparr>sw_fds := remove1 (fe_fd ev) (sw_fds w1)\<rparr> else w1)
     in fanotify_events env d evs w2)"

definition fanotify_handler :: "smb_env \<Rightarrow> connect_data \<Rightarrow> smb_world \<Rightarrow> smb_world" where
  "fanotify_handler env d w =
    (case sm_read env of
       Err _ \<Rightarrow> w
     | Ok evs \<Rightarrow> fanotify_events env d evs (w\<lparr>sw_fds := map fe_fd (filter (\<lambda>e. 0 \<le> fe_fd e) evs) @ sw_fds w\<rparr>))"

section \<open>File ids are stable\<close>

lemma fileid_update_None: "fileid_update i g es = None \<longleftrightarrow> map_of es i = None"
  by (induction i g es rule: fileid_update.induct) auto

lemma fileid_update_Some: "fileid_update i g es = Some es' \<Longrightarrow> map_of es' = (map_of es)(i \<mapsto> g)"
  by (induction i g es arbitrary: es' rule: fileid_update.induct) (auto split: if_splits simp: fun_upd_twist)

lemma fileid_blob:
  "le64_to_cpu (take 8 (fileid_bytes si)) = si_ino si" "le32_to_cpu (take 4 (drop 8 (fileid_bytes si))) = si_gen si"
  by (simp_all add: fileid_bytes_def del: le_bytes.simps)

lemma cache_fileid_map:
  "map_of (cd_fileids (cache_fileid True (fileid_bytes si) d)) = (map_of (cd_fileids d))(si_ino si \<mapsto> si_gen si)"
  unfolding cache_fileid_def fileid_blob Let_def
  by (auto simp: fileid_update_None dest: fileid_update_Some split: option.split)

lemma cache_fileid_frame [simp]:
  "cd_is_smoothfs (cache_fileid a b d) = cd_is_smoothfs d" "cd_stable_fileid (cache_fileid a b d) = cd_stable_fileid d"
  by (simp_all add: cache_fileid_def Let_def split: option.split)

text \<open>A descriptor whose file the next module can stat, on a connection to a share of the pool.\<close>

definition stable_conn :: "smb_env \<Rightarrow> connect_data \<Rightarrow> bool" where
  "stable_conn env d \<longleftrightarrow> cd_is_smoothfs d \<and> cd_stable_fileid d \<and> sm_alloc env"

lemma smb_fstat_caches:
  assumes "stable_conn env d" "sm_next_fstat env f = Ok st" "sw_inodes w (fs_inode f) = Some si"
  shows "smb_fstat env d f w = (Ok st, cache_fileid True (fileid_bytes si) d)"
  using assms by (simp add: smb_fstat_def stable_conn_def SMOOTHFS_FILEID_XATTR_def SMOOTHFS_FILEID_XATTR_LEN_def getxattr_def
      trusted_xattr_get_def xattr_serve_def fileid_bytes_def del: le_bytes.simps)

lemma smb_fstat_cases:
  assumes "stable_conn env d"
  shows "snd (smb_fstat env d f w) = d
    \<or> (\<exists>si. sw_inodes w (fs_inode f) = Some si \<and> snd (smb_fstat env d f w) = cache_fileid True (fileid_bytes si) d)"
proof (cases "sm_next_fstat env f")
  case (Inr st)
  then show ?thesis
    using smb_fstat_caches [OF assms Inr] by (cases "sw_inodes w (fs_inode f)") (auto simp: smb_fstat_def)
qed (simp add: smb_fstat_def)

text \<open>Later calls on files that agree about the generation of an inode number leave its entry.\<close>

abbreviation fstat_all :: "smb_env \<Rightarrow> smb_world \<Rightarrow> fsp list \<Rightarrow> connect_data \<Rightarrow> connect_data" where
  "fstat_all env w \<equiv> fold (\<lambda>g d. snd (smb_fstat env d g w))"

definition same_gen :: "smb_world \<Rightarrow> fsp list \<Rightarrow> inode_info \<Rightarrow> bool" where
  "same_gen w gs si \<longleftrightarrow> (\<forall>g \<in> set gs. case sw_inodes w (fs_inode g) of
     None \<Rightarrow> True | Some sg \<Rightarrow> si_ino sg = si_ino si \<longrightarrow> si_gen sg = si_gen si)"

lemma fstat_all_keeps:
  "stable_conn env d \<Longrightarrow> map_of (cd_fileids d) (si_ino si) = Some (si_gen si) \<Longrightarrow> same_gen w gs si
    \<Longrightarrow> stable_conn env (fstat_all env w gs d) \<and> map_of (cd_fileids (fstat_all env w gs d)) (si_ino si) = Some (si_gen si)"
proof (induction gs arbitrary: d)
  case (Cons g gs)
  let ?d = "snd (smb_fstat env d g w)"
  have "stable_conn env ?d \<and> map_of (cd_fileids ?d) (si_ino si) = Some (si_gen si)"
    using smb_fstat_cases [OF Cons.prems(1), of g w] Cons.prems
    by (auto simp: stable_conn_def cache_fileid_map same_gen_def)
  then show ?case using Cons.IH [of ?d] Cons.prems(3) by (simp add: same_gen_def)
qed simp

lemma find_map_of: "find (\<lambda>e. fst e = k) es = map_option (Pair k) (map_of es k)"
  by (induction es) auto

lemma file_id_create_cached:
  "stable_conn env d \<Longrightarrow> map_of (cd_fileids d) (st_ino st) = Some g
    \<Longrightarrow> file_id_create env d st = (sm_next_file_id env st)\<lparr>fid_extid := ucast g\<rparr>"
  by (simp add: file_id_create_def stable_conn_def find_map_of)

lemma fstat_then_file_id:
  assumes "stable_conn env d" "sm_next_fstat env f = Ok st" "sw_inodes w (fs_inode f) = Some si" "st_ino st' = si_ino si" "same_gen w gs si"
  shows "file_id_create env (fstat_all env w gs (snd (smb_fstat env d f w))) st' = (sm_next_file_id env st')\<lparr>fid_extid := ucast (si_gen si)\<rparr>"
proof -
  let ?d = "snd (smb_fstat env d f w)"
  have "stable_conn env ?d \<and> map_of (cd_fileids ?d) (si_ino si) = Some (si_gen si)"
    using assms(1) by (simp add: smb_fstat_caches [OF assms(1-3)] cache_fileid_map stable_conn_def)
  then have "stable_conn env (fstat_all env w gs ?d) \<and> map_of (cd_fileids (fstat_all env w gs ?d)) (si_ino si) = Some (si_gen si)"
    using fstat_all_keeps [OF _ _ assms(5)] by blast
  then show ?thesis using assms(4) by (intro file_id_create_cached) simp_all
qed

text \<open>
  The SMB file id of an object is the one the kernel promises. Once a file of the share has been
  stated, and whatever other files are stated after it, the id Samba makes for it is the stock id
  with the object's generation in it. A cutover of the object to another tier does not change
  that: the attribute, and with it the id made after a new stat, is the one from before.
\<close>

theorem smb_file_id_stable:
  assumes "stable_conn env d" "sm_next_fstat env f = Ok st" "sw_inodes w (fs_inode f) = Some si" "st_ino st = si_ino si"
    and "same_gen w gs si"
    and "undisturbed mv oid (fs_inode f)" "sbi_inodes s (fs_inode f) = Some si" "movement_cutover mv oid seq ex chk s = (Done, s', fx)"
    and "w' = w\<lparr>sw_inodes := sbi_inodes s'\<rparr>" "same_gen w' gs' si"
  shows "file_id_create env (fstat_all env w gs (snd (smb_fstat env d f w))) st = (sm_next_file_id env st)\<lparr>fid_extid := ucast (si_gen si)\<rparr>
    \<and> file_id_create env (fstat_all env w' gs' (snd (smb_fstat env (fstat_all env w gs (snd (smb_fstat env d f w))) f w'))) st
      = (sm_next_file_id env st)\<lparr>fid_extid := ucast (si_gen si)\<rparr>"
proof -
  obtain dest si' where si': "sbi_inodes s' (fs_inode f) = Some si'" "switched mv (si\<lparr>si_movement_state := MS_CUTOVER_IN_PROGRESS\<rparr>) dest si'"
    using cutover_done_inode [OF assms(6-8)] by blast
  then have ig: "si_ino si' = si_ino si" "si_gen si' = si_gen si" by (simp_all add: switched_def)
  let ?d = "fstat_all env w gs (snd (smb_fstat env d f w))"
  have 1: "file_id_create env ?d st = (sm_next_file_id env st)\<lparr>fid_extid := ucast (si_gen si)\<rparr>"
    by (rule fstat_then_file_id [OF assms(1-3,4,5)])
  have "stable_conn env ?d"
    using fstat_all_keeps [of env "snd (smb_fstat env d f w)" si w gs] assms(1,5)
    by (simp add: smb_fstat_caches [OF assms(1-3)] cache_fileid_map stable_conn_def)
  moreover have "sw_inodes w' (fs_inode f) = Some si'" using si'(1) assms(9) by simp
  moreover have "st_ino st = si_ino si'" using assms(4) ig by simp
  moreover have "same_gen w' gs' si'" using assms(10) by (simp only: same_gen_def ig)
  ultimately have "file_id_create env (fstat_all env w' gs' (snd (smb_fstat env ?d f w'))) st = (sm_next_file_id env st)\<lparr>fid_extid := ucast (si_gen si')\<rparr>"
    using fstat_then_file_id [OF _ assms(2)] by blast
  with 1 ig show ?thesis by simp
qed

section \<open>Leases are broken before a forced move shows\<close>

lemma kernel_setxattr_frame [simp]:
  "sw_fsps (snd (kernel_setxattr env d r n v w)) = sw_fsps w" "sw_breaks (snd (kernel_setxattr env d r n v w)) = sw_breaks w"
  "sw_fds (snd (kernel_setxattr env d r n v w)) = sw_fds w"
  by (simp_all add: kernel_setxattr_def split: option.split prod.split)

lemma fanotify_event_breaks:
  assumes "0 \<le> fe_fd ev" "fe_pid ev \<noteq> sm_pid env" "sm_fstat env (fe_fd ev) = Ok st" "st_reg st"
  shows "sw_breaks (fanotify_event env d ev w) = sw_breaks w
    @ map fs_id (filter (\<lambda>f. fs_fid f = file_id_create env d st \<and> (fs_oplock f \<or> fs_lease f)) (sw_fsps w))"
  using assms by (simp add: fanotify_event_def Let_def case_prod_beta)

lemma fanotify_event_fsps [simp]: "sw_fsps (fanotify_event env d ev w) = sw_fsps w"
  by (simp add: fanotify_event_def Let_def case_prod_beta split: sum.split)

lemma fanotify_event_mono: "set (sw_breaks w) \<subseteq> set (sw_breaks (fanotify_event env d ev w))"
  by (auto simp: fanotify_event_def Let_def case_prod_beta split: sum.split)

lemma fanotify_events_mono: "set (sw_breaks w) \<subseteq> set (sw_breaks (fanotify_events env d evs w))"
proof (induction evs arbitrary: w)
  case (Cons ev evs)
  then show ?case using fanotify_event_mono [of w env d ev] by (auto simp: Let_def) (metis (no_types, lifting) smb_world.select_convs(2) smb_world.surjective smb_world.update_convs(3) subset_iff)+
qed simp

lemma fanotify_events_breaks:
  assumes "ev \<in> set evs" "0 \<le> fe_fd ev" "fe_pid ev \<noteq> sm_pid env" "sm_fstat env (fe_fd ev) = Ok st" "st_reg st"
    and "f \<in> set (sw_fsps w)" "fs_fid f = file_id_create env d st" "fs_oplock f \<or> fs_lease f"
  shows "fs_id f \<in> set (sw_breaks (fanotify_events env d evs w))"
  using assms(1,6)
proof (induction evs arbitrary: w)
  case (Cons e evs)
  let ?w1 = "fanotify_event env d e w"
  let ?w2 = "if 0 \<le> fe_fd e then ?w1\<lparr>sw_fds := remove1 (fe_fd e) (sw_fds ?w1)\<rparr> else ?w1"
  have run: "fanotify_events env d (e # evs) w = fanotify_events env d evs ?w2" by (simp add: Let_def)
  have w2: "sw_breaks ?w2 = sw_breaks ?w1" "sw_fsps ?w2 = sw_fsps w" by simp_all
  show ?case
  proof (cases "e = ev")
    case True
    then have "fs_id f \<in> set (sw_breaks ?w2)"
      using Cons.prems(2) assms(7,8) by (simp add: True fanotify_event_breaks [OF assms(2-5)])
    then show ?thesis unfolding run using fanotify_events_mono by blast
  next
    case False
    then show ?thesis unfolding run using Cons.prems w2(2) by (intro Cons.IH) simp_all
  qed
qed simp

text \<open>
  C33. A forced move of a file under an SMB lease breaks the lease. If an object with the lease pin is
  cut over, the kernel reports a modification of it, and the pin is gone. When the watcher of a
  connection then reads an event for the file that another process caused, every open file of the
  connection that got its id from a stat of the object and holds an oplock or a lease is sent a
  break, also if other files were stated in the meantime.
\<close>

theorem forced_cutover_breaks_leases:
  assumes cut: "undisturbed mv oid (fs_inode f)" "sbi_inodes s (fs_inode f) = Some si" "si_pin_state si = PIN_LEASE"
      "movement_cutover mv oid seq ex chk s = (Done, s', fx)"
    and opened: "stable_conn env d" "sm_next_fstat env f = Ok st" "sw_inodes w (fs_inode f) = Some si" "st_ino st = si_ino si"
      "fs_fid f = file_id_create env (snd (smb_fstat env d f w)) st" "same_gen w gs si"
    and held: "f \<in> set (sw_fsps w')" "fs_oplock f \<or> fs_lease f"
    and event: "sm_read env = Ok evs" "ev \<in> set evs" "0 \<le> fe_fd ev" "fe_pid ev \<noteq> sm_pid env" "sm_fstat env (fe_fd ev) = Ok st"
      "st_reg st"
  shows "FX_MODIFY \<in> set fx \<and> (\<exists>si'. sbi_inodes s' (fs_inode f) = Some si' \<and> si_pin_state si' = PIN_NONE)
    \<and> fs_id f \<in> set (sw_breaks (fanotify_handler env (fstat_all env w gs (snd (smb_fstat env d f w))) w'))"
proof -
  let ?d = "fstat_all env w gs (snd (smb_fstat env d f w))"
  have "fs_fid f = file_id_create env ?d st"
    using fstat_then_file_id [OF opened(1-4), of "[]"] fstat_then_file_id [OF opened(1-4,6)] opened(5) by (simp add: same_gen_def)
  then have "fs_id f \<in> set (sw_breaks (fanotify_events env ?d evs (w'\<lparr>sw_fds := map fe_fd (filter (\<lambda>e. 0 \<le> fe_fd e) evs) @ sw_fds w'\<rparr>)))"
    using held by (intro fanotify_events_breaks [OF event(2-6)]) simp_all
  moreover have "\<exists>si'. sbi_inodes s' (fs_inode f) = Some si' \<and> si_pin_state si' = PIN_NONE"
    using cutover_done_inode [OF cut(1,2,4)] cut(3) by (auto simp: switched_def)
  ultimately show ?thesis using cutover_notifies [OF cut] event(1) by (simp add: fanotify_handler_def)
qed

section \<open>Other shares\<close>

text \<open>
  On a share that is not on smoothfs the module is transparent: it opens nothing, its calls return
  what the next module returns, and they leave the connection and the files as they were.
\<close>

lemma passthrough_elsewhere:
  assumes "connect env w = (Done, Some d, w')" "\<not> probe_lower env"
  shows "w' = w \<and> cd_fan_fd d = -1 \<and> linux_setlease env d f ty w = (sm_next_setlease env f ty, w)
    \<and> smb_fstat env d f w = (sm_next_fstat env f, d) \<and> file_id_create env d st = sm_next_file_id env st"
proof -
  have d: "\<not> cd_is_smoothfs d" "w' = w" "cd_fan_fd d = -1"
    using assms by (auto simp: connect_def setup_fanotify_def Let_def split: sum.splits if_splits)
  show ?thesis
    using d by (auto simp: linux_setlease_def smb_fstat_def file_id_create_def Let_def split: sum.split)
qed

text \<open>The descriptor of the watcher is closed on every failure and when the connection ends.\<close>

lemma connection_closes_watcher:
  assumes "connect env w = (Done, Some d, w')" "\<forall>fd. sm_fanotify_init env = Ok fd \<longrightarrow> 0 \<le> fd"
  shows "sw_fds (connect_data_destructor d w') = sw_fds w \<and> (cd_fan_fd d = -1 \<longrightarrow> sw_fds w' = sw_fds w)"
  using assms
  by (auto simp: connect_def setup_fanotify_def connect_data_destructor_def Let_def split: sum.splits if_splits option.splits)

text \<open>
  The pin is one bit, and every open file that holds a kernel lease sets it: when the first of two
  holders gives its lease back the pin is gone, and the file can be moved under the second.
\<close>

lemma shared_lease_unpinned:
  assumes "cd_is_smoothfs d" "xv_capable (sm_xa env)" "\<forall>f ty. sm_next_setlease env f ty = Done"
    and "fs_inode f = fs_inode g" "sw_inodes w (fs_inode f) = Some si" "si_pin_state si = PIN_NONE"
  shows "\<exists>w1 w2 w3 s1 s2 s3. linux_setlease env d f F_RDLCK w = (Done, w1) \<and> linux_setlease env d g F_RDLCK w1 = (Done, w2)
    \<and> linux_setlease env d f F_UNLCK w2 = (Done, w3) \<and> sw_inodes w2 (fs_inode g) = Some s2 \<and> si_pin_state s2 = PIN_LEASE
    \<and> sw_inodes w3 (fs_inode g) = Some s3 \<and> si_pin_state s3 = PIN_NONE"
  using assms by (simp add: linux_setlease_def kernel_setxattr_def SMOOTHFS_LEASE_XATTR_def setxattr_reserved pin_switch_def pin_want_def)

section \<open>Concrete instances\<close>

definition ex_stat :: stat_ex where
  "ex_stat = \<lparr>st_dev = 1, st_ino = 77, st_reg = True\<rparr>"

definition ex_smb_env :: smb_env where
  "ex_smb_env = \<lparr>sm_xa = ex_xa_env, sm_pid = 10, sm_path = Some ''/share'', sm_probe = \<lambda>_. Ok 12, sm_parm = \<lambda>_. True, sm_alloc = True,
     sm_set_data = True, sm_next_connect = Done, sm_next_setlease = \<lambda>_ _. Done, sm_next_fstat = \<lambda>_. Ok ex_stat,
     sm_next_file_id = \<lambda>st. \<lparr>fid_dev = st_dev st, fid_ino = st_ino st, fid_extid = 0\<rparr>, sm_fanotify_init = Ok 5, sm_getfl = Done,
     sm_setfl = Done, sm_mark = \<lambda>_. Done, sm_tevent_add_fd = True, sm_fstat = \<lambda>_. Ok ex_stat, sm_readlink = \<lambda>_. True,
     sm_event_file = \<lambda>_. (3, 77), sm_read = Ok [\<lparr>fe_fd = 8, fe_pid = 99\<rparr>]\<rparr>"

definition ex_conn :: connect_data where
  "ex_conn = \<lparr>cd_is_smoothfs = True, cd_fan_fd = 5, cd_fan_fde = True, cd_fileids = [], cd_stable_fileid = True\<rparr>"

definition ex_leased :: sb_info where
  "ex_leased = upd_inode 77 (\<lambda>i. i\<lparr>si_pin_state := PIN_LEASE, si_gen := 4\<rparr>) ex_moving"

abbreviation ex_leased_inode :: inode_info where
  "ex_leased_inode \<equiv> ex_inode\<lparr>si_intended_tier := 0, si_movement_state := MS_COPY_VERIFIED, si_transaction_seq := 9,
     si_pin_state := PIN_LEASE, si_gen := 4\<rparr>"

definition ex_fsp :: fsp where
  "ex_fsp = \<lparr>fs_id = 1, fs_fid = \<lparr>fid_dev = 1, fid_ino = 77, fid_extid = 4\<rparr>, fs_dentry = 3, fs_inode = 77, fs_oplock = False, fs_lease = True\<rparr>"

definition ex_smb_world :: smb_world where
  "ex_smb_world = \<lparr>sw_fsps = [ex_fsp], sw_breaks = [], sw_fds = [5], sw_inodes = sbi_inodes ex_leased, sw_xs = \<lambda>_. []\<rparr>"

lemma ex_leased_facts:
  "sbi_inodes ex_leased 77 = Some ex_leased_inode" "si_ino ex_leased_inode = 77" "stable_conn ex_smb_env ex_conn"
  "sm_next_fstat ex_smb_env ex_fsp = Ok ex_stat" "sw_inodes ex_smb_world (fs_inode ex_fsp) = Some ex_leased_inode" "fs_inode ex_fsp = 77"
  by (simp_all add: ex_leased_def ex_moving_def ex_pool_def ex_inode_def upd_inode_def stable_conn_def ex_conn_def ex_smb_env_def
      ex_fsp_def ex_smb_world_def)

lemma ex_leased_cutover: "\<exists>s' fx. movement_cutover ex_env77 ex_oid 9 0 True ex_leased = (Done, s', fx)"
proof -
  have "fst (movement_cutover ex_env77 ex_oid 9 0 True ex_leased) = Done"
    by (simp add: ex_leased_def movement_cutover_def cutover_begin_def drain_writers_def cutover_finish_def ex_env77_def ex_move_defs
        current_rel_path_def resolve_cutover_dest_def cutover_parent_def split_last_slash_def persist_identity_def write_identity_def Let_def)
  then show ?thesis by (metis prod.collapse)
qed

theorem smb_file_id_stable_witness:
  "file_id_create ex_smb_env (snd (smb_fstat ex_smb_env ex_conn ex_fsp ex_smb_world)) ex_stat = \<lparr>fid_dev = 1, fid_ino = 77, fid_extid = 4\<rparr>"
proof -
  obtain s' fx where c: "movement_cutover ex_env77 ex_oid 9 0 True ex_leased = (Done, s', fx)" using ex_leased_cutover by blast
  have "file_id_create ex_smb_env (fstat_all ex_smb_env ex_smb_world [] (snd (smb_fstat ex_smb_env ex_conn ex_fsp ex_smb_world))) ex_stat
      = (sm_next_file_id ex_smb_env ex_stat)\<lparr>fid_extid := ucast (si_gen ex_leased_inode)\<rparr>"
    by (rule smb_file_id_stable [OF ex_leased_facts(3,4,5) _ _ _ _ _ refl, THEN conjunct1, of "[]" ex_env77 ex_oid ex_leased 9 0 True s' fx "[]"])
      (use c ex_leased_facts ex_undisturbed in \<open>simp_all add: ex_stat_def same_gen_def\<close>)
  then show ?thesis by (simp add: ex_smb_env_def ex_stat_def)
qed

theorem forced_cutover_breaks_leases_witness:
  "\<exists>s' fx. movement_cutover ex_env77 ex_oid 9 0 True ex_leased = (Done, s', fx) \<and> FX_MODIFY \<in> set fx
     \<and> 1 \<in> set (sw_breaks (fanotify_handler ex_smb_env (snd (smb_fstat ex_smb_env ex_conn ex_fsp ex_smb_world)) ex_smb_world))"
proof -
  obtain s' fx where c: "movement_cutover ex_env77 ex_oid 9 0 True ex_leased = (Done, s', fx)" using ex_leased_cutover by blast
  have id: "file_id_create ex_smb_env (snd (smb_fstat ex_smb_env ex_conn ex_fsp ex_smb_world)) ex_stat = fs_fid ex_fsp"
    using fstat_then_file_id [OF ex_leased_facts(3,4,5), of ex_stat "[]"] by (simp add: same_gen_def ex_stat_def ex_leased_facts ex_smb_env_def ex_fsp_def)
  have "FX_MODIFY \<in> set fx \<and> (\<exists>si'. sbi_inodes s' (fs_inode ex_fsp) = Some si' \<and> si_pin_state si' = PIN_NONE)
      \<and> fs_id ex_fsp \<in> set (sw_breaks (fanotify_handler ex_smb_env
           (fstat_all ex_smb_env ex_smb_world [] (snd (smb_fstat ex_smb_env ex_conn ex_fsp ex_smb_world))) ex_smb_world))"
    by (rule forced_cutover_breaks_leases [of ex_env77 ex_oid ex_fsp ex_leased ex_leased_inode 9 0 True s' fx ex_smb_env ex_conn ex_stat
          ex_smb_world "[]" ex_smb_world "[\<lparr>fe_fd = 8, fe_pid = 99\<rparr>]" "\<lparr>fe_fd = 8, fe_pid = 99\<rparr>"])
      (use c id ex_leased_facts ex_undisturbed in \<open>simp_all add: same_gen_def\<close>,
       simp_all add: ex_smb_env_def ex_stat_def ex_smb_world_def ex_fsp_def)
  then show ?thesis using c by (simp add: ex_fsp_def)
qed

end
