(* ===== verification/Sysfs.thy ===== *)
theory Sysfs
  imports Namespace_Facts File_Ops
begin

text \<open>
  The files of a pool under \<open>/sys/fs/smoothfs\<close> (\<open>super.c\<close>): what each shows, as the text the kernel
  prints, and what each store does to the pool. The kernel's number and truth value parsers are
  modelled with their accepted forms and errors.
\<close>

section \<open>Printing and parsing numbers\<close>

definition digit_char :: "nat \<Rightarrow> char" where
  "digit_char n = (if n < 10 then char_of (48 + n) else char_of (87 + n))"

definition char_digit :: "char \<Rightarrow> nat option" where
  "char_digit c = (let n = (of_char c :: nat) in
     if 48 \<le> n \<and> n \<le> 57 then Some (n - 48)
     else if 97 \<le> n \<and> n \<le> 102 then Some (n - 87)
     else if 65 \<le> n \<and> n \<le> 70 then Some (n - 55) else None)"

fun show_base :: "nat \<Rightarrow> nat \<Rightarrow> string" where
  "show_base b n = (if n < b \<or> b < 2 then [digit_char n] else show_base b (n div b) @ [digit_char (n mod b)])"

declare show_base.simps [simp del]

abbreviation show_nat :: "nat \<Rightarrow> string" where
  "show_nat \<equiv> show_base 10"

definition show_int :: "int \<Rightarrow> string" where
  "show_int i = (if i < 0 then ''-'' @ show_nat (nat (- i)) else show_nat (nat i))"

definition show_hex :: "u32 \<Rightarrow> string" where
  "show_hex w = ''0x'' @ show_base 16 (unat w)"

definition newline :: string where
  "newline = [char_of (10 :: nat)]"

text \<open>\<open>_parse_integer\<close>: the value of the leading digits, how many there are, and the rest.\<close>

fun parse_digits :: "nat \<Rightarrow> nat \<Rightarrow> nat \<Rightarrow> string \<Rightarrow> nat \<times> nat \<times> string" where
  "parse_digits b acc k [] = (acc, k, [])"
| "parse_digits b acc k (c # cs) =
    (case char_digit c of
       Some d \<Rightarrow> (if d < b then parse_digits b (acc * b + d) (k + 1) cs else (acc, k, c # cs))
     | None \<Rightarrow> (acc, k, c # cs))"

definition is_x :: "char \<Rightarrow> bool" where
  "is_x c \<longleftrightarrow> c = CHR ''x'' \<or> c = CHR ''X''"

text \<open>The base of a number and the number without its prefix; base 0 asks to find it out.\<close>

definition fixup_radix :: "nat \<Rightarrow> string \<Rightarrow> nat \<times> string" where
  "fixup_radix b s =
    (let b' = (if b \<noteq> 0 then b
               else case s of
                   c # x # h # _ \<Rightarrow> (if c = CHR ''0'' then if is_x x \<and> char_digit h \<noteq> None then 16 else 8 else 10)
                 | c # _ \<Rightarrow> (if c = CHR ''0'' then 8 else 10)
                 | [] \<Rightarrow> 10)
     in case s of
         c # x # r \<Rightarrow> (if b' = 16 \<and> c = CHR ''0'' \<and> is_x x then (b', r) else (b', s))
       | _ \<Rightarrow> (b', s))"

definition kstrtou32 :: "nat \<Rightarrow> string \<Rightarrow> u32 res" where
  "kstrtou32 base s0 =
    (let s = (case s0 of c # r \<Rightarrow> (if c = CHR ''+'' then r else s0) | [] \<Rightarrow> s0)
     in case fixup_radix base s of
         (b, t) \<Rightarrow>
           (case parse_digits b 0 0 t of
              (v, k, r) \<Rightarrow>
                (if 2 ^ 64 \<le> v then Err ERANGE
                 else if k = 0 then Err EINVAL
                 else if r \<noteq> [] \<and> r \<noteq> newline then Err EINVAL
                 else if 2 ^ 32 \<le> v then Err ERANGE
                 else Ok (word_of_nat v))))"

definition kstrtobool :: "string \<Rightarrow> bool res" where
  "kstrtobool s =
    (case s of
       [] \<Rightarrow> Err EINVAL
     | c # r \<Rightarrow>
        (if c \<in> set ''yYtT1'' then Ok True
         else if c \<in> set ''nNfF0'' then Ok False
         else if c \<in> set ''oO''
         then case r of
             d # _ \<Rightarrow> (if d \<in> set ''nN'' then Ok True else if d \<in> set ''fF'' then Ok False else Err EINVAL)
           | [] \<Rightarrow> Err EINVAL
         else Err EINVAL))"

text \<open>\<open>sscanf\<close> with \<open>%u %lu\<close>: blanks before each number, and numbers that wrap.\<close>

definition is_space :: "char \<Rightarrow> bool" where
  "is_space c \<longleftrightarrow> c = CHR '' '' \<or> (of_char c :: nat) \<in> {9, 10, 11, 12, 13}"

definition scan_number :: "string \<Rightarrow> (nat \<times> string) option" where
  "scan_number s = (case parse_digits 10 0 0 (dropWhile is_space s) of (v, k, r) \<Rightarrow> if k = 0 then None else Some (v, r))"

definition scan_tier_ino :: "string \<Rightarrow> (u32 \<times> u64) option" where
  "scan_tier_ino s =
    (case scan_number s of
       None \<Rightarrow> None
     | Some (t, r) \<Rightarrow> map_option (\<lambda>(n, _). (word_of_nat t, word_of_nat n)) (scan_number r))"

section \<open>What the files show\<close>

abbreviation emit_int :: "int \<Rightarrow> string" where
  "emit_int i \<equiv> show_int i @ newline"

abbreviation emit_nat :: "nat \<Rightarrow> string" where
  "emit_nat n \<equiv> show_nat n @ newline"

abbreviation emit_bool :: "bool \<Rightarrow> string" where
  "emit_bool b \<equiv> (if b then ''1'' else ''0'') @ newline"

abbreviation emit_hex :: "u32 \<Rightarrow> string" where
  "emit_hex w \<equiv> show_hex w @ newline"

definition spill_creates_total_show :: "sb_info \<Rightarrow> string" where
  "spill_creates_total_show sbi = emit_int (sp_creates_total (sbi_spill sbi))"

definition spill_creates_failed_all_tiers_show :: "sb_info \<Rightarrow> string" where
  "spill_creates_failed_all_tiers_show sbi = emit_int (sp_failed_all_tiers (sbi_spill sbi))"

definition any_spill_since_mount_show :: "sb_info \<Rightarrow> string" where
  "any_spill_since_mount_show sbi = emit_bool (sp_any_since_mount (sbi_spill sbi))"

definition write_staging_supported_show :: "sb_info \<Rightarrow> string" where
  "write_staging_supported_show sbi = emit_bool True"

definition storage_mode_show :: "sb_info \<Rightarrow> string" where
  "storage_mode_show sbi = (if sbi_cache_mode sbi then ''cache'' else ''tier'') @ newline"

definition write_staging_enabled_show :: "sb_info \<Rightarrow> string" where
  "write_staging_enabled_show sbi = emit_bool (st_enabled (sbi_staging sbi))"

definition write_staging_full_pct_show :: "sb_info \<Rightarrow> string" where
  "write_staging_full_pct_show sbi = emit_nat (unat (st_full_pct (sbi_staging sbi)))"

definition staged_bytes_show :: "sb_info \<Rightarrow> string" where
  "staged_bytes_show sbi = emit_int (st_staged_bytes (sbi_staging sbi))"

definition staged_rehome_bytes_show :: "sb_info \<Rightarrow> string" where
  "staged_rehome_bytes_show sbi = emit_int (st_staged_rehome_bytes (sbi_staging sbi))"

definition range_staged_bytes_show :: "sb_info \<Rightarrow> string" where
  "range_staged_bytes_show sbi = emit_int (st_range_staged_bytes (sbi_staging sbi))"

definition range_staged_writes_show :: "sb_info \<Rightarrow> string" where
  "range_staged_writes_show sbi = emit_int (st_range_staged_writes (sbi_staging sbi))"

definition staged_rehomes_total_show :: "sb_info \<Rightarrow> string" where
  "staged_rehomes_total_show sbi = emit_int (st_staged_rehomes_total (sbi_staging sbi))"

definition staged_rehomes_pending_show :: "sb_info \<Rightarrow> string" where
  "staged_rehomes_pending_show sbi = emit_nat (pending_rehomes sbi)"

definition write_staging_drainable_rehomes_show :: "sb_info \<Rightarrow> string" where
  "write_staging_drainable_rehomes_show sbi = emit_nat (drainable_rehomes sbi)"

definition write_staging_drain_pressure_show :: "io_env \<Rightarrow> sb_info \<Rightarrow> string" where
  "write_staging_drain_pressure_show env sbi = emit_bool (fastest_pressure env sbi)"

text \<open>\<open>BIT(ntiers) - 1\<close>: the mask of the tiers there are.\<close>

definition valid_mask :: "sb_info \<Rightarrow> u32" where
  "valid_mask sbi = BIT (ntiers sbi) - 1"

definition drainable_tier_mask :: "sb_info \<Rightarrow> u32" where
  "drainable_tier_mask sbi =
    (if has_work sbi \<and> 0 < ntiers sbi \<and> ntiers sbi \<le> MAX_TIERS
     then and (and (st_drain_active_mask (sbi_staging sbi)) (valid_mask sbi)) (not (BIT (unat (sbi_fastest_tier sbi)))) else 0)"

definition write_staging_drainable_tier_mask_show :: "sb_info \<Rightarrow> string" where
  "write_staging_drainable_tier_mask_show sbi = emit_hex (drainable_tier_mask sbi)"

definition oldest_staged_write_at_show :: "sb_info \<Rightarrow> string" where
  "oldest_staged_write_at_show sbi = emit_int (st_oldest_staged_write_ns (sbi_staging sbi))"

definition last_drain_at_show :: "sb_info \<Rightarrow> string" where
  "last_drain_at_show sbi = emit_int (st_last_drain_ns (sbi_staging sbi))"

definition last_drain_reason_show :: "sb_info \<Rightarrow> string" where
  "last_drain_reason_show sbi = take 63 (st_last_drain_reason (sbi_staging sbi)) @ newline"

definition metadata_active_tier_mask_show :: "sb_info \<Rightarrow> string" where
  "metadata_active_tier_mask_show sbi = emit_hex (st_metadata_active_mask (sbi_staging sbi))"

definition write_staging_drain_active_tier_mask_show :: "sb_info \<Rightarrow> string" where
  "write_staging_drain_active_tier_mask_show sbi = emit_hex (st_drain_active_mask (sbi_staging sbi))"

definition metadata_tier_skips_show :: "sb_info \<Rightarrow> string" where
  "metadata_tier_skips_show sbi = emit_int (sp_metadata_tier_skips (sbi_spill sbi))"

definition parent_tier_lookup_recoveries_show :: "sb_info \<Rightarrow> string" where
  "parent_tier_lookup_recoveries_show sbi = emit_int (sp_parent_tier_recoveries (sbi_spill sbi))"

definition range_staging_recovery_supported_show :: "sb_info \<Rightarrow> string" where
  "range_staging_recovery_supported_show sbi = emit_bool True"

definition range_staging_recovered_bytes_show :: "sb_info \<Rightarrow> string" where
  "range_staging_recovered_bytes_show sbi = emit_int (st_recovered_bytes (sbi_staging sbi))"

definition range_staging_recovered_writes_show :: "sb_info \<Rightarrow> string" where
  "range_staging_recovered_writes_show sbi = emit_int (st_recovered_writes (sbi_staging sbi))"

definition range_staging_recovery_pending_show :: "sb_info \<Rightarrow> string" where
  "range_staging_recovery_pending_show sbi = emit_int (st_recovery_pending (sbi_staging sbi))"

definition recovered_range_tier_mask_show :: "sb_info \<Rightarrow> string" where
  "recovered_range_tier_mask_show sbi = emit_hex (st_recovered_tier_mask (sbi_staging sbi))"

definition oldest_recovered_write_at_show :: "sb_info \<Rightarrow> string" where
  "oldest_recovered_write_at_show sbi = emit_int (st_oldest_recovered_write_ns (sbi_staging sbi))"

definition last_recovery_at_show :: "sb_info \<Rightarrow> string" where
  "last_recovery_at_show sbi = emit_int (st_last_recovery_ns (sbi_staging sbi))"

text \<open>The text of the recovery reason; \<open>num\<close> is the number of an error code.\<close>

fun reason_text :: "(errno \<Rightarrow> nat) \<Rightarrow> recovery_reason \<Rightarrow> string" where
  "reason_text num RR_NONE = []"
| "reason_text num RR_EMPTY = ''remount-replay-empty''"
| "reason_text num RR_REPLAY = ''remount-replay''"
| "reason_text num (RR_ERROR e) = ''remount-replay-error:-'' @ show_nat (num e)"
| "reason_text num (RR_UNRESOLVED n) = ''remount-replay-unresolved:'' @ show_nat n"
| "reason_text num (RR_PARTIAL n) = ''remount-replay-partial:'' @ show_nat n @ ''-unresolved''"

definition last_recovery_reason_show :: "(errno \<Rightarrow> nat) \<Rightarrow> sb_info \<Rightarrow> string" where
  "last_recovery_reason_show num sbi = take 63 (reason_text num (st_last_recovery_reason (sbi_staging sbi))) @ newline"

section \<open>What the stores do\<close>

definition write_staging_enabled_store :: "string \<Rightarrow> sb_info \<Rightarrow> nat res \<times> sb_info" where
  "write_staging_enabled_store buf sbi =
    (case kstrtobool buf of
       Err e \<Rightarrow> (Err e, sbi)
     | Ok b \<Rightarrow> (Ok (length buf), upd_staging (\<lambda>s. s\<lparr>st_enabled := b\<rparr>) sbi))"

definition write_staging_full_pct_store :: "string \<Rightarrow> sb_info \<Rightarrow> nat res \<times> sb_info" where
  "write_staging_full_pct_store buf sbi =
    (case kstrtou32 10 buf of
       Err e \<Rightarrow> (Err e, sbi)
     | Ok pct \<Rightarrow>
        (if pct < 1 \<or> 100 < pct then (Err EINVAL, sbi)
         else (Ok (length buf), upd_staging (\<lambda>s. s\<lparr>st_full_pct := ucast pct\<rparr>) sbi)))"

definition metadata_active_tier_mask_store :: "string \<Rightarrow> sb_info \<Rightarrow> nat res \<times> sb_info" where
  "metadata_active_tier_mask_store buf sbi =
    (case kstrtou32 0 buf of
       Err e \<Rightarrow> (Err e, sbi)
     | Ok m \<Rightarrow>
        (if sbi_ntiers sbi = 0 \<or> MAX_TIERS < ntiers sbi then (Err EINVAL, sbi)
         else let m1 = or (and m (valid_mask sbi)) (BIT (unat (sbi_fastest_tier sbi)));
                  m2 = (if sbi_cache_mode sbi then valid_mask sbi else m1)
           in (Ok (length buf), upd_staging (\<lambda>s. s\<lparr>st_metadata_active_mask := m2\<rparr>) sbi)))"

definition drain_mask_set :: "string \<Rightarrow> sb_info \<Rightarrow> nat res \<times> sb_info" where
  "drain_mask_set buf sbi =
    (case kstrtou32 0 buf of
       Err e \<Rightarrow> (Err e, sbi)
     | Ok m \<Rightarrow>
        (if sbi_ntiers sbi = 0 \<or> MAX_TIERS < ntiers sbi then (Err EINVAL, sbi)
         else let m1 = or (and m (valid_mask sbi)) (BIT (unat (sbi_fastest_tier sbi)));
                  m2 = (if sbi_cache_mode sbi then or m1 (BIT (ntiers sbi - 1)) else m1)
           in (Ok (length buf), upd_staging (\<lambda>s. s\<lparr>st_drain_active_mask := m2\<rparr>) sbi)))"

text \<open>
  Setting the drain mask drains what it lets drain: the rehomed files in the namespace, then the
  staged ranges in the files. The pool is the one of the namespace; errors are only logged. \<open>None\<close>
  is a drain that does not end.
\<close>

definition write_staging_drain_active_tier_mask_store ::
  "ns_env \<Rightarrow> io_env \<Rightarrow> string \<Rightarrow> ns_world \<Rightarrow> io_world \<Rightarrow> (nat res \<times> ns_world \<times> io_world) option" where
  "write_staging_drain_active_tier_mask_store nenv ienv buf nw iw =
    (case drain_mask_set buf (n_sbi nw) of
       (Err e, _) \<Rightarrow> Some (Err e, nw, iw)
     | (Ok n, s1) \<Rightarrow>
        (case drain_rehomes nenv (nw\<lparr>n_sbi := s1\<rparr>) of
           None \<Rightarrow> None
         | Some (_, nw1) \<Rightarrow>
            (case drain_ranges ienv (iw\<lparr>w_sbi := n_sbi nw1\<rparr>) of
               None \<Rightarrow> None
             | Some (_, iw1) \<Rightarrow> Some (Ok n, nw1\<lparr>n_sbi := w_sbi iw1\<rparr>, iw1))))"

definition drop_read_cache_store :: "string \<Rightarrow> io_world \<Rightarrow> nat res \<times> io_world" where
  "drop_read_cache_store buf w =
    (case kstrtobool buf of
       Err e \<Rightarrow> (Err e, w)
     | Ok b \<Rightarrow>
        (if \<not> b then (Err EINVAL, w)
         else (Ok (length buf),
               w\<lparr>w_rc := \<lambda>r. if r \<in> set (sbi_inode_list (w_sbi w)) then read_cache_clear (w_rc w r) else w_rc w r\<rparr>)))"

text \<open>
  \<open>smoothfs_forget_tier_copy\<close>: the shadow inode of a lower file that was removed behind the
  pool's back moves to a surviving copy, or loses its pin and its link count; without another
  reference (\<open>busy\<close>, or the pin of staged ranges) it is then evicted.
\<close>

definition forget_tier_copy :: "move_env \<Rightarrow> (iref \<Rightarrow> bool) \<Rightarrow> u8 \<Rightarrow> u64 \<Rightarrow> sb_info \<Rightarrow> sb_info" where
  "forget_tier_copy env busy t lino sbi =
    (let r = lower_ino_map_get t lino sbi
     in if r = 0 then sbi
        else case sbi_inodes sbi r of
            None \<Rightarrow> sbi
          | Some si \<Rightarrow>
             (case relower_after_forget env r t lino sbi of
                (True, s1) \<Rightarrow> s1
              | (False, s1) \<Rightarrow>
                 (let s2 = upd_inode r (\<lambda>i. i\<lparr>si_nlink := 0, si_replay_pinned := False\<rparr>) s1
                  in if busy r \<or> rs_pinned (si_rs si) then s2 else evict_inode (mv_lino env) r s2)))"

definition forget_lower_store :: "move_env \<Rightarrow> (iref \<Rightarrow> bool) \<Rightarrow> string \<Rightarrow> sb_info \<Rightarrow> nat res \<times> sb_info" where
  "forget_lower_store env busy buf sbi =
    (case scan_tier_ino buf of
       None \<Rightarrow> (Err EINVAL, sbi)
     | Some (t, lino) \<Rightarrow>
        (if ucast (sbi_ntiers sbi) \<le> t then (Err EINVAL, sbi)
         else (Ok (length buf), forget_tier_copy env busy (ucast t) lino sbi)))"

section \<open>Writing back what is shown\<close>

lemma of_char_char_of: "n < 256 \<Longrightarrow> (of_char (char_of n :: char) :: nat) = n"
  by (simp add: of_char_of)

lemma char_digit_digit: "d < 16 \<Longrightarrow> char_digit (digit_char d) = Some d"
  by (auto simp: char_digit_def digit_char_def of_char_char_of Let_def)

text \<open>A digit string is read back as the number it shows, up to the first other character.\<close>

lemma parse_digits_append:
  "parse_digits b acc k (xs @ ys) =
    (case parse_digits b acc k xs of (v, n, r) \<Rightarrow> if r = [] then parse_digits b v n ys else (v, n, r @ ys))"
  by (induction b acc k xs rule: parse_digits.induct) (auto split: option.split)

lemma parse_show_base:
  "2 \<le> b \<Longrightarrow> b \<le> 16 \<Longrightarrow> \<exists>j > 0. \<forall>acc k. parse_digits b acc k (show_base b n) = (acc * b ^ j + n, k + j, [])"
proof (induction b n rule: show_base.induct)
  case (1 b n)
  show ?case
  proof (cases "n < b")
    case True
    then show ?thesis using 1 by (intro exI [of _ 1]) (simp add: show_base.simps [of b n] char_digit_digit)
  next
    case False
    with 1 obtain j where j: "j > 0" "\<forall>acc k. parse_digits b acc k (show_base b (n div b)) = (acc * b ^ j + n div b, k + j, [])" by auto
    have "n mod b < 16" "n mod b < b" using 1 by (auto intro: less_le_trans [OF mod_less_divisor])
    then have "parse_digits b acc k (show_base b n) = (acc * b ^ Suc j + n, k + Suc j, [])" for acc k
      using False 1(2) j(2) by (simp add: show_base.simps [of b n] parse_digits_append char_digit_digit algebra_simps)
    then show ?thesis by blast
  qed
qed

lemma show_base_hd: "2 \<le> b \<Longrightarrow> \<exists>d r. d < b \<and> show_base b n = digit_char d # r"
proof (induction b n rule: show_base.induct)
  case (1 b n)
  then show ?case by (cases "n < b") (auto simp: show_base.simps [of b n])
qed

lemma newline_no_digit: "char_digit (char_of (10 :: nat)) = None"
  by (simp add: char_digit_def of_char_char_of)

lemma kstrtou32_show_nat:
  assumes "n < 2 ^ 32"
  shows "kstrtou32 10 (emit_nat n) = Ok (word_of_nat n)"
proof -
  obtain j where j: "j > 0" "\<forall>acc k. parse_digits 10 acc k (show_nat n) = (acc * 10 ^ j + n, k + j, [])"
    using parse_show_base [of 10 n] by auto
  obtain d r where d: "d < 10" "show_nat n = digit_char d # r" using show_base_hd [of 10 n] by auto
  have "digit_char d \<noteq> CHR ''+''" using char_digit_digit [of d] d(1) by (auto simp: char_digit_def)
  then have "(case emit_nat n of c # r \<Rightarrow> (if c = CHR ''+'' then r else emit_nat n) | [] \<Rightarrow> emit_nat n) = emit_nat n"
    by (simp add: d(2))
  moreover have "fixup_radix 10 (emit_nat n) = (10, emit_nat n)" by (simp add: fixup_radix_def split: list.split)
  moreover have "parse_digits 10 0 0 (emit_nat n) = (n, j, newline)"
    using j by (simp add: parse_digits_append newline_def newline_no_digit)
  ultimately show ?thesis using assms j(1) unfolding kstrtou32_def Let_def by simp
qed

lemma kstrtou32_show_hex: "kstrtou32 0 (emit_hex w) = Ok w"
proof -
  obtain j where j: "j > 0" "\<forall>acc k. parse_digits 16 acc k (show_base 16 (unat w)) = (acc * 16 ^ j + unat w, k + j, [])"
    using parse_show_base [of 16 "unat w"] by auto
  obtain d r where d: "d < 16" "show_base 16 (unat w) = digit_char d # r" using show_base_hd [of 16 "unat w"] by auto
  have "fixup_radix 0 (emit_hex w) = (16, show_base 16 (unat w) @ newline)"
    using char_digit_digit [OF d(1)] by (simp add: fixup_radix_def show_hex_def is_x_def d(2))
  moreover have "parse_digits 16 0 0 (show_base 16 (unat w) @ newline) = (unat w, j, newline)"
    using j by (simp add: parse_digits_append newline_def newline_no_digit)
  moreover have "unat w < 2 ^ 32" using unsigned_less [of w] by simp
  moreover have "(case emit_hex w of c # r \<Rightarrow> (if c = CHR ''+'' then r else emit_hex w) | [] \<Rightarrow> emit_hex w) = emit_hex w"
    by (simp add: show_hex_def)
  ultimately show ?thesis using j(1) unfolding kstrtou32_def Let_def by simp
qed

lemma kstrtobool_emit: "kstrtobool (emit_bool b) = Ok b"
  by (simp add: kstrtobool_def)

section \<open>The configuration of a mounted pool\<close>

text \<open>
  The masks name tiers of the pool and always the fastest one. In cache mode every tier serves
  metadata and the base tier, which owns every file, drains.
\<close>

definition mask_ok :: "sb_info \<Rightarrow> u32 \<Rightarrow> bool" where
  "mask_ok sbi m \<longleftrightarrow> and m (valid_mask sbi) = m \<and> bit m (unat (sbi_fastest_tier sbi))"

definition staging_cfg :: "sb_info \<Rightarrow> staging_state \<Rightarrow> bool" where
  "staging_cfg sbi st \<longleftrightarrow> 1 \<le> st_full_pct st \<and> st_full_pct st \<le> 100
     \<and> mask_ok sbi (st_metadata_active_mask st) \<and> mask_ok sbi (st_drain_active_mask st)
     \<and> (sbi_cache_mode sbi \<longrightarrow> st_metadata_active_mask st = valid_mask sbi \<and> bit (st_drain_active_mask st) (ntiers sbi - 1))"

definition pool_cfg :: "sb_info \<Rightarrow> bool" where
  "pool_cfg sbi \<longleftrightarrow> pool_wf sbi \<and> staging_cfg sbi (sbi_staging sbi)"

lemma bit_valid_mask: "ntiers sbi \<le> MAX_TIERS \<Longrightarrow> bit (valid_mask sbi) k \<longleftrightarrow> k < ntiers sbi"
proof -
  assume "ntiers sbi \<le> MAX_TIERS"
  moreover have "valid_mask sbi = mask (ntiers sbi)" by (simp add: valid_mask_def BIT_def mask_eq_exp_minus_1 push_bit_of_1)
  ultimately show ?thesis by (auto simp: bit_mask_iff MAX_TIERS_def)
qed

lemma pool_wf_upd_staging [simp]: "pool_wf (upd_staging f sbi) = pool_wf sbi" "valid_mask (upd_staging f sbi) = valid_mask sbi"
  by (simp_all add: pool_wf_def valid_mask_def upd_staging_def)

lemma pool_cfg_upd_staging: "pool_cfg (upd_staging f sbi) \<longleftrightarrow> pool_wf sbi \<and> staging_cfg sbi (f (sbi_staging sbi))"
  by (simp add: pool_cfg_def staging_cfg_def mask_ok_def) (simp add: upd_staging_def)

lemma mask_ok_store:
  assumes "pool_wf sbi"
  shows "mask_ok sbi (or (and m (valid_mask sbi)) (BIT (unat (sbi_fastest_tier sbi))))" "mask_ok sbi (valid_mask sbi)"
    "mask_ok sbi m' \<Longrightarrow> mask_ok sbi (or m' (BIT (ntiers sbi - 1)))"
proof -
  have n: "ntiers sbi \<le> MAX_TIERS" "0 < ntiers sbi" "unat (sbi_fastest_tier sbi) < ntiers sbi" "ntiers sbi < 32"
    using assms by (auto simp: pool_wf_def word_less_nat_alt MAX_TIERS_def)
  note b = bit_and_iff bit_or_iff bit_valid_mask [OF n(1)]
  show "mask_ok sbi (or (and m (valid_mask sbi)) (BIT (unat (sbi_fastest_tier sbi))))" "mask_ok sbi (valid_mask sbi)"
    using n by (auto simp: mask_ok_def b intro!: bit_word_eqI)
  show "mask_ok sbi (or m' (BIT (ntiers sbi - 1)))" if "mask_ok sbi m'"
  proof -
    from that have m': "bit m' k \<Longrightarrow> k < ntiers sbi" for k by (metis b(1,3) mask_ok_def)
    have k: "bit (BIT (ntiers sbi - 1)) k \<Longrightarrow> k < ntiers sbi" for k using n(2) unfolding bit_BIT by linarith
    have "and (or m' (BIT (ntiers sbi - 1))) (valid_mask sbi) = or m' (BIT (ntiers sbi - 1))"
      by (rule bit_word_eqI) (use m' k in \<open>auto simp only: b\<close>)
    then show ?thesis using that by (simp add: mask_ok_def bit_or_iff)
  qed
qed

lemma stores_keep_cfg:
  assumes "pool_cfg sbi"
  shows "pool_cfg (snd (write_staging_enabled_store buf sbi))" "pool_cfg (snd (write_staging_full_pct_store buf sbi))"
    "pool_cfg (snd (metadata_active_tier_mask_store buf sbi))" "pool_cfg (snd (drain_mask_set buf sbi))"
proof -
  have wf: "pool_wf sbi" using assms by (simp add: pool_cfg_def)
  have c: "staging_cfg sbi (sbi_staging sbi)" using assms by (simp add: pool_cfg_def)
  show "pool_cfg (snd (write_staging_enabled_store buf sbi))"
    using assms wf c by (auto simp: write_staging_enabled_store_def pool_cfg_upd_staging split: sum.split) (simp add: staging_cfg_def)
  have pct: "1 \<le> (ucast p :: u8) \<and> (ucast p :: u8) \<le> 100" if "\<not> p < 1" "\<not> 100 < p" for p :: u32
  proof -
    have "unat p \<le> 100" "1 \<le> unat p" using that by (auto simp: word_less_nat_alt not_less word_le_nat_alt)
    then show ?thesis by (simp add: word_le_nat_alt unsigned_ucast_eq take_bit_nat_eq_self)
  qed
  show "pool_cfg (snd (write_staging_full_pct_store buf sbi))"
    using assms wf c pct by (auto simp: write_staging_full_pct_store_def pool_cfg_upd_staging split: sum.split) (simp add: staging_cfg_def)
  show "pool_cfg (snd (metadata_active_tier_mask_store buf sbi))"
    using assms wf c mask_ok_store(1,2) [OF wf]
    by (auto simp: metadata_active_tier_mask_store_def Let_def pool_cfg_upd_staging split: sum.split) (simp_all add: staging_cfg_def)
  have last: "bit (or m (BIT (ntiers sbi - 1))) (ntiers sbi - 1)" for m
    using wf by (auto simp: bit_or_iff pool_wf_def MAX_TIERS_def)
  show "pool_cfg (snd (drain_mask_set buf sbi))"
    using assms wf c mask_ok_store(1,2) [OF wf] mask_ok_store(3) [OF wf mask_ok_store(1) [OF wf]] last
    by (auto simp: drain_mask_set_def Let_def pool_cfg_upd_staging split: sum.split) (simp_all add: staging_cfg_def)
qed

text \<open>Operations that leave the fields the configuration is about.\<close>

definition cfg_of :: "sb_info \<Rightarrow> u8 \<times> bool \<times> u8 \<times> nat \<times> u8 \<times> u32 \<times> u32" where
  "cfg_of sbi = (sbi_ntiers sbi, sbi_cache_mode sbi, sbi_fastest_tier sbi, length (sbi_tiers sbi),
     st_full_pct (sbi_staging sbi), st_metadata_active_mask (sbi_staging sbi), st_drain_active_mask (sbi_staging sbi))"

lemma pool_cfg_cong: "cfg_of s = cfg_of s' \<Longrightarrow> pool_cfg s = pool_cfg s'"
  by (simp add: cfg_of_def pool_cfg_def pool_wf_def staging_cfg_def mask_ok_def valid_mask_def)

lemma cfg_of_upd [simp]:
  "cfg_of (upd_inode r f sbi) = cfg_of sbi"
  "cfg_of (sbi\<lparr>sbi_inodes := i\<rparr>) = cfg_of sbi" "cfg_of (sbi\<lparr>sbi_inode_list := l\<rparr>) = cfg_of sbi"
  "cfg_of (sbi\<lparr>sbi_lower_ino_map := m\<rparr>) = cfg_of sbi" "cfg_of (sbi\<lparr>sbi_path_map := pm\<rparr>) = cfg_of sbi"
  "cfg_of (sbi\<lparr>sbi_oid_map := om\<rparr>) = cfg_of sbi"
  by (simp_all add: cfg_of_def upd_inode_def)

lemma cfg_of_upd_staging:
  "st_full_pct (f (sbi_staging sbi)) = st_full_pct (sbi_staging sbi) \<Longrightarrow>
   st_metadata_active_mask (f (sbi_staging sbi)) = st_metadata_active_mask (sbi_staging sbi) \<Longrightarrow>
   st_drain_active_mask (f (sbi_staging sbi)) = st_drain_active_mask (sbi_staging sbi) \<Longrightarrow> cfg_of (upd_staging f sbi) = cfg_of sbi"
  by (simp add: cfg_of_def upd_staging_def)

lemma note_drained_cfg [simp]: "cfg_of (note_drained env n b sbi) = cfg_of sbi"
  by (simp add: note_drained_def Let_def cfg_of_upd_staging set_reason_def)

lemma drain_one_range_cfg [simp]: "cfg_of (w_sbi (snd (drain_one_range env r w))) = cfg_of (w_sbi w)"
  by (auto simp: drain_one_range_def drain_clear_def range_stage_unlink_path_def set_file_def Let_def
      split: option.split sum.split prod.split)

lemma rehome_drained_cfg [simp]: "cfg_of (rehome_drained env r sbi) = cfg_of sbi"
  by (simp add: rehome_drained_def Let_def cfg_of_upd_staging set_reason_def)

lemma unlink_rel_cfg: "unlink_rel_path_on_tier env t s w = (x, w') \<Longrightarrow> cfg_of (n_sbi w') = cfg_of (n_sbi w)"
  by (auto simp: unlink_rel_path_on_tier_def lower_unlink_def set_nlink_def cut_name_def split: prod.splits sum.splits option.splits if_splits)

lemma drain_one_rehome_cfg [simp]: "cfg_of (n_sbi (snd (drain_one_rehome env r w))) = cfg_of (n_sbi w)"
  by (auto simp: drain_one_rehome_def Let_def dest!: unlink_rel_cfg split: option.split sum.split prod.split)

lemma drain_rehomes_rel:
  assumes "drain_rehomes env w = Some y" and refl: "\<And>w. R w w" and trans: "\<And>u v w. R u v \<Longrightarrow> R v w \<Longrightarrow> R u w"
    and "\<And>r w. R w (snd (drain_one_rehome env r w))"
  shows "R w (snd y)"
proof -
  have "(\<forall>r w. R w (snd (drain_one_rehome env r w))) \<longrightarrow> R w (snd y)"
    using assms(1)
  proof (induction env w y rule: drain_rehomes.raw_induct [rotated, consumes 1])
    case (1 f env w y)
    show ?case
    proof (cases "find_drainable_rehome env (n_sbi w)")
      case None
      then show ?thesis using 1(2) refl by auto
    next
      case (Some r)
      obtain e w1 where d: "drain_one_rehome env r w = (e, w1)" by fastforce
      show ?thesis
      proof
        assume one: "\<forall>r w. R w (snd (drain_one_rehome env r w))"
        then have "R w w1" using d by (metis snd_conv)
        then show "R w (snd y)" using 1(1) [of env w1 y] 1(2) one Some d by (cases e) (auto intro: trans)
      qed
    qed
  qed
  then show ?thesis using assms(4) by blast
qed

lemma drain_rehomes_keeps:
  assumes "drain_rehomes env w = Some y" and "\<And>r w. Q (snd (drain_one_rehome env r w)) = Q w"
  shows "Q (snd y) = Q w"
  by (rule drain_rehomes_rel [OF assms(1), where R = "\<lambda>u v. Q v = Q u"]) (simp_all add: assms(2))

lemma drain_ranges_rel:
  assumes "drain_ranges env w = Some y" and refl: "\<And>w. R w w" and trans: "\<And>u v w. R u v \<Longrightarrow> R v w \<Longrightarrow> R u w"
    and "\<And>r w. R w (snd (drain_one_range env r w))"
  shows "R w (snd y)"
proof -
  have "(\<forall>r w. R w (snd (drain_one_range env r w))) \<longrightarrow> R w (snd y)"
    using assms(1)
  proof (induction env w y rule: drain_ranges.raw_induct [rotated, consumes 1])
    case (1 f env w y)
    show ?case
    proof (cases "find_drainable_range env (w_sbi w)")
      case None
      then show ?thesis using 1(2) refl by auto
    next
      case (Some r)
      obtain e w1 where d: "drain_one_range env r w = (e, w1)" by fastforce
      show ?thesis
      proof
        assume one: "\<forall>r w. R w (snd (drain_one_range env r w))"
        then have "R w w1" using d by (metis snd_conv)
        then show "R w (snd y)" using 1(1) [of env w1 y] 1(2) one Some d by (cases e) (auto intro: trans)
      qed
    qed
  qed
  then show ?thesis using assms(4) by blast
qed

lemma drain_ranges_keeps:
  assumes "drain_ranges env w = Some y" and "\<And>r w. Q (snd (drain_one_range env r w)) = Q w"
  shows "Q (snd y) = Q w"
  by (rule drain_ranges_rel [OF assms(1), where R = "\<lambda>u v. Q v = Q u"]) (simp_all add: assms(2))

lemmas drain_rehomes_cfg = drain_rehomes_keeps [where Q = "\<lambda>w. cfg_of (n_sbi w)", OF _ drain_one_rehome_cfg]
lemmas drain_ranges_cfg = drain_ranges_keeps [where Q = "\<lambda>w. cfg_of (w_sbi w)", OF _ drain_one_range_cfg]

definition rs_of :: "sb_info \<Rightarrow> iref \<Rightarrow> range_state option" where
  "rs_of sbi r = map_option si_rs (sbi_inodes sbi r)"

lemma rs_of_simps [simp]:
  "rs_of (rehome_drained env r s) = rs_of s"
  by (auto simp: rs_of_def fun_eq_iff rehome_drained_def upd_inode_def upd_staging_def Let_def option.map_comp o_def)

lemma unlink_rel_rs: "unlink_rel_path_on_tier env t s w = (x, w') \<Longrightarrow> rs_of (n_sbi w') = rs_of (n_sbi w)"
  by (auto simp: unlink_rel_path_on_tier_def lower_unlink_def set_nlink_def cut_name_def split: prod.splits sum.splits option.splits if_splits)

lemma drain_one_rehome_rs: "rs_of (n_sbi (snd (drain_one_rehome env r w))) = rs_of (n_sbi w)"
  by (auto simp: drain_one_rehome_def Let_def dest!: unlink_rel_rs split: option.split sum.split prod.split)

lemmas drain_rehomes_rs = drain_rehomes_keeps [where Q = "\<lambda>w. rs_of (n_sbi w)", OF _ drain_one_rehome_rs]

lemma map_ops_cfg [simp]:
  "cfg_of (lower_ino_map_remove t i s) = cfg_of s" "cfg_of (snd (lower_ino_map_insert al t i n s)) = cfg_of s"
  "cfg_of (oid_map_remove q s) = cfg_of s" "cfg_of (path_map_del r s) = cfg_of s"
  by (auto simp: lower_ino_map_remove_def lower_ino_map_insert_def oid_map_remove_def path_map_del_def rht_insert_def Let_def
      split: option.split sum.split)

lemma clear_write_reservation_cfg [simp]: "cfg_of (clear_write_reservation r s) = cfg_of s"
  by (auto simp: clear_write_reservation_def upd_tier_def cfg_of_def upd_inode_def Let_def split: option.split)

lemma evict_inode_cfg [simp]: "cfg_of (evict_inode lino r s) = cfg_of s"
  by (auto simp: evict_inode_def Let_def split: option.split)

lemma relower_cfg: "relower_after_forget env r t n s = (b, s') \<Longrightarrow> cfg_of s' = cfg_of s"
  by (auto simp: relower_after_forget_def Let_def split: option.splits sum.splits prod.splits if_splits)

lemma forget_tier_copy_cfg [simp]: "cfg_of (forget_tier_copy env busy t lino s) = cfg_of s"
  by (auto simp: forget_tier_copy_def Let_def dest: relower_cfg split: option.split prod.split bool.split)

lemma drain_mask_store_returns:
  assumes cfg: "pool_cfg (n_sbi nw)" and env: "kread_ok (io_kread ienv)" "kwrite_ok (io_kwrite ienv)" "kwrite_clean (io_kwrite ienv)"
    and wf: "\<forall>r rs. rs_of (n_sbi nw) r = Some rs \<longrightarrow> ranges_wf (rs_ranges rs)"
  shows "\<exists>res nw' iw'. write_staging_drain_active_tier_mask_store nenv ienv buf nw iw = Some (res, nw', iw') \<and> pool_cfg (n_sbi nw')"
proof (cases "drain_mask_set buf (n_sbi nw)")
  case (Pair e s1)
  have s1: "pool_cfg s1" using stores_keep_cfg(4) [OF cfg, of buf] Pair by simp
  have rs1: "rs_of s1 = rs_of (n_sbi nw)"
    using Pair by (auto simp: drain_mask_set_def Let_def rs_of_def upd_staging_def fun_eq_iff split: sum.splits if_splits)
  show ?thesis
  proof (cases e)
    case (Inl x)
    then show ?thesis using Pair cfg by (auto simp: write_staging_drain_active_tier_mask_store_def)
  next
    case (Inr n)
    obtain x nw1 where d: "drain_rehomes nenv (nw\<lparr>n_sbi := s1\<rparr>) = Some (x, nw1)" using drain_rehomes_ends by blast
    have "ranges_wf (rs_ranges (si_rs si))" if "ino r (iw\<lparr>w_sbi := n_sbi nw1\<rparr>) = Some si" for r si
      using fun_cong [OF drain_rehomes_rs [OF d], of r] wf [rule_format, of r "si_rs si"] that by (simp add: rs1) (simp add: rs_of_def)
    then obtain y iw1 where d2: "drain_ranges ienv (iw\<lparr>w_sbi := n_sbi nw1\<rparr>) = Some (y, iw1)"
      using drain_ranges_ends [OF env] by blast
    have "cfg_of (w_sbi iw1) = cfg_of s1" using drain_rehomes_cfg [OF d] drain_ranges_cfg [OF d2] by simp
    then have "pool_cfg (w_sbi iw1)" using pool_cfg_cong s1 by blast
    then show ?thesis using Pair Inr d d2 by (simp add: write_staging_drain_active_tier_mask_store_def)
  qed
qed

text \<open>
  C34. The administrator cannot put a pool into a state it must not have: every store of the pool's
  sysfs files, with whatever text, keeps the configuration valid. The full percentage stays
  between 1 and 100, the masks name tiers of the pool and the fastest one, and in cache mode every
  tier stays active for metadata and the base tier for draining. Setting the drain mask returns,
  with all its drains, when the lower file systems write what they say they write. A refused
  percentage or mask changes nothing.
\<close>

theorem sysfs_stores_keep_cfg:
  assumes "pool_cfg sbi"
    and "kread_ok (io_kread ienv)" "kwrite_ok (io_kwrite ienv)" "kwrite_clean (io_kwrite ienv)"
    and "n_sbi nw = sbi" "\<forall>r rs. rs_of sbi r = Some rs \<longrightarrow> ranges_wf (rs_ranges rs)"
  shows "pool_cfg (snd (write_staging_enabled_store buf sbi)) \<and> pool_cfg (snd (write_staging_full_pct_store buf sbi))
    \<and> pool_cfg (snd (metadata_active_tier_mask_store buf sbi)) \<and> pool_cfg (snd (forget_lower_store env busy buf sbi))
    \<and> (\<exists>res nw' iw'. write_staging_drain_active_tier_mask_store nenv ienv buf nw iw = Some (res, nw', iw') \<and> pool_cfg (n_sbi nw'))
    \<and> (\<forall>e. fst (write_staging_full_pct_store buf sbi) = Err e \<longrightarrow> snd (write_staging_full_pct_store buf sbi) = sbi)
    \<and> (\<forall>e. fst (metadata_active_tier_mask_store buf sbi) = Err e \<longrightarrow> snd (metadata_active_tier_mask_store buf sbi) = sbi)"
proof (intro conjI)
  show "pool_cfg (snd (forget_lower_store env busy buf sbi))"
    using assms(1) pool_cfg_cong [OF forget_tier_copy_cfg] by (auto simp: forget_lower_store_def split: option.split)
  show "\<exists>res nw' iw'. write_staging_drain_active_tier_mask_store nenv ienv buf nw iw = Some (res, nw', iw') \<and> pool_cfg (n_sbi nw')"
    using drain_mask_store_returns assms by blast
qed (use stores_keep_cfg [OF assms(1)] in
    \<open>auto simp: write_staging_full_pct_store_def metadata_active_tier_mask_store_def Let_def split: sum.splits if_splits\<close>)

lemma mask_ok_shown:
  assumes "mask_ok sbi m"
  shows "or (and m (valid_mask sbi)) (BIT (unat (sbi_fastest_tier sbi))) = m"
    "bit m k \<Longrightarrow> or m (BIT k) = m"
proof -
  have "or m (BIT k) = m" if "bit m k" for k
    by (rule bit_word_eqI) (use that in \<open>auto simp: bit_or_iff bit_BIT\<close>)
  then show "or (and m (valid_mask sbi)) (BIT (unat (sbi_fastest_tier sbi))) = m" "bit m k \<Longrightarrow> or m (BIT k) = m"
    using assms by (simp_all add: mask_ok_def)
qed

lemma upd_staging_same: "f (sbi_staging sbi) = sbi_staging sbi \<Longrightarrow> upd_staging f sbi = sbi"
  by (simp add: upd_staging_def)

text \<open>
  What the writable sysfs files show can be written back: storing the text a file shows is
  accepted and leaves the whole pool as it was, so an administrator who saves the settings of a
  pool and restores them gets the same pool.
\<close>

theorem sysfs_show_store_roundtrip:
  assumes "pool_cfg sbi"
  shows "write_staging_enabled_store (write_staging_enabled_show sbi) sbi = (Ok (length (write_staging_enabled_show sbi)), sbi)
    \<and> write_staging_full_pct_store (write_staging_full_pct_show sbi) sbi = (Ok (length (write_staging_full_pct_show sbi)), sbi)
    \<and> metadata_active_tier_mask_store (metadata_active_tier_mask_show sbi) sbi = (Ok (length (metadata_active_tier_mask_show sbi)), sbi)
    \<and> drain_mask_set (write_staging_drain_active_tier_mask_show sbi) sbi = (Ok (length (write_staging_drain_active_tier_mask_show sbi)), sbi)"
proof (intro conjI)
  have wf: "pool_wf sbi" and c: "staging_cfg sbi (sbi_staging sbi)" using assms by (simp_all add: pool_cfg_def)
  have n: "sbi_ntiers sbi \<noteq> 0" "\<not> MAX_TIERS < ntiers sbi" using wf by (auto simp: pool_wf_def)
  define p where "p = st_full_pct (sbi_staging sbi)"
  have p: "1 \<le> unat p" "unat p \<le> 100" "unat p < 2 ^ 32"
    using c by (auto simp: staging_cfg_def p_def word_le_nat_alt)
  then have p': "kstrtou32 10 (emit_nat (unat p)) = Ok (ucast p)" using kstrtou32_show_nat [of "unat p"] by simp
  show "write_staging_full_pct_store (write_staging_full_pct_show sbi) sbi = (Ok (length (write_staging_full_pct_show sbi)), sbi)"
    using p by (simp add: write_staging_full_pct_store_def write_staging_full_pct_show_def p_def [symmetric] p' word_less_nat_alt unsigned_ucast_eq take_bit_nat_eq_self)
      (simp add: upd_staging_same p_def take_bit_word_eq_self)
  show "write_staging_enabled_store (write_staging_enabled_show sbi) sbi = (Ok (length (write_staging_enabled_show sbi)), sbi)"
    unfolding write_staging_enabled_store_def write_staging_enabled_show_def kstrtobool_emit by (simp add: upd_staging_same)
  show "metadata_active_tier_mask_store (metadata_active_tier_mask_show sbi) sbi = (Ok (length (metadata_active_tier_mask_show sbi)), sbi)"
    using c n mask_ok_shown(1) unfolding metadata_active_tier_mask_store_def metadata_active_tier_mask_show_def kstrtou32_show_hex
    by (auto simp: Let_def staging_cfg_def intro!: upd_staging_same)
  show "drain_mask_set (write_staging_drain_active_tier_mask_show sbi) sbi = (Ok (length (write_staging_drain_active_tier_mask_show sbi)), sbi)"
    using c n mask_ok_shown unfolding drain_mask_set_def write_staging_drain_active_tier_mask_show_def kstrtou32_show_hex
    by (auto simp: Let_def staging_cfg_def intro!: upd_staging_same)
qed

lemma ex_pool_cfg: "pool_cfg (n_sbi ex_ns_world)"
proof -
  have "valid_mask (n_sbi ex_ns_world) = 3" by (simp add: valid_mask_def ex_ns_world_def ex_pool_def BIT_def)
  moreover have "sbi_fastest_tier (n_sbi ex_ns_world) = 0" "\<not> sbi_cache_mode (n_sbi ex_ns_world)"
    "sbi_staging (n_sbi ex_ns_world) = ex_staging"
    by (simp_all add: ex_ns_world_def ex_pool_def)
  ultimately show ?thesis using ex_ns_ok(1) by (simp add: pool_cfg_def staging_cfg_def mask_ok_def ex_staging_def)
qed

theorem sysfs_stores_keep_cfg_witness:
  "\<exists>res nw' iw'. write_staging_drain_active_tier_mask_store ex_ns_env ex_io_env ''0x2'' ex_ns_world ex_world = Some (res, nw', iw')
    \<and> pool_cfg (n_sbi nw')"
proof -
  have "\<forall>r rs. rs_of (n_sbi ex_ns_world) r = Some rs \<longrightarrow> ranges_wf (rs_ranges rs)"
    by (simp add: rs_of_def ex_ns_world_def ex_inode_def ex_rs_def ranges_wf_def)
  from sysfs_stores_keep_cfg [OF ex_pool_cfg ex_io_ok(1-3) refl this] show ?thesis by blast
qed

theorem sysfs_show_store_roundtrip_witness:
  "metadata_active_tier_mask_store (metadata_active_tier_mask_show (n_sbi ex_ns_world)) (n_sbi ex_ns_world) = (Ok 4, n_sbi ex_ns_world)"
proof -
  have "length (metadata_active_tier_mask_show (n_sbi ex_ns_world)) = 4"
    by (simp add: metadata_active_tier_mask_show_def ex_ns_world_def ex_pool_def ex_staging_def show_hex_def show_base.simps newline_def)
  then show ?thesis using sysfs_show_store_roundtrip [OF ex_pool_cfg] by simp
qed

end
