(* ===== verification/Mount.thy ===== *)
theory Mount
  imports Sysfs Control Range_Replay "HOL-Library.Multiset"
begin

text \<open>
  Mounting, syncing and unmounting a pool (\<open>super.c\<close>, \<open>probe.c\<close>, \<open>module.c\<close>): the mount options,
  the probe of the lower filesystems, \<open>smoothfs_fill_super\<close> with its two error exits,
  \<open>smoothfs_sync_fs\<close>, \<open>smoothfs_statfs\<close>, \<open>smoothfs_put_super\<close>, \<open>smoothfs_kill_sb\<close>, and loading and
  unloading the module. What a mount holds outside of the pool, the references on the lower
  directories, the registration, the sysfs directory and the references of inodes, is in the world.
\<close>

section \<open>Capabilities of the lower filesystems\<close>

definition CAPS_REQUIRED :: u32 where
  "CAPS_REQUIRED = foldr or (map BIT [0..<11]) 0"

abbreviation CAP_QUOTA_USER :: u32 where "CAP_QUOTA_USER \<equiv> BIT 11"
abbreviation CAP_QUOTA_PROJECT :: u32 where "CAP_QUOTA_PROJECT \<equiv> BIT 12"
abbreviation CAP_REFLINK :: u32 where "CAP_REFLINK \<equiv> BIT 13"
abbreviation CAP_COPY_FILE_RANGE :: u32 where "CAP_COPY_FILE_RANGE \<equiv> BIT 14"
abbreviation CAP_FSCRYPT :: u32 where "CAP_FSCRYPT \<equiv> BIT 15"

definition XFS_SUPER_MAGIC :: u64 where "XFS_SUPER_MAGIC = 0x58465342"
definition ZFS_SUPER_MAGIC :: u64 where "ZFS_SUPER_MAGIC = 0x2fc12fc1"
definition EXT4_SUPER_MAGIC :: u64 where "EXT4_SUPER_MAGIC = 0xEF53"
definition BTRFS_SUPER_MAGIC :: u64 where "BTRFS_SUPER_MAGIC = 0x9123683E"
definition BCACHEFS_SUPER_MAGIC :: u64 where "BCACHEFS_SUPER_MAGIC = 0xca451a4e"

definition caps_for_magic :: "u64 \<Rightarrow> u32" where
  "caps_for_magic magic =
    (if magic = XFS_SUPER_MAGIC
     then or CAPS_REQUIRED (or CAP_QUOTA_USER (or CAP_QUOTA_PROJECT (or CAP_REFLINK (or CAP_COPY_FILE_RANGE CAP_FSCRYPT))))
     else if magic = ZFS_SUPER_MAGIC then or CAPS_REQUIRED (or CAP_QUOTA_USER CAP_COPY_FILE_RANGE)
     else if magic = EXT4_SUPER_MAGIC
     then or CAPS_REQUIRED (or CAP_QUOTA_USER (or CAP_QUOTA_PROJECT (or CAP_COPY_FILE_RANGE CAP_FSCRYPT)))
     else if magic = BTRFS_SUPER_MAGIC then or CAPS_REQUIRED (or CAP_REFLINK (or CAP_COPY_FILE_RANGE CAP_FSCRYPT))
     else if magic = BCACHEFS_SUPER_MAGIC then or CAPS_REQUIRED (or CAP_REFLINK CAP_COPY_FILE_RANGE)
     else 0)"

section \<open>Mount options\<close>

record fc_ctx =
  fc_pool :: "string option"
  fc_uuid_str :: "string option"
  fc_tiers :: "string option"
  fc_create_policy :: "string option"
  fc_cache_mode :: bool

definition init_fs_context :: "bool \<Rightarrow> fc_ctx res" where
  "init_fs_context alloc =
    (if \<not> alloc then Err ENOMEM
     else Ok \<lparr>fc_pool = None, fc_uuid_str = None, fc_tiers = None, fc_create_policy = None, fc_cache_mode = False\<rparr>)"

datatype fs_param = Opt_pool | Opt_uuid | Opt_tiers | Opt_create_policy | Opt_mode

definition smoothfs_fs_parameters :: "(string \<times> fs_param) list" where
  "smoothfs_fs_parameters = [(''pool'', Opt_pool), (''uuid'', Opt_uuid), (''tiers'', Opt_tiers),
     (''create_policy'', Opt_create_policy), (''mode'', Opt_mode)]"

abbreviation ENOPARAM :: errno where
  "ENOPARAM \<equiv> EOTHER 519"

text \<open>The kernel's \<open>fs_parse\<close> for string parameters: an unknown name and a missing or empty value are refused.\<close>

definition fs_parse :: "string \<Rightarrow> string option \<Rightarrow> (fs_param \<times> string) res" where
  "fs_parse key val =
    (case map_of smoothfs_fs_parameters key of
       None \<Rightarrow> Err ENOPARAM
     | Some opt \<Rightarrow> (case val of None \<Rightarrow> Err EINVAL | Some s \<Rightarrow> (if s = [] then Err EINVAL else Ok (opt, s))))"

text \<open>An option given twice counts with its last value. When the copy fails, the old value is gone too.\<close>

definition parse_param :: "bool \<Rightarrow> string \<Rightarrow> string option \<Rightarrow> fc_ctx \<Rightarrow> unit res \<times> fc_ctx" where
  "parse_param alloc key val ctx =
    (case fs_parse key val of
       Err e \<Rightarrow> (Err e, ctx)
     | Ok (opt, s) \<Rightarrow>
        (let v = (if alloc then Some s else None); res = (if alloc then Done else Err ENOMEM)
         in case opt of
             Opt_mode \<Rightarrow>
               (if s = ''cache'' then (Done, ctx\<lparr>fc_cache_mode := True\<rparr>)
                else if s = ''tier'' then (Done, ctx\<lparr>fc_cache_mode := False\<rparr>)
                else (Err EINVAL, ctx))
           | Opt_pool \<Rightarrow> (res, ctx\<lparr>fc_pool := v\<rparr>)
           | Opt_uuid \<Rightarrow> (res, ctx\<lparr>fc_uuid_str := v\<rparr>)
           | Opt_tiers \<Rightarrow> (res, ctx\<lparr>fc_tiers := v\<rparr>)
           | Opt_create_policy \<Rightarrow> (res, ctx\<lparr>fc_create_policy := v\<rparr>)))"

definition parse_create_policy :: "string option \<Rightarrow> sb_info \<Rightarrow> unit res \<times> sb_info" where
  "parse_create_policy policy sbi =
    (case policy of
       None \<Rightarrow> (Done, sbi\<lparr>sbi_create_policy := CREATE_POLICY_FASTEST\<rparr>)
     | Some p \<Rightarrow>
        (if p = [] \<or> p = ''fastest'' then (Done, sbi\<lparr>sbi_create_policy := CREATE_POLICY_FASTEST\<rparr>)
         else if p = ''high-water'' \<or> p = ''high_water'' then (Done, sbi\<lparr>sbi_create_policy := CREATE_POLICY_HIGH_WATER\<rparr>)
         else (Err EINVAL, sbi)))"

section \<open>The world of a mount\<close>

text \<open>
  \<open>mw_io\<close> holds the pool with its files, \<open>mw_live\<close> says that the superblock points to it. \<open>mw_refs\<close>
  are the references on lower paths taken by the mount and not yet given back, \<open>mw_count\<close> the
  reference counts of the inodes, \<open>mw_disk\<close> the placement log as it was closed and \<open>mw_durable\<close> as
  it was last synced, \<open>mw_synced\<close> the lower superblocks synced so far.
\<close>

record mount_world =
  mw_live :: bool
  mw_io :: io_world
  mw_xs :: xattrs
  mw_nl :: nl_world
  mw_refs :: "path multiset"
  mw_cred :: bool
  mw_srcu :: bool
  mw_index :: index_work
  mw_sysfs :: bool
  mw_root :: "(iref \<times> dentry) option"
  mw_count :: "iref \<Rightarrow> nat"
  mw_events :: "genl_msg list"
  mw_disk :: bytes
  mw_durable :: bytes
  mw_synced :: "nat list"
  mw_wb_kicked :: bool
  mw_oid_kicked :: bool

record mount_env =
  me_alloc :: bool
  me_oid_map :: "unit res"
  me_ino_map :: "unit res"
  me_path_map :: "unit res"
  me_srcu :: "unit res"
  me_oid_wq :: bool
  me_place_wq :: bool
  me_uuid_parse :: "string \<Rightarrow> bytes res"
  me_uuid_gen :: bytes
  me_xxh32 :: "bytes \<Rightarrow> u32"
  me_kstrdup :: bool
  me_kern_path :: "string \<Rightarrow> path res"
  me_magic :: "dentry \<Rightarrow> u64"
  me_op_revalidate :: "dentry \<Rightarrow> bool"
  me_ig :: iget_env
  me_make_root :: "dentry option"
  me_ensure_dir :: "unit res"
  me_log :: "bytes res"
  me_px :: px_env
  me_log_err :: "nat \<Rightarrow> errno option"
  me_rec_alloc :: "nat \<Rightarrow> bool"
  me_replay :: replay_env
  me_register :: bool
  me_sysfs_root :: bool
  me_sysfs_alloc :: bool
  me_kobject_add :: "unit res"
  me_nl :: nl_env
  me_aw :: append
  me_io :: io_env
  me_fsync_log :: "unit res"
  me_mnt_sb :: "vfsmount \<Rightarrow> nat"
  me_sync_filesystem :: "nat \<Rightarrow> unit res"

abbreviation m_sbi :: "mount_world \<Rightarrow> sb_info" where
  "m_sbi w \<equiv> w_sbi (mw_io w)"

definition upd_pool :: "(sb_info \<Rightarrow> sb_info) \<Rightarrow> mount_world \<Rightarrow> mount_world" where
  "upd_pool f w = w\<lparr>mw_io := (mw_io w)\<lparr>w_sbi := f (m_sbi w)\<rparr>\<rparr>"

definition step_pool :: "(sb_info \<Rightarrow> unit res \<times> sb_info) \<Rightarrow> mount_world \<Rightarrow> unit res \<times> mount_world" where
  "step_pool f w = (case f (m_sbi w) of (e, s) \<Rightarrow> (e, upd_pool (\<lambda>_. s) w))"

text \<open>Steps in order; the first that fails ends the sequence.\<close>

fun run_steps :: "('w \<Rightarrow> unit res \<times> 'w) list \<Rightarrow> 'w \<Rightarrow> unit res \<times> 'w" where
  "run_steps [] w = (Done, w)"
| "run_steps (f # fs) w = (case f w of (Err e, w1) \<Rightarrow> (Err e, w1) | (Ok _, w1) \<Rightarrow> run_steps fs w1)"

section \<open>Building the pool\<close>

definition zero_staging :: staging_state where
  "zero_staging = \<lparr>st_enabled = False, st_full_pct = 0, st_staged_bytes = 0, st_staged_rehome_bytes = 0,
     st_staged_rehomes_total = 0, st_range_staged_bytes = 0, st_range_staged_writes = 0,
     st_oldest_staged_write_ns = 0, st_last_drain_ns = 0, st_recovered_bytes = 0, st_recovered_writes = 0,
     st_recovery_pending = 0, st_oldest_recovered_write_ns = 0, st_last_recovery_ns = 0,
     st_recovered_tier_mask = 0, st_last_recovery_reason = RR_NONE, st_metadata_active_mask = 0,
     st_drain_active_mask = 0, st_last_drain_reason = []\<rparr>"

text \<open>The pool as \<open>kzalloc\<close> returns it, with the empty lists set up.\<close>

definition zero_sbi :: sb_info where
  "zero_sbi = \<lparr>sbi_pool_uuid = replicate 16 0, sbi_pool_name = [], sbi_fsid = 0, sbi_ntiers = 0,
     sbi_cache_mode = False, sbi_fastest_tier = 0, sbi_create_policy = 0, sbi_tiers = [],
     sbi_placement_log = None, sbi_placement_seq = 0, sbi_placement_wb_pending = [],
     sbi_placement_wb_count = 0, sbi_placement_wb_ready = False, sbi_oid_map = Map.empty,
     sbi_path_map = Map.empty, sbi_lower_ino_map = Map.empty, sbi_oid_map_ready = False,
     sbi_path_map_ready = False, sbi_lower_ino_map_ready = False, sbi_inode_list = [],
     sbi_inodes = Map.empty, sbi_recovery_records = [], sbi_recovery_ready = False,
     sbi_oid_monotonic = 0, sbi_quiesced = False, sbi_oid_wb_pending = [], sbi_oid_wb_count = 0,
     sbi_oid_wb_ready = False,
     sbi_spill = \<lparr>sp_creates_total = 0, sp_failed_all_tiers = 0, sp_any_since_mount = False,
       sp_metadata_tier_skips = 0, sp_parent_tier_recoveries = 0\<rparr>,
     sbi_staging = zero_staging, sbi_any_lower_revalidates = False\<rparr>"

definition oid_map_init :: "unit res \<Rightarrow> sb_info \<Rightarrow> unit res \<times> sb_info" where
  "oid_map_init rht sbi =
    (case rht of Err e \<Rightarrow> (Err e, sbi) | Ok _ \<Rightarrow> (Done, sbi\<lparr>sbi_oid_map := Map.empty, sbi_oid_map_ready := True\<rparr>))"

definition oid_map_destroy :: "sb_info \<Rightarrow> sb_info" where
  "oid_map_destroy sbi = (if \<not> sbi_oid_map_ready sbi then sbi else sbi\<lparr>sbi_oid_map_ready := False, sbi_oid_map := Map.empty\<rparr>)"

definition lower_ino_map_init :: "unit res \<Rightarrow> sb_info \<Rightarrow> unit res \<times> sb_info" where
  "lower_ino_map_init rht sbi =
    (case rht of Err e \<Rightarrow> (Err e, sbi) | Ok _ \<Rightarrow> (Done, sbi\<lparr>sbi_lower_ino_map := Map.empty, sbi_lower_ino_map_ready := True\<rparr>))"

definition lower_ino_map_destroy :: "sb_info \<Rightarrow> sb_info" where
  "lower_ino_map_destroy sbi =
    (if \<not> sbi_lower_ino_map_ready sbi then sbi else sbi\<lparr>sbi_lower_ino_map_ready := False, sbi_lower_ino_map := Map.empty\<rparr>)"

definition path_map_init :: "unit res \<Rightarrow> sb_info \<Rightarrow> unit res \<times> sb_info" where
  "path_map_init rht sbi =
    (case rht of Err e \<Rightarrow> (Err e, sbi) | Ok _ \<Rightarrow> (Done, sbi\<lparr>sbi_path_map := Map.empty, sbi_path_map_ready := True\<rparr>))"

definition path_map_destroy :: "sb_info \<Rightarrow> sb_info" where
  "path_map_destroy sbi = (if \<not> sbi_path_map_ready sbi then sbi else sbi\<lparr>sbi_path_map_ready := False, sbi_path_map := Map.empty\<rparr>)"

definition oid_wb_init :: "bool \<Rightarrow> sb_info \<Rightarrow> unit res \<times> sb_info" where
  "oid_wb_init alloc_wq sbi =
    (let s = sbi\<lparr>sbi_oid_wb_pending := [], sbi_oid_wb_count := 0\<rparr>
     in if \<not> alloc_wq then (Err ENOMEM, s) else (Done, s\<lparr>sbi_oid_wb_ready := True\<rparr>))"

definition init_cutover_srcu :: "unit res \<Rightarrow> mount_world \<Rightarrow> unit res \<times> mount_world" where
  "init_cutover_srcu srcu w = (case srcu of Err e \<Rightarrow> (Err e, w) | Ok _ \<Rightarrow> (Done, w\<lparr>mw_srcu := True\<rparr>))"

text \<open>The settings from the options: the name, cut to 63 characters, the policy, the uuid, and the defaults.\<close>

definition set_uuid :: "mount_env \<Rightarrow> fc_ctx \<Rightarrow> sb_info \<Rightarrow> unit res \<times> sb_info" where
  "set_uuid env ctx sbi =
    (case (case fc_uuid_str ctx of None \<Rightarrow> Ok (me_uuid_gen env) | Some s \<Rightarrow> me_uuid_parse env s) of
       Err e \<Rightarrow> (Err e, sbi)
     | Ok u \<Rightarrow> (Done, sbi\<lparr>sbi_pool_uuid := u, sbi_fsid := me_xxh32 env u\<rparr>))"

definition set_defaults :: "fc_ctx \<Rightarrow> sb_info \<Rightarrow> unit res \<times> sb_info" where
  "set_defaults ctx sbi =
    (Done, sbi\<lparr>sbi_cache_mode := fc_cache_mode ctx,
       sbi_staging := zero_staging\<lparr>st_enabled := fc_cache_mode ctx, st_full_pct := 98,
         st_metadata_active_mask := BIT (unat (sbi_fastest_tier sbi)), st_drain_active_mask := BIT (unat (sbi_fastest_tier sbi))\<rparr>\<rparr>)"

section \<open>Resolving the tiers\<close>

text \<open>\<open>strsep\<close> with a colon: the pieces between the colons, empty ones included.\<close>

fun strsep_colon :: "string \<Rightarrow> string list" where
  "strsep_colon [] = [[]]"
| "strsep_colon (c # cs) =
    (if c = CHR '':'' then [] # strsep_colon cs
     else case strsep_colon cs of [] \<Rightarrow> [[c]] | p # ps \<Rightarrow> (c # p) # ps)"

text \<open>The probe fills in the capabilities and never fails.\<close>

definition probe_capabilities :: "mount_env \<Rightarrow> tier \<Rightarrow> tier" where
  "probe_capabilities env t = t\<lparr>t_caps := caps_for_magic (me_magic env (p_dentry (t_lower_path t)))\<rparr>"

definition lower_has_revalidate :: "mount_env \<Rightarrow> tier \<Rightarrow> bool" where
  "lower_has_revalidate env t = me_op_revalidate env (p_dentry (t_lower_path t))"

text \<open>The loop over the pieces: the tiers so far are in \<open>ts\<close>, and \<open>refs\<close> are the references held.\<close>

fun resolve_loop ::
  "mount_env \<Rightarrow> string list \<Rightarrow> tier list \<Rightarrow> bool \<Rightarrow> path multiset \<Rightarrow> unit res \<times> tier list \<times> bool \<times> path multiset" where
  "resolve_loop env [] ts rv refs = (Done, ts, rv, refs)"
| "resolve_loop env (p # ps) ts rv refs =
    (if p = [] then resolve_loop env ps ts rv refs
     else if MAX_TIERS \<le> length ts then (Err E2BIG, ts, rv, refs)
     else case me_kern_path env p of
         Err e \<Rightarrow> (Err e, ts, rv, refs)
       | Ok lp \<Rightarrow>
          (let t = probe_capabilities env \<lparr>t_rank = word_of_nat (length ts), t_caps = 0, t_lower_path = lp,
                     t_active_writes = 0, t_pending_writes = 0\<rparr>;
               got = add_mset lp refs
           in if and (t_caps t) CAPS_REQUIRED \<noteq> CAPS_REQUIRED then (Err EOPNOTSUPP, ts, rv, got - {#lp#})
              else resolve_loop env ps (ts @ [t]) (rv \<or> lower_has_revalidate env t) got))"

definition put_paths :: "tier list \<Rightarrow> path multiset \<Rightarrow> path multiset" where
  "put_paths ts refs = fold (\<lambda>t r. r - {#t_lower_path t#}) ts refs"

definition resolve_tiers :: "mount_env \<Rightarrow> string option \<Rightarrow> mount_world \<Rightarrow> unit res \<times> mount_world" where
  "resolve_tiers env csv w =
    (case csv of
       None \<Rightarrow> (Err EINVAL, w)
     | Some spec \<Rightarrow>
        (if spec = [] then (Err EINVAL, w)
         else if \<not> me_kstrdup env then (Err ENOMEM, w)
         else case resolve_loop env (strsep_colon spec) [] (sbi_any_lower_revalidates (m_sbi w)) (mw_refs w) of
             (Err e, ts, rv, refs) \<Rightarrow> (Err e, w\<lparr>mw_refs := put_paths (rev ts) refs\<rparr>)
           | (Ok _, ts, rv, refs) \<Rightarrow>
              (if ts = [] then (Err EINVAL, w\<lparr>mw_refs := refs\<rparr>)
               else (Done, upd_pool (\<lambda>s. s\<lparr>sbi_tiers := ts, sbi_ntiers := word_of_nat (length ts), sbi_fastest_tier := 0,
                                           sbi_any_lower_revalidates := rv\<rparr>) (w\<lparr>mw_refs := refs\<rparr>)))))"

text \<open>
  The last check before the pool is published. A cache needs two tiers; refusing it here leaves by
  \<open>out_sbi\<close>, which does not give back the references on the tiers.
\<close>

definition set_masks :: "sb_info \<Rightarrow> unit res \<times> sb_info" where
  "set_masks sbi =
    (if sbi_cache_mode sbi \<and> sbi_ntiers sbi < 2 then (Err EINVAL, sbi)
     else (Done, upd_staging (\<lambda>s. s\<lparr>st_metadata_active_mask := valid_mask sbi,
            st_drain_active_mask := (if sbi_cache_mode sbi then valid_mask sbi else BIT (unat (sbi_fastest_tier sbi)))\<rparr>) sbi))"

definition build_steps :: "mount_env \<Rightarrow> fc_ctx \<Rightarrow> (mount_world \<Rightarrow> unit res \<times> mount_world) list" where
  "build_steps env ctx =
    [step_pool (oid_map_init (me_oid_map env)), step_pool (lower_ino_map_init (me_ino_map env)),
     step_pool (path_map_init (me_path_map env)), init_cutover_srcu (me_srcu env), step_pool (oid_wb_init (me_oid_wq env)),
     step_pool (placement_wb_init (me_place_wq env)), (\<lambda>w. (Done, w\<lparr>mw_index := path_index_async_init (mw_index w)\<rparr>)),
     step_pool (\<lambda>s. (Done, s\<lparr>sbi_pool_name := take 63 (the (fc_pool ctx))\<rparr>)), step_pool (parse_create_policy (fc_create_policy ctx)),
     step_pool (set_uuid env ctx), step_pool (set_defaults ctx), resolve_tiers env (fc_tiers ctx), step_pool set_masks]"

section \<open>Starting the pool\<close>

text \<open>
  The lookups the range replay makes: by object id, with the recovery index behind the table, and
  after a rebuild of that index. \<open>k\<close> bounds the depth of the walk of the rebuild.
\<close>

definition lookup_oid_resolve :: "px_env \<Rightarrow> bytes \<Rightarrow> sb_info \<Rightarrow> xattrs \<Rightarrow> iref option \<times> sb_info \<times> xattrs" where
  "lookup_oid_resolve env oid sbi xs =
    (case lookup_oid oid sbi of Some r \<Rightarrow> (Some r, sbi, xs) | None \<Rightarrow> recovery_resolve_oid env oid sbi xs)"

definition model_lookups ::
  "nat \<Rightarrow> px_env \<Rightarrow> append \<Rightarrow> (nat \<Rightarrow> errno option) \<Rightarrow> (nat \<Rightarrow> bool) \<Rightarrow> xattrs \<Rightarrow> replay_env \<Rightarrow> replay_env" where
  "model_lookups k px aw io_err alloc xs e =
     e\<lparr>re_resolve := \<lambda>oid s. (case lookup_oid_resolve px oid s xs of (r, s1, _) \<Rightarrow> (r, s1)),
       re_rebuild := \<lambda>s. (case path_index_rebuild k px aw io_err alloc True s xs of None \<Rightarrow> (Err EIO, s) | Some (x, s1, _) \<Rightarrow> (x, s1))\<rparr>"

text \<open>
  The root inode, on the base tier in cache mode. \<open>iget\<close> takes its own reference, so the one taken
  here is given back whether it succeeds or not. If no root dentry can be made, the inode goes too.
\<close>

definition mount_root :: "mount_env \<Rightarrow> mount_world \<Rightarrow> unit res \<times> mount_world" where
  "mount_root env w =
    (let sbi = m_sbi w;
         root_lower = t_lower_path (tier_at sbi (if sbi_cache_mode sbi then sbi_ntiers sbi - 1 else sbi_fastest_tier sbi));
         w0 = w\<lparr>mw_refs := add_mset root_lower (mw_refs w)\<rparr>
     in case iget (me_ig env) root_lower True False sbi (mw_xs w) of
         (Err e, s1, xs1) \<Rightarrow> (Err e, upd_pool (\<lambda>_. s1) (w0\<lparr>mw_xs := xs1, mw_refs := mw_refs w0 - {#root_lower#}\<rparr>))
       | (Ok r, s1, xs1) \<Rightarrow>
          (let w1 = upd_pool (\<lambda>_. s1) (w0\<lparr>mw_xs := xs1, mw_refs := mw_refs w0 - {#root_lower#}\<rparr>)
           in case me_make_root env of
               None \<Rightarrow> (Err ENOMEM, upd_pool (evict_inode (ig_lino (me_ig env)) r) w1)
             | Some d \<Rightarrow> (Done, upd_pool (add_alias r d (p_dentry root_lower))
                            (w1\<lparr>mw_root := Some (r, d), mw_count := (mw_count w1)(r := 1)\<rparr>))))"

definition close_log :: "mount_env \<Rightarrow> mount_world \<Rightarrow> mount_world" where
  "close_log env w =
    (case placement_close (me_aw env) (m_sbi w) of
       (f, s) \<Rightarrow> upd_pool (\<lambda>_. s) (w\<lparr>mw_disk := (case f of None \<Rightarrow> mw_disk w | Some b \<Rightarrow> b)\<rparr>))"

definition mount_log :: "mount_env \<Rightarrow> mount_world \<Rightarrow> unit res \<times> mount_world" where
  "mount_log env = step_pool (placement_open (me_ensure_dir env) (me_log env))"

definition mount_replay :: "mount_env \<Rightarrow> mount_world \<Rightarrow> unit res \<times> mount_world" where
  "mount_replay env w =
    (case placement_replay (me_px env) (me_log_err env) (me_rec_alloc env) (m_sbi w) of
       (Err e, s, _) \<Rightarrow> (Err e, close_log env (upd_pool (\<lambda>_. s) w))
     | (Ok _, s, rebuild) \<Rightarrow>
        (let w1 = upd_pool (\<lambda>_. s) (if rebuild then w\<lparr>mw_index := path_index_async_schedule (mw_index w)\<rparr> else w)
         in (Done, upd_pool (\<lambda>s. (snd (range_staging_replay (me_replay env) s))\<lparr>sbi_quiesced := False\<rparr>) w1)))"

definition mount_register :: "mount_env \<Rightarrow> nat \<Rightarrow> mount_world \<Rightarrow> unit res \<times> mount_world" where
  "mount_register env b w =
    (case sb_register (me_register env) b (mw_nl w) of
       (Err e, nl) \<Rightarrow> (Err e, close_log env (w\<lparr>mw_nl := nl\<rparr>))
     | (Ok _, nl) \<Rightarrow> (Done, w\<lparr>mw_nl := nl\<rparr>))"

definition sysfs_pool_add :: "mount_env \<Rightarrow> mount_world \<Rightarrow> unit res \<times> mount_world" where
  "sysfs_pool_add env w =
    (if \<not> me_sysfs_root env then (Done, w)
     else if \<not> me_sysfs_alloc env then (Err ENOMEM, w)
     else case me_kobject_add env of Err e \<Rightarrow> (Err e, w) | Ok _ \<Rightarrow> (Done, w\<lparr>mw_sysfs := True\<rparr>))"

definition sysfs_pool_remove :: "mount_world \<Rightarrow> mount_world" where
  "sysfs_pool_remove w = w\<lparr>mw_sysfs := False\<rparr>"

definition mount_sysfs :: "mount_env \<Rightarrow> nat \<Rightarrow> mount_world \<Rightarrow> unit res \<times> mount_world" where
  "mount_sysfs env b w =
    (case sysfs_pool_add env w of
       (Err e, w1) \<Rightarrow> (Err e, close_log env (w1\<lparr>mw_nl := sb_unregister b (mw_nl w1)\<rparr>))
     | (Ok _, w1) \<Rightarrow> (Done, w1))"

definition start_steps :: "mount_env \<Rightarrow> nat \<Rightarrow> (mount_world \<Rightarrow> unit res \<times> mount_world) list" where
  "start_steps env b = [mount_root env, mount_log env, mount_replay env, mount_register env b, mount_sysfs env b]"

text \<open>Publishing: the registry shows the pool, its heat work runs, and the event is sent.\<close>

definition mount_done :: "mount_env \<Rightarrow> nat \<Rightarrow> mount_world \<Rightarrow> mount_world" where
  "mount_done env b w =
    w\<lparr>mw_nl := (mw_nl w)\<lparr>nw_sb := (nw_sb (mw_nl w))(b := m_sbi w), nw_heat := (nw_heat (mw_nl w))(b := heat_init)\<rparr>,
      mw_events := mw_events w @ (case snd (emit_mount_ready (me_nl env) (m_sbi w)) of None \<Rightarrow> [] | Some m \<Rightarrow> [m])\<rparr>"

section \<open>Giving everything back\<close>

definition out_tiers :: "mount_world \<Rightarrow> mount_world" where
  "out_tiers w = w\<lparr>mw_refs := put_paths (take (ntiers (m_sbi w)) (sbi_tiers (m_sbi w))) (mw_refs w)\<rparr>"

definition destroy_oid_wb :: "mount_env \<Rightarrow> mount_world \<Rightarrow> mount_world" where
  "destroy_oid_wb env w =
    (case oid_wb_destroy (ig_dino (me_ig env)) (ig_xerr (me_ig env)) (m_sbi w) (mw_xs w) of
       (s, xs) \<Rightarrow> upd_pool (\<lambda>_. s) (w\<lparr>mw_xs := xs\<rparr>))"

definition destroy_tables :: "mount_world \<Rightarrow> mount_world" where
  "destroy_tables w = upd_pool (path_map_destroy \<circ> oid_map_destroy \<circ> lower_ino_map_destroy) (w\<lparr>mw_srcu := False\<rparr>)"

definition out_sbi :: "mount_env \<Rightarrow> mount_world \<Rightarrow> mount_world" where
  "out_sbi env w =
    (let w1 = upd_pool recovery_destroy (w\<lparr>mw_index := path_index_async_destroy (mw_index w)\<rparr>);
         w2 = destroy_oid_wb env (upd_pool (placement_wb_destroy (me_aw env)) w1)
     in (destroy_tables w2)\<lparr>mw_cred := False, mw_live := False\<rparr>)"

definition fill_super :: "mount_env \<Rightarrow> fc_ctx \<Rightarrow> nat \<Rightarrow> mount_world \<Rightarrow> unit res \<times> mount_world" where
  "fill_super env ctx b w =
    (if fc_pool ctx = None \<or> fc_tiers ctx = None then (Err EINVAL, w)
     else if \<not> me_alloc env then (Err ENOMEM, w)
     else case run_steps (build_steps env ctx) (upd_pool (\<lambda>_. zero_sbi) (w\<lparr>mw_cred := True\<rparr>)) of
         (Err e, w1) \<Rightarrow> (Err e, out_sbi env w1)
       | (Ok _, w1) \<Rightarrow>
          (case run_steps (start_steps env b) (w1\<lparr>mw_live := True\<rparr>) of
             (Err e, w2) \<Rightarrow> (Err e, out_sbi env (out_tiers w2))
           | (Ok _, w2) \<Rightarrow> (Done, mount_done env b w2)))"

definition put_super :: "mount_env \<Rightarrow> nat \<Rightarrow> mount_world \<Rightarrow> mount_world" where
  "put_super env b w =
    (if \<not> mw_live w then w
     else let w1 = upd_pool recovery_destroy (w\<lparr>mw_index := path_index_async_destroy (mw_index w)\<rparr>);
              w2 = w1\<lparr>mw_nl := (mw_nl w1)\<lparr>nw_heat := (nw_heat (mw_nl w1))(b := heat_destroy (nw_heat (mw_nl w1) b))\<rparr>\<rparr>;
              w3 = sysfs_pool_remove w2;
              w4 = w3\<lparr>mw_nl := sb_unregister b (mw_nl w3)\<rparr>;
              w5 = close_log env (destroy_oid_wb env w4);
              w6 = destroy_tables (upd_pool (placement_wb_destroy (me_aw env)) w5)
       in (out_tiers w6)\<lparr>mw_cred := False, mw_live := False\<rparr>)"

section \<open>Sizes and options\<close>

record kstatfs =
  f_type :: u64
  f_bsize :: u64
  f_frsize :: u64
  f_namelen :: u64
  f_fsid :: u64
  f_blocks :: u64
  f_bfree :: u64
  f_bavail :: u64
  f_files :: u64
  f_ffree :: u64

definition SMOOTHFS_MAGIC :: u64 where "SMOOTHFS_MAGIC = 0x534D4F46"
definition PAGE_SIZE :: u64 where "PAGE_SIZE = 4096"
definition NAME_MAX :: u64 where "NAME_MAX = 255"

definition statfs_add :: "kstatfs \<Rightarrow> kstatfs \<Rightarrow> kstatfs" where
  "statfs_add buf tmp =
     buf\<lparr>f_blocks := f_blocks buf + (f_blocks tmp * f_bsize tmp) div PAGE_SIZE,
         f_bfree := f_bfree buf + (f_bfree tmp * f_bsize tmp) div PAGE_SIZE,
         f_bavail := f_bavail buf + (f_bavail tmp * f_bsize tmp) div PAGE_SIZE,
         f_files := f_files buf + f_files tmp, f_ffree := f_ffree buf + f_ffree tmp\<rparr>"

text \<open>A tier that does not answer is reported; in cache mode there is only the base tier, and its error is the result.\<close>

fun statfs_loop ::
  "nl_env \<Rightarrow> (path \<Rightarrow> kstatfs res) \<Rightarrow> sb_info \<Rightarrow> u8 list \<Rightarrow> kstatfs \<Rightarrow> genl_msg list \<Rightarrow> kstatfs res \<times> genl_msg list" where
  "statfs_loop nl vfs_statfs sbi [] buf evs = (Ok buf, evs)"
| "statfs_loop nl vfs_statfs sbi (i # is) buf evs =
    (case vfs_statfs (t_lower_path (tier_at sbi i)) of
       Err e \<Rightarrow>
         (let evs1 = evs @ (case snd (emit_tier_fault nl sbi i) of None \<Rightarrow> [] | Some m \<Rightarrow> [m])
          in if sbi_cache_mode sbi then (Err e, evs1) else statfs_loop nl vfs_statfs sbi is buf evs1)
     | Ok tmp \<Rightarrow> statfs_loop nl vfs_statfs sbi is (statfs_add buf tmp) evs)"

definition statfs :: "nl_env \<Rightarrow> (bytes \<Rightarrow> u64) \<Rightarrow> (path \<Rightarrow> kstatfs res) \<Rightarrow> sb_info \<Rightarrow> kstatfs res \<times> genl_msg list" where
  "statfs nl xxh64 vfs_statfs sbi =
    statfs_loop nl vfs_statfs sbi (if sbi_cache_mode sbi then [sbi_ntiers sbi - 1] else tier_ids sbi)
      \<lparr>f_type = SMOOTHFS_MAGIC, f_bsize = PAGE_SIZE, f_frsize = PAGE_SIZE, f_namelen = NAME_MAX, f_fsid = xxh64 (sbi_pool_uuid sbi),
       f_blocks = 0, f_bfree = 0, f_bavail = 0, f_files = 0, f_ffree = 0\<rparr> []"

definition show_options :: "sb_info \<Rightarrow> string" where
  "show_options sbi =
    (let h = show_base 16 (unat (sbi_fsid sbi))
     in '',pool='' @ sbi_pool_name sbi @ '',mode='' @ (if sbi_cache_mode sbi then ''cache'' else ''tier'')
        @ '',fsid=0x'' @ replicate (8 - length h) (CHR ''0'') @ h
        @ concat (map (\<lambda>i. '',tier'' @ show_nat i @ ''=present'') [0..<ntiers sbi]))"

section \<open>Syncing\<close>

text \<open>Each distinct lower superblock is synced once, at the first tier that is on it; the first error is kept.\<close>

fun sync_tiers :: "mount_env \<Rightarrow> nat list \<Rightarrow> nat list \<Rightarrow> unit res \<Rightarrow> nat list \<Rightarrow> unit res \<times> nat list" where
  "sync_tiers env [] prior err synced = (err, synced)"
| "sync_tiers env (sb # sbs) prior err synced =
    (if sb \<in> set prior then sync_tiers env sbs (prior @ [sb]) err synced
     else let ret = me_sync_filesystem env sb
       in sync_tiers env sbs (prior @ [sb]) (if err = Done then ret else err) (if ret = Done then synced @ [sb] else synced))"

definition lower_sbs :: "mount_env \<Rightarrow> sb_info \<Rightarrow> nat list" where
  "lower_sbs env sbi = map (\<lambda>t. me_mnt_sb env (p_mnt (t_lower_path t))) (take (ntiers sbi) (sbi_tiers sbi))"

definition placement_wb_kick :: "mount_world \<Rightarrow> mount_world" where
  "placement_wb_kick w = (if \<not> sbi_placement_wb_ready (m_sbi w) then w else w\<lparr>mw_wb_kicked := True\<rparr>)"

definition sync_flush :: "mount_env \<Rightarrow> unit res \<Rightarrow> mount_world \<Rightarrow> unit res \<times> mount_world" where
  "sync_flush env err w =
    (case oid_wb_drain (ig_dino (me_ig env)) (ig_xerr (me_ig env)) (m_sbi w) (mw_xs w) of
       (s1, xs1) \<Rightarrow>
         (let w1 = upd_pool (\<lambda>_. placement_wb_drain (me_aw env) s1) (w\<lparr>mw_xs := xs1\<rparr>)
          in case sbi_placement_log (m_sbi w1) of
              None \<Rightarrow> (err, w1)
            | Some log \<Rightarrow>
               (case me_fsync_log env of
                  Ok _ \<Rightarrow> (err, w1\<lparr>mw_durable := log\<rparr>)
                | Err e \<Rightarrow> (if err = Done then Err e else err, w1))))"

text \<open>The drain of a cache gives back the reference of every pin it clears.\<close>

definition unpinned :: "sb_info \<Rightarrow> sb_info \<Rightarrow> iref \<Rightarrow> bool" where
  "unpinned s s' r \<longleftrightarrow>
    (case (sbi_inodes s r, sbi_inodes s' r) of (Some si, Some si') \<Rightarrow> rs_pinned (si_rs si) \<and> \<not> rs_pinned (si_rs si') | _ \<Rightarrow> False)"

definition mount_drain :: "mount_env \<Rightarrow> mount_world \<Rightarrow> (unit res \<times> mount_world) option" where
  "mount_drain env w =
    (case cache_drain (me_io env) (mw_io w) of
       None \<Rightarrow> None
     | Some (e, io1) \<Rightarrow>
        Some (e, w\<lparr>mw_io := io1, mw_count := \<lambda>r. mw_count w r - (if unpinned (m_sbi w) (w_sbi io1) r then 1 else 0)\<rparr>))"

definition sync_fs :: "mount_env \<Rightarrow> bool \<Rightarrow> mount_world \<Rightarrow> (unit res \<times> mount_world) option" where
  "sync_fs env wait w =
    (if \<not> mw_live w then Some (Done, w)
     else if wait
     then case mount_drain env w of
         None \<Rightarrow> None
       | Some (err, w0) \<Rightarrow>
          (case sync_flush env err w0 of
             (err1, w1) \<Rightarrow>
               (case sync_tiers env (lower_sbs env (m_sbi w1)) [] err1 (mw_synced w1) of
                  (err2, synced) \<Rightarrow> Some (err2, w1\<lparr>mw_synced := synced\<rparr>)))
     else Some (Done, (placement_wb_kick w)\<lparr>mw_oid_kicked := mw_oid_kicked w \<or> sbi_oid_wb_ready (m_sbi w)\<rparr>))"

section \<open>Unmounting\<close>

text \<open>
  The kernel's side: an inode without references and links is evicted when its last reference is
  put, any other stays cached. Shutting down drops the dentries with the references they hold, syncs,
  evicts the inodes without references and calls \<open>put_super\<close>. The inodes that are left are busy.
\<close>

definition evict :: "mount_env \<Rightarrow> iref \<Rightarrow> mount_world \<Rightarrow> mount_world" where
  "evict env r w =
    (if mw_live w then upd_pool (evict_inode (ig_lino (me_ig env)) r) w
     else upd_pool (\<lambda>s. s\<lparr>sbi_inodes := (sbi_inodes s)(r := None)\<rparr>) w)"

definition iput :: "mount_env \<Rightarrow> iref \<Rightarrow> mount_world \<Rightarrow> mount_world" where
  "iput env r w =
    (let w1 = w\<lparr>mw_count := (mw_count w)(r := mw_count w r - 1)\<rparr>
     in if mw_count w1 r = 0 \<and> map_option si_nlink (sbi_inodes (m_sbi w) r) = Some 0 then evict env r w1 else w1)"

definition shrink_dcache :: "iref list \<Rightarrow> mount_world \<Rightarrow> mount_world" where
  "shrink_dcache rs w =
    fold (\<lambda>r w. case sbi_inodes (m_sbi w) r of
            None \<Rightarrow> w
          | Some si \<Rightarrow> upd_pool (upd_inode r (\<lambda>i. i\<lparr>si_aliases := []\<rparr>))
              (w\<lparr>mw_count := (mw_count w)(r := mw_count w r - length (si_aliases si))\<rparr>)) rs (w\<lparr>mw_root := None\<rparr>)"

definition evict_inodes :: "mount_env \<Rightarrow> iref list \<Rightarrow> mount_world \<Rightarrow> mount_world" where
  "evict_inodes env rs w = fold (\<lambda>r w. if mw_count w r = 0 then evict env r w else w) rs w"

definition kill_anon_super :: "mount_env \<Rightarrow> nat \<Rightarrow> iref list \<Rightarrow> mount_world \<Rightarrow> (mount_world \<times> iref list) option" where
  "kill_anon_super env b rs w =
    (if mw_root w = None then Some (w, [])
     else case sync_fs env False (shrink_dcache rs w) of
         None \<Rightarrow> None
       | Some (_, w1) \<Rightarrow>
          (case sync_fs env True w1 of
             None \<Rightarrow> None
           | Some (_, w2) \<Rightarrow>
              (let w3 = evict_inodes env rs w2
               in Some (put_super env b w3, filter (\<lambda>r. sbi_inodes (m_sbi w3) r \<noteq> None) rs))))"

text \<open>
  \<open>smoothfs_kill_sb\<close>: the background work stops, the cache is drained, and the references that pins
  hold, one for the replay and one for staged ranges, are put. What could not be drained stays on
  disk for the next mount.
\<close>

definition pins :: "inode_info \<Rightarrow> nat" where
  "pins si = (if si_replay_pinned si then 1 else 0) + (if rs_pinned (si_rs si) then 1 else 0)"

definition take_pins :: "iref \<Rightarrow> sb_info \<Rightarrow> sb_info" where
  "take_pins r = upd_inode r (\<lambda>i. (upd_rs (\<lambda>s. s\<lparr>rs_pinned := False\<rparr>) i)\<lparr>si_unmount_pins := int (pins i), si_replay_pinned := False\<rparr>)"

definition inode_pins :: "sb_info \<Rightarrow> iref \<Rightarrow> nat" where
  "inode_pins sbi r = (case sbi_inodes sbi r of None \<Rightarrow> 0 | Some si \<Rightarrow> pins si)"

definition release_pins :: "mount_env \<Rightarrow> mount_world \<Rightarrow> mount_world" where
  "release_pins env w =
    (let rs = sbi_inode_list (m_sbi w);
         held = map (\<lambda>r. (r, inode_pins (m_sbi w) r)) (filter (\<lambda>r. inode_pins (m_sbi w) r \<noteq> 0) rs);
         w1 = upd_pool (\<lambda>s. (fold take_pins rs s)\<lparr>sbi_inode_list := filter (\<lambda>r. inode_pins (m_sbi w) r = 0) rs\<rparr>) w
     in fold (\<lambda>(r, n). iput env r ^^ n) held w1)"

definition kill_sb :: "mount_env \<Rightarrow> nat \<Rightarrow> mount_world \<Rightarrow> (mount_world \<times> iref list) option" where
  "kill_sb env b w =
    (let rs = sbi_inode_list (m_sbi w)
     in if \<not> mw_live w then kill_anon_super env b rs w
        else let w1 = w\<lparr>mw_index := path_index_async_destroy (mw_index w),
                        mw_nl := (mw_nl w)\<lparr>nw_heat := (nw_heat (mw_nl w))(b := heat_destroy (nw_heat (mw_nl w) b))\<rparr>\<rparr>
          in case mount_drain env w1 of
              None \<Rightarrow> None
            | Some (_, w2) \<Rightarrow> kill_anon_super env b rs (release_pins env w2))"

section \<open>The module\<close>

record module_state =
  mod_cache :: bool
  mod_netlink :: bool
  mod_sysfs :: bool
  mod_fs :: bool

record module_env =
  mo_cache :: bool
  mo_netlink :: "unit res"
  mo_sysfs :: bool
  mo_register :: "unit res"

definition init_inodecache :: "module_env \<Rightarrow> module_state \<Rightarrow> unit res \<times> module_state" where
  "init_inodecache env m = (if \<not> mo_cache env then (Err ENOMEM, m) else (Done, m\<lparr>mod_cache := True\<rparr>))"

definition sysfs_init :: "module_env \<Rightarrow> module_state \<Rightarrow> unit res \<times> module_state" where
  "sysfs_init env m = (if \<not> mo_sysfs env then (Err ENOMEM, m) else (Done, m\<lparr>mod_sysfs := True\<rparr>))"

definition sysfs_exit :: "module_state \<Rightarrow> module_state" where
  "sysfs_exit m = m\<lparr>mod_sysfs := False\<rparr>"

definition destroy_inodecache :: "module_state \<Rightarrow> module_state" where
  "destroy_inodecache m = m\<lparr>mod_cache := False\<rparr>"

definition module_init :: "module_env \<Rightarrow> module_state \<Rightarrow> unit res \<times> module_state" where
  "module_init env m =
    (case init_inodecache env m of
       (Err e, m1) \<Rightarrow> (Err e, m1)
     | (Ok _, m1) \<Rightarrow>
        (case mo_netlink env of
           Err e \<Rightarrow> (Err e, destroy_inodecache m1)
         | Ok _ \<Rightarrow>
            (let m2 = m1\<lparr>mod_netlink := True\<rparr>
             in case sysfs_init env m2 of
                 (Err e, m3) \<Rightarrow> (Err e, destroy_inodecache (m3\<lparr>mod_netlink := False\<rparr>))
               | (Ok _, m3) \<Rightarrow>
                  (case mo_register env of
                     Err e \<Rightarrow> (Err e, destroy_inodecache ((sysfs_exit m3)\<lparr>mod_netlink := False\<rparr>))
                   | Ok _ \<Rightarrow> (Done, m3\<lparr>mod_fs := True\<rparr>)))))"

definition module_exit :: "module_state \<Rightarrow> module_state" where
  "module_exit m = destroy_inodecache ((sysfs_exit (m\<lparr>mod_fs := False\<rparr>))\<lparr>mod_netlink := False\<rparr>)"

text \<open>Loading leaves everything or nothing, and unloading leaves nothing.\<close>

lemma module_load_unload:
  assumes "module_init env m = (res, m')" and "m = \<lparr>mod_cache = False, mod_netlink = False, mod_sysfs = False, mod_fs = False\<rparr>"
  shows "res = Done \<Longrightarrow> m' = \<lparr>mod_cache = True, mod_netlink = True, mod_sysfs = True, mod_fs = True\<rparr>"
    and "res \<noteq> Done \<Longrightarrow> m' = m" and "module_exit m' = m"
  using assms
  by (auto simp: module_init_def module_exit_def init_inodecache_def sysfs_init_def sysfs_exit_def destroy_inodecache_def Let_def
      split: if_splits sum.splits)

end
