(* ===== verification/Mount_Facts.thy ===== *)
theory Mount_Facts
  imports Mount
begin

text \<open>
  What a mount establishes and gives back. A mount that succeeds has made a well-formed pool, one
  that fails holds nothing; a sync is a barrier over all tiers; an unmount drops exactly the
  references that pins hold, so that no inode is busy when the superblock goes.
\<close>

section \<open>Frames of the mount steps\<close>

lemma upd_pool_simps [simp]:
  "m_sbi (upd_pool f w) = f (m_sbi w)" "mw_refs (upd_pool f w) = mw_refs w" "mw_live (upd_pool f w) = mw_live w"
  "mw_xs (upd_pool f w) = mw_xs w" "mw_nl (upd_pool f w) = mw_nl w" "mw_cred (upd_pool f w) = mw_cred w"
  "mw_srcu (upd_pool f w) = mw_srcu w" "mw_index (upd_pool f w) = mw_index w" "mw_sysfs (upd_pool f w) = mw_sysfs w"
  "mw_root (upd_pool f w) = mw_root w" "mw_count (upd_pool f w) = mw_count w" "mw_synced (upd_pool f w) = mw_synced w"
  "mw_durable (upd_pool f w) = mw_durable w" "mw_disk (upd_pool f w) = mw_disk w" "mw_events (upd_pool f w) = mw_events w"
  "mw_wb_kicked (upd_pool f w) = mw_wb_kicked w" "mw_oid_kicked (upd_pool f w) = mw_oid_kicked w"
  by (simp_all add: upd_pool_def)

text \<open>What a step leaves alone outside of the pool.\<close>

definition outside :: "mount_world \<Rightarrow> _" where
  "outside w = (mw_live w, mw_nl w, mw_cred w, mw_srcu w, mw_index w, mw_sysfs w)"

lemma step_pool_frame: "step_pool f w = (e, w') \<Longrightarrow> outside w' = outside w \<and> mw_refs w' = mw_refs w"
  by (auto simp: step_pool_def outside_def split: prod.splits)

lemma run_steps_append:
  "run_steps (fs @ gs) w = (case run_steps fs w of (Err e, w1) \<Rightarrow> (Err e, w1) | (Ok _, w1) \<Rightarrow> run_steps gs w1)"
  by (induction fs arbitrary: w) (auto split: prod.splits sum.splits)

lemma run_steps_inv:
  assumes "run_steps fs w = (e, w')" "P w" "\<And>f w e w'. f \<in> set fs \<Longrightarrow> P w \<Longrightarrow> f w = (e, w') \<Longrightarrow> P w'"
  shows "P w'"
  using assms
proof (induction fs arbitrary: w)
  case (Cons f fs)
  obtain e1 w1 where f: "f w = (e1, w1)" by fastforce
  with Cons.prems have P1: "P w1" by auto
  show ?case
  proof (cases e1)
    case (Inl x)
    then show ?thesis using Cons.prems(1) f P1 by auto
  next
    case (Inr u)
    then have "run_steps fs w1 = (e, w')" using Cons.prems(1) f by simp
    then show ?thesis using Cons.IH P1 Cons.prems(3) by (metis list.set_intros(2))
  qed
qed simp

section \<open>The tiers\<close>

definition tier_ok :: "nat \<Rightarrow> tier \<Rightarrow> bool" where
  "tier_ok i t \<longleftrightarrow> t_rank t = word_of_nat i \<and> and (t_caps t) CAPS_REQUIRED = CAPS_REQUIRED"

definition tiers_ok :: "tier list \<Rightarrow> bool" where
  "tiers_ok ts \<longleftrightarrow> length ts \<le> MAX_TIERS \<and> (\<forall>i < length ts. tier_ok i (ts ! i))"

lemma tiers_ok_snoc: "tiers_ok ts \<Longrightarrow> length ts < MAX_TIERS \<Longrightarrow> tier_ok (length ts) t \<Longrightarrow> tiers_ok (ts @ [t])"
  by (auto simp: tiers_ok_def nth_append less_Suc_eq)

lemma resolve_loop_ok:
  assumes "resolve_loop env ps ts rv refs = (e, ts', rv', refs')" "tiers_ok ts"
  shows "tiers_ok ts' \<and> refs' + mset (map t_lower_path ts) = refs + mset (map t_lower_path ts')
    \<and> (e = Done \<longrightarrow> length ts' = length ts + length (filter (\<lambda>p. p \<noteq> []) ps))"
  using assms
proof (induction env ps ts rv refs rule: resolve_loop.induct)
  case (2 env p ps ts rv refs)
  show ?case
  proof (cases "p = [] \<or> MAX_TIERS \<le> length ts")
    case True
    then show ?thesis using 2 by (auto split: if_splits)
  next
    case False
    show ?thesis
    proof (cases "me_kern_path env p")
      case (Inl x)
      then show ?thesis using 2 False by auto
    next
      case (Inr lp)
      define t where "t = probe_capabilities env \<lparr>t_rank = word_of_nat (length ts), t_caps = 0, t_lower_path = lp, t_active_writes = 0, t_pending_writes = 0\<rparr>"
      have lp: "t_lower_path t = lp" "t_rank t = word_of_nat (length ts)" by (simp_all add: t_def probe_capabilities_def)
      show ?thesis
      proof (cases "and (t_caps t) CAPS_REQUIRED = CAPS_REQUIRED")
        case True
        have ok: "tiers_ok (ts @ [t])" using tiers_ok_snoc 2(4) False True lp by (simp add: tier_ok_def)
        have run: "resolve_loop env ps (ts @ [t]) (rv \<or> lower_has_revalidate env t) (add_mset lp refs) = (e, ts', rv', refs')"
          using 2(3) False Inr True by (simp add: t_def [symmetric] Let_def)
        then show ?thesis using 2(2) [OF _ _ Inr t_def refl] False ok True lp by (auto simp: t_def [symmetric])
      next
        case bad: False
        then show ?thesis using 2(3,4) False Inr by (simp add: t_def [symmetric] Let_def) (auto)
      qed
    qed
  qed
qed auto

lemma put_paths_mset: "put_paths ts refs = refs - mset (map t_lower_path ts)"
  by (induction ts arbitrary: refs) (simp_all add: put_paths_def)

lemma resolve_tiers_ok:
  assumes "resolve_tiers env csv w = (e, w')"
  shows "outside w' = outside w"
    and "e \<noteq> Done \<Longrightarrow> mw_refs w' = mw_refs w"
    and "e = Done \<Longrightarrow> \<exists>ts. ts \<noteq> [] \<and> tiers_ok ts \<and> mw_refs w' = mw_refs w + mset (map t_lower_path ts)
        \<and> length ts = length (filter (\<lambda>p. p \<noteq> []) (strsep_colon (the csv)))
        \<and> (\<exists>rv. m_sbi w' = (m_sbi w)\<lparr>sbi_tiers := ts, sbi_ntiers := word_of_nat (length ts), sbi_fastest_tier := 0, sbi_any_lower_revalidates := rv\<rparr>)"
proof -
  have base: "tiers_ok []" by (simp add: tiers_ok_def)
  show "outside w' = outside w"
    using assms by (auto simp: resolve_tiers_def outside_def split: option.splits if_splits prod.splits sum.splits)
  show "mw_refs w' = mw_refs w" if "e \<noteq> Done"
    using assms that resolve_loop_ok [OF _ base]
    by (auto simp: resolve_tiers_def put_paths_mset split: option.splits if_splits prod.splits sum.splits dest!: resolve_loop_ok [OF _ base])
  show "\<exists>ts. ts \<noteq> [] \<and> tiers_ok ts \<and> mw_refs w' = mw_refs w + mset (map t_lower_path ts)
        \<and> length ts = length (filter (\<lambda>p. p \<noteq> []) (strsep_colon (the csv)))
        \<and> (\<exists>rv. m_sbi w' = (m_sbi w)\<lparr>sbi_tiers := ts, sbi_ntiers := word_of_nat (length ts), sbi_fastest_tier := 0, sbi_any_lower_revalidates := rv\<rparr>)"
    if "e = Done"
    using assms that
    apply (auto simp: resolve_tiers_def split: option.splits if_splits prod.splits sum.splits dest!: resolve_loop_ok [OF _ base])
    subgoal for spec ts rv by (intro exI [of _ ts] conjI exI [of _ rv]) simp_all
    done
qed

section \<open>Building\<close>

text \<open>What the steps before the tiers make of the zeroed pool.\<close>

definition ready_pool :: "sb_info \<Rightarrow> bool" where
  "ready_pool s \<longleftrightarrow> sbi_oid_map_ready s \<and> sbi_lower_ino_map_ready s \<and> sbi_path_map_ready s \<and> sbi_oid_wb_ready s \<and> sbi_placement_wb_ready s"

definition pre_pool :: "fc_ctx \<Rightarrow> sb_info \<Rightarrow> bool" where
  "pre_pool ctx s \<longleftrightarrow> ready_pool s \<and> sbi_cache_mode s = fc_cache_mode ctx \<and> st_full_pct (sbi_staging s) = 98
     \<and> sbi_tiers s = [] \<and> sbi_ntiers s = 0 \<and> sbi_inodes s = Map.empty \<and> sbi_inode_list s = [] \<and> sbi_placement_log s = None"

definition pre_steps :: "mount_env \<Rightarrow> fc_ctx \<Rightarrow> (mount_world \<Rightarrow> unit res \<times> mount_world) list" where
  "pre_steps env ctx = take 11 (build_steps env ctx)"

lemma build_steps_split: "build_steps env ctx = pre_steps env ctx @ [resolve_tiers env (fc_tiers ctx), step_pool set_masks]"
  by (simp add: pre_steps_def build_steps_def)

lemma run_steps_done:
  "run_steps (f # fs) w = (Done, w') \<longleftrightarrow> (\<exists>w1. f w = (Done, w1) \<and> run_steps fs w1 = (Done, w'))"
  by (auto split: prod.splits sum.splits)

lemma step_pool_done: "step_pool f w = (Done, w') \<longleftrightarrow> (\<exists>s. f (m_sbi w) = (Done, s) \<and> w' = upd_pool (\<lambda>_. s) w)"
  by (auto simp: step_pool_def split: prod.splits)

lemma init_done:
  "oid_map_init x s = (Done, s') \<longleftrightarrow> x = Done \<and> s' = s\<lparr>sbi_oid_map := Map.empty, sbi_oid_map_ready := True\<rparr>"
  "lower_ino_map_init x s = (Done, s') \<longleftrightarrow> x = Done \<and> s' = s\<lparr>sbi_lower_ino_map := Map.empty, sbi_lower_ino_map_ready := True\<rparr>"
  "path_map_init x s = (Done, s') \<longleftrightarrow> x = Done \<and> s' = s\<lparr>sbi_path_map := Map.empty, sbi_path_map_ready := True\<rparr>"
  "oid_wb_init y s = (Done, s') \<longleftrightarrow> y \<and> s' = s\<lparr>sbi_oid_wb_pending := [], sbi_oid_wb_count := 0, sbi_oid_wb_ready := True\<rparr>"
  "placement_wb_init y s = (Done, s')
    \<longleftrightarrow> y \<and> s' = s\<lparr>sbi_placement_wb_pending := [], sbi_placement_wb_count := 0, sbi_placement_wb_ready := True\<rparr>"
  "init_cutover_srcu x w = (Done, w') \<longleftrightarrow> x = Done \<and> w' = w\<lparr>mw_srcu := True\<rparr>"
  by (auto simp: oid_map_init_def lower_ino_map_init_def path_map_init_def oid_wb_init_def placement_wb_init_def init_cutover_srcu_def
      Let_def split: sum.splits)

lemma options_done:
  "parse_create_policy p s = (Done, s') \<Longrightarrow> \<exists>c. s' = s\<lparr>sbi_create_policy := c\<rparr>"
  "set_uuid env ctx s = (Done, s') \<Longrightarrow> \<exists>u. s' = s\<lparr>sbi_pool_uuid := u, sbi_fsid := me_xxh32 env u\<rparr>"
  by (auto simp: parse_create_policy_def set_uuid_def split: option.splits if_splits sum.splits)

lemma pre_steps_done:
  assumes "run_steps (pre_steps env ctx) w = (Done, w')" "m_sbi w = zero_sbi"
  shows "pre_pool ctx (m_sbi w') \<and> mw_srcu w' \<and> mw_cred w' = mw_cred w \<and> iw_ready (mw_index w')"
proof -
  from assms(1) show ?thesis
    unfolding pre_steps_def build_steps_def
    by (auto simp: run_steps_done step_pool_done init_done set_defaults_def simp del: run_steps.simps(2) dest!: options_done)
      (simp_all add: assms(2) zero_sbi_def zero_staging_def pre_pool_def ready_pool_def path_index_async_init_def)
qed

text \<open>Steps that hold no reference and register nothing.\<close>

definition holds_nothing :: "mount_world \<Rightarrow> mount_world \<Rightarrow> bool" where
  "holds_nothing w0 w \<longleftrightarrow> mw_refs w = mw_refs w0 \<and> mw_nl w = mw_nl w0 \<and> mw_sysfs w = mw_sysfs w0 \<and> mw_root w = mw_root w0"

lemma pre_steps_frame:
  assumes "run_steps (pre_steps env ctx) w = (e, w')"
  shows "holds_nothing w w'"
proof (rule run_steps_inv [OF assms, where P = "holds_nothing w"])
  show "holds_nothing w w" by (simp add: holds_nothing_def)
  fix f w1 e1 w2
  assume "f \<in> set (pre_steps env ctx)" "holds_nothing w w1" "f w1 = (e1, w2)"
  then show "holds_nothing w w2"
    by (auto simp: pre_steps_def build_steps_def holds_nothing_def step_pool_def init_cutover_srcu_def split: prod.splits sum.splits)
qed

text \<open>
  A pool that has been built: the configuration is valid, the tiers are ranked in order and have the
  required capabilities, and every table and queue is ready.
\<close>

definition built :: "sb_info \<Rightarrow> bool" where
  "built s \<longleftrightarrow> pool_cfg s \<and> tiers_ok (sbi_tiers s) \<and> ready_pool s"

lemma set_masks_built:
  assumes "set_masks s = (Done, s')" "ready_pool s" "tiers_ok (sbi_tiers s)" "sbi_tiers s \<noteq> []"
    and "sbi_ntiers s = word_of_nat (length (sbi_tiers s))" "sbi_fastest_tier s = 0" "st_full_pct (sbi_staging s) = 98"
  shows "built s' \<and> sbi_tiers s' = sbi_tiers s \<and> sbi_ntiers s' = sbi_ntiers s"
proof -
  have l: "length (sbi_tiers s) \<le> 8" using assms(3) by (simp add: tiers_ok_def MAX_TIERS_def)
  then have n: "ntiers s = length (sbi_tiers s)" using assms(5) by (simp add: take_bit_nat_eq_self unsigned_of_nat)
  have wf: "pool_wf s" using l n assms(4,6) by (auto simp: pool_wf_def MAX_TIERS_def word_less_nat_alt)
  have s': "s' = upd_staging (\<lambda>st. st\<lparr>st_metadata_active_mask := valid_mask s,
      st_drain_active_mask := (if sbi_cache_mode s then valid_mask s else BIT (unat (sbi_fastest_tier s)))\<rparr>) s"
    using assms(1) by (simp add: set_masks_def split: if_splits)
  have v: "bit (valid_mask s) k \<longleftrightarrow> k < ntiers s" for k using wf by (intro bit_valid_mask) (simp add: pool_wf_def)
  have "and (BIT (unat (sbi_fastest_tier s))) (valid_mask s) = BIT (unat (sbi_fastest_tier s))"
    by (rule bit_word_eqI) (use wf in \<open>auto simp: bit_and_iff v pool_wf_def word_less_nat_alt\<close>)
  then have "mask_ok s (BIT (unat (sbi_fastest_tier s)))" by (simp add: mask_ok_def assms(6))
  moreover have "bit (valid_mask s) (ntiers s - 1)" using v wf by (simp add: pool_wf_def)
  ultimately have "pool_cfg s'"
    unfolding s' pool_cfg_upd_staging using wf mask_ok_store(2) [OF wf] assms(7) by (simp add: staging_cfg_def)
  then show ?thesis using assms(2,3) s' by (simp add: built_def ready_pool_def upd_staging_def)
qed

lemma build_done:
  assumes "run_steps (build_steps env ctx) w = (Done, w')" "m_sbi w = zero_sbi"
  shows "built (m_sbi w') \<and> mw_refs w' = mw_refs w + mset (map t_lower_path (sbi_tiers (m_sbi w')))
    \<and> length (sbi_tiers (m_sbi w')) = length (filter (\<lambda>p. p \<noteq> []) (strsep_colon (the (fc_tiers ctx))))
    \<and> sbi_cache_mode (m_sbi w') = fc_cache_mode ctx
    \<and> sbi_inodes (m_sbi w') = Map.empty \<and> mw_srcu w' \<and> mw_cred w' = mw_cred w \<and> mw_nl w' = mw_nl w \<and> mw_sysfs w' = mw_sysfs w"
proof -
  from assms(1) obtain w1 w2 where r: "run_steps (pre_steps env ctx) w = (Done, w1)" "resolve_tiers env (fc_tiers ctx) w1 = (Done, w2)"
      "step_pool set_masks w2 = (Done, w')"
    unfolding build_steps_split run_steps_append by (auto split: prod.splits sum.splits)
  note p = pre_steps_done [OF r(1) assms(2)] pre_steps_frame [OF r(1), unfolded holds_nothing_def]
  obtain ts rv where t: "ts \<noteq> []" "tiers_ok ts" "mw_refs w2 = mw_refs w1 + mset (map t_lower_path ts)"
      "length ts = length (filter (\<lambda>p. p \<noteq> []) (strsep_colon (the (fc_tiers ctx))))"
      "m_sbi w2 = (m_sbi w1)\<lparr>sbi_tiers := ts, sbi_ntiers := word_of_nat (length ts), sbi_fastest_tier := 0, sbi_any_lower_revalidates := rv\<rparr>"
    using resolve_tiers_ok(3) [OF r(2)] by blast
  from r(3) obtain s where s: "set_masks (m_sbi w2) = (Done, s)" "w' = upd_pool (\<lambda>_. s) w2" by (auto simp: step_pool_done)
  have "built s \<and> sbi_tiers s = ts \<and> sbi_ntiers s = word_of_nat (length ts)"
    using set_masks_built [OF s(1)] p(1) t by (simp add: pre_pool_def ready_pool_def)
  moreover have "sbi_cache_mode s = fc_cache_mode ctx" "sbi_inodes s = Map.empty"
    using s(1) t(5) p(1) by (auto simp: set_masks_def pre_pool_def upd_staging_def split: if_splits)
  ultimately show ?thesis
    using s(2) p t resolve_tiers_ok(1) [OF r(2)] by (simp add: outside_def)
qed

lemma build_failed:
  assumes "run_steps (build_steps env ctx) w = (Err e, w')" "m_sbi w = zero_sbi"
    and "\<not> (fc_cache_mode ctx \<and> length (filter (\<lambda>p. p \<noteq> []) (strsep_colon (the (fc_tiers ctx)))) < 2)"
  shows "mw_refs w' = mw_refs w \<and> mw_nl w' = mw_nl w \<and> mw_sysfs w' = mw_sysfs w"
proof (cases "run_steps (pre_steps env ctx) w")
  case (Pair e1 w1)
  note fr = pre_steps_frame [OF Pair, unfolded holds_nothing_def]
  show ?thesis
  proof (cases e1)
    case (Inl x)
    then show ?thesis using assms(1) Pair fr by (simp add: build_steps_split run_steps_append)
  next
    case (Inr u)
    note p = pre_steps_done [OF Pair [unfolded Inr, simplified] assms(2)]
    obtain e2 w2 where r: "resolve_tiers env (fc_tiers ctx) w1 = (e2, w2)" by fastforce
    note o = resolve_tiers_ok(1) [OF r, unfolded outside_def]
    show ?thesis
    proof (cases e2)
      case (Inl y)
      then have "w' = w2" using assms(1) Pair Inr r by (simp add: build_steps_split run_steps_append)
      then show ?thesis using resolve_tiers_ok(2) [OF r] Inl fr o by simp
    next
      case done2: (Inr u2)
      then obtain ts rv where t: "tiers_ok ts" "length ts = length (filter (\<lambda>p. p \<noteq> []) (strsep_colon (the (fc_tiers ctx))))"
          "m_sbi w2 = (m_sbi w1)\<lparr>sbi_tiers := ts, sbi_ntiers := word_of_nat (length ts), sbi_fastest_tier := 0, sbi_any_lower_revalidates := rv\<rparr>"
        using resolve_tiers_ok(3) [OF r] by auto
      have "length ts \<le> 8" using t(1) by (simp add: tiers_ok_def MAX_TIERS_def)
      then have "\<not> (sbi_cache_mode (m_sbi w2) \<and> sbi_ntiers (m_sbi w2) < 2)"
        using assms(3) t p by (auto simp: pre_pool_def word_less_nat_alt unsigned_of_nat take_bit_nat_eq_self)
      then have "False" using assms(1) Pair Inr r done2
        by (auto simp: build_steps_split run_steps_append step_pool_def set_masks_def)
      then show ?thesis ..
    qed
  qed
qed

section \<open>Starting\<close>

definition shape_of :: "sb_info \<Rightarrow> _" where
  "shape_of s = (cfg_of s, sbi_tiers s,
     (sbi_oid_map_ready s, sbi_lower_ino_map_ready s, sbi_path_map_ready s, sbi_oid_wb_ready s, sbi_placement_wb_ready s))"

lemma built_cong: "shape_of s = shape_of s' \<Longrightarrow> built s = built s'"
  by (auto simp: shape_of_def built_def ready_pool_def dest: pool_cfg_cong)

text \<open>
  The lookups of the range replay, by object id and with a rebuild of the recovery index, keep the
  shape of the pool. That the lookup of the model does is shown below.
\<close>

definition replay_keeps :: "replay_env \<Rightarrow> bool" where
  "replay_keeps env \<longleftrightarrow> (\<forall>oid s. shape_of (snd (re_resolve env oid s)) = shape_of s) \<and> (\<forall>s. shape_of (snd (re_rebuild env s)) = shape_of s)"

lemma shape_of_upd [simp]:
  "shape_of (upd_inode r f s) = shape_of s"
  "shape_of (s\<lparr>sbi_placement_log := l\<rparr>) = shape_of s" "shape_of (s\<lparr>sbi_placement_seq := n\<rparr>) = shape_of s"
  "shape_of (s\<lparr>sbi_quiesced := q\<rparr>) = shape_of s" "shape_of (s\<lparr>sbi_inodes := i\<rparr>) = shape_of s"
  "shape_of (s\<lparr>sbi_inode_list := il\<rparr>) = shape_of s" "shape_of (s\<lparr>sbi_oid_map := om\<rparr>) = shape_of s"
  "shape_of (s\<lparr>sbi_lower_ino_map := lm\<rparr>) = shape_of s" "shape_of (s\<lparr>sbi_path_map := pm\<rparr>) = shape_of s"
  "shape_of (s\<lparr>sbi_recovery_records := rr\<rparr>) = shape_of s" "shape_of (s\<lparr>sbi_recovery_ready := rd\<rparr>) = shape_of s"
  "shape_of (s\<lparr>sbi_placement_wb_pending := wp\<rparr>) = shape_of s" "shape_of (s\<lparr>sbi_placement_wb_count := wc\<rparr>) = shape_of s"
  "shape_of (s\<lparr>sbi_oid_wb_pending := op\<rparr>) = shape_of s" "shape_of (s\<lparr>sbi_oid_wb_count := oc\<rparr>) = shape_of s"
  "shape_of (s\<lparr>sbi_oid_monotonic := m\<rparr>) = shape_of s"
  by (simp_all add: shape_of_def cfg_of_def upd_inode_def)

lemma shape_of_maps [simp]:
  "shape_of (snd (oid_map_insert k r s)) = shape_of s" "shape_of (snd (lower_ino_map_insert al t i n s)) = shape_of s"
  "shape_of (lower_ino_map_remove t i s) = shape_of s" "shape_of (path_map_del r s) = shape_of s" "shape_of (path_map_add r s) = shape_of s"
  by (auto simp: oid_map_insert_def lower_ino_map_insert_def lower_ino_map_remove_def path_map_del_def path_map_add_def rht_insert_def
      Let_def split: option.split sum.split)

lemma iget_finish_shape: "iget_finish env lower root t i oid gen s = (x, s') \<Longrightarrow> shape_of s' = shape_of s"
  by (auto simp: iget_finish_def iget_new_def Let_def split: option.splits if_splits)

lemma iget_root:
  assumes "iget env lower True fresh s xs = (x, s', xs')"
  shows "shape_of s' = shape_of s" "xs' = xs"
  using assms by (auto simp: iget_def split: prod.splits dest: iget_finish_shape)

text \<open>The model's own lookups do.\<close>

lemma iget_parts_shape:
  "iget_cached env lower s = (x, s1) \<Longrightarrow> shape_of s1 = shape_of s"
  "iget_known_oid env lower n s xs = (y, s1, xs1) \<Longrightarrow> shape_of s1 = shape_of s"
  "iget_mint env lower s xs = (y, s1, xs1) \<Longrightarrow> shape_of s1 = shape_of s"
  by (auto simp: iget_cached_def iget_known_oid_def iget_mint_def oid_wb_drain_def oid_wb_worker_def oid_wb_take_def oid_wb_queue_def
      oid_wb_add_def alloc_oid_def Let_def split: option.splits sum.splits if_splits prod.splits)

lemma iget_shape:
  assumes "iget env lower root fresh s xs = (x, s', xs')"
  shows "shape_of s' = shape_of s"
proof (cases "root \<or> ig_dino env (p_dentry lower) = None")
  case True
  then show ?thesis using assms by (auto simp: iget_def split: prod.splits option.splits if_splits dest!: iget_finish_shape iget_parts_shape(1))
next
  case False
  then obtain n where n: "\<not> root" "ig_dino env (p_dentry lower) = Some n" by auto
  obtain c s1 where c: "iget_cached env lower s = (c, s1)" by fastforce
  note sh1 = iget_parts_shape(1) [OF c]
  obtain y s2 xs2 where y: "(if fresh then (Err ENODATA, s1, xs) else iget_known_oid env lower n s1 xs) = (y, s2, xs2)" by (metis prod_cases3)
  then have sh2: "shape_of s2 = shape_of s1" using iget_parts_shape(2) by (auto split: if_splits)
  obtain z s3 xs3 where z: "iget_mint env lower s2 xs2 = (z, s3, xs3)" by (metis prod_cases3)
  note sh3 = iget_parts_shape(3) [OF z]
  show ?thesis
    using assms n c y z sh1 sh2 sh3
    by (cases c; cases y; cases z) (auto simp: iget_def Let_def split: prod.splits if_splits dest!: iget_finish_shape)
qed

lemma set_rel_path_shape [simp]: "shape_of (set_rel_path r p s) = shape_of s"
  by (simp add: set_rel_path_def)

lemma placement_record_shape [simp]: "shape_of (snd (snd (placement_record al now oid ms c i sy s))) = shape_of s"
  by (simp add: placement_record_def placement_wb_add_def Let_def)

lemma instantiate_shape:
  assumes "replay_instantiate_one env rec0 s xs = (r, s', xs')"
  shows "shape_of s' = shape_of s"
proof (cases "rr_chosen_rel_path (settle_choice rec0)")
  case (Some rel)
  define s0 where "s0 = s\<lparr>sbi_recovery_records := replay_update (rr_oid (settle_choice rec0)) (\<lambda>_. settle_choice rec0) (sbi_recovery_records s)\<rparr>"
  define t where "t = (if sbi_cache_mode s then sbi_ntiers s - 1 else rr_chosen_tier (settle_choice rec0))"
  have s0: "shape_of s0 = shape_of s" by (simp add: s0_def)
  show ?thesis
  proof (cases "px_kern_path env t rel")
    case (Inl e)
    then show ?thesis using assms Some s0 by (auto simp: replay_instantiate_one_def Let_def s0_def t_def split: if_splits)
  next
    case (Inr p)
    obtain q s1 xs1 where i: "iget (px_ig env) p False False s0 xs = (q, s1, xs1)" by (metis prod_cases3)
    then have "shape_of s1 = shape_of s" using iget_shape s0 by metis
    then show ?thesis
      using assms Some s0 Inr i by (cases q) (auto simp: replay_instantiate_one_def Let_def s0_def [symmetric] t_def [symmetric] split: if_splits)
  qed
qed (use assms in \<open>auto simp: replay_instantiate_one_def Let_def\<close>)

lemma lookup_oid_resolve_shape: "lookup_oid_resolve env oid s xs = (r, s', xs') \<Longrightarrow> shape_of s' = shape_of s"
  by (auto simp: lookup_oid_resolve_def recovery_resolve_oid_def split: option.splits if_splits dest: instantiate_shape)

lemma scan_oid_shape: "scan_oid env n st = (x, st') \<Longrightarrow> shape_of (sc_sbi st') = shape_of (sc_sbi st)"
  by (auto simp: scan_oid_def alloc_oid_def Let_def split: if_splits sum.splits prod.splits)

lemma scan_node_shape: "scan_node env t rel d st = (x, st') \<Longrightarrow> shape_of (sc_sbi st') = shape_of (sc_sbi st)"
  by (auto simp: scan_node_def Let_def split: if_splits option.splits sum.splits prod.splits dest!: scan_oid_shape)

lemma scan_loop_shape:
  assumes "\<And>n st x st'. f n st = Some (x, st') \<Longrightarrow> shape_of (sc_sbi st') = shape_of (sc_sbi st)"
  shows "scan_loop f ns st = Some (x, st') \<Longrightarrow> shape_of (sc_sbi st') = shape_of (sc_sbi st)"
proof (induction ns arbitrary: st)
  case (Cons n ns)
  then show ?case using assms [of n st] by (auto split: option.splits prod.splits sum.splits)
qed simp

lemma scan_tree_shape: "scan_tree k env dir t prefix st = Some (x, st') \<Longrightarrow> shape_of (sc_sbi st') = shape_of (sc_sbi st)"
proof (induction k arbitrary: dir prefix st x st')
  case (Suc k)
  show ?case
  proof (cases "px_stop env prefix \<or> (\<exists>e. scan_dir_entries env dir = Err e)")
    case True
    then show ?thesis using Suc.prems by (auto split: if_splits)
  next
    case False
    then obtain names where "scan_dir_entries env dir = Ok names" "\<not> px_stop env prefix" by (cases "scan_dir_entries env dir") auto
    with Suc.prems show ?thesis
      by (simp, elim scan_loop_shape [rotated])
        (auto simp: Let_def split: if_splits sum.splits option.splits prod.splits dest!: Suc.IH scan_node_shape)
  qed
qed simp

lemma scan_tiers_shape: "scan_tiers k env ts st = Some (x, st') \<Longrightarrow> shape_of (sc_sbi st') = shape_of (sc_sbi st)"
  by (induction k env ts st rule: scan_tiers.induct) (auto split: option.splits prod.splits sum.splits dest!: scan_tree_shape)

lemma path_index_rebuild_shape:
  assumes "path_index_rebuild k env aw io al rec s xs = Some (x, s', rest)"
  shows "shape_of s' = shape_of s"
proof -
  define s1 where "s1 = placement_wb_drain aw s"
  have s1: "shape_of s1 = shape_of s" by (simp add: s1_def placement_wb_drain_def placement_wb_worker_def)
  show ?thesis
  proof (cases "sbi_placement_log s = None \<or> \<not> px_alloc env \<or> sbi_placement_log s1 = None")
    case True
    then show ?thesis using assms s1 by (auto simp: path_index_rebuild_def s1_def [symmetric] Let_def split: if_splits)
  next
    case False
    then obtain log where log: "sbi_placement_log s1 = Some log" "sbi_placement_log s \<noteq> None" "px_alloc env" by auto
    obtain y recs where l: "replay_load_log io al log 0 [] = (y, recs)" by fastforce
    let ?sc = "scan_tiers k env (if rec \<and> sbi_cache_mode s1 then [sbi_ntiers s1 - 1] else tier_ids s1) \<lparr>sc_sbi = s1, sc_xs = xs, sc_recs = recs\<rparr>"
    show ?thesis
    proof (cases "y \<noteq> Done \<or> ?sc = None")
      case True
      then show ?thesis using assms s1 log l by (cases y) (auto simp: path_index_rebuild_def s1_def [symmetric] Let_def)
    next
      case False
      then obtain z st where z: "?sc = Some (z, st)" "y = Done" by auto
      then have st: "shape_of (sc_sbi st) = shape_of s" using scan_tiers_shape s1 by fastforce
      obtain e f where w: "path_index_write env (sc_sbi st) (sc_recs st) = (e, f)" by fastforce
      show ?thesis
        using assms st log l z w
        by (cases z; cases e) (auto simp: path_index_rebuild_def s1_def [symmetric] recovery_populate_def recovery_destroy_def Let_def)
    qed
  qed
qed

lemma model_lookups_keep: "replay_keeps (model_lookups k px aw io al xs e)"
  by (auto simp: replay_keeps_def model_lookups_def split: prod.split option.split dest: lookup_oid_resolve_shape path_index_rebuild_shape)

lemma placement_open_shape: "placement_open d f s = (x, s') \<Longrightarrow> shape_of s' = shape_of s"
  by (auto simp: placement_open_def split: sum.splits)

lemma recovery_populate_shape [simp]: "shape_of (recovery_populate recs s) = shape_of s"
  by (simp add: recovery_populate_def)

lemma placement_replay_shape: "placement_replay env io al s = (x, s', b) \<Longrightarrow> shape_of s' = shape_of s"
  by (auto simp: placement_replay_def split: option.splits if_splits prod.splits sum.splits)

lemma shape_of_staging:
  "cfg_of (upd_staging f s) = cfg_of s \<Longrightarrow> shape_of (upd_staging f s) = shape_of s"
  by (simp add: shape_of_def upd_staging_def)

lemma replay_find_shape:
  assumes "replay_keeps env" "replay_find env oid s acc = (x, s', acc')"
  shows "shape_of s' = shape_of s"
  using assms by (auto simp: replay_find_def replay_keeps_def Let_def split: prod.splits option.splits if_splits sum.splits) (metis snd_conv)+

lemma replay_one_shape:
  assumes "replay_keeps env" "range_replay_one env name f s acc = (x, s', acc')"
  shows "shape_of s' = shape_of s"
  using assms by (auto simp: range_replay_one_def split: sum.splits prod.splits option.splits dest!: replay_find_shape [OF assms(1)])

lemma replay_names_shape:
  assumes "replay_keeps env" "replay_names env ns s acc rec skip = (x, s', rest)"
  shows "shape_of s' = shape_of s"
  using assms(2)
proof (induction ns arbitrary: s acc rec skip)
  case (Cons n ns)
  show ?case
  proof (cases "re_open_meta env n")
    case (Inl e)
    then show ?thesis using Cons by simp
  next
    case (Inr f)
    obtain v s1 acc1 where one: "range_replay_one env n f s acc = (v, s1, acc1)" by (metis prod_cases3)
    then have "shape_of s1 = shape_of s" using replay_one_shape [OF assms(1)] by blast
    then show ?thesis using Cons.prems Cons.IH Inr one by (cases v) (auto split: verdict.splits)
  qed
qed simp

lemma range_staging_replay_shape:
  assumes "replay_keeps env"
  shows "shape_of (snd (range_staging_replay env s)) = shape_of s"
proof -
  have pub: "shape_of (upd_staging (replay_publish now err acc rec skip) s1) = shape_of s1" for now err acc rec skip s1
    by (rule shape_of_staging) (simp add: cfg_of_upd_staging replay_publish_def Let_def)
  have empty: "shape_of (upd_staging (\<lambda>s. s\<lparr>st_last_recovery_reason := RR_EMPTY, st_last_recovery_ns := n\<rparr>) s) = shape_of s" for n
    by (rule shape_of_staging) (simp add: cfg_of_upd_staging)
  show ?thesis
    using replay_names_shape [OF assms] by (auto simp: range_staging_replay_def pub empty split: sum.splits prod.splits)
qed

lemma close_log_frame [simp]:
  "mw_refs (close_log env w) = mw_refs w" "mw_nl (close_log env w) = mw_nl w" "mw_sysfs (close_log env w) = mw_sysfs w"
  "shape_of (m_sbi (close_log env w)) = shape_of (m_sbi w)" "mw_live (close_log env w) = mw_live w"
  "mw_cred (close_log env w) = mw_cred w" "mw_srcu (close_log env w) = mw_srcu w"
  by (simp_all add: close_log_def split: prod.split)
    (auto simp: placement_close_def placement_wb_drain_def placement_wb_worker_def Let_def split: option.splits)

definition paths_of :: "sb_info \<Rightarrow> u8 \<times> path list" where
  "paths_of s = (sbi_ntiers s, map t_lower_path (sbi_tiers s))"

lemma shape_paths: "shape_of s = shape_of s' \<Longrightarrow> paths_of s = paths_of s'"
  by (simp add: shape_of_def paths_of_def cfg_of_def)

lemma map_list_update_same: "f y = f (xs ! i) \<Longrightarrow> map f (xs[i := y]) = map f xs"
  by (cases "i < length xs") (simp_all add: map_update list_update_same_conv list_update_beyond)

lemma paths_of_upd [simp]:
  "paths_of (upd_inode r f s) = paths_of s" "paths_of (oid_map_remove k s) = paths_of s" "paths_of (path_map_del r s) = paths_of s"
  "paths_of (lower_ino_map_remove t i s) = paths_of s" "paths_of (s\<lparr>sbi_inode_list := l, sbi_inodes := is\<rparr>) = paths_of s"
  by (simp_all add: paths_of_def upd_inode_def oid_map_remove_def path_map_del_def lower_ino_map_remove_def split: option.split)

lemma upd_tier_paths: "(\<And>t. t_lower_path (f t) = t_lower_path t) \<Longrightarrow> paths_of (upd_tier i f s) = paths_of s"
  by (simp add: paths_of_def upd_tier_def map_list_update_same)

lemma clear_write_reservation_paths [simp]: "paths_of (clear_write_reservation r s) = paths_of s"
  by (simp add: clear_write_reservation_def upd_tier_paths Let_def split: option.split)

lemma evict_inode_paths [simp]: "paths_of (evict_inode lino r s) = paths_of s"
  by (simp add: evict_inode_def Let_def split: option.split)

text \<open>The first three steps take nothing that outlives them, whether they succeed or not.\<close>

lemma early_steps_frame:
  assumes "f \<in> {mount_root env, mount_log env, mount_replay env}" "f w = (e, w')" "replay_keeps (me_replay env)"
  shows "mw_refs w' = mw_refs w \<and> mw_nl w' = mw_nl w \<and> mw_sysfs w' = mw_sysfs w \<and> paths_of (m_sbi w') = paths_of (m_sbi w)
    \<and> (e = Done \<longrightarrow> shape_of (m_sbi w') = shape_of (m_sbi w) \<and> mw_live w' = mw_live w \<and> mw_cred w' = mw_cred w \<and> mw_srcu w' = mw_srcu w)"
proof -
  from assms(1) consider "f = mount_root env" | "f = mount_log env" | "f = mount_replay env" by blast
  then show ?thesis
  proof cases
    case 1
    then show ?thesis using assms(2)
      by (auto simp: mount_root_def Let_def add_alias_def split: prod.splits sum.splits option.splits dest!: iget_root(1) dest: shape_paths)
  next
    case 2
    then show ?thesis using assms(2)
      by (auto simp: mount_log_def step_pool_def split: prod.splits dest!: placement_open_shape dest: shape_paths)
  next
    case 3
    then show ?thesis using assms(2) range_staging_replay_shape [OF assms(3)]
      by (auto simp: mount_replay_def Let_def split: prod.splits sum.splits if_splits dest!: placement_replay_shape intro!: shape_paths)
  qed
qed

lemma late_steps:
  assumes "run_steps [mount_register env b, mount_sysfs env b] w = (e, w')"
  shows "mw_refs w' = mw_refs w \<and> paths_of (m_sbi w') = paths_of (m_sbi w) \<and> mw_live w' = mw_live w \<and> mw_cred w' = mw_cred w
      \<and> mw_srcu w' = mw_srcu w"
    and "e = Done \<Longrightarrow> mw_nl w' = (mw_nl w)\<lparr>nw_list := b # nw_list (mw_nl w)\<rparr> \<and> m_sbi w' = m_sbi w \<and> mw_root w' = mw_root w"
    and "e \<noteq> Done \<Longrightarrow> mw_nl w' = mw_nl w \<and> mw_sysfs w' = mw_sysfs w"
  using assms
  by (auto simp: mount_register_def mount_sysfs_def sb_register_def sb_unregister_def sysfs_pool_add_def shape_paths [OF close_log_frame(4)]
      split: sum.splits if_splits)

lemma start_steps_split: "start_steps env b = [mount_root env, mount_log env, mount_replay env] @ [mount_register env b, mount_sysfs env b]"
  by (simp add: start_steps_def)

lemma early_steps:
  assumes "run_steps [mount_root env, mount_log env, mount_replay env] w = (e, w')" "replay_keeps (me_replay env)"
  shows "mw_refs w' = mw_refs w \<and> mw_nl w' = mw_nl w \<and> mw_sysfs w' = mw_sysfs w \<and> paths_of (m_sbi w') = paths_of (m_sbi w)"
  by (rule run_steps_inv [OF assms(1), where P = "\<lambda>w'. mw_refs w' = mw_refs w \<and> mw_nl w' = mw_nl w \<and> mw_sysfs w' = mw_sysfs w
        \<and> paths_of (m_sbi w') = paths_of (m_sbi w)"])
    (use early_steps_frame [OF _ _ assms(2)] in \<open>simp, metis list.set(1) list.simps(15)\<close>)

lemma mount_root_root: "mount_root env w = (Done, w') \<Longrightarrow> mw_root w' \<noteq> None"
  by (auto simp: mount_root_def Let_def split: prod.splits sum.splits option.splits)

lemma early_steps_done:
  assumes "run_steps [mount_root env, mount_log env, mount_replay env] w = (Done, w')" "replay_keeps (me_replay env)"
  shows "shape_of (m_sbi w') = shape_of (m_sbi w) \<and> mw_live w' = mw_live w \<and> mw_cred w' = mw_cred w \<and> mw_srcu w' = mw_srcu w
    \<and> mw_root w' \<noteq> None"
proof -
  from assms(1) obtain w1 w2 where s: "mount_root env w = (Done, w1)" "mount_log env w1 = (Done, w2)" "mount_replay env w2 = (Done, w')"
    by (auto simp: run_steps_done simp del: run_steps.simps(2))
  have "mw_root w' = mw_root w1"
    using s(2,3) by (auto simp: mount_log_def step_pool_def mount_replay_def Let_def split: prod.splits sum.splits)
  then show ?thesis
    using mount_root_root [OF s(1)] early_steps_frame [of "mount_root env", OF _ s(1) assms(2)]
      early_steps_frame [of "mount_log env", OF _ s(2) assms(2)] early_steps_frame [of "mount_replay env", OF _ s(3) assms(2)] by simp
qed

section \<open>Mounting\<close>

lemma out_sbi_frame [simp]:
  "mw_refs (out_sbi env w) = mw_refs w" "mw_nl (out_sbi env w) = mw_nl w" "mw_sysfs (out_sbi env w) = mw_sysfs w"
  "\<not> mw_live (out_sbi env w)" "\<not> mw_cred (out_sbi env w)" "\<not> mw_srcu (out_sbi env w)"
  by (simp_all add: out_sbi_def destroy_oid_wb_def destroy_tables_def Let_def split: prod.split)

lemma mount_done_simps [simp]:
  "m_sbi (mount_done env b w) = m_sbi w" "mw_refs (mount_done env b w) = mw_refs w" "mw_live (mount_done env b w) = mw_live w"
  "mw_cred (mount_done env b w) = mw_cred w" "mw_srcu (mount_done env b w) = mw_srcu w" "mw_root (mount_done env b w) = mw_root w"
  "nw_list (mw_nl (mount_done env b w)) = nw_list (mw_nl w)" "nw_sb (mw_nl (mount_done env b w)) b = m_sbi w"
  "hw_active (nw_heat (mw_nl (mount_done env b w)) b)" "mw_sysfs (mount_done env b w) = mw_sysfs w" "mw_index (mount_done env b w) = mw_index w"
  by (simp_all add: mount_done_def heat_init_def)

lemma fill_super_done:
  assumes "fill_super env ctx b w = (Done, w')"
  shows "\<exists>w1 w2. run_steps (build_steps env ctx) (upd_pool (\<lambda>_. zero_sbi) (w\<lparr>mw_cred := True\<rparr>)) = (Done, w1)
    \<and> run_steps (start_steps env b) (w1\<lparr>mw_live := True\<rparr>) = (Done, w2) \<and> w' = mount_done env b w2"
  using assms by (auto simp: fill_super_def split: if_splits prod.splits sum.splits)

text \<open>
  C35. A mount that succeeds has made a well-formed pool. The tiers are the non-empty parts of the
  option \<open>tiers\<close>, at most eight, ranked in the order given, and every one has the capabilities the
  module requires; the masks and the full percentage are valid, in cache mode the base tier drains;
  every table and queue is ready, there is a root, the pool is registered and its heat work runs.
  The mount holds exactly one reference on the directory of each tier.
\<close>

theorem mount_makes_well_formed_pool:
  assumes "fill_super env ctx b w = (Done, w')" "replay_keeps (me_replay env)"
  shows "pool_cfg (m_sbi w') \<and> tiers_ok (sbi_tiers (m_sbi w')) \<and> ready_pool (m_sbi w')
    \<and> length (sbi_tiers (m_sbi w')) = length (filter (\<lambda>p. p \<noteq> []) (strsep_colon (the (fc_tiers ctx))))
    \<and> sbi_cache_mode (m_sbi w') = fc_cache_mode ctx
    \<and> mw_live w' \<and> mw_cred w' \<and> mw_srcu w' \<and> mw_root w' \<noteq> None
    \<and> nw_list (mw_nl w') = b # nw_list (mw_nl w) \<and> nw_sb (mw_nl w') b = m_sbi w' \<and> hw_active (nw_heat (mw_nl w') b)
    \<and> mw_refs w' = mw_refs w + mset (map t_lower_path (sbi_tiers (m_sbi w')))"
proof -
  obtain w1 w2 where r: "run_steps (build_steps env ctx) (upd_pool (\<lambda>_. zero_sbi) (w\<lparr>mw_cred := True\<rparr>)) = (Done, w1)"
      "run_steps (start_steps env b) (w1\<lparr>mw_live := True\<rparr>) = (Done, w2)" "w' = mount_done env b w2"
    using fill_super_done [OF assms(1)] by blast
  obtain w3 where s: "run_steps [mount_root env, mount_log env, mount_replay env] (w1\<lparr>mw_live := True\<rparr>) = (Done, w3)"
      "run_steps [mount_register env b, mount_sysfs env b] w3 = (Done, w2)"
    using r(2) unfolding start_steps_split run_steps_append by (auto split: prod.splits sum.splits simp del: run_steps.simps(2))
  note bd = build_done [OF r(1), simplified]
  note e = early_steps [OF s(1) assms(2), simplified] early_steps_done [OF s(1) assms(2), simplified]
  note l = late_steps [OF s(2)]
  have sh: "shape_of (m_sbi w2) = shape_of (m_sbi w1)" using e l(2) by simp
  have "built (m_sbi w2)" using bd built_cong [OF sh] by blast
  moreover have "sbi_tiers (m_sbi w2) = sbi_tiers (m_sbi w1)" "sbi_cache_mode (m_sbi w2) = sbi_cache_mode (m_sbi w1)"
    using sh by (simp_all add: shape_of_def cfg_of_def)
  ultimately have p: "pool_cfg (m_sbi w') \<and> tiers_ok (sbi_tiers (m_sbi w')) \<and> ready_pool (m_sbi w')"
      "sbi_tiers (m_sbi w') = sbi_tiers (m_sbi w1)" "sbi_cache_mode (m_sbi w') = sbi_cache_mode (m_sbi w1)"
    by (simp_all add: r(3) built_def)
  have nl: "nw_list (mw_nl w') = b # nw_list (mw_nl w)"
    unfolding r(3) mount_done_simps using l(2) e(1) bd by simp
  have live: "mw_live w' \<and> mw_cred w' \<and> mw_srcu w' \<and> mw_root w' \<noteq> None"
    unfolding r(3) mount_done_simps using l(1,2) e(2) bd by simp
  have "mw_refs w' = mw_refs w + mset (map t_lower_path (sbi_tiers (m_sbi w')))"
    unfolding p(2) unfolding r(3) mount_done_simps using l(1) e(1) bd by simp
  then show ?thesis using p nl live bd by (simp add: r(3))
qed

lemma out_tiers_frame [simp]:
  "mw_nl (out_tiers w) = mw_nl w" "mw_sysfs (out_tiers w) = mw_sysfs w"
  "mw_refs (out_tiers w) = mw_refs w - mset (take (unat (fst (paths_of (m_sbi w)))) (snd (paths_of (m_sbi w))))"
  by (simp_all add: out_tiers_def put_paths_mset paths_of_def take_map)


text \<open>The exception: a cache with one tier is refused with the reference on that tier still held.\<close>

lemma refused_cache_leaks_tier:
  assumes "fc_pool ctx \<noteq> None" "fc_tiers ctx = Some spec" "fc_cache_mode ctx" "me_alloc env"
    and "run_steps (pre_steps env ctx) (upd_pool (\<lambda>_. zero_sbi) (w\<lparr>mw_cred := True\<rparr>)) = (Done, w1)"
    and "resolve_tiers env (Some spec) w1 = (Done, w2)" "sbi_tiers (m_sbi w2) = [t]"
  shows "fst (fill_super env ctx b w) = Err EINVAL \<and> mw_refs (snd (fill_super env ctx b w)) = add_mset (t_lower_path t) (mw_refs w)"
proof -
  note p = pre_steps_done [OF assms(5)] pre_steps_frame [OF assms(5), unfolded holds_nothing_def]
  obtain ts rv where ts: "mw_refs w2 = mw_refs w1 + mset (map t_lower_path ts)"
      "m_sbi w2 = (m_sbi w1)\<lparr>sbi_tiers := ts, sbi_ntiers := word_of_nat (length ts), sbi_fastest_tier := 0, sbi_any_lower_revalidates := rv\<rparr>"
    using resolve_tiers_ok(3) [OF assms(6)] by blast
  then have "ts = [t]" using assms(7) by simp
  with ts have t: "mw_refs w2 = mw_refs w1 + {#t_lower_path t#}"
      "m_sbi w2 = (m_sbi w1)\<lparr>sbi_tiers := [t], sbi_ntiers := 1, sbi_fastest_tier := 0, sbi_any_lower_revalidates := rv\<rparr>"
    by simp_all
  have "set_masks (m_sbi w2) = (Err EINVAL, m_sbi w2)"
    using t(2) p(1) assms(3) by (simp add: set_masks_def pre_pool_def)
  then have "run_steps (build_steps env ctx) (upd_pool (\<lambda>_. zero_sbi) (w\<lparr>mw_cred := True\<rparr>)) = (Err EINVAL, upd_pool (\<lambda>_. m_sbi w2) w2)"
    using assms(2,5,6) by (simp add: build_steps_split run_steps_append step_pool_def)
  then show ?thesis using assms(1-4) t(1) p(2) by (simp add: fill_super_def)
qed

section \<open>Syncing\<close>

lemma sync_tiers_done:
  assumes "sync_tiers env sbs prior err synced = (Done, synced')"
  shows "err = Done \<and> (\<exists>new. synced' = synced @ new \<and> distinct new \<and> set new = set sbs - set prior
    \<and> (\<forall>sb \<in> set new. me_sync_filesystem env sb = Done))"
  using assms
proof (induction env sbs prior err synced rule: sync_tiers.induct)
  case (2 env sb sbs prior err synced)
  show ?case
  proof (cases "sb \<in> set prior")
    case True
    then show ?thesis using 2(1) 2(3) by auto
  next
    case False
    define ret where "ret = me_sync_filesystem env sb"
    have run: "sync_tiers env sbs (prior @ [sb]) (if err = Done then ret else err) (if ret = Done then synced @ [sb] else synced) = (Done, synced')"
      using 2(3) False by (simp only: sync_tiers.simps(2) ret_def Let_def if_False)
    from 2(2) [OF False ret_def run] obtain new where n: "(if err = Done then ret else err) = Done"
        "synced' = (if ret = Done then synced @ [sb] else synced) @ new" "distinct new" "set new = set sbs - set (prior @ [sb])"
        "\<forall>sb \<in> set new. me_sync_filesystem env sb = Done" by blast
    then have "ret = Done" "err = Done" by (auto split: if_splits)
    with n False show ?thesis by (intro conjI exI [of _ "sb # new"]) (auto simp: ret_def)
  qed
qed auto

lemma cache_drain_ends:
  assumes "kread_ok (io_kread env)" "kwrite_ok (io_kwrite env)" "kwrite_clean (io_kwrite env)"
    and "\<forall>r rs. rs_of (w_sbi w) r = Some rs \<longrightarrow> ranges_wf (rs_ranges rs)"
  shows "\<exists>res w'. cache_drain env w = Some (res, w') \<and> (res = Done \<and> sbi_cache_mode (w_sbi w) \<longrightarrow> find_drainable_range env (w_sbi w') = None)"
proof -
  have "\<exists>res w'. drain_ranges env w = Some (res, w') \<and> (res = Done \<longrightarrow> find_drainable_range env (w_sbi w') = None)"
    by (rule drain_ranges_ends [OF assms(1-3)]) (use assms(4) in \<open>auto simp: rs_of_def\<close>)
  then show ?thesis by (auto simp: cache_drain_def)
qed

text \<open>A drain leaves the queues, the log and the tiers alone.\<close>

definition queues_of :: "sb_info \<Rightarrow> _" where
  "queues_of s = ((sbi_placement_log s, sbi_placement_wb_pending s, sbi_placement_wb_ready s),
     (sbi_oid_wb_pending s, sbi_oid_wb_ready s), (sbi_tiers s, sbi_ntiers s))"

lemma queues_of_upd [simp]:
  "queues_of (upd_inode r f s) = queues_of s" "queues_of (note_drained env n b s) = queues_of s"
  by (simp_all add: queues_of_def upd_inode_def note_drained_def upd_staging_def Let_def)

lemma drain_one_range_queues: "queues_of (w_sbi (snd (drain_one_range env r w))) = queues_of (w_sbi w)"
  by (auto simp: drain_one_range_def drain_clear_def range_stage_unlink_path_def set_file_def Let_def
      split: option.split sum.split prod.split)

lemma cache_drain_queues: "cache_drain env w = Some (e, w') \<Longrightarrow> queues_of (w_sbi w') = queues_of (w_sbi w)"
  using drain_ranges_keeps [where Q = "\<lambda>w. queues_of (w_sbi w)", OF _ drain_one_range_queues]
  by (fastforce simp: cache_drain_def split: if_splits)

lemma find_drainable_queue [simp]:
  "find_drainable_range env (s\<lparr>sbi_oid_wb_pending := op, sbi_oid_wb_count := oc\<rparr>) = find_drainable_range env s"
  "find_drainable_range env (s\<lparr>sbi_placement_wb_pending := wp, sbi_placement_wb_count := wc, sbi_placement_log := l\<rparr>) = find_drainable_range env s"
  by (simp_all add: find_drainable_range_def drain_tier_active_def cong: option.case_cong)

lemma sync_flush_frame:
  assumes "sync_flush env err w = (err', w')"
  shows "find_drainable_range ie (m_sbi w') = find_drainable_range ie (m_sbi w)" "lower_sbs env (m_sbi w') = lower_sbs env (m_sbi w)"
    "mw_synced w' = mw_synced w" "err' = Done \<Longrightarrow> err = Done"
    "sbi_oid_wb_ready (m_sbi w) \<Longrightarrow> sbi_oid_wb_pending (m_sbi w') = []"
    "sbi_placement_wb_ready (m_sbi w) \<Longrightarrow> sbi_placement_wb_pending (m_sbi w') = []"
    "err' = Done \<Longrightarrow> sbi_placement_wb_ready (m_sbi w) \<Longrightarrow> sbi_placement_log (m_sbi w) = Some log \<Longrightarrow>
       mw_durable w' = fold (wb_append (me_aw env)) (sbi_placement_wb_pending (m_sbi w)) log"
  using assms
  by (auto simp: sync_flush_def oid_wb_drain_def oid_wb_worker_def oid_wb_take_def placement_wb_drain_def placement_wb_worker_def
      lower_sbs_def Let_def split: if_splits option.splits sum.splits)


section \<open>Sizes\<close>

text \<open>
  Outside of cache mode the size of the pool is that of the tiers that answer; a tier that does not is
  left out, and the call succeeds.
\<close>

definition tier_blocks :: "(path \<Rightarrow> kstatfs res) \<Rightarrow> sb_info \<Rightarrow> u8 \<Rightarrow> u64" where
  "tier_blocks vfs_statfs sbi i =
    (case vfs_statfs (t_lower_path (tier_at sbi i)) of Err _ \<Rightarrow> 0 | Ok t \<Rightarrow> (f_blocks t * f_bsize t) div PAGE_SIZE)"

lemma statfs_loop_blocks:
  "\<not> sbi_cache_mode sbi \<Longrightarrow> \<exists>buf' evs'. statfs_loop nl v sbi is buf evs = (Ok buf', evs')
    \<and> f_blocks buf' = f_blocks buf + sum_list (map (tier_blocks v sbi) is) \<and> f_fsid buf' = f_fsid buf"
proof (induction "is" arbitrary: buf evs)
  case (Cons i "is")
  show ?case
  proof (cases "v (t_lower_path (tier_at sbi i))")
    case (Inl e)
    then show ?thesis using Cons by (simp add: tier_blocks_def Let_def)
  next
    case (Inr t)
    have "f_blocks (statfs_add buf t) = f_blocks buf + tier_blocks v sbi i" "f_fsid (statfs_add buf t) = f_fsid buf"
      by (simp_all add: statfs_add_def tier_blocks_def Inr)
    then show ?thesis using Cons.IH [OF Cons.prems, of "statfs_add buf t" evs] Inr by (simp add: ac_simps)
  qed
qed simp

lemma statfs_skips_faulty_tiers:
  assumes "\<not> sbi_cache_mode sbi"
  shows "\<exists>buf evs. statfs nl xxh64 v sbi = (Ok buf, evs) \<and> f_blocks buf = sum_list (map (tier_blocks v sbi) (tier_ids sbi))
    \<and> f_fsid buf = xxh64 (sbi_pool_uuid sbi)"
  using statfs_loop_blocks [OF assms, of nl v "tier_ids sbi"] assms unfolding statfs_def by fastforce

section \<open>Concrete instances\<close>

definition ex_mount_env :: mount_env where
  "ex_mount_env = \<lparr>me_alloc = True, me_oid_map = Done, me_ino_map = Done, me_path_map = Done, me_srcu = Done, me_oid_wq = True,
     me_place_wq = True, me_uuid_parse = \<lambda>_. Err EINVAL, me_uuid_gen = replicate 16 7, me_xxh32 = \<lambda>_. 5, me_kstrdup = True,
     me_kern_path = \<lambda>p. if p = ''a'' then Ok \<lparr>p_mnt = 0, p_dentry = 0\<rparr> else if p = ''b'' then Ok \<lparr>p_mnt = 1, p_dentry = 100\<rparr> else Err ENOENT,
     me_magic = \<lambda>_. XFS_SUPER_MAGIC, me_op_revalidate = \<lambda>_. False, me_ig = ex_iget_env, me_make_root = Some 5, me_ensure_dir = Done,
     me_log = Ok [], me_px = ex_px_env, me_log_err = \<lambda>_. None, me_rec_alloc = \<lambda>_. True,
     me_replay = model_lookups 9 ex_px_env (\<lambda>_ e. Ok (length e)) (\<lambda>_. None) (\<lambda>_. True) Map.empty ex_replay_env,
     me_register = True, me_sysfs_root = True, me_sysfs_alloc = True, me_kobject_add = Done, me_nl = ex_nl_env,
     me_aw = \<lambda>_ e. Ok (length e), me_io = ex_io_env, me_fsync_log = Done, me_mnt_sb = \<lambda>m. 50, me_sync_filesystem = \<lambda>_. Done\<rparr>"

definition ex_fc :: fc_ctx where
  "ex_fc = \<lparr>fc_pool = Some ''p'', fc_uuid_str = None, fc_tiers = Some ''a:b'', fc_create_policy = None, fc_cache_mode = True\<rparr>"

definition ex_idle :: mount_world where
  "ex_idle = \<lparr>mw_live = False, mw_io = ex_world, mw_xs = Map.empty, mw_nl = ex_nl_world\<lparr>nw_list := []\<rparr>, mw_refs = {#}, mw_cred = False,
     mw_srcu = False, mw_index = \<lparr>iw_ready = False, iw_stop = False, iw_queued = False\<rparr>, mw_sysfs = False, mw_root = None,
     mw_count = \<lambda>_. 0, mw_events = [], mw_disk = [], mw_durable = [], mw_synced = [], mw_wb_kicked = False, mw_oid_kicked = False\<rparr>"

lemma ex_caps: "and (caps_for_magic XFS_SUPER_MAGIC) CAPS_REQUIRED = CAPS_REQUIRED"
  unfolding caps_for_magic_def by (simp add: bit_eq_iff)

lemma ex_keeps: "replay_keeps (me_replay ex_mount_env)"
  by (simp add: ex_mount_env_def model_lookups_keep)

lemma ex_fill: "fst (fill_super ex_mount_env ex_fc 3 ex_idle) = Done"
proof -
  let ?w0 = "upd_pool (\<lambda>_. zero_sbi) (ex_idle\<lparr>mw_cred := True\<rparr>)"
  have b: "fst (run_steps (build_steps ex_mount_env ex_fc) ?w0) = Done"
    by (simp add: build_steps_def step_pool_def oid_map_init_def lower_ino_map_init_def path_map_init_def init_cutover_srcu_def oid_wb_init_def
        placement_wb_init_def parse_create_policy_def set_uuid_def set_defaults_def resolve_tiers_def set_masks_def probe_capabilities_def
        ex_caps MAX_TIERS_def ex_mount_env_def ex_fc_def Let_def)
  then obtain w1 where w1: "run_steps (build_steps ex_mount_env ex_fc) ?w0 = (Done, w1)" by (metis prod.collapse)
  have "sbi_inodes (m_sbi w1) = Map.empty" using build_done [OF w1] by simp
  then have "fst (run_steps (start_steps ex_mount_env 3) (w1\<lparr>mw_live := True\<rparr>)) = Done"
    by (simp add: start_steps_def mount_root_def mount_log_def step_pool_def placement_open_def mount_replay_def mount_register_def mount_sysfs_def
        sysfs_pool_add_def sb_register_def placement_replay_def replay_load_log.simps iget_def iget_finish_def iget_new_def ex_mount_env_def
        ex_iget_env_def ex_px_env_def Let_def split: prod.split)
  then obtain w2 where w2: "run_steps (start_steps ex_mount_env 3) (w1\<lparr>mw_live := True\<rparr>) = (Done, w2)" by (metis prod.collapse)
  have "fc_pool ex_fc \<noteq> None" "fc_tiers ex_fc \<noteq> None" "me_alloc ex_mount_env" by (simp_all add: ex_fc_def ex_mount_env_def)
  then show ?thesis unfolding fill_super_def using w1 w2 by (simp del: run_steps.simps)
qed

theorem mount_makes_well_formed_pool_witness:
  "\<exists>w'. fill_super ex_mount_env ex_fc 3 ex_idle = (Done, w') \<and> pool_cfg (m_sbi w') \<and> length (sbi_tiers (m_sbi w')) = 2
    \<and> size (mw_refs w') = 2"
proof -
  obtain w' where w': "fill_super ex_mount_env ex_fc 3 ex_idle = (Done, w')" using ex_fill by (metis prod.collapse)
  have "length (filter (\<lambda>p. p \<noteq> []) (strsep_colon (the (fc_tiers ex_fc)))) = 2" by (simp add: ex_fc_def)
  with mount_makes_well_formed_pool [OF w' ex_keeps] w' show ?thesis by (simp add: ex_idle_def)
qed


definition ex_mounted :: mount_world where
  "ex_mounted = ex_idle\<lparr>mw_live := True, mw_cred := True, mw_srcu := True, mw_sysfs := True, mw_root := Some (77, 5), mw_nl := ex_nl_world\<lparr>nw_list := [3]\<rparr>,
     mw_count := (\<lambda>_. 0)(77 := 1), mw_refs := {#\<lparr>p_mnt = 0, p_dentry = 0\<rparr>, \<lparr>p_mnt = 1, p_dentry = 100\<rparr>#}\<rparr>"

lemma ex_mounted_simps: "mw_live ex_mounted" "m_sbi ex_mounted = ex_pool" "me_io ex_mount_env = ex_io_env"
  by (simp_all add: ex_mounted_def ex_idle_def ex_world_def ex_mount_env_def)


end
