(* ===== verification/Unmount.thy ===== *)
theory Unmount
  imports Mount_Facts
begin

text \<open>
  Unmounting drops exactly what the mount and the pins hold. The references of an inode are those
  of its dentries and of its pins; every step of \<open>smoothfs_kill_sb\<close> and of the shutdown that follows
  keeps that count, so that no inode is busy at the end.
\<close>

section \<open>Counting references\<close>

text \<open>
  The references of an inode are those of its dentries and of its pins, and the inode list has every
  inode once.
\<close>

definition counts_ok :: "mount_world \<Rightarrow> bool" where
  "counts_ok w \<longleftrightarrow> (\<forall>r si. sbi_inodes (m_sbi w) r = Some si \<longrightarrow> mw_count w r = pins si + length (si_aliases si))"

definition listed :: "iref list \<Rightarrow> mount_world \<Rightarrow> bool" where
  "listed rs w \<longleftrightarrow> distinct rs \<and> dom (sbi_inodes (m_sbi w)) \<subseteq> set rs"

text \<open>What a drain does to an inode: it keeps the dentries and the pin of the replay, and may clear the pin of the ranges.\<close>

definition drained_inode :: "inode_info \<Rightarrow> inode_info \<Rightarrow> bool" where
  "drained_inode si si' \<longleftrightarrow> si_aliases si' = si_aliases si \<and> si_replay_pinned si' = si_replay_pinned si
     \<and> (rs_pinned (si_rs si') \<longrightarrow> rs_pinned (si_rs si))"

definition drained_from :: "sb_info \<Rightarrow> sb_info \<Rightarrow> bool" where
  "drained_from s s' \<longleftrightarrow> sbi_inode_list s' = sbi_inode_list s \<and> (\<forall>r. rel_option drained_inode (sbi_inodes s r) (sbi_inodes s' r))"

lemma drained_inode_refl: "drained_inode i i"
  by (simp add: drained_inode_def)

lemma drained_from_refl: "drained_from s s"
  by (simp add: drained_from_def option.rel_refl drained_inode_refl)

lemma drained_from_trans:
  assumes "drained_from s s'" "drained_from s' s''"
  shows "drained_from s s''"
proof -
  have "transp drained_inode" by (auto simp: transp_def drained_inode_def)
  then have "transp (rel_option drained_inode)" by (rule option.rel_transp)
  then show ?thesis using assms unfolding drained_from_def by (metis transpD)
qed

lemma drained_from_upd:
  assumes "\<And>i. drained_inode i (f i)"
  shows "drained_from s (upd_inode r f s)"
  using assms by (cases "sbi_inodes s r") (auto simp: drained_from_def upd_inode_def option.rel_refl drained_inode_refl)

lemma drained_from_note: "drained_from s s' \<Longrightarrow> drained_from s (note_drained env n b s')"
  by (simp add: note_drained_def Let_def drained_from_def upd_staging_def)

lemma drain_one_range_from: "drained_from (w_sbi w) (w_sbi (snd (drain_one_range env r w)))"
proof -
  have "drained_inode i (upd_rs rs_drained i)" for i by (simp add: drained_inode_def upd_rs_def rs_drained_def)
  then show ?thesis
    by (auto simp: drain_one_range_def drain_clear_def range_stage_unlink_path_def set_file_def Let_def drained_from_refl
        intro!: drained_from_note drained_from_upd split: option.split sum.split prod.split)
qed

lemma cache_drain_from:
  assumes "cache_drain env w = Some (e, w')"
  shows "drained_from (w_sbi w) (w_sbi w')"
proof (cases "sbi_cache_mode (w_sbi w)")
  case True
  then have "drain_ranges env w = Some (e, w')" using assms by (simp add: cache_drain_def)
  from drain_ranges_rel [OF this, where R = "\<lambda>u v. drained_from (w_sbi u) (w_sbi v)"] show ?thesis
    using drained_from_refl drained_from_trans drain_one_range_from by fastforce
qed (use assms in \<open>simp add: cache_drain_def drained_from_refl\<close>)

text \<open>Staged ranges stay well-formed.\<close>

definition ranges_ok :: "sb_info \<Rightarrow> bool" where
  "ranges_ok s \<longleftrightarrow> (\<forall>r si. sbi_inodes s r = Some si \<longrightarrow> ranges_wf (rs_ranges (si_rs si)))"

lemma ranges_ok_rs: "ranges_ok s \<Longrightarrow> \<forall>r rs. rs_of s r = Some rs \<longrightarrow> ranges_wf (rs_ranges rs)"
  by (auto simp: ranges_ok_def rs_of_def)

lemma ranges_ok_upd:
  "(\<And>i. rs_ranges (si_rs (f i)) = []) \<Longrightarrow> ranges_ok s \<Longrightarrow> ranges_ok (upd_inode r f s)"
  by (auto simp: ranges_ok_def upd_inode_def ranges_wf_def split: if_splits)

lemma ranges_ok_note: "ranges_ok s \<Longrightarrow> ranges_ok (note_drained env n b s)"
  by (simp add: note_drained_def Let_def ranges_ok_def upd_staging_def)

lemma drain_one_range_ok: "ranges_ok (w_sbi w) \<Longrightarrow> ranges_ok (w_sbi (snd (drain_one_range env r w)))"
  by (auto simp: drain_one_range_def drain_clear_def range_stage_unlink_path_def set_file_def Let_def upd_rs_def rs_drained_def
      intro!: ranges_ok_note ranges_ok_upd split: option.split sum.split prod.split)

lemma cache_drain_ok:
  assumes "cache_drain env w = Some (e, w')" "ranges_ok (w_sbi w)"
  shows "ranges_ok (w_sbi w')"
proof (cases "sbi_cache_mode (w_sbi w)")
  case True
  then have "drain_ranges env w = Some (e, w')" using assms by (simp add: cache_drain_def)
  from drain_ranges_rel [OF this, where R = "\<lambda>u v. ranges_ok (w_sbi u) \<longrightarrow> ranges_ok (w_sbi v)"] show ?thesis
    using assms(2) drain_one_range_ok by fastforce
qed (use assms in \<open>simp add: cache_drain_def\<close>)

section \<open>The steps\<close>

text \<open>What no step before \<open>put_super\<close> changes.\<close>

definition kept :: "mount_world \<Rightarrow> _" where
  "kept w = ((mw_live w, mw_refs w, nw_list (mw_nl w)), (mw_root w, paths_of (m_sbi w)))"

definition sound :: "iref list \<Rightarrow> mount_world \<Rightarrow> bool" where
  "sound rs w \<longleftrightarrow> counts_ok w \<and> listed rs w \<and> ranges_ok (m_sbi w)"

lemma drained_inodeD:
  assumes "drained_from s s'" "sbi_inodes s' r = Some si'"
  shows "\<exists>si. sbi_inodes s r = Some si \<and> drained_inode si si'"
proof -
  have "rel_option drained_inode (sbi_inodes s r) (Some si')" using assms by (metis drained_from_def)
  then show ?thesis by (simp add: option_rel_Some2)
qed

lemma mount_drain_sound:
  assumes "mount_drain env w = Some (e, w')" "sound rs w"
  shows "sound rs w' \<and> kept w' = kept w \<and> drained_from (m_sbi w) (m_sbi w')"
proof -
  obtain io1 where d: "cache_drain (me_io env) (mw_io w) = Some (e, io1)"
      "w' = w\<lparr>mw_io := io1, mw_count := \<lambda>r. mw_count w r - (if unpinned (m_sbi w) (w_sbi io1) r then 1 else 0)\<rparr>"
    using assms(1) by (auto simp: mount_drain_def split: option.splits)
  note fr = cache_drain_from [OF d(1)]
  have "counts_ok w'"
    unfolding counts_ok_def
  proof (intro allI impI)
    fix r si' assume si': "sbi_inodes (m_sbi w') r = Some si'"
    then obtain si where si: "sbi_inodes (m_sbi w) r = Some si" "drained_inode si si'" using drained_inodeD [OF fr] d(2) by auto
    then have "mw_count w r = pins si + length (si_aliases si)" using assms(2) by (simp add: sound_def counts_ok_def)
    then show "mw_count w' r = pins si' + length (si_aliases si')"
      using si si' d(2) by (auto simp: pins_def drained_inode_def unpinned_def)
  qed
  moreover have "listed rs w'"
    using assms(2) d(2) by (auto simp: sound_def listed_def dest!: drained_inodeD [OF fr])
  moreover have "ranges_ok (m_sbi w')" using cache_drain_ok [OF d(1)] assms(2) d(2) by (simp add: sound_def)
  moreover have "kept w' = kept w" using cache_drain_queues [OF d(1)] d(2) by (simp add: kept_def paths_of_def queues_of_def)
  ultimately show ?thesis using fr d(2) by (simp add: sound_def)
qed

lemma other_inodes:
  "q \<noteq> r \<Longrightarrow> sbi_inodes (clear_write_reservation r s) q = sbi_inodes s q" "q \<noteq> r \<Longrightarrow> sbi_inodes (path_map_del r s) q = sbi_inodes s q"
  "sbi_inodes (oid_map_remove k s) = sbi_inodes s" "sbi_inodes (lower_ino_map_remove t i s) = sbi_inodes s"
  by (simp_all add: clear_write_reservation_def path_map_del_def oid_map_remove_def lower_ino_map_remove_def upd_inode_def upd_tier_def Let_def
      split: option.split)

lemma evict_inode_inodes: "sbi_inodes (evict_inode lino r s) q = (if q = r then None else sbi_inodes s q)"
  by (simp add: evict_inode_def Let_def other_inodes split: option.split)

lemma evict_facts:
  "sbi_inodes (m_sbi (evict env r w)) = (sbi_inodes (m_sbi w))(r := None)" "mw_count (evict env r w) = mw_count w" "kept (evict env r w) = kept w"
  by (simp_all add: evict_def evict_inode_inodes kept_def fun_eq_iff) (simp add: paths_of_def)

text \<open>Removing inodes keeps the rest sound.\<close>

definition fewer :: "mount_world \<Rightarrow> mount_world \<Rightarrow> bool" where
  "fewer w w' \<longleftrightarrow> (\<forall>q. sbi_inodes (m_sbi w') q = sbi_inodes (m_sbi w) q \<or> sbi_inodes (m_sbi w') q = None) \<and> kept w' = kept w"

lemma fewer_trans: "fewer u v \<Longrightarrow> fewer v w \<Longrightarrow> fewer u w"
  unfolding fewer_def by metis

lemma iput_facts: "fewer w (iput env r w)" "mw_count (iput env r w) = (mw_count w)(r := mw_count w r - 1)"
  by (auto simp: iput_def fewer_def evict_facts Let_def) (simp_all add: kept_def)

lemma iput_n_facts:
  "fewer w ((iput env r ^^ n) w)" "mw_count ((iput env r ^^ n) w) = (mw_count w)(r := mw_count w r - n)"
proof -
  show "fewer w ((iput env r ^^ n) w)" by (induction n) (auto simp: fewer_def [of w w] intro: fewer_trans iput_facts(1))
  show "mw_count ((iput env r ^^ n) w) = (mw_count w)(r := mw_count w r - n)"
    by (induction n) (auto simp: iput_facts(2))
qed

lemma iputs_facts:
  "distinct (map fst held) \<Longrightarrow> fewer w (fold (\<lambda>(r, n). iput env r ^^ n) held w)
    \<and> mw_count (fold (\<lambda>(r, n). iput env r ^^ n) held w) = (\<lambda>q. mw_count w q - (case map_of held q of None \<Rightarrow> 0 | Some n \<Rightarrow> n))"
proof (induction held arbitrary: w)
  case (Cons h held)
  obtain r n where h: "h = (r, n)" by fastforce
  let ?w = "(iput env r ^^ n) w"
  have ih: "fewer ?w (fold (\<lambda>(r, n). iput env r ^^ n) held ?w)"
      "mw_count (fold (\<lambda>(r, n). iput env r ^^ n) held ?w) = (\<lambda>q. mw_count ?w q - (case map_of held q of None \<Rightarrow> 0 | Some n \<Rightarrow> n))"
    using Cons by simp_all
  have "map_of held r = None" using Cons.prems h by (auto simp: map_of_eq_None_iff)
  then show ?case
    using ih fewer_trans [OF iput_n_facts(1) ih(1)] by (auto simp: h iput_n_facts(2) fun_eq_iff)
qed (simp add: fewer_def)

definition unpin :: "inode_info \<Rightarrow> inode_info" where
  "unpin i = (upd_rs (\<lambda>s. s\<lparr>rs_pinned := False\<rparr>) i)\<lparr>si_unmount_pins := int (pins i), si_replay_pinned := False\<rparr>"

lemma take_pins_at: "sbi_inodes (take_pins q s) r = (if r = q then map_option unpin (sbi_inodes s r) else sbi_inodes s r)"
  by (simp add: take_pins_def upd_inode_def unpin_def [abs_def])

lemma unpin_simps [simp]: "si_aliases (unpin i) = si_aliases i" "rs_ranges (si_rs (unpin i)) = rs_ranges (si_rs i)" "pins (unpin i) = 0"
  by (simp_all add: unpin_def upd_rs_def pins_def)

lemma take_pins_fold:
  "sbi_inodes s r = Some si \<Longrightarrow> \<exists>si'. sbi_inodes (fold take_pins rs s) r = Some si' \<and> si_aliases si' = si_aliases si
     \<and> rs_ranges (si_rs si') = rs_ranges (si_rs si) \<and> (r \<in> set rs \<or> pins si = 0 \<longrightarrow> pins si' = 0)"
proof (induction rs arbitrary: s si)
  case (Cons q rs)
  then have "sbi_inodes (take_pins q s) r = Some (if r = q then unpin si else si)" by (auto simp: take_pins_at)
  from Cons.IH [OF this] show ?case by auto
qed auto

lemma take_pins_none: "sbi_inodes s r = None \<Longrightarrow> sbi_inodes (fold take_pins rs s) r = None"
proof (induction rs arbitrary: s)
  case (Cons q rs)
  then have "sbi_inodes (take_pins q s) r = None" by (auto simp: take_pins_at)
  then show ?case using Cons.IH by simp
qed simp

lemma take_pins_paths: "paths_of (fold take_pins rs s) = paths_of s"
  by (induction rs arbitrary: s) (simp_all add: take_pins_def)

text \<open>Inodes without pins, and without dentries either.\<close>

definition no_pins :: "mount_world \<Rightarrow> bool" where
  "no_pins w \<longleftrightarrow> (\<forall>r si. sbi_inodes (m_sbi w) r = Some si \<longrightarrow> pins si = 0)"

definition bare :: "mount_world \<Rightarrow> bool" where
  "bare w \<longleftrightarrow> no_pins w \<and> (\<forall>r si. sbi_inodes (m_sbi w) r = Some si \<longrightarrow> si_aliases si = [])"

lemma fewer_sound:
  assumes "fewer w w'" "mw_count w' = mw_count w" "sound rs w"
  shows "sound rs w'"
proof -
  have f: "sbi_inodes (m_sbi w') q = Some si \<Longrightarrow> sbi_inodes (m_sbi w) q = Some si" for q si
    using assms(1) by (metis fewer_def option.distinct(1))
  then show ?thesis
    using assms(2,3) by (auto simp: sound_def counts_ok_def listed_def ranges_ok_def dest!: f)
qed

text \<open>The kernel drops one reference per pin, and that is what the pins held.\<close>

lemma release_pins_sound:
  assumes "sound rs w" "sbi_inode_list (m_sbi w) = rs"
  shows "sound rs (release_pins env w) \<and> no_pins (release_pins env w) \<and> kept (release_pins env w) = kept w"
proof -
  define s1 where "s1 = (fold take_pins rs (m_sbi w))\<lparr>sbi_inode_list := filter (\<lambda>r. inode_pins (m_sbi w) r = 0) rs\<rparr>"
  define held where "held = map (\<lambda>r. (r, inode_pins (m_sbi w) r)) (filter (\<lambda>r. inode_pins (m_sbi w) r \<noteq> 0) rs)"
  define w1 where "w1 = upd_pool (\<lambda>_. s1) w"
  have rp: "release_pins env w = fold (\<lambda>(r, n). iput env r ^^ n) held w1"
    using assms(2) by (simp add: release_pins_def held_def w1_def s1_def upd_pool_def Let_def)
  have d: "distinct rs" "dom (sbi_inodes (m_sbi w)) \<subseteq> set rs" using assms(1) by (auto simp: sound_def listed_def)
  have "distinct (map fst held)" using d(1) by (simp add: held_def o_def)
  note ip = iputs_facts [OF this, of w1 env, folded rp]
  have mo: "(case map_of held q of None \<Rightarrow> 0 | Some n \<Rightarrow> n) = inode_pins (m_sbi w) q" if "q \<in> set rs" for q
    using that d(1) by (auto simp: held_def map_of_map_restrict restrict_map_def split: option.split if_splits)
  have in1: "\<exists>si. sbi_inodes (m_sbi w) q = Some si \<and> si_aliases si1 = si_aliases si \<and> rs_ranges (si_rs si1) = rs_ranges (si_rs si) \<and> pins si1 = 0"
    if "sbi_inodes (m_sbi w1) q = Some si1" for q si1
  proof (cases "sbi_inodes (m_sbi w) q")
    case None
    then show ?thesis using that by (simp add: w1_def s1_def take_pins_none)
  next
    case (Some si)
    then have "q \<in> set rs" using d(2) by auto
    then show ?thesis using take_pins_fold [OF Some, of rs] that Some by (auto simp: w1_def s1_def)
  qed
  have in2: "sbi_inodes (m_sbi w1) q = Some si1" if "sbi_inodes (m_sbi (release_pins env w)) q = Some si1" for q si1
    using ip that by (metis fewer_def option.distinct(1))
  have "counts_ok (release_pins env w)"
    unfolding counts_ok_def
  proof (intro allI impI)
    fix q si1 assume q: "sbi_inodes (m_sbi (release_pins env w)) q = Some si1"
    then obtain si where si: "sbi_inodes (m_sbi w) q = Some si" "si_aliases si1 = si_aliases si" "pins si1 = 0" using in1 [OF in2 [OF q]] by auto
    then have "q \<in> set rs" "mw_count w q = pins si + length (si_aliases si)" using d(2) assms(1) by (auto simp: sound_def counts_ok_def)
    then show "mw_count (release_pins env w) q = pins si1 + length (si_aliases si1)"
      using ip mo [of q] si by (simp add: w1_def inode_pins_def)
  qed
  moreover have "listed rs (release_pins env w)" using d by (auto simp: listed_def dest!: in1 [OF in2])
  moreover have "ranges_ok (m_sbi (release_pins env w))"
    using assms(1) by (auto simp: sound_def ranges_ok_def dest!: in1 [OF in2])
  moreover have "no_pins (release_pins env w)" by (auto simp: no_pins_def dest!: in1 [OF in2])
  moreover have "kept (release_pins env w) = kept w"
    using ip take_pins_paths [of rs "m_sbi w"] by (simp add: fewer_def kept_def w1_def s1_def) (simp add: paths_of_def)
  ultimately show ?thesis by (simp add: sound_def)
qed

definition shrink_one :: "iref \<Rightarrow> mount_world \<Rightarrow> mount_world" where
  "shrink_one r w =
    (case sbi_inodes (m_sbi w) r of
       None \<Rightarrow> w
     | Some si \<Rightarrow> upd_pool (upd_inode r (\<lambda>i. i\<lparr>si_aliases := []\<rparr>))
         (w\<lparr>mw_count := (mw_count w)(r := mw_count w r - length (si_aliases si))\<rparr>))"

lemma shrink_dcache_fold: "shrink_dcache rs w = fold shrink_one rs (w\<lparr>mw_root := None\<rparr>)"
  by (simp add: shrink_dcache_def shrink_one_def [abs_def])

lemma shrink_one_inodes:
  "sbi_inodes (m_sbi (shrink_one r w)) q = (if q = r then map_option (\<lambda>i. i\<lparr>si_aliases := []\<rparr>) (sbi_inodes (m_sbi w) q) else sbi_inodes (m_sbi w) q)"
  by (simp add: shrink_one_def upd_inode_def split: option.split)

lemma shrink_one_sound:
  assumes "sound rs w" "no_pins w"
  shows "sound rs (shrink_one r w) \<and> no_pins (shrink_one r w) \<and> kept (shrink_one r w) = kept w"
proof -
  have p: "pins (i\<lparr>si_aliases := []\<rparr>) = pins i" for i by (simp add: pins_def)
  have "counts_ok (shrink_one r w)"
    unfolding counts_ok_def
  proof (intro allI impI)
    fix q si' assume q: "sbi_inodes (m_sbi (shrink_one r w)) q = Some si'"
    then obtain si where si: "sbi_inodes (m_sbi w) q = Some si" "si' = (if q = r then si\<lparr>si_aliases := []\<rparr> else si)"
      by (auto simp: shrink_one_inodes split: if_splits)
    then have "mw_count w q = length (si_aliases si)" "pins si = 0" using assms by (auto simp: sound_def counts_ok_def no_pins_def)
    then show "mw_count (shrink_one r w) q = pins si' + length (si_aliases si')"
      using si p by (auto simp: shrink_one_def split: option.split)
  qed
  moreover have "listed rs (shrink_one r w)"
    using assms(1) by (auto simp: sound_def listed_def dom_def shrink_one_inodes split: if_splits)
  moreover have "ranges_ok (m_sbi (shrink_one r w))"
    using assms(1) by (auto simp: sound_def ranges_ok_def shrink_one_inodes split: if_splits)
  moreover have "no_pins (shrink_one r w)"
    using assms(2) p by (auto simp: no_pins_def shrink_one_inodes split: if_splits)
  moreover have "kept (shrink_one r w) = kept w" by (simp add: shrink_one_def kept_def split: option.split)
  ultimately show ?thesis by (simp add: sound_def)
qed

lemma shrink_fold_sound:
  assumes "sound rs w" "no_pins w"
  shows "sound rs (fold shrink_one qs w) \<and> no_pins (fold shrink_one qs w) \<and> kept (fold shrink_one qs w) = kept w
    \<and> (\<forall>q si. sbi_inodes (m_sbi (fold shrink_one qs w)) q = Some si \<longrightarrow> q \<in> set qs \<longrightarrow> si_aliases si = [])"
  using assms
proof (induction qs arbitrary: w rule: rev_induct)
  case (snoc q qs)
  let ?w = "fold shrink_one qs w"
  have ih: "sound rs ?w \<and> no_pins ?w \<and> kept ?w = kept w"
      "\<forall>p si. sbi_inodes (m_sbi ?w) p = Some si \<longrightarrow> p \<in> set qs \<longrightarrow> si_aliases si = []" using snoc by blast+
  then have "sound rs (shrink_one q ?w) \<and> no_pins (shrink_one q ?w) \<and> kept (shrink_one q ?w) = kept w" using shrink_one_sound by metis
  moreover have "si_aliases si = []" if "sbi_inodes (m_sbi (shrink_one q ?w)) p = Some si" "p \<in> set (qs @ [q])" for p si
    using that ih(2) by (auto simp: shrink_one_inodes split: if_splits)
  ultimately show ?case by simp
qed simp

lemma shrink_dcache_sound:
  assumes "sound rs w" "no_pins w"
  shows "sound rs (shrink_dcache rs w) \<and> bare (shrink_dcache rs w) \<and> kept (shrink_dcache rs w) = kept (w\<lparr>mw_root := None\<rparr>)"
proof -
  have "sound rs (w\<lparr>mw_root := None\<rparr>)" "no_pins (w\<lparr>mw_root := None\<rparr>)"
    using assms by (simp_all add: sound_def counts_ok_def listed_def no_pins_def)
  note f = shrink_fold_sound [OF this, of rs, folded shrink_dcache_fold]
  have "si_aliases si = []" if "sbi_inodes (m_sbi (shrink_dcache rs w)) q = Some si" for q si
    using f that by (auto simp: sound_def listed_def)
  then show ?thesis using f by (simp add: bare_def)
qed

text \<open>Syncing a bare world leaves it bare.\<close>

lemma sync_flush_inodes:
  assumes "sync_flush env err w = (err', w')"
  shows "sbi_inodes (m_sbi w') = sbi_inodes (m_sbi w) \<and> mw_count w' = mw_count w \<and> kept w' = kept w"
  using assms
  by (auto simp: sync_flush_def oid_wb_drain_def oid_wb_worker_def oid_wb_take_def placement_wb_drain_def placement_wb_worker_def
      kept_def paths_of_def Let_def split: if_splits option.splits sum.splits)

lemma sync_fs_bare:
  assumes "sound rs w" "bare w" "kread_ok (io_kread (me_io env))" "kwrite_ok (io_kwrite (me_io env))" "kwrite_clean (io_kwrite (me_io env))"
  shows "\<exists>res w'. sync_fs env wait w = Some (res, w') \<and> sound rs w' \<and> bare w' \<and> kept w' = kept w"
proof (cases "mw_live w \<and> wait")
  case False
  then show ?thesis
    using assms(1,2) by (auto simp: sync_fs_def sound_def bare_def no_pins_def counts_ok_def listed_def kept_def placement_wb_kick_def)
next
  case True
  obtain e io1 where d: "cache_drain (me_io env) (mw_io w) = Some (e, io1)"
    using cache_drain_ends [OF assms(3-5)] ranges_ok_rs assms(1) by (metis sound_def)
  then obtain w0 where w0: "mount_drain env w = Some (e, w0)" by (simp add: mount_drain_def)
  note s0 = mount_drain_sound [OF this assms(1)]
  obtain e1 w1 where f: "sync_flush env e w0 = (e1, w1)" by fastforce
  note fr = sync_flush_inodes [OF f]
  obtain e2 sy where t: "sync_tiers env (lower_sbs env (m_sbi w1)) [] e1 (mw_synced w1) = (e2, sy)" by fastforce
  have run: "sync_fs env wait w = Some (e2, w1\<lparr>mw_synced := sy\<rparr>)" using True w0 f t by (simp add: sync_fs_def)
  have "pins si' = 0 \<and> si_aliases si' = []" if i: "sbi_inodes (m_sbi w0) r = Some si'" for r si'
  proof -
    obtain si where si: "sbi_inodes (m_sbi w) r = Some si" "drained_inode si si'" using drained_inodeD [OF _ i] s0 by blast
    then have "pins si = 0" "si_aliases si = []" using assms(2) by (auto simp: bare_def no_pins_def)
    then show ?thesis using si(2) by (auto simp: pins_def drained_inode_def split: if_splits)
  qed
  then have "bare w0" by (simp add: bare_def no_pins_def)
  then have "bare (w1\<lparr>mw_synced := sy\<rparr>)" using fr by (simp add: bare_def no_pins_def)
  moreover have "sound rs (w1\<lparr>mw_synced := sy\<rparr>)" using s0 fr by (simp add: sound_def counts_ok_def listed_def ranges_ok_def)
  moreover have "kept (w1\<lparr>mw_synced := sy\<rparr>) = kept w" using s0 fr by (simp add: kept_def)
  ultimately show ?thesis using run by blast
qed

lemma evict_fold:
  fixes env :: mount_env
  defines "g \<equiv> \<lambda>r w. if mw_count w r = 0 then evict env r w else w"
  shows "mw_count (fold g qs w) = mw_count w \<and> kept (fold g qs w) = kept w
    \<and> (\<forall>q. sbi_inodes (m_sbi (fold g qs w)) q = (if q \<in> set qs \<and> mw_count w q = 0 then None else sbi_inodes (m_sbi w) q))"
proof (induction qs arbitrary: w)
  case (Cons r qs)
  have "mw_count (g r w) = mw_count w" "kept (g r w) = kept w"
      "\<forall>q. sbi_inodes (m_sbi (g r w)) q = (if q = r \<and> mw_count w r = 0 then None else sbi_inodes (m_sbi w) q)"
    by (simp_all add: g_def evict_facts)
  with Cons.IH [of "g r w"] show ?case by auto
qed simp

lemma evict_inodes_bare:
  assumes "sound rs w" "bare w"
  shows "sbi_inodes (m_sbi (evict_inodes env rs w)) q = None" "kept (evict_inodes env rs w) = kept w"
proof -
  note f = evict_fold [of env rs w, folded evict_inodes_def]
  show "sbi_inodes (m_sbi (evict_inodes env rs w)) q = None"
  proof (cases "sbi_inodes (m_sbi w) q")
    case (Some si)
    then have "mw_count w q = 0" "q \<in> set rs" using assms by (auto simp: sound_def counts_ok_def bare_def no_pins_def listed_def)
    then show ?thesis using f by simp
  qed (use f in simp)
  show "kept (evict_inodes env rs w) = kept w" using f by simp
qed

section \<open>The end\<close>

lemma destroy_frames [simp]:
  "mw_refs (destroy_oid_wb env w) = mw_refs w" "mw_nl (destroy_oid_wb env w) = mw_nl w" "mw_sysfs (destroy_oid_wb env w) = mw_sysfs w"
  "paths_of (m_sbi (destroy_oid_wb env w)) = paths_of (m_sbi w)"
  "mw_refs (destroy_tables w) = mw_refs w" "mw_nl (destroy_tables w) = mw_nl w" "mw_sysfs (destroy_tables w) = mw_sysfs w"
  "\<not> mw_srcu (destroy_tables w)" "paths_of (m_sbi (destroy_tables w)) = paths_of (m_sbi w)"
  "paths_of (placement_wb_destroy aw s) = paths_of s" "paths_of (recovery_destroy s) = paths_of s"
  by (simp_all add: destroy_oid_wb_def destroy_tables_def split: prod.split)
    (auto simp: oid_wb_destroy_def oid_wb_worker_def oid_wb_take_def placement_wb_destroy_def placement_wb_worker_def recovery_destroy_def
      path_map_destroy_def oid_map_destroy_def lower_ino_map_destroy_def paths_of_def split: if_splits)

lemma out_tiers_srcu [simp]: "mw_srcu (out_tiers w) = mw_srcu w"
  by (simp add: out_tiers_def)

lemma put_super_gives_back:
  assumes "mw_live w"
  shows "mw_refs (put_super env b w) = mw_refs w - mset (take (unat (fst (paths_of (m_sbi w)))) (snd (paths_of (m_sbi w))))
    \<and> nw_list (mw_nl (put_super env b w)) = remove1 b (nw_list (mw_nl w))
    \<and> \<not> mw_live (put_super env b w) \<and> \<not> mw_cred (put_super env b w) \<and> \<not> mw_srcu (put_super env b w) \<and> \<not> mw_sysfs (put_super env b w)"
  using assms by (simp add: put_super_def sysfs_pool_remove_def sb_unregister_def shape_paths [OF close_log_frame(4)] Let_def)


text \<open>A superblock without its pool, as a failed mount leaves it, drops no pins: a pinned inode stays busy.\<close>

lemma shrink_fold_count:
  "distinct qs \<Longrightarrow> sbi_inodes (m_sbi w) r = Some si \<Longrightarrow>
     (\<exists>si'. sbi_inodes (m_sbi (fold shrink_one qs w)) r = Some si') \<and> mw_live (fold shrink_one qs w) = mw_live w
     \<and> mw_count (fold shrink_one qs w) r = mw_count w r - (if r \<in> set qs then length (si_aliases si) else 0)"
proof (induction qs arbitrary: w si)
  case (Cons q qs)
  have l: "mw_live (shrink_one q w) = mw_live w" by (simp add: shrink_one_def split: option.split)
  show ?case
  proof (cases "q = r")
    case True
    then have "sbi_inodes (m_sbi (shrink_one q w)) r = Some (si\<lparr>si_aliases := []\<rparr>)" using Cons.prems by (simp add: shrink_one_inodes)
    moreover have "mw_count (shrink_one q w) r = mw_count w r - length (si_aliases si)" using Cons.prems True by (simp add: shrink_one_def)
    ultimately show ?thesis using Cons.IH [of "shrink_one q w"] Cons.prems True l by auto
  next
    case False
    then have "sbi_inodes (m_sbi (shrink_one q w)) r = Some si" using Cons.prems by (simp add: shrink_one_inodes)
    moreover have "mw_count (shrink_one q w) r = mw_count w r" using False by (simp add: shrink_one_def split: option.split)
    ultimately show ?thesis using Cons.IH [of "shrink_one q w"] Cons.prems False l by auto
  qed
qed simp

lemma dead_superblock_keeps_pins:
  assumes "\<not> mw_live w" "mw_root w \<noteq> None" "distinct (sbi_inode_list (m_sbi w))" "r \<in> set (sbi_inode_list (m_sbi w))"
    and "sbi_inodes (m_sbi w) r = Some si" "length (si_aliases si) < mw_count w r"
  shows "\<exists>w' busy. kill_sb env b w = Some (w', busy) \<and> r \<in> set busy"
proof -
  let ?rs = "sbi_inode_list (m_sbi w)"
  let ?w1 = "shrink_dcache ?rs w"
  have s: "\<exists>si'. sbi_inodes (m_sbi ?w1) r = Some si'" "\<not> mw_live ?w1" "mw_count ?w1 r \<noteq> 0"
    using shrink_fold_count [OF assms(3), of "w\<lparr>mw_root := None\<rparr>" r si] assms by (simp_all add: shrink_dcache_fold)
  have "sbi_inodes (m_sbi (evict_inodes env ?rs ?w1)) r = sbi_inodes (m_sbi ?w1) r"
    using evict_fold [of env ?rs ?w1] s(3) by (simp add: evict_inodes_def)
  then show ?thesis
    using assms(1,2,4) s by (auto simp: kill_sb_def kill_anon_super_def sync_fs_def Let_def)
qed

section \<open>A concrete unmount\<close>


end
