(* ===== verification/Cutover_Lock.thy ===== *)
theory Cutover_Lock
  imports Smoothfs_Types
begin

text \<open>
  The inode lock during a cutover. \<open>smoothfs_movement_cutover\<close> (\<open>movement.c\<close>) marks the inode under
  its lock, gives the lock up while it drains the writers, and takes it again to publish the new
  place. \<open>smoothfs_setattr\<close> (\<open>inode.c\<close>) is called with that lock held, and its gate
  (\<open>smoothfs_begin_data_change\<close>, \<open>smoothfs.h\<close>) sleeps while the mark is set. The two threads are a step
  relation on the lock, the mark and their positions.
\<close>

section \<open>Two threads and a lock\<close>

datatype owner = Cutover | Setattr

text \<open>
  The cutover: before the lock, with it, draining, wanting it again after a drain that timed out or
  succeeded, publishing with it, returned. The setattr: before the lock, with it and before the gate,
  asleep at the gate, past the gate, returned.
\<close>

datatype cut_pc = C_Begin | C_Locked | C_Drain | C_Relock_Fail | C_Relock | C_Publish | C_Done
datatype set_pc = S_Begin | S_Locked | S_Wait | S_Inside | S_Done

record lk =
  lk_owner :: "owner option"
  lk_ms :: movement_state
  lk_cut :: cut_pc
  lk_set :: set_pc

inductive lk_step :: "lk \<Rightarrow> lk \<Rightarrow> bool" where
  cut_lock: "lk_cut s = C_Begin \<Longrightarrow> lk_owner s = None \<Longrightarrow> lk_step s (s\<lparr>lk_owner := Some Cutover, lk_cut := C_Locked\<rparr>)"
| cut_busy: "lk_cut s = C_Locked \<Longrightarrow> \<not> ms_precutover (lk_ms s) \<Longrightarrow> lk_step s (s\<lparr>lk_owner := None, lk_cut := C_Done\<rparr>)"
| cut_mark: "lk_cut s = C_Locked \<Longrightarrow> ms_precutover (lk_ms s)
    \<Longrightarrow> lk_step s (s\<lparr>lk_owner := None, lk_ms := MS_CUTOVER_IN_PROGRESS, lk_cut := C_Drain\<rparr>)"
| cut_drained: "lk_cut s = C_Drain \<Longrightarrow> lk_set s \<noteq> S_Inside \<Longrightarrow> lk_step s (s\<lparr>lk_cut := C_Relock\<rparr>)"
| cut_timeout: "lk_cut s = C_Drain \<Longrightarrow> lk_step s (s\<lparr>lk_cut := C_Relock_Fail\<rparr>)"
| cut_give_up: "lk_cut s = C_Relock_Fail \<Longrightarrow> lk_owner s = None
    \<Longrightarrow> lk_step s (s\<lparr>lk_ms := (if lk_ms s = MS_CUTOVER_IN_PROGRESS then MS_COPY_VERIFIED else lk_ms s), lk_cut := C_Done\<rparr>)"
| cut_relock: "lk_cut s = C_Relock \<Longrightarrow> lk_owner s = None \<Longrightarrow> lk_step s (s\<lparr>lk_owner := Some Cutover, lk_cut := C_Publish\<rparr>)"
| cut_raced: "lk_cut s = C_Publish \<Longrightarrow> lk_ms s \<noteq> MS_CUTOVER_IN_PROGRESS
    \<Longrightarrow> lk_step s (s\<lparr>lk_owner := None, lk_ms := MS_COPY_VERIFIED, lk_cut := C_Done\<rparr>)"
| cut_switch: "lk_cut s = C_Publish \<Longrightarrow> lk_ms s = MS_CUTOVER_IN_PROGRESS
    \<Longrightarrow> lk_step s (s\<lparr>lk_owner := None, lk_ms := MS_SWITCHED, lk_cut := C_Done\<rparr>)"
| cut_fail: "lk_cut s = C_Publish \<Longrightarrow> lk_ms s = MS_CUTOVER_IN_PROGRESS
    \<Longrightarrow> lk_step s (s\<lparr>lk_owner := None, lk_ms := MS_FAILED, lk_cut := C_Done\<rparr>)"
| set_lock: "lk_set s = S_Begin \<Longrightarrow> lk_owner s = None \<Longrightarrow> lk_step s (s\<lparr>lk_owner := Some Setattr, lk_set := S_Locked\<rparr>)"
| set_enter: "lk_set s = S_Locked \<Longrightarrow> lk_ms s \<noteq> MS_CUTOVER_IN_PROGRESS \<Longrightarrow> lk_step s (s\<lparr>lk_set := S_Inside\<rparr>)"
| set_park: "lk_set s = S_Locked \<Longrightarrow> lk_ms s = MS_CUTOVER_IN_PROGRESS \<Longrightarrow> lk_step s (s\<lparr>lk_set := S_Wait\<rparr>)"
| set_wake: "lk_set s = S_Wait \<Longrightarrow> lk_ms s \<noteq> MS_CUTOVER_IN_PROGRESS \<Longrightarrow> lk_step s (s\<lparr>lk_set := S_Locked\<rparr>)"
| set_leave: "lk_set s = S_Inside \<Longrightarrow> lk_step s (s\<lparr>lk_owner := None, lk_set := S_Done\<rparr>)"

inductive_simps lk_step_simps: "lk_step s s'"

text \<open>The sleep can be interrupted by a signal; the setattr fails and the lock is given back.\<close>

definition lk_signal :: "lk \<Rightarrow> lk option" where
  "lk_signal s = (if lk_set s = S_Wait then Some (s\<lparr>lk_owner := None, lk_set := S_Done\<rparr>) else None)"

inductive lk_reach :: "lk \<Rightarrow> bool" where
  start: "ms_precutover ms \<Longrightarrow> lk_reach \<lparr>lk_owner = None, lk_ms = ms, lk_cut = C_Begin, lk_set = S_Begin\<rparr>"
| step: "lk_reach s \<Longrightarrow> lk_step s s' \<Longrightarrow> lk_reach s'"
| signal: "lk_reach s \<Longrightarrow> lk_signal s = Some s' \<Longrightarrow> lk_reach s'"

section \<open>Where it can stop\<close>

definition lk_inv :: "lk \<Rightarrow> bool" where
  "lk_inv s \<longleftrightarrow> (lk_owner s = Some Cutover \<longleftrightarrow> lk_cut s \<in> {C_Locked, C_Publish})
     \<and> (lk_owner s = Some Setattr \<longleftrightarrow> lk_set s \<in> {S_Locked, S_Wait, S_Inside})
     \<and> (lk_ms s = MS_CUTOVER_IN_PROGRESS \<longleftrightarrow> lk_cut s \<in> {C_Drain, C_Relock_Fail, C_Relock, C_Publish})"

lemma lk_step_inv: "lk_step s s' \<Longrightarrow> lk_inv s \<Longrightarrow> lk_inv s'"
  by (induction rule: lk_step.induct) (auto simp: lk_inv_def ms_precutover_def)

lemma lk_reach_inv: "lk_reach s \<Longrightarrow> lk_inv s"
proof (induction rule: lk_reach.induct)
  case (start ms)
  then show ?case by (auto simp: lk_inv_def ms_precutover_def)
next
  case (step s s')
  then show ?case using lk_step_inv by blast
next
  case (signal s s')
  then show ?case by (auto simp: lk_inv_def lk_signal_def split: if_splits)
qed

definition lk_deadlock :: "lk \<Rightarrow> bool" where
  "lk_deadlock s \<longleftrightarrow> lk_set s = S_Wait \<and> lk_owner s = Some Setattr \<and> lk_ms s = MS_CUTOVER_IN_PROGRESS
     \<and> (lk_cut s = C_Relock \<or> lk_cut s = C_Relock_Fail)"

lemma lk_stuck:
  assumes "lk_inv s"
  shows "(\<forall>s'. \<not> lk_step s s') \<longleftrightarrow> (lk_cut s = C_Done \<and> lk_set s = S_Done) \<or> lk_deadlock s"
proof -
  have o: "lk_owner s = None \<or> lk_owner s = Some Cutover \<or> lk_owner s = Some Setattr"
    by (metis not_None_eq owner.exhaust)
  show ?thesis
    using assms o by (cases "lk_cut s"; cases "lk_set s") (auto simp: lk_inv_def lk_deadlock_def lk_step_simps)
qed

text \<open>
  C40. What the lock and the gate give, and what they do not, to a cutover and a setattr of the same
  file. No setattr is past the gate while the new place is published. The two threads can stop
  before both have returned in one way only: the setattr sleeps at the gate with the inode lock,
  and the cutover, which would end that sleep, waits for the lock. No step of either thread leads
  out of that, only a signal to the setattr, and after it the cutover can always finish.
\<close>

theorem cutover_setattr_lock:
  assumes "lk_reach s"
  shows "\<not> (lk_cut s = C_Publish \<and> lk_set s = S_Inside)
    \<and> ((\<forall>s'. \<not> lk_step s s') \<longleftrightarrow> (lk_cut s = C_Done \<and> lk_set s = S_Done) \<or> lk_deadlock s)
    \<and> (lk_deadlock s \<longrightarrow> (\<exists>s' t. lk_signal s = Some s' \<and> lk_step\<^sup>*\<^sup>* s' t \<and> lk_cut t = C_Done \<and> lk_set t = S_Done))"
proof (intro conjI impI)
  have inv: "lk_inv s" using assms by (rule lk_reach_inv)
  then show "\<not> (lk_cut s = C_Publish \<and> lk_set s = S_Inside)" by (auto simp: lk_inv_def)
  show "(\<forall>s'. \<not> lk_step s s') \<longleftrightarrow> (lk_cut s = C_Done \<and> lk_set s = S_Done) \<or> lk_deadlock s" using inv by (rule lk_stuck)
  assume d: "lk_deadlock s"
  let ?s = "s\<lparr>lk_owner := None, lk_set := S_Done\<rparr>"
  have sg: "lk_signal s = Some ?s" using d by (simp add: lk_signal_def lk_deadlock_def)
  have "\<exists>t. lk_step\<^sup>*\<^sup>* ?s t \<and> lk_cut t = C_Done \<and> lk_set t = S_Done"
  proof (cases "lk_cut s = C_Relock")
    case True
    let ?p = "?s\<lparr>lk_owner := Some Cutover, lk_cut := C_Publish\<rparr>"
    have "lk_step ?s ?p" using True by (intro cut_relock) simp_all
    moreover have "lk_step ?p (?p\<lparr>lk_owner := None, lk_ms := MS_SWITCHED, lk_cut := C_Done\<rparr>)"
      using d by (intro cut_switch) (simp_all add: lk_deadlock_def)
    ultimately have "lk_step\<^sup>*\<^sup>* ?s (?p\<lparr>lk_owner := None, lk_ms := MS_SWITCHED, lk_cut := C_Done\<rparr>)"
      by (meson converse_rtranclp_into_rtranclp rtranclp.rtrancl_refl)
    then show ?thesis by (intro exI conjI, assumption) simp_all
  next
    case False
    then have "lk_step ?s (?s\<lparr>lk_ms := MS_COPY_VERIFIED, lk_cut := C_Done\<rparr>)"
      using d cut_give_up [of ?s] by (simp add: lk_deadlock_def)
    then show ?thesis by (intro exI conjI, rule r_into_rtranclp) simp_all
  qed
  then show "\<exists>s' t. lk_signal s = Some s' \<and> lk_step\<^sup>*\<^sup>* s' t \<and> lk_cut t = C_Done \<and> lk_set t = S_Done" using sg by blast
qed

text \<open>The stop is reached: the setattr comes while the writers are drained.\<close>

definition ex_deadlock :: lk where
  "ex_deadlock = \<lparr>lk_owner = Some Setattr, lk_ms = MS_CUTOVER_IN_PROGRESS, lk_cut = C_Relock, lk_set = S_Wait\<rparr>"

lemma setattr_deadlocks_cutover: "lk_reach ex_deadlock \<and> lk_deadlock ex_deadlock"
proof -
  have "lk_reach \<lparr>lk_owner = None, lk_ms = MS_COPY_VERIFIED, lk_cut = C_Begin, lk_set = S_Begin\<rparr>"
    by (rule start) (simp add: ms_precutover_def)
  from step [OF this cut_lock] have "lk_reach \<lparr>lk_owner = Some Cutover, lk_ms = MS_COPY_VERIFIED, lk_cut = C_Locked, lk_set = S_Begin\<rparr>" by simp
  from step [OF this cut_mark] have "lk_reach \<lparr>lk_owner = None, lk_ms = MS_CUTOVER_IN_PROGRESS, lk_cut = C_Drain, lk_set = S_Begin\<rparr>"
    by (simp add: ms_precutover_def)
  from step [OF this set_lock] have "lk_reach \<lparr>lk_owner = Some Setattr, lk_ms = MS_CUTOVER_IN_PROGRESS, lk_cut = C_Drain, lk_set = S_Locked\<rparr>" by simp
  from step [OF this set_park] have "lk_reach \<lparr>lk_owner = Some Setattr, lk_ms = MS_CUTOVER_IN_PROGRESS, lk_cut = C_Drain, lk_set = S_Wait\<rparr>" by simp
  from step [OF this cut_drained] have "lk_reach ex_deadlock" by (simp add: ex_deadlock_def)
  then show ?thesis by (simp add: lk_deadlock_def ex_deadlock_def)
qed

theorem cutover_setattr_lock_witness: "\<not> (\<exists>s'. lk_step ex_deadlock s') \<and> (\<exists>s'. lk_signal ex_deadlock = Some s')"
  using cutover_setattr_lock [of ex_deadlock] setattr_deadlocks_cutover by blast

end
