(* ===== verification/Attrs.thy ===== *)
theory Attrs
  imports Sysfs Lower_File Cutover_Lock
begin

text \<open>
  Attributes, links, dentries and ioctls (\<open>inode.c\<close>, \<open>file.c\<close>): \<open>smoothfs_getattr\<close>,
  \<open>smoothfs_setattr\<close> with the truncation of a file whose writes are staged, \<open>smoothfs_get_link\<close>,
  \<open>smoothfs_d_revalidate\<close>, and the clone ioctls.
\<close>

section \<open>Reading attributes\<close>

record kstat =
  ks_ino :: u64
  ks_dev :: nat
  ks_uid :: nat
  ks_gid :: nat
  ks_kind :: ikind
  ks_size :: int
  ks_nlink :: nat

definition FORCE_UID :: nat where "FORCE_UID = 1000"
definition FORCE_GID :: nat where "FORCE_GID = 1000"

text \<open>The attributes kept on the inode, as \<open>generic_fillattr\<close> gives them; \<open>dev\<close> is the device of the pool.\<close>

definition fillattr :: "nat \<Rightarrow> inode_info \<Rightarrow> kstat" where
  "fillattr dev si = \<lparr>ks_ino = si_ino si, ks_dev = dev, ks_uid = FORCE_UID, ks_gid = FORCE_GID, ks_kind = si_kind si,
     ks_size = si_size si, ks_nlink = si_nlink si\<rparr>"

text \<open>An inode whose lower path has been torn down faults.\<close>

definition getattr :: "(path \<Rightarrow> kstat res) \<Rightarrow> nat \<Rightarrow> inode_info \<Rightarrow> sb_info \<Rightarrow> kstat res \<times> sb_info" where
  "getattr vfs_getattr dev si sbi =
    (if \<not> metadata_tier_active sbi (si_current_tier si) then (Ok (fillattr dev si), note_metadata_tier_skip sbi)
     else case si_lower_path si of
         None \<Rightarrow> (Err EFAULT, sbi)
       | Some lower \<Rightarrow>
          (case vfs_getattr lower of
             Err e \<Rightarrow> (Err e, sbi)
           | Ok st \<Rightarrow>
              (Ok (st\<lparr>ks_size := (if sbi_cache_mode sbi \<and> rs_range_staged (si_rs si) then si_size si else ks_size st),
                      ks_ino := si_ino si, ks_dev := dev, ks_uid := FORCE_UID, ks_gid := FORCE_GID\<rparr>), sbi)))"

section \<open>Changing attributes\<close>

text \<open>The size, if it is to be changed, and the other attributes, which go to the lower file as they are.\<close>

record iattr =
  ia_size :: "int option"
  ia_rest :: nat

text \<open>
  The kernel's side of a change: \<open>sa_prepare\<close> is the permission check, \<open>sa_notify\<close> the change of a
  lower file. The last fields are the path of the dentry, of its parent, and its name.
\<close>

record setattr_env =
  sa_ns :: ns_env
  sa_io :: io_env
  sa_wakes :: "(unit res \<times> io_world) list"
  sa_prepare :: "unit res"
  sa_notify :: "dentry \<Rightarrow> iattr \<Rightarrow> io_world \<Rightarrow> unit res \<times> io_world"
  sa_rel :: "string option"
  sa_parent_rel :: "string option"
  sa_name :: string

text \<open>
  The pool is in both worlds, and a step in one is carried to the other. The lower dentry is read
  before the gate. \<open>None\<close> is a change that waits for a cutover that does not end.
\<close>

definition lower_attrs :: "iget_env \<Rightarrow> io_world \<Rightarrow> iget_env" where
  "lower_attrs ig w = ig\<lparr>ig_size := \<lambda>d. int (length (file_of d w))\<rparr>"

definition setattr_lower ::
  "setattr_env \<Rightarrow> iref \<Rightarrow> dentry \<Rightarrow> iattr \<Rightarrow> ns_world \<Rightarrow> io_world \<Rightarrow> unit res \<times> ns_world \<times> io_world" where
  "setattr_lower env r lower attr nw iw =
    (case sa_notify env lower attr iw of
       (Err e, iw1) \<Rightarrow> (Err e, nw\<lparr>n_sbi := w_sbi iw1\<rparr>, iw1)
     | (Ok _, iw1) \<Rightarrow>
        (let iw2 = upd_sbi (upd_inode r (copy_attrs (lower_attrs (ig_at (sa_ns env) nw) iw1) lower)) iw1;
             iw3 = (if ia_size attr \<noteq> None then upd_sbi (upd_inode r note_data_change) iw2 else iw2)
         in (Done, nw\<lparr>n_sbi := w_sbi iw3\<rparr>, iw3)))"

definition setattr_inner ::
  "setattr_env \<Rightarrow> iref \<Rightarrow> dentry \<Rightarrow> iattr \<Rightarrow> ns_world \<Rightarrow> io_world \<Rightarrow> (unit res \<times> ns_world \<times> io_world) option" where
  "setattr_inner env r d attr nw iw =
    (case ns_ino r nw of
       None \<Rightarrow> Some (Err ESTALE, nw, iw)
     | Some si \<Rightarrow>
        (case (case alias_lower d si of Some l \<Rightarrow> Some l | None \<Rightarrow> map_option p_dentry (si_lower_path si)) of
           None \<Rightarrow> Some (Err ESTALE, nw, iw)
         | Some lower \<Rightarrow>
            (case sa_prepare env of
               Err e \<Rightarrow> Some (Err e, nw, iw)
             | Ok _ \<Rightarrow>
                (case begin_data_change (sa_io env) (sa_wakes env) r (iw\<lparr>w_sbi := n_sbi nw\<rparr>) of
                   None \<Rightarrow> None
                 | Some (Err e, iw1) \<Rightarrow> Some (Err e, nw\<lparr>n_sbi := w_sbi iw1\<rparr>, iw1)
                 | Some (Ok _, iw1) \<Rightarrow>
                    (case stage_truncate_to_fast (sa_ns env) (ia_size attr \<noteq> None) (case ia_size attr of None \<Rightarrow> 0 | Some n \<Rightarrow> n)
                            r d (sa_rel env) (sa_parent_rel env) (sa_name env) (nw\<lparr>n_sbi := w_sbi iw1\<rparr>) of
                       (Ok _, nw1) \<Rightarrow>
                         (let nw2 = (if ia_size attr \<noteq> None then upd_ns (upd_inode r note_data_change) nw1 else nw1)
                          in Some (Done, nw2, iw1\<lparr>w_sbi := n_sbi nw2\<rparr>))
                     | (Err e, nw1) \<Rightarrow>
                         (let iw2 = iw1\<lparr>w_sbi := n_sbi nw1\<rparr>
                          in if e \<noteq> EOPNOTSUPP then Some (Err e, nw1, iw2)
                             else Some (setattr_lower env r lower attr nw1 iw2)))))))"

text \<open>The wrapper changes the credentials of the caller only.\<close>

definition setattr ::
  "setattr_env \<Rightarrow> iref \<Rightarrow> dentry \<Rightarrow> iattr \<Rightarrow> ns_world \<Rightarrow> io_world \<Rightarrow> (unit res \<times> ns_world \<times> io_world) option" where
  "setattr env r d attr nw iw = setattr_inner env r d attr nw iw"

declare setattr_def [op_defs] setattr_inner_def [op_defs] Let_def [op_defs]

section \<open>Links and dentries\<close>

text \<open>A path walk that must not block has no dentry.\<close>

definition get_link :: "(dentry \<Rightarrow> string res) \<Rightarrow> dentry option \<Rightarrow> inode_info \<Rightarrow> string res" where
  "get_link vfs_get_link dentry si =
    (case dentry of
       None \<Rightarrow> Err ECHILD
     | Some d \<Rightarrow> (case alias_lower d si of None \<Rightarrow> Err EINVAL | Some lower \<Rightarrow> vfs_get_link lower))"

text \<open>
  Whether a cached name may be used. \<open>si\<close> is its inode, if it has one, \<open>lop\<close> the revalidation of a
  lower dentry below its parent, if its filesystem has one, and \<open>parent\<close> the lower parent.
\<close>

definition compat_lower_d_revalidate ::
  "(dentry \<Rightarrow> (dentry option \<Rightarrow> bool res) option) \<Rightarrow> dentry option \<Rightarrow> dentry \<Rightarrow> bool res" where
  "compat_lower_d_revalidate lop parent lower = (case lop lower of None \<Rightarrow> Ok True | Some f \<Rightarrow> f parent)"

definition d_revalidate ::
  "(dentry \<Rightarrow> (dentry option \<Rightarrow> bool res) option) \<Rightarrow> dentry \<Rightarrow> inode_info option \<Rightarrow> dentry option \<Rightarrow> bool \<Rightarrow> sb_info \<Rightarrow> bool res" where
  "d_revalidate lop d si parent rcu sbi =
    (case si of
       None \<Rightarrow> Ok False
     | Some i \<Rightarrow>
        (if \<not> sbi_any_lower_revalidates sbi then Ok True
         else case alias_lower d i of
             None \<Rightarrow> Ok False
           | Some lower \<Rightarrow>
              (if lop lower = None then Ok True
               else if rcu then Err ECHILD
               else compat_lower_d_revalidate lop parent lower)))"

text \<open>A released dentry is an alias of nothing any more.\<close>

definition d_release :: "iref \<Rightarrow> dentry \<Rightarrow> sb_info \<Rightarrow> sb_info" where
  "d_release r d = upd_inode r (\<lambda>i. i\<lparr>si_aliases := filter (\<lambda>a. fst a \<noteq> d) (si_aliases i)\<rparr>)"

section \<open>Ioctls\<close>

text \<open>The lower file after the test of \<open>smoothfs_lower_file_error\<close>.\<close>

definition usable_lower :: "open_file option res \<Rightarrow> open_file res" where
  "usable_lower f = (case f of Err e \<Rightarrow> Err e | Ok None \<Rightarrow> Err EBADF | Ok (Some lf) \<Rightarrow> Ok lf)"

record clone_range =
  cr_src_fd :: int
  cr_src_offset :: int
  cr_src_length :: int
  cr_dest_offset :: int

text \<open>
  The argument of \<open>smoothfs_clone_ioctl\<close>: a descriptor, or a range, which may be unreadable; and the
  commands of an ioctl.
\<close>

datatype clone_arg = Clone_Fd int | Clone_Range "clone_range option"

datatype ioctl_cmd = FICLONE int | FICLONERANGE "clone_range option" | OTHER_IOCTL nat nat

text \<open>
  \<open>ce_fget\<close> is the file behind a descriptor, \<open>ce_unused_fd\<close> the reservation of one for the lower
  source, \<open>ce_ioctl\<close> and \<open>ce_compat_ioctl\<close> the ioctls of a lower file, if it has them, \<open>ce_ficlone\<close>
  the lower \<open>FICLONE\<close> from the first file to the second, and \<open>ce_clone\<close> \<open>vfs_clone_file_range\<close>.
\<close>

record ioctl_env =
  ce_io :: io_env
  ce_lower :: lower_env
  ce_wakes :: "(unit res \<times> io_world) list"
  ce_fget :: "int \<Rightarrow> remap_file option"
  ce_unused_fd :: "unit res"
  ce_ioctl :: "open_file \<Rightarrow> (ioctl_cmd \<Rightarrow> io_world \<Rightarrow> nat res \<times> io_world) option"
  ce_compat_ioctl :: "open_file \<Rightarrow> (ioctl_cmd \<Rightarrow> io_world \<Rightarrow> nat res \<times> io_world) option"
  ce_ficlone :: "open_file \<Rightarrow> open_file \<Rightarrow> io_world \<Rightarrow> nat res \<times> io_world"
  ce_clone :: "open_file \<Rightarrow> int \<Rightarrow> open_file \<Rightarrow> int \<Rightarrow> int \<Rightarrow> io_world \<Rightarrow> nat res \<times> io_world"

text \<open>A clone inside the gate; its result on success is zero.\<close>

definition clone_change :: "ioctl_env \<Rightarrow> iref \<Rightarrow> (io_world \<Rightarrow> nat res \<times> io_world) \<Rightarrow> io_world \<Rightarrow> (nat res \<times> io_world) option" where
  "clone_change env r op w =
    map_option (apfst (map_sum id (\<lambda>_. 0))) (data_change (ce_io env) (ce_wakes env) r op (\<lambda>_. True) w)"

definition clone_from :: "ioctl_env \<Rightarrow> clone_arg \<Rightarrow> iref \<Rightarrow> open_file \<Rightarrow> open_file \<Rightarrow> io_world \<Rightarrow> (nat res \<times> io_world) option" where
  "clone_from env arg r lin lout w =
    (case arg of
       Clone_Fd _ \<Rightarrow>
         (if ce_ioctl env lout = None then Some (Err ENOTTY, w)
          else case ce_unused_fd env of
              Err e \<Rightarrow> Some (Err e, w)
            | Ok _ \<Rightarrow> clone_change env r (ce_ficlone env lin lout) w)
     | Clone_Range None \<Rightarrow> Some (Err EFAULT, w)
     | Clone_Range (Some cr) \<Rightarrow>
         (let len = (if cr_src_length cr = 0
                     then int (length (file_of (p_dentry (of_path lin)) w)) - cr_src_offset cr else cr_src_length cr)
          in clone_change env r (ce_clone env lin (cr_src_offset cr) lout (cr_dest_offset cr) len) w))"

fun clone_src_fd :: "clone_arg \<Rightarrow> int option" where
  "clone_src_fd (Clone_Fd n) = Some n"
| "clone_src_fd (Clone_Range cr) = map_option cr_src_fd cr"

definition clone_ioctl ::
  "ioctl_env \<Rightarrow> clone_arg \<Rightarrow> iref \<Rightarrow> file_info option \<Rightarrow> io_world
    \<Rightarrow> (nat res \<times> file_info option \<times> remap_file option \<times> io_world) option" where
  "clone_ioctl env arg r fio w =
    (case lower_file_w (ce_lower env) r fio w of
       (fout, fio', w1) \<Rightarrow>
         (case usable_lower fout of
            Err e \<Rightarrow> Some (Err e, fio', None, w1)
          | Ok lout \<Rightarrow>
             (case clone_src_fd arg of
                None \<Rightarrow> Some (Err EFAULT, fio', None, w1)
              | Some fd \<Rightarrow>
                 (case ce_fget env fd of
                    None \<Rightarrow> Some (Err EBADF, fio', None, w1)
                  | Some src \<Rightarrow>
                     (case remap_source_file (ce_lower env) (Some src) w1 of
                        (fin, src', w2) \<Rightarrow>
                          (case usable_lower fin of
                             Err e \<Rightarrow> Some (Err e, fio', src', w2)
                           | Ok lin \<Rightarrow>
                              map_option (\<lambda>(e, w3). (e, fio', src', w3)) (clone_from env arg r lin lout w2)))))))"

definition lower_ioctl ::
  "lower_env \<Rightarrow> (open_file \<Rightarrow> (ioctl_cmd \<Rightarrow> io_world \<Rightarrow> nat res \<times> io_world) option) \<Rightarrow> ioctl_cmd \<Rightarrow> iref \<Rightarrow> file_info option \<Rightarrow> io_world
    \<Rightarrow> nat res \<times> file_info option \<times> io_world" where
  "lower_ioctl lenv ops cmd r fio w =
    (case lower_file_w lenv r fio w of
       (f, fio', w1) \<Rightarrow>
         (case usable_lower f of
            Err e \<Rightarrow> (Err e, fio', w1)
          | Ok lf \<Rightarrow> (case ops lf of None \<Rightarrow> (Err ENOTTY, fio', w1) | Some op \<Rightarrow> (case op cmd w1 of (e, w2) \<Rightarrow> (e, fio', w2)))))"

definition unlocked_ioctl ::
  "ioctl_env \<Rightarrow> ioctl_cmd \<Rightarrow> iref \<Rightarrow> file_info option \<Rightarrow> io_world
    \<Rightarrow> (nat res \<times> file_info option \<times> remap_file option \<times> io_world) option" where
  "unlocked_ioctl env cmd r fio w =
    (case cmd of
       FICLONE fd \<Rightarrow> clone_ioctl env (Clone_Fd fd) r fio w
     | FICLONERANGE cr \<Rightarrow> clone_ioctl env (Clone_Range cr) r fio w
     | OTHER_IOCTL _ _ \<Rightarrow> (case lower_ioctl (ce_lower env) (ce_ioctl env) cmd r fio w of (e, fio', w1) \<Rightarrow> Some (e, fio', None, w1)))"

definition compat_ioctl ::
  "ioctl_env \<Rightarrow> ioctl_cmd \<Rightarrow> iref \<Rightarrow> file_info option \<Rightarrow> io_world \<Rightarrow> nat res \<times> file_info option \<times> io_world" where
  "compat_ioctl env = lower_ioctl (ce_lower env) (ce_compat_ioctl env)"

section \<open>A clone never copies past what is staged\<close>

text \<open>A file on the pool whose writes are staged in a cache is refused as the source of a clone, and nothing changes.\<close>

lemma clone_refuses_staged_source:
  assumes "lower_file_w (ce_lower env) r fio w = (Ok (Some lout), fio', w1)" "clone_src_fd arg = Some fd"
    and "ce_fget env fd = Some (Pool_File q fq)" "sbi_cache_mode (w_sbi w1)" "ino q w1 = Some si" "rs_range_staged (si_rs si)"
  shows "clone_ioctl env arg r fio w = Some (Err EBUSY, fio', Some (Pool_File q fq), w1)"
  using assms by (simp add: clone_ioctl_def usable_lower_def remap_source_file_def)

text \<open>The write sequence of the target is bumped whenever a clone succeeds.\<close>

lemma clone_bumps_write_seq:
  assumes "clone_change env r op w = Some (Ok n, w')" "\<And>x e x'. op x = (e, x') \<Longrightarrow> w_sbi x' = w_sbi x"
  shows "n = 0 \<and> (\<exists>w1. begin_data_change (ce_io env) (ce_wakes env) r w = Some (Done, w1)
    \<and> w_sbi w' = upd_inode r note_data_change (w_sbi w1))"
  using assms by (auto simp: clone_change_def data_change_def split: option.splits sum.splits prod.splits)

section \<open>Truncating a staged file\<close>

text \<open>The file cut or extended to a size, as \<open>truncate\<close> promises: what is kept is unchanged, the rest is zero.\<close>

definition af_truncate :: "int \<Rightarrow> afile \<Rightarrow> afile" where
  "af_truncate n f = \<lparr>af_size = n, af_byte = \<lambda>i. if i < n then af_byte f i else 0\<rparr>"

definition resize :: "nat \<Rightarrow> bytes \<Rightarrow> bytes" where
  "resize n f = take n f @ replicate (n - length f) 0"

lemma length_resize [simp]: "length (resize n f) = n"
  by (simp add: resize_def)

lemma file_byte_resize: "file_byte (resize n f) i = (if i < int n then file_byte f i else 0)"
  by (auto simp: file_byte_def resize_def nth_append)

text \<open>A lower filesystem that changes the size it is told to change, of that file and of no other.\<close>

definition notify_ok :: "(dentry \<Rightarrow> iattr \<Rightarrow> io_world \<Rightarrow> unit res \<times> io_world) \<Rightarrow> bool" where
  "notify_ok nc \<longleftrightarrow> (\<forall>d attr w e w'. nc d attr w = (e, w') \<longrightarrow> w_sbi w' = w_sbi w \<and> (\<forall>q. q \<noteq> d \<longrightarrow> w_files w' q = w_files w q)
     \<and> (e = Done \<longrightarrow> (\<forall>n. ia_size attr = Some n \<longrightarrow> file_of d w' = resize (nat n) (file_of d w))))"

lemma cached_source_active:
  assumes "pool_cfg sbi" "sbi_cache_mode sbi" "t = sbi_ntiers sbi - 1"
  shows "drain_tier_active sbi t"
proof -
  have n: "0 < ntiers sbi" "ntiers sbi \<le> 8" and b: "bit (st_drain_active_mask (sbi_staging sbi)) (ntiers sbi - 1)"
    using assms by (auto simp: pool_cfg_def pool_wf_def staging_cfg_def MAX_TIERS_def)
  then have t: "unat t = ntiers sbi - 1" using assms(3) by (simp add: unat_sub_if_size word_le_nat_alt word_size)
  then have "\<not> sbi_ntiers sbi \<le> t" using n by (simp add: word_le_nat_alt)
  moreover have "st_drain_active_mask (sbi_staging sbi) AND BIT (unat t) \<noteq> 0" using b t n by (simp add: BIT_and_eq_0)
  ultimately show ?thesis by (simp add: drain_tier_active_def)
qed

text \<open>The gate leaves a file in a cache with nothing staged and unchanged to the reader.\<close>

lemma begin_data_change_drains:
  assumes "ino r w = Some si" "staged_ok si w" "sbi_cache_mode (w_sbi w)" "si_movement_state si \<noteq> MS_CUTOVER_IN_PROGRESS"
    and act: "rs_range_staged (si_rs si) \<longrightarrow> drain_tier_active (w_sbi w) (rs_source_tier (si_rs si))"
    and k: "kread_ok (io_kread env)" "kwrite_ok (io_kwrite env)" "kwrite_clean (io_kwrite env)"
    and b: "begin_data_change env wakes r w = Some (Done, w1)"
  shows "\<exists>rs. ino r w1 = Some (si\<lparr>si_rs := rs\<rparr>) \<and> \<not> rs_range_staged rs \<and> rs_ranges rs = []
    \<and> (\<forall>i. byte_of (si_lower_path si) w1 i = af_byte (view si w) i) \<and> sbi_cache_mode (w_sbi w1)"
proof (cases "rs_range_staged (si_rs si)")
  case False
  then have "w1 = w" "rs_ranges (si_rs si) = []"
    using b assms(1-4) by (auto simp: begin_data_change_def parked_def staged_ok_def split: if_splits)
  then show ?thesis using assms(1,3) False by (auto intro!: exI [of _ "si_rs si"] simp: view_def)
next
  case True
  then have d: "drain_one_range env r w = (Done, w1)"
    using b assms(1,3,4) by (auto simp: begin_data_change_def parked_def drain_inode_def)
  have wf: "ranges_wf (rs_ranges (si_rs si))" using assms(2) by (simp add: staged_ok_def)
  have i: "ino r w1 = Some (upd_rs rs_drained si)"
    using drain_one_range_effect [OF assms(1) wf k d] True act assms(1) by (auto simp: drain_cleared_def)
  have "sbi_cache_mode (w_sbi w1)"
    using drain_one_range_cfg [of env r w] assms(3) by (simp add: d cfg_of_def)
  then show ?thesis
    using drain_view [OF assms(1,2) k d] i True act by (auto intro!: exI [of _ "rs_drained (si_rs si)"] simp: upd_rs_def rs_drained_def)
qed

text \<open>
  C39. A truncation of a file in a cache is a truncation of what the reader sees. Let the file have
  writes that are staged on the fast tier and not yet on the base. If changing the size succeeds, the
  reader sees the old contents up to the new size and zeros after it, nothing is staged any more, the
  size that is reported is the new one, and the write sequence has been bumped, so that a copy taken
  before the change is not cut over.
\<close>

theorem setattr_truncates_view:
  assumes pool: "pool_cfg (n_sbi nw)" "sbi_cache_mode (n_sbi nw)"
    and inode: "ns_ino r nw = Some si" "staged_ok si (iw\<lparr>w_sbi := n_sbi nw\<rparr>)" "alias_lower d si = Some (p_dentry lp)" "si_lower_path si = Some lp"
      "si_movement_state si \<noteq> MS_CUTOVER_IN_PROGRESS" "rs_range_staged (si_rs si) \<longrightarrow> rs_source_tier (si_rs si) = sbi_ntiers (n_sbi nw) - 1"
    and env: "kread_ok (io_kread (sa_io env))" "kwrite_ok (io_kwrite (sa_io env))" "kwrite_clean (io_kwrite (sa_io env))" "notify_ok (sa_notify env)"
    and change: "setattr env r d attr nw iw = Some (Done, nw', iw')" "ia_size attr = Some n" "0 \<le> n"
  shows "\<exists>si'. ns_ino r nw' = Some si' \<and> w_sbi iw' = n_sbi nw' \<and> view si' iw' = af_truncate n (view si iw)
    \<and> \<not> rs_range_staged (si_rs si') \<and> si_write_seq si' = si_write_seq si + 1
    \<and> (\<forall>vg dev st. vg lp = Ok st \<and> ks_size st = int (length (file_of (p_dentry lp) iw')) \<and> metadata_tier_active (n_sbi nw') (si_current_tier si')
         \<longrightarrow> (\<exists>st'. getattr vg dev si' (n_sbi nw') = (Ok st', n_sbi nw') \<and> ks_size st' = n \<and> ks_ino st' = si_ino si'))"
proof -
  let ?w = "iw\<lparr>w_sbi := n_sbi nw\<rparr>"
  have act: "rs_range_staged (si_rs si) \<longrightarrow> drain_tier_active (w_sbi ?w) (rs_source_tier (si_rs si))"
    using cached_source_active [OF pool] inode(6) by simp
  have si: "ino r ?w = Some si" "sbi_cache_mode (w_sbi ?w)" using inode(1) pool(2) by simp_all
  obtain iw1 where b: "begin_data_change (sa_io env) (sa_wakes env) r ?w = Some (Done, iw1)"
    using change inode(1,3) by (auto simp: op_defs split: option.splits sum.splits prod.splits)
  from begin_data_change_drains [OF si(1) inode(2) si(2) inode(5) act env(1-3) b] obtain rs where
      rs: "ino r iw1 = Some (si\<lparr>si_rs := rs\<rparr>)" "\<not> rs_range_staged rs" "rs_ranges rs = []"
        "\<forall>i. byte_of (si_lower_path si) iw1 i = af_byte (view si ?w) i" "sbi_cache_mode (w_sbi iw1)"
    by blast
  have "setattr_lower env r (p_dentry lp) attr (nw\<lparr>n_sbi := w_sbi iw1\<rparr>) iw1 = (Done, nw', iw')"
    using change(1) inode(1,3) b rs(1,5)
    by (simp add: op_defs stage_truncate_to_fast_def split: sum.splits)
  then obtain iw2 where n: "sa_notify env (p_dentry lp) attr iw1 = (Done, iw2)"
    and w': "iw' = upd_sbi (upd_inode r note_data_change \<circ> upd_inode r (copy_attrs (lower_attrs (ig_at (sa_ns env) (nw\<lparr>n_sbi := w_sbi iw1\<rparr>)) iw2) (p_dentry lp))) iw2"
      "nw' = nw\<lparr>n_sbi := w_sbi iw'\<rparr>"
    using change(2) by (auto simp: setattr_lower_def op_defs split: prod.splits sum.splits)
  have f: "w_sbi iw2 = w_sbi iw1" "file_of (p_dentry lp) iw2 = resize (nat n) (file_of (p_dentry lp) iw1)"
    using env(4) n change(2) unfolding notify_ok_def by blast+
  define ig where "ig = lower_attrs (ig_at (sa_ns env) (nw\<lparr>n_sbi := w_sbi iw1\<rparr>)) iw2"
  define si' where "si' = note_data_change (copy_attrs ig (p_dentry lp) (si\<lparr>si_rs := rs\<rparr>))"
  have i: "ns_ino r nw' = Some si'" "w_sbi iw' = n_sbi nw'" "w_files iw' = w_files iw2" "sbi_cache_mode (n_sbi nw')"
    using rs(1,5) f(1) by (simp_all add: w' si'_def ig_def upd_inode_def)
  have size: "si_size si' = n" using f(2) change(3) by (simp add: si'_def note_data_change_def copy_attrs_def ig_def lower_attrs_def)
  have s: "si_rs si' = rs" "si_lower_path si' = Some lp" "si_write_seq si' = si_write_seq si + 1"
    using inode(4) by (simp_all add: si'_def note_data_change_def copy_attrs_def)
  have fo: "file_of d iw' = file_of d iw2" for d using i(3) by (simp add: file_of_def)
  have len: "length (file_of (p_dentry lp) iw') = nat n" using fo f(2) by simp
  have old: "view si ?w = view si iw" by (simp add: view_def byte_of_def file_of_def fun_eq_iff split: option.split)
  have "byte_of (Some lp) iw' j = (if j < n then af_byte (view si iw) j else 0)" for j
    using rs(4) old inode(4) change(3) by (simp add: byte_of_def fo f(2) file_byte_resize)
  then have "view si' iw' = af_truncate n (view si iw)" using s size rs(3) by (simp add: view_def af_truncate_def fun_eq_iff)
  then show ?thesis using i s rs(2) len change(3) by (auto simp: getattr_def)
qed

text \<open>
  Outside a cache nothing is drained first, and the staged ranges are not cut: the bytes staged after
  the new end of the file are still there, and a file that is extended again has its old bytes back.
\<close>

lemma tier_truncate_keeps_staged_bytes:
  assumes mode: "\<not> sbi_cache_mode (n_sbi nw)"
    and inode: "ns_ino r nw = Some si" "alias_lower d si = Some (p_dentry lp)" "si_movement_state si \<noteq> MS_CUTOVER_IN_PROGRESS"
      "rs_path (si_rs si) = Some sp" "p_dentry sp \<noteq> p_dentry lp"
    and nc: "notify_ok (sa_notify env)"
    and change: "setattr env r d attr nw iw = Some (Done, nw', iw')" "ia_size attr = Some n" "0 < n"
  shows "\<exists>si'. ns_ino r nw' = Some si' \<and> si_size si' = n \<and> si_rs si' = si_rs si \<and> sbi_cache_mode (n_sbi nw') = sbi_cache_mode (n_sbi nw)
    \<and> (\<forall>i. range_covers (rs_ranges (si_rs si)) i \<longrightarrow> af_byte (view si' iw') i = af_byte (view si iw) i)"
proof -
  let ?w = "iw\<lparr>w_sbi := n_sbi nw\<rparr>"
  have b: "begin_data_change (sa_io env) (sa_wakes env) r ?w = Some (Done, ?w)"
    using mode inode(1,3) by (simp add: begin_data_change_def parked_def)
  have "\<not> should_stage_truncate (sa_ns env) True n si (n_sbi nw)" using change(3) by (simp add: should_stage_truncate_def)
  then have "stage_truncate_to_fast (sa_ns env) True n r d (sa_rel env) (sa_parent_rel env) (sa_name env) nw = (Err EOPNOTSUPP, nw)"
    using inode(1) by (simp add: stage_truncate_to_fast_def)
  then have "setattr_lower env r (p_dentry lp) attr nw ?w = (Done, nw', iw')"
    using change(1,2) inode(1,2) b by (simp add: op_defs split: sum.splits)
  then obtain iw2 where n: "sa_notify env (p_dentry lp) attr ?w = (Done, iw2)"
    and w': "iw' = upd_sbi (upd_inode r note_data_change \<circ> upd_inode r (copy_attrs (lower_attrs (ig_at (sa_ns env) nw) iw2) (p_dentry lp))) iw2"
      "nw' = nw\<lparr>n_sbi := w_sbi iw'\<rparr>"
    using change(2) by (auto simp: setattr_lower_def op_defs split: prod.splits sum.splits)
  have f: "w_sbi iw2 = w_sbi ?w" "w_files iw2 (p_dentry sp) = w_files ?w (p_dentry sp)"
      "file_of (p_dentry lp) iw2 = resize (nat n) (file_of (p_dentry lp) ?w)"
    using nc n change(2) inode(5) unfolding notify_ok_def by blast+
  then show ?thesis
    using inode(1,4) change(3)
    by (simp add: w' upd_inode_def note_data_change_def copy_attrs_def lower_attrs_def view_def byte_of_def file_of_def)
qed

text \<open>A reader that asks for the size of a file with staged writes outside a cache is told the size of the lower file.\<close>

lemma tier_getattr_reports_lower_size:
  assumes "\<not> sbi_cache_mode sbi" "metadata_tier_active sbi (si_current_tier si)" "si_lower_path si = Some lp" "vg lp = Ok st"
  shows "\<exists>st'. getattr vg dev si sbi = (Ok st', sbi) \<and> ks_size st' = ks_size st"
  using assms by (simp add: getattr_def)

section \<open>A name that was not found is looked up again\<close>

lemma negative_never_trusted: "d_revalidate lop d None parent rcu sbi = Ok False"
  by (simp add: d_revalidate_def)

text \<open>A walk that must not block never reaches the revalidation of a lower filesystem.\<close>

lemma rcu_walk_ignores_lower_op:
  assumes "\<And>l. (lop l = None) = (lop' l = None)"
  shows "d_revalidate lop d si parent True sbi = d_revalidate lop' d si parent' True sbi"
  using assms by (auto simp: d_revalidate_def split: option.split)

section \<open>Instances\<close>

definition ex_setattr_env :: setattr_env where
  "ex_setattr_env = \<lparr>sa_ns = ex_ns_env, sa_io = ex_io_env, sa_wakes = [], sa_prepare = Done,
     sa_notify = (\<lambda>d a w. (Done, case ia_size a of None \<Rightarrow> w | Some n \<Rightarrow> set_file d (resize (nat n) (file_of d w)) w)),
     sa_rel = Some ''f'', sa_parent_rel = Some [], sa_name = ''f''\<rparr>"

definition ex_cache_ns :: ns_world where
  "ex_cache_ns = ex_ns_world\<lparr>n_sbi := w_sbi ex_cache_world\<rparr>"

lemma ex_notify_ok: "notify_ok (sa_notify ex_setattr_env)"
  by (auto simp: notify_ok_def ex_setattr_env_def set_file_def file_of_def split: option.split)

lemma ex_cache_pool: "pool_cfg (n_sbi ex_cache_ns)" "sbi_cache_mode (n_sbi ex_cache_ns)" "sbi_ntiers (n_sbi ex_cache_ns) = 2"
proof -
  have "valid_mask (w_sbi ex_cache_world) = 3"
    by (simp add: valid_mask_def ex_cache_world_def ex_staged_world_def upd_staging_def ex_pool_def BIT_def)
  then show "pool_cfg (n_sbi ex_cache_ns)"
    by (simp add: ex_cache_ns_def pool_cfg_def staging_cfg_def mask_ok_def pool_wf_def MAX_TIERS_def)
      (simp add: ex_cache_world_def ex_staged_world_def upd_staging_def ex_pool_def ex_staging_def)
qed (simp_all add: ex_cache_ns_def ex_cache_world_def ex_staged_world_def upd_staging_def ex_pool_def)

theorem setattr_truncates_view_witness:
  "\<exists>nw' iw' si'. setattr ex_setattr_env 77 5 \<lparr>ia_size = Some 2, ia_rest = 0\<rparr> ex_cache_ns ex_cache_world = Some (Done, nw', iw')
    \<and> ns_ino 77 nw' = Some si' \<and> af_size (view si' iw') = 2 \<and> af_byte (view si' iw') 1 = 8 \<and> af_byte (view si' iw') 2 = 0"
proof -
  let ?a = "\<lparr>ia_size = Some (2 :: int), ia_rest = 0\<rparr>"
  have w: "ex_cache_world\<lparr>w_sbi := n_sbi ex_cache_ns\<rparr> = ex_cache_world" by (simp add: ex_cache_ns_def)
  have si: "ns_ino 77 ex_cache_ns = Some ex_staged_inode" using ex_cache_world_inode(1) by (simp add: ex_cache_ns_def)
  have al: "alias_lower 5 ex_staged_inode = Some (p_dentry \<lparr>p_mnt = 1, p_dentry = 105\<rparr>)"
      "si_lower_path ex_staged_inode = Some \<lparr>p_mnt = 1, p_dentry = 105\<rparr>" "si_movement_state ex_staged_inode \<noteq> MS_CUTOVER_IN_PROGRESS"
      "rs_source_tier (si_rs ex_staged_inode) = 1" "rs_range_staged (si_rs ex_staged_inode)"
    by (simp_all add: ex_staged_inode_def upd_rs_def ex_inode_def alias_lower_def)
  obtain w1 where d: "drain_inode ex_io_env 77 ex_cache_world = (Done, w1)" using ex_drain by blast
  then have "begin_data_change ex_io_env [] 77 ex_cache_world = Some (Done, w1)"
    using ex_cache_world_inode(1) al(3,5) by (simp add: begin_data_change_def parked_def) (simp add: ex_cache_world_def)
  moreover have "sbi_cache_mode (w_sbi w1)"
    using drain_one_range_cfg [of ex_io_env 77 ex_cache_world] d ex_cache_pool(2) by (simp add: drain_inode_def cfg_of_def ex_cache_ns_def)
  ultimately have "\<exists>nw' iw'. setattr ex_setattr_env 77 5 ?a ex_cache_ns ex_cache_world = Some (Done, nw', iw')"
    using si al w by (auto simp: op_defs setattr_lower_def stage_truncate_to_fast_def ex_setattr_env_def split: option.split)
  then obtain nw' iw' where c: "setattr ex_setattr_env 77 5 ?a ex_cache_ns ex_cache_world = Some (Done, nw', iw')" by blast
  have k: "kread_ok (io_kread (sa_io ex_setattr_env))" "kwrite_ok (io_kwrite (sa_io ex_setattr_env))" "kwrite_clean (io_kwrite (sa_io ex_setattr_env))"
    using ex_io_ok by (simp_all add: ex_setattr_env_def)
  have "view ex_staged_inode ex_cache_world = \<lparr>af_size = 4, af_byte = af_byte (view ex_staged_inode ex_cache_world)\<rparr>"
      "af_byte (view ex_staged_inode ex_cache_world) 1 = 8"
    by (simp_all add: view_def byte_of_def ex_staged_inode_def upd_rs_def ex_inode_def ex_cache_world_def ex_staged_world_def file_of_def
        file_byte_def range_covers_def)
  moreover have src: "rs_range_staged (si_rs ex_staged_inode) \<longrightarrow> rs_source_tier (si_rs ex_staged_inode) = sbi_ntiers (n_sbi ex_cache_ns) - 1"
    using al(4) ex_cache_pool(3) by simp
  have ok: "staged_ok ex_staged_inode (ex_cache_world\<lparr>w_sbi := n_sbi ex_cache_ns\<rparr>)" using ex_cache_world_inode(2) w by simp
  obtain si' where "ns_ino 77 nw' = Some si'" "view si' iw' = af_truncate 2 (view ex_staged_inode ex_cache_world)"
    using setattr_truncates_view [OF ex_cache_pool(1,2) si ok al(1-3) src k ex_notify_ok c] by auto
  ultimately show ?thesis using c by (auto simp: af_truncate_def)
qed

end
