(* ===== verification/Spec2Isabelle.thy ===== *)
theory Spec2Isabelle
  imports Range_Replay Inode_Identity Movement_Protocol Heat Dir_Merge Namespace_Facts Export Client Samba Unmount Attrs
begin

text \<open>
  A verification development of smoothfs, a stacked filesystem for the Linux kernel. A pool presents
  one namespace over several tiers, which are directories of other filesystems ordered by speed. A
  file of the pool has one lower file that holds its contents. A program in user space moves files
  between tiers with commands on a control socket: it plans a move, copies the file, and asks the
  module to cut over to the copy while the file is in use. Writes to a slow tier may be staged on the
  fastest one, as byte ranges beside the file (range staging) or by giving the file a new lower file
  there (rehoming), and are drained later. In cache mode the last tier holds every file and the
  others are a cache of it.

  \<^bold>\<open>Parts and theories.\<close> Paths are below \<open>src/src/smoothfs\<close> unless they are given in full.

  \<^item> Theory \<open>Smoothfs_Prelude\<close>: machine words, error codes, little-endian stores and loads, and the
    interfaces that several components share, as locales: a fixed-size codec, a keyed table and a
    writeback queue. Each is interpreted by the components that provide it.
  \<^item> Theory \<open>Smoothfs_Types\<close>: the structures of \<open>smoothfs.h\<close> as records. \<open>sb_info\<close> is the pool,
    \<open>inode_info\<close> an inode of it, \<open>range_state\<close> its staged ranges; an inode is a number, and the table
    of inodes is in the pool. Results are a sum of an error code and a value.
  \<^item> Theory \<open>Kernel_Io\<close>: what is assumed of reads and writes of lower files, and the loops around them.
  \<^item> Theories \<open>Range_List\<close>, \<open>Staged_Io\<close>, \<open>Staged_View\<close>, \<open>File_Ops\<close> (\<open>file.c\<close>, \<open>super.c\<close>): the list of staged
    ranges, the staged write, the drain, and the file operations. The contents a reader sees are the
    \<open>view\<close>, a function of the lower file, the stage file and the ranges. Staged writes, drains, writes
    of every kind, reads and syncs are related to it.
  \<^item> Theories \<open>Range_Sidecar\<close>, \<open>Range_Replay\<close> (\<open>range_staging.c\<close>): the file that keeps the ranges over
    a crash, and its replay at mount.
  \<^item> Theories \<open>Lower_Maps\<close>, \<open>Inode_Identity\<close>, \<open>Lower_File\<close> (\<open>super.c\<close>, \<open>oid.c\<close>, \<open>lower.c\<close>): the tables of
    object ids, paths and lower inodes, the identity of an object, and the lower file of a descriptor.
  \<^item> Theories \<open>Movement\<close>, \<open>Movement_Protocol\<close>, \<open>Cutover_Lock\<close> (\<open>movement.c\<close>): the commands of a move, their
    state machine as a step relation, and the inode lock during a cutover as a relation on two threads.
  \<^item> Theories \<open>Placement_Log\<close>, \<open>Path_Index\<close> (\<open>placement.c\<close>): the log of placements, the index of
    paths, and the recovery from them after a crash.
  \<^item> Theories \<open>Create_Tier\<close>, \<open>Tier_Paths\<close>, \<open>Namespace\<close>, \<open>Namespace_Facts\<close>, \<open>Dir_Merge\<close>, \<open>Attrs\<close> (\<open>inode.c\<close>,
    \<open>dir.c\<close>, \<open>compat.h\<close>): the tier of a new file, paths on tiers and rehoming, the operations on names,
    the merged listing, and attributes, links, dentries and ioctls. The trees of the tiers are maps
    from a mount and a relative path to a lower dentry.
  \<^item> Theories \<open>Xattr\<close>, \<open>Export\<close>, \<open>Heat\<close> (\<open>xattr.c\<close>, \<open>acl.c\<close>, \<open>lock.c\<close>, \<open>export.c\<close>, \<open>heat.c\<close>): extended
    attributes with the pins they set, file handles, and the sampling of activity.
  \<^item> Theories \<open>Control\<close>, \<open>Client\<close> (\<open>netlink.c\<close>, \<open>src/client.go\<close>, \<open>src/events.go\<close>, \<open>src/uapi.go\<close>): the two
    ends of the control socket.
  \<^item> Theories \<open>Sysfs\<close>, \<open>Mount\<close>, \<open>Mount_Facts\<close>, \<open>Unmount\<close> (\<open>super.c\<close>, \<open>probe.c\<close>, \<open>module.c\<close>): the files of
    the administrator, and the life of a mount.
  \<^item> Theory \<open>Samba\<close> (\<open>samba-vfs/vfs_smoothfs.c\<close>): file identifiers and leases of an SMB server.

  \<^bold>\<open>How the code is rendered.\<close> An operation takes the state and returns the new one with a result; a
  handler is one definition with its guards, early returns and error exits, and its longer blocks are
  definitions of their own. Words have the width of the source, and wrap. Kernel functions that the
  module calls are fields of an environment record, so a statement holds for every failure they may
  report; what is assumed of them is a named predicate in the statement. What other tasks do while an
  operation sleeps or has dropped a lock is an argument as well. The list of wake-ups of the write gate
  is such an argument: an operation that is never woken has the result \<open>None\<close>.

  \<^bold>\<open>What is shown.\<close>

  \<^item> Moves: a cutover publishes only a complete, identified and synced copy and otherwise leaves the
    source in place; the state machine keeps its invariant; a cutover releases the writers it parked;
    a crash in the middle of a move leaves the object on its source or its complete destination.
  \<^item> Staged contents: every write is a write of the view, a drain changes nothing of it whatever fails,
    a read returns it, the read cache is transparent, a sync in cache mode puts it on the lower file, a
    truncation in cache mode truncates it, and the counters of the pool agree with the range lists.
  \<^item> Durable formats: sidecar, placement log, path index, file handles and events are read back as they
    were written; a sidecar is replaced atomically and a torn index is refused.
  \<^item> Names: a removed name is gone, a renamed file has exactly its new name, a listing has every name
    once, a new file goes to a tier that the policy allows, and an object keeps its identity.
  \<^item> Control and administration: a command changes only the pool it names, the requests of the client
    reach the commands they name, stores of the administrator keep the configuration valid, and pins
    refuse moves.
  \<^item> Mounts: a mount makes a well-formed pool or holds nothing, a sync is a barrier, an unmount drops
    exactly the references that pins hold.
  \<^item> Where the code falls short of its purpose, a lemma of the component shows the failing case. One is
    a deadlock: a change of attributes sleeps at the write gate with the inode lock that the cutover
    needs to end the sleep (\<open>Cutover_Lock\<close>).

  \<^bold>\<open>Loops and bounds.\<close> The drain loops of ranges and of rehomed files are partial functions, and both
  are proved to return. The walk of a tier (\<open>scan_tree\<close>) has the depth of the tree as fuel: a tree of a
  lower filesystem has a finite depth, and every result is for a bound of the caller's choice. All other
  loops are structural recursions or have a termination proof.

  \<^bold>\<open>Not modelled.\<close>

  \<^item> The control plane in \<open>src/controlplane\<close>, which plans and copies: its state is an SQL database and
    its heat is in floating point. The commands it uses are modelled for every argument.
  \<^item> \<open>src/pools.go\<close>, which writes mount units and runs \<open>systemctl\<close>; tests, build files and packaging.
  \<^item> The shims of \<open>compat.h\<close> that pass their arguments to one kernel function, or that repeat its
    sequence for older kernels; hash functions of the tables, whose tables are maps; allocation and
    freeing of memory, except where a failed allocation is a branch.
  \<^item> Locks, beyond what \<open>Cutover_Lock\<close> and the arguments for other tasks show: an operation is one step,
    or the sequence of steps between which the code lets others run.
\<close>

end
